(* ===== verification/Mail_Prelude.thy ===== *)
theory Mail_Prelude
  imports Main
begin

text \<open>
  Prelude of the mail-dock development: the error values the code raises, the environment the
  code reads (clock, calendar, SHA-256), a state-and-exception program type with its Hoare rules,
  and generic facts on lists and association lists that the component theories share.
\<close>

section \<open>Collections of facts\<close>

named_theorems prog_simps \<open>evaluation of programs on a given state\<close>
named_theorems hoare_rules \<open>Hoare rules of the program combinators and operations\<close>

section \<open>Errors\<close>

text \<open>
  The exception classes of \<^verbatim>\<open>domain/errors.py\<close>, together with the built-in exceptions the
  modelled code uses. An exception carries its message where
  the code inspects or stores it.
\<close>

datatype error =
    SearchQueryError string
  | ConfigError string
  | ConfigVersionTooNewError string
  | StorageError string
  | StorageUnsupportedError string string
  | StorageDetachedError
  | StorageForeignRootError string
  | StorageRootMissingError string
  | StorageLockedError string
  | InsufficientSpaceError string
  | ManifestCorruptError string
  | DatabaseError string
  | MigrationError string
  | SchemaVersionTooNewError string
  | FetchError string
  | AuthenticationError string
  | TransientError string
  | RateLimitedError string
  | PermanentError string
  | UidValidityChanged
  | OversizeError
  | ArchiveImportError string
  | ConverterNotFound string
  | ConverterFailed string
  | UnreadableArchive string
  | SourceChangedError string
  | CredentialStoreError string
  | OperationCancelledError
  | ValueError string
  | TypeError string
  | KeyError string
  | FileNotFoundError

text \<open>\<open>isinstance\<close> on the hierarchy: \<open>RateLimitedError\<close> is a \<open>TransientError\<close>, which is a
  \<open>FetchError\<close>; the manifest and detach errors are \<open>StorageError\<close>s.\<close>

fun is_transient_error :: "error \<Rightarrow> bool" where
  "is_transient_error (TransientError _) = True"
| "is_transient_error (RateLimitedError _) = True"
| "is_transient_error _ = False"

fun is_fetch_error :: "error \<Rightarrow> bool" where
  "is_fetch_error (FetchError _) = True"
| "is_fetch_error (AuthenticationError _) = True"
| "is_fetch_error (TransientError _) = True"
| "is_fetch_error (RateLimitedError _) = True"
| "is_fetch_error (PermanentError _) = True"
| "is_fetch_error UidValidityChanged = True"
| "is_fetch_error OversizeError = True"
| "is_fetch_error _ = False"

fun is_storage_error :: "error \<Rightarrow> bool" where
  "is_storage_error (StorageError _) = True"
| "is_storage_error (StorageUnsupportedError _ _) = True"
| "is_storage_error StorageDetachedError = True"
| "is_storage_error (StorageForeignRootError _) = True"
| "is_storage_error (StorageRootMissingError _) = True"
| "is_storage_error (StorageLockedError _) = True"
| "is_storage_error (InsufficientSpaceError _) = True"
| "is_storage_error (ManifestCorruptError _) = True"
| "is_storage_error _ = False"

text \<open>\<open>str(error)\<close> for the errors whose text the code stores.\<close>

fun error_text :: "error \<Rightarrow> string" where
  "error_text (SearchQueryError m) = m"
| "error_text (StorageError m) = m"
| "error_text (ConfigError m) = m"
| "error_text (ConfigVersionTooNewError m) = m"
| "error_text (StorageUnsupportedError u l) = ''Storage root '' @ u @ '' is unsupported ('' @ l @ '')''"
| "error_text StorageDetachedError = ''storage detached''"
| "error_text (StorageForeignRootError m) = m"
| "error_text (StorageRootMissingError m) = m"
| "error_text (StorageLockedError m) = m"
| "error_text (InsufficientSpaceError m) = m"
| "error_text (MigrationError m) = m"
| "error_text (SchemaVersionTooNewError m) = m"
| "error_text (ArchiveImportError m) = m"
| "error_text (ConverterNotFound m) = m"
| "error_text (ConverterFailed m) = m"
| "error_text (UnreadableArchive m) = m"
| "error_text (SourceChangedError m) = m"
| "error_text (CredentialStoreError m) = m"
| "error_text (ManifestCorruptError m) = m"
| "error_text (DatabaseError m) = m"
| "error_text (FetchError m) = m"
| "error_text (AuthenticationError m) = m"
| "error_text (TransientError m) = m"
| "error_text (RateLimitedError m) = m"
| "error_text (PermanentError m) = m"
| "error_text UidValidityChanged = ''UIDVALIDITY changed''"
| "error_text OversizeError = ''message too large''"
| "error_text OperationCancelledError = ''operation cancelled''"
| "error_text (ValueError m) = m"
| "error_text (TypeError m) = m"
| "error_text (KeyError m) = m"
| "error_text FileNotFoundError = ''file not found''"

section \<open>Environment\<close>

text \<open>
  \<open>datetime.fromisoformat\<close> on a text: not a timestamp, one without time zone, or one with a
  time zone, in which case the code uses its UTC year and month (\<^verbatim>\<open>%Y%m\<close>).
\<close>

datatype iso_result = IsoInvalid | IsoNaive | IsoAware string

text \<open>
  What the modelled code reads from outside: the clock as an ISO text, the calendar, and the
  hexadecimal SHA-256 digest of some bytes.
\<close>

record env =
  now :: string
  iso :: "string \<Rightarrow> iso_result"
  sha256 :: "string \<Rightarrow> string"

section \<open>Programs\<close>

text \<open>
  A program reads and changes a state and returns a value or raises an error. The state reached
  when an error is raised is kept: what was already written stays written.
\<close>

type_synonym ('s, 'a) prog = "'s \<Rightarrow> (error + 'a) \<times> 's"

definition ret :: "'a \<Rightarrow> ('s, 'a) prog" where
  "ret x = (\<lambda>s. (Inr x, s))"

definition raise :: "error \<Rightarrow> ('s, 'a) prog" where
  "raise e = (\<lambda>s. (Inl e, s))"

definition bindp :: "('s, 'a) prog \<Rightarrow> ('a \<Rightarrow> ('s, 'b) prog) \<Rightarrow> ('s, 'b) prog" where
  "bindp m f = (\<lambda>s. case m s of (Inl e, t) \<Rightarrow> (Inl e, t) | (Inr x, t) \<Rightarrow> f x t)"

definition thenp :: "('s, 'a) prog \<Rightarrow> ('s, 'b) prog \<Rightarrow> ('s, 'b) prog" where
  "thenp m k = bindp m (\<lambda>_. k)"

definition gets :: "('s \<Rightarrow> 'a) \<Rightarrow> ('s, 'a) prog" where
  "gets f = (\<lambda>s. (Inr (f s), s))"

definition modify :: "('s \<Rightarrow> 's) \<Rightarrow> ('s, unit) prog" where
  "modify f = (\<lambda>s. (Inr (), f s))"

definition whenp :: "bool \<Rightarrow> ('s, unit) prog \<Rightarrow> ('s, unit) prog" where
  "whenp c m = (if c then m else ret ())"

definition catchp :: "('s, 'a) prog \<Rightarrow> (error \<Rightarrow> ('s, 'a) prog) \<Rightarrow> ('s, 'a) prog" where
  "catchp m h = (\<lambda>s. case m s of (Inl e, t) \<Rightarrow> h e t | (Inr x, t) \<Rightarrow> (Inr x, t))"

definition lift_sum :: "error + 'a \<Rightarrow> ('s, 'a) prog" where
  "lift_sum r = (\<lambda>s. (r, s))"

text \<open>A \<open>for\<close> loop that threads an accumulator and stops at the first error.\<close>

primrec foldp :: "('b \<Rightarrow> 'a \<Rightarrow> ('s, 'b) prog) \<Rightarrow> 'b \<Rightarrow> 'a list \<Rightarrow> ('s, 'b) prog" where
  "foldp f b [] = ret b"
| "foldp f b (x # xs) = bindp (f b x) (\<lambda>b'. foldp f b' xs)"

definition forp :: "('a \<Rightarrow> ('s, unit) prog) \<Rightarrow> 'a list \<Rightarrow> ('s, unit) prog" where
  "forp f xs = foldp (\<lambda>_. f) () xs"

lemma run_ret [simp, prog_simps]: "ret x s = (Inr x, s)"
  by (simp add: ret_def)

lemma run_raise [simp, prog_simps]: "raise e s = (Inl e, s)"
  by (simp add: raise_def)

lemma run_gets [simp, prog_simps]: "gets f s = (Inr (f s), s)"
  by (simp add: gets_def)

lemma run_modify [simp, prog_simps]: "modify f s = (Inr (), f s)"
  by (simp add: modify_def)

lemma run_lift_sum [simp, prog_simps]: "lift_sum r s = (r, s)"
  by (simp add: lift_sum_def)

lemma run_when [prog_simps]: "whenp c m s = (if c then m s else (Inr (), s))"
  by (simp add: whenp_def)

lemma run_bind_ok [simp]: "m s = (Inr x, t) \<Longrightarrow> bindp m f s = f x t"
  by (simp add: bindp_def)

lemma run_bind_err [simp]: "m s = (Inl e, t) \<Longrightarrow> bindp m f s = (Inl e, t)"
  by (simp add: bindp_def)

lemma run_then_ok [simp]: "m s = (Inr x, t) \<Longrightarrow> thenp m k s = k t"
  by (simp add: thenp_def)

lemma run_then_err [simp]: "m s = (Inl e, t) \<Longrightarrow> thenp m k s = (Inl e, t)"
  by (simp add: thenp_def)

lemma run_bind: "bindp m f s = (case m s of (Inl e, t) \<Rightarrow> (Inl e, t) | (Inr x, t) \<Rightarrow> f x t)"
  by (simp add: bindp_def)

lemma run_then: "thenp m k s = (case m s of (Inl e, t) \<Rightarrow> (Inl e, t) | (Inr x, t) \<Rightarrow> k t)"
  by (simp add: thenp_def bindp_def)

lemma run_catch: "catchp m h s = (case m s of (Inl e, t) \<Rightarrow> h e t | (Inr x, t) \<Rightarrow> (Inr x, t))"
  by (simp add: catchp_def)

lemma bind_okE:
  assumes "bindp m f s = (Inr y, t)"
  obtains x s1 where "m s = (Inr x, s1)" "f x s1 = (Inr y, t)"
  using assms by (auto simp: run_bind split: prod.splits sum.splits)

lemma then_okE:
  assumes "thenp m k s = (Inr y, t)"
  obtains x s1 where "m s = (Inr x, s1)" "k s1 = (Inr y, t)"
  using assms by (auto simp: run_then split: prod.splits sum.splits)

lemma bindp_ret_left [simp]: "bindp (ret x) f = f x"
  by (simp add: fun_eq_iff)

lemma bindp_assoc: "bindp (bindp m f) g = bindp m (\<lambda>x. bindp (f x) g)"
  by (simp add: fun_eq_iff bindp_def split: prod.split sum.split)

lemma foldp_append: "foldp f b (xs @ ys) = bindp (foldp f b xs) (\<lambda>b'. foldp f b' ys)"
  by (induction xs arbitrary: b) (simp_all add: bindp_assoc)

section \<open>Hoare triples\<close>

text \<open>
  \<open>hoare P m Q E\<close>: from a state with \<open>P\<close>, a normal return satisfies \<open>Q\<close> and an error
  satisfies \<open>E\<close>. Programs are total functions, so this is total correctness.
\<close>

definition hoare ::
  "('s \<Rightarrow> bool) \<Rightarrow> ('s, 'a) prog \<Rightarrow> ('a \<Rightarrow> 's \<Rightarrow> bool) \<Rightarrow> (error \<Rightarrow> 's \<Rightarrow> bool) \<Rightarrow> bool" where
  "hoare P m Q E \<longleftrightarrow>
     (\<forall>s. P s \<longrightarrow> (case m s of (Inl e, t) \<Rightarrow> E e t | (Inr x, t) \<Rightarrow> Q x t))"

text \<open>A program keeps a predicate on every outcome.\<close>

definition keeps :: "('s \<Rightarrow> bool) \<Rightarrow> ('s, 'a) prog \<Rightarrow> bool" where
  "keeps I m \<longleftrightarrow> (\<forall>s. I s \<longrightarrow> I (snd (m s)))"

lemma hoareI:
  assumes "\<And>s e t. P s \<Longrightarrow> m s = (Inl e, t) \<Longrightarrow> E e t"
    and "\<And>s x t. P s \<Longrightarrow> m s = (Inr x, t) \<Longrightarrow> Q x t"
  shows "hoare P m Q E"
  using assms by (auto simp: hoare_def split: prod.split sum.split)

lemma hoareD_ok: "hoare P m Q E \<Longrightarrow> P s \<Longrightarrow> m s = (Inr x, t) \<Longrightarrow> Q x t"
  by (auto simp: hoare_def split: prod.splits sum.splits)

lemma hoareD_err: "hoare P m Q E \<Longrightarrow> P s \<Longrightarrow> m s = (Inl e, t) \<Longrightarrow> E e t"
  by (auto simp: hoare_def split: prod.splits sum.splits)

lemma hoare_ret [hoare_rules]: "(\<And>s. P s \<Longrightarrow> Q x s) \<Longrightarrow> hoare P (ret x) Q E"
  by (simp add: hoare_def)

lemma hoare_raise [hoare_rules]: "(\<And>s. P s \<Longrightarrow> E e s) \<Longrightarrow> hoare P (raise e) Q E"
  by (simp add: hoare_def)

lemma hoare_bind:
  "hoare P m R E \<Longrightarrow> (\<And>x. hoare (R x) (f x) Q E) \<Longrightarrow> hoare P (bindp m f) Q E"
  by (fastforce simp: hoare_def bindp_def split: prod.splits sum.splits)

lemma hoare_then:
  "hoare P m (\<lambda>_. R) E \<Longrightarrow> hoare R k Q E \<Longrightarrow> hoare P (thenp m k) Q E"
  unfolding thenp_def by (rule hoare_bind)

lemma hoare_conseq:
  "hoare P' m Q' E' \<Longrightarrow> (\<And>s. P s \<Longrightarrow> P' s) \<Longrightarrow> (\<And>x s. Q' x s \<Longrightarrow> Q x s) \<Longrightarrow>
   (\<And>e s. E' e s \<Longrightarrow> E e s) \<Longrightarrow> hoare P m Q E"
  by (fastforce simp: hoare_def split: prod.splits sum.splits)

lemma hoare_top: "hoare P m (\<lambda>_ _. True) (\<lambda>_ _. True)"
  by (simp add: hoare_def split: prod.split sum.split)

text \<open>A guard that raises: after it the condition is known to fail.\<close>

lemma hoare_guard:
  "hoare P m Q (\<lambda>_ _. True) \<Longrightarrow> hoare P (if b then raise e else m) (\<lambda>x s. \<not> b \<and> Q x s) (\<lambda>_ _. True)"
  by (cases b) (simp_all add: hoare_def)

lemma hoare_guard_weak:
  "hoare P m Q (\<lambda>_ _. True) \<Longrightarrow> hoare P (if b then raise e else m) Q (\<lambda>_ _. True)"
  by (cases b) (simp_all add: hoare_def)

lemma hoare_foldp:
  assumes "\<And>b x. x \<in> set xs \<Longrightarrow> hoare (I b) (f b x) I E"
  shows "hoare (I b) (foldp f b xs) I E"
  using assms
proof (induction xs arbitrary: b)
  case Nil
  show ?case by (simp add: hoare_def)
next
  case (Cons x xs)
  have "hoare (I b) (f b x) I E"
    by (rule Cons.prems) simp
  moreover have "hoare (I b') (foldp f b' xs) I E" for b'
    by (rule Cons.IH) (simp add: Cons.prems)
  ultimately show ?case
    by (auto intro: hoare_bind)
qed

subsection \<open>Programs that keep a predicate\<close>

lemma keeps_ret [intro, simp]: "keeps I (ret x)"
  and keeps_raise [intro, simp]: "keeps I (raise e)"
  and keeps_gets [intro, simp]: "keeps I (gets f)"
  and keeps_lift_sum [intro, simp]: "keeps I (lift_sum r)"
  by (simp_all add: keeps_def)

lemma keepsI: "(\<And>s. I s \<Longrightarrow> I (snd (m s))) \<Longrightarrow> keeps I m"
  by (simp add: keeps_def)

lemma keeps_modify: "(\<And>s. I s \<Longrightarrow> I (f s)) \<Longrightarrow> keeps I (modify f)"
  by (simp add: keeps_def)

lemma keeps_bind [intro]: "keeps I m \<Longrightarrow> (\<And>x. keeps I (f x)) \<Longrightarrow> keeps I (bindp m f)"
  by (fastforce simp: keeps_def bindp_def split: prod.splits sum.splits)

lemma keeps_then [intro]: "keeps I m \<Longrightarrow> keeps I k \<Longrightarrow> keeps I (thenp m k)"
  by (auto simp: thenp_def)

lemma keeps_catch [intro]: "keeps I m \<Longrightarrow> (\<And>e. keeps I (h e)) \<Longrightarrow> keeps I (catchp m h)"
  by (fastforce simp: keeps_def catchp_def split: prod.splits sum.splits)

lemma keeps_when [intro]: "(c \<Longrightarrow> keeps I m) \<Longrightarrow> keeps I (whenp c m)"
  by (simp add: whenp_def)

lemma keeps_if: "keeps I m \<Longrightarrow> keeps I k \<Longrightarrow> keeps I (if c then m else k)"
  by simp

lemma keeps_option:
  "(x = None \<Longrightarrow> keeps I m) \<Longrightarrow> (\<And>y. x = Some y \<Longrightarrow> keeps I (k y)) \<Longrightarrow>
   keeps I (case x of None \<Rightarrow> m | Some y \<Rightarrow> k y)"
  by (cases x) auto

lemma keeps_bind_post:
  "keeps I m \<Longrightarrow> (\<And>s x t. m s = (Inr x, t) \<Longrightarrow> keeps I (f x)) \<Longrightarrow> keeps I (bindp m f)"
  by (fastforce simp: keeps_def bindp_def split: prod.splits sum.splits)

lemma keeps_gets_bind: "(\<And>s. I s \<Longrightarrow> keeps I (k (f s))) \<Longrightarrow> keeps I (bindp (gets f) k)"
  by (simp add: keeps_def run_bind)

lemma keeps_foldp [intro]:
  "(\<And>b x. x \<in> set xs \<Longrightarrow> keeps I (f b x)) \<Longrightarrow> keeps I (foldp f b xs)"
  by (induction xs arbitrary: b) auto

lemma keeps_forp [intro]: "(\<And>x. x \<in> set xs \<Longrightarrow> keeps I (f x)) \<Longrightarrow> keeps I (forp f xs)"
  by (auto simp: forp_def)

text \<open>A loop that returns normally has run its body on every element: what the body establishes for
  one element holds at the end, when the bodies of all elements keep it.\<close>

lemma foldp_establishes:
  assumes "foldp f b xs s = (Inr c, t)" and "x \<in> set xs" and "J s"
    and "\<And>b y. y \<in> set xs \<Longrightarrow> keeps J (f b y)" and "\<And>b y. y \<in> set xs \<Longrightarrow> keeps P (f b y)"
    and "\<And>b v s t. J s \<Longrightarrow> f b x s = (Inr v, t) \<Longrightarrow> P t"
  shows "P t"
  using assms(1-5)
proof (induction xs arbitrary: b s)
  case (Cons y ys)
  from Cons.prems(1) obtain v s1 where y: "f b y s = (Inr v, s1)" and ys: "foldp f v ys s1 = (Inr c, t)"
    by (auto simp: run_bind split: prod.splits sum.splits)
  show ?case
  proof (cases "x \<in> set ys")
    case True
    have "J s1" using Cons.prems(3,4) y by (metis keeps_def list.set_intros(1) snd_conv)
    with True ys show ?thesis by (rule_tac Cons.IH) (use Cons.prems(4,5) in auto)
  next
    case False
    with Cons.prems(2,3) y have "P s1" using assms(6) by auto
    moreover have "keeps P (foldp f v ys)" using Cons.prems(5) by (intro keeps_foldp) auto
    ultimately show ?thesis using ys by (metis keeps_def snd_conv)
  qed
qed simp

lemma forp_establishes:
  assumes "forp f xs s = (Inr u, t)" and "x \<in> set xs" and "J s"
    and "\<And>y. y \<in> set xs \<Longrightarrow> keeps J (f y)" and "\<And>y. y \<in> set xs \<Longrightarrow> keeps P (f y)"
    and "\<And>v s t. J s \<Longrightarrow> f x s = (Inr v, t) \<Longrightarrow> P t"
  shows "P t"
  using assms unfolding forp_def by (rule foldp_establishes)

lemma keepsD: "keeps I m \<Longrightarrow> I s \<Longrightarrow> m s = (r, t) \<Longrightarrow> I t"
  by (metis keeps_def snd_conv)

lemma snd_thenp_keeps:
  "keeps I k \<Longrightarrow> I (snd (m w)) \<Longrightarrow> I (snd (thenp m k w))"
  by (auto simp: run_then keeps_def split: prod.splits sum.splits)

lemma guard_foldp:
  assumes "\<And>b x w. x \<in> set xs \<Longrightarrow> I w \<Longrightarrow> I (snd (f b x w))"
  shows "I w \<Longrightarrow> I (snd (foldp f b xs w))"
  using keeps_foldp [of xs I f b] assms by (simp add: keeps_def)

lemma keeps_conj: "keeps I m \<Longrightarrow> keeps J m \<Longrightarrow> keeps (\<lambda>s. I s \<and> J s) m"
  by (simp add: keeps_def)

section \<open>Options\<close>

text \<open>A condition on a value that may be \<open>NULL\<close>, or on an optional argument.\<close>

fun opt_all :: "('a \<Rightarrow> bool) \<Rightarrow> 'a option \<Rightarrow> bool" where
  "opt_all p None = True"
| "opt_all p (Some x) = p x"

lemma opt_all_iff: "opt_all p x \<longleftrightarrow> (\<forall>v. x = Some v \<longrightarrow> p v)"
  by (cases x) auto

section \<open>Lists\<close>

text \<open>The value of \<open>next((x for x in xs if p x), None)\<close> is \<^const>\<open>List.find\<close>.\<close>

lemma find_Some_in_set: "List.find p xs = Some x \<Longrightarrow> x \<in> set xs \<and> p x"
  by (auto simp: find_Some_iff)

lemma find_None_iff_ball: "List.find p xs = None \<longleftrightarrow> (\<forall>x\<in>set xs. \<not> p x)"
  by (auto simp: find_None_iff)

lemma sum_list_filter_zero:
  "(\<And>x. x \<in> set xs \<Longrightarrow> f x \<ge> (0::int)) \<Longrightarrow> 0 \<le> sum_list (map f xs)"
  by (rule sum_list_nonneg) auto

text \<open>\<open>LIMIT\<close> and \<open>OFFSET\<close>, slices with integer bounds.\<close>

fun take_int :: "int \<Rightarrow> 'a list \<Rightarrow> 'a list" where
  "take_int n [] = []"
| "take_int n (x # xs) = (if n \<le> 0 then [] else x # take_int (n - 1) xs)"

fun drop_int :: "int \<Rightarrow> 'a list \<Rightarrow> 'a list" where
  "drop_int n [] = []"
| "drop_int n (x # xs) = (if n \<le> 0 then x # xs else drop_int (n - 1) xs)"

lemma take_int_eq: "take_int n xs = take (nat n) xs"
proof (induction n xs rule: take_int.induct)
  case (2 n x xs)
  then show ?case by (cases "n \<le> 0") (simp_all add: take_Cons' nat_diff_distrib)
qed simp

lemma drop_int_eq: "drop_int n xs = drop (nat n) xs"
proof (induction n xs rule: drop_int.induct)
  case (2 n x xs)
  then show ?case by (cases "n \<le> 0") (simp_all add: drop_Cons' nat_diff_distrib)
qed simp

section \<open>Text\<close>

text \<open>
  Python text is held as its UTF-8 bytes, a \<^typ>\<open>string\<close>. Case folding and white space are
  those of the ASCII range, which is what IMAP flags and the application's own keys use.
\<close>

definition char_lower :: "char \<Rightarrow> char" where
  "char_lower c = (if 65 \<le> (of_char c :: nat) \<and> (of_char c :: nat) \<le> 90
                   then char_of ((of_char c :: nat) + 32) else c)"

definition casefold :: "string \<Rightarrow> string" where
  "casefold s = map char_lower s"

definition is_space :: "char \<Rightarrow> bool" where
  "is_space c \<longleftrightarrow> (9 \<le> (of_char c :: nat) \<and> (of_char c :: nat) \<le> 13) \<or>
                   (28 \<le> (of_char c :: nat) \<and> (of_char c :: nat) \<le> 32)"

text \<open>Splitting at every element with a property (\<open>re.split\<close> on one character class, or
  \<open>str.split(sep)\<close>), and \<open>str.split()\<close>, which drops the empty pieces.\<close>

fun split_at :: "('a \<Rightarrow> bool) \<Rightarrow> 'a list \<Rightarrow> 'a list list" where
  "split_at p [] = [[]]"
| "split_at p (c # cs) =
     (if p c then [] # split_at p cs
      else (case split_at p cs of [] \<Rightarrow> [[c]] | t # ts \<Rightarrow> (c # t) # ts))"

definition split_words :: "string \<Rightarrow> string list" where
  "split_words s = filter (\<lambda>w. w \<noteq> []) (split_at is_space s)"

fun join_with :: "'a \<Rightarrow> 'a list list \<Rightarrow> 'a list" where
  "join_with sep [] = []"
| "join_with sep [w] = w"
| "join_with sep (w # ws) = w @ sep # join_with sep ws"

lemma split_at_not_Nil [simp]: "split_at p xs \<noteq> []"
  by (induction xs) (auto split: list.split)

lemma split_at_none: "(\<And>x. x \<in> set w \<Longrightarrow> \<not> p x) \<Longrightarrow> split_at p w = [w]"
  by (induction w) auto

lemma split_at_sep:
  "(\<And>x. x \<in> set w \<Longrightarrow> \<not> p x) \<Longrightarrow> p c \<Longrightarrow> split_at p (w @ c # cs) = w # split_at p cs"
  by (induction w) auto

lemma split_at_pieces: "t \<in> set (split_at p xs) \<Longrightarrow> x \<in> set t \<Longrightarrow> \<not> p x \<and> x \<in> set xs"
  by (induction xs arbitrary: t) (fastforce split: if_splits list.splits)+

lemma split_at_join:
  assumes "p sep" and "\<forall>w\<in>set ws. \<forall>x\<in>set w. \<not> p x" and "ws \<noteq> []"
  shows "split_at p (join_with sep ws) = ws"
  using assms
  by (induction sep ws rule: join_with.induct) (auto simp: split_at_none split_at_sep)

end
