(* ===== verification/Storage_State.thy ===== *)
theory Storage_State
  imports Mail_Prelude "HOL-Library.Sublist"
begin

text \<open>
  The life cycle of the storage root (\<^verbatim>\<open>domain/storage_state.py\<close>): the transition table,
  the machine that applies it, and the two gates that destructive use cases consult. A locale for
  machines whose states owe a sequence of events gives the reconnect protocol.
\<close>

section \<open>States, events and the transition table\<close>

datatype storage_state =
  ATTACHED | DEGRADED | DETACHED | DETACHED_BY_USER | RECONNECTING | VERIFYING

datatype storage_event =
  PROBE_OK | PROBE_MISSING | PROBE_FOREIGN | IO_ERROR | REPROBE_OK | REPROBE_FAILED
  | DEVICE_REMOVED | DEVICE_ARRIVED | USER_DETACH | RECONNECT_REQUESTED | IDENTITY_OK
  | IDENTITY_FOREIGN | VERIFY_OK | VERIFY_FAILED

definition transitions :: "((storage_state \<times> storage_event) \<times> storage_state) list" where
  "transitions =
   [((ATTACHED, PROBE_OK), ATTACHED),
    ((ATTACHED, PROBE_MISSING), DEGRADED),
    ((ATTACHED, PROBE_FOREIGN), DETACHED),
    ((ATTACHED, IO_ERROR), DEGRADED),
    ((ATTACHED, DEVICE_REMOVED), DETACHED),
    ((ATTACHED, USER_DETACH), DETACHED_BY_USER),
    ((DEGRADED, PROBE_MISSING), DEGRADED),
    ((DEGRADED, PROBE_FOREIGN), DETACHED),
    ((DEGRADED, IO_ERROR), DEGRADED),
    ((DEGRADED, REPROBE_OK), ATTACHED),
    ((DEGRADED, REPROBE_FAILED), DETACHED),
    ((DEGRADED, DEVICE_REMOVED), DETACHED),
    ((DEGRADED, USER_DETACH), DETACHED_BY_USER),
    ((DETACHED, PROBE_MISSING), DETACHED),
    ((DETACHED, PROBE_FOREIGN), DETACHED),
    ((DETACHED, IO_ERROR), DETACHED),
    ((DETACHED, DEVICE_REMOVED), DETACHED),
    ((DETACHED, DEVICE_ARRIVED), RECONNECTING),
    ((DETACHED, RECONNECT_REQUESTED), RECONNECTING),
    ((DETACHED_BY_USER, PROBE_MISSING), DETACHED_BY_USER),
    ((DETACHED_BY_USER, PROBE_FOREIGN), DETACHED_BY_USER),
    ((DETACHED_BY_USER, DEVICE_REMOVED), DETACHED_BY_USER),
    ((DETACHED_BY_USER, RECONNECT_REQUESTED), RECONNECTING),
    ((RECONNECTING, PROBE_FOREIGN), DETACHED),
    ((RECONNECTING, PROBE_MISSING), RECONNECTING),
    ((RECONNECTING, DEVICE_REMOVED), DETACHED),
    ((RECONNECTING, DEVICE_ARRIVED), RECONNECTING),
    ((RECONNECTING, RECONNECT_REQUESTED), RECONNECTING),
    ((RECONNECTING, REPROBE_FAILED), DETACHED),
    ((RECONNECTING, IDENTITY_OK), VERIFYING),
    ((RECONNECTING, IDENTITY_FOREIGN), DETACHED),
    ((VERIFYING, PROBE_MISSING), DETACHED),
    ((VERIFYING, PROBE_FOREIGN), DETACHED),
    ((VERIFYING, DEVICE_REMOVED), DETACHED),
    ((VERIFYING, VERIFY_OK), ATTACHED),
    ((VERIFYING, VERIFY_FAILED), DETACHED)]"

section \<open>The machine\<close>

text \<open>The state of the machine is its current \<^typ>\<open>storage_state\<close>; an event outside the table
  raises \<open>ValueError\<close> and changes nothing.\<close>

definition initial_state :: storage_state where
  "initial_state = ATTACHED"

definition transition :: "storage_event \<Rightarrow> (storage_state, storage_state) prog" where
  "transition ev = (\<lambda>st. case map_of transitions (st, ev) of
       None \<Rightarrow> (Inl (ValueError ''invalid storage transition''), st)
     | Some st' \<Rightarrow> (Inr st', st'))"

definition is_write_allowed :: "storage_state \<Rightarrow> bool" where
  "is_write_allowed st \<longleftrightarrow> st = ATTACHED"

definition is_remote_delete_allowed :: "storage_state \<Rightarrow> bool" where
  "is_remote_delete_allowed st \<longleftrightarrow> st = ATTACHED"

text \<open>A caller that keeps notifying the machine, whether or not single events are refused.\<close>

fun run_events :: "storage_state \<Rightarrow> storage_event list \<Rightarrow> storage_state" where
  "run_events st [] = st"
| "run_events st (ev # evs) = run_events (snd (transition ev st)) evs"

section \<open>Machines whose states owe events\<close>

text \<open>
  \<open>need s\<close> is a sequence of events that every run from \<open>s\<close> must still contain, in this order,
  before it reaches a state that owes nothing. One step may pay at most the first owed event.
\<close>

locale owing_machine =
  fixes step :: "'s \<Rightarrow> 'e \<Rightarrow> 's"
    and need :: "'s \<Rightarrow> 'e list"
  assumes need_step: "subseq (need s) (e # need (step s e))"
begin

lemma need_run: "subseq (need s) (es @ need (foldl step s es))"
proof (induction es arbitrary: s)
  case Nil
  show ?case by simp
next
  case (Cons e es)
  have "subseq (need s) (e # need (step s e))"
    by (rule need_step)
  also have "subseq \<dots> (e # es @ need (foldl step (step s e) es))"
    using Cons.IH [of "step s e"] by (simp add: subseq_Cons2)
  finally show ?case by simp
qed

lemma need_paid: "need (foldl step s es) = [] \<Longrightarrow> subseq (need s) es"
  using need_run [of s es] by simp

end

definition storage_next :: "storage_state \<Rightarrow> storage_event \<Rightarrow> storage_state" where
  "storage_next st ev = snd (transition ev st)"

lemma run_events_foldl: "run_events st evs = foldl storage_next st evs"
  by (induction evs arbitrary: st) (simp_all add: storage_next_def)

lemma storage_next_eq:
  "storage_next st ev = (case map_of transitions (st, ev) of None \<Rightarrow> st | Some st' \<Rightarrow> st')"
  by (simp add: storage_next_def transition_def split: option.split)

text \<open>What a state owes before writes are authorised again: a root that was lost must be
  identified and verified; a root in verification must still be verified.\<close>

fun reconnect_debt :: "storage_state \<Rightarrow> storage_event list" where
  "reconnect_debt ATTACHED = []"
| "reconnect_debt DEGRADED = []"
| "reconnect_debt VERIFYING = [VERIFY_OK]"
| "reconnect_debt _ = [IDENTITY_OK, VERIFY_OK]"

fun user_debt :: "storage_state \<Rightarrow> storage_event list" where
  "user_debt DETACHED_BY_USER = [RECONNECT_REQUESTED]"
| "user_debt _ = []"

interpretation reconnect: owing_machine storage_next reconnect_debt
proof
  fix s e
  show "subseq (reconnect_debt s) (e # reconnect_debt (storage_next s e))"
    by (cases s; cases e) (simp_all add: storage_next_eq transitions_def)
qed

interpretation user_detach: owing_machine storage_next user_debt
proof
  fix s e
  show "subseq (user_debt s) (e # user_debt (storage_next s e))"
    by (cases s; cases e) (simp_all add: storage_next_eq transitions_def)
qed

section \<open>Properties\<close>

text \<open>
  C6. Once the storage root is detached (by loss, by the user, or while reconnecting), every
  sequence of notifications after which writes and remote deletions are allowed again contains
  a successful identity check followed by a successful verification. Refused events count as
  notifications that changed nothing.
\<close>

theorem reattach_needs_identity_and_verify:
  assumes "st \<in> {DETACHED, DETACHED_BY_USER, RECONNECTING}"
    and "is_write_allowed (run_events st evs) \<or> is_remote_delete_allowed (run_events st evs)"
  shows "subseq [IDENTITY_OK, VERIFY_OK] evs"
proof -
  from assms(2) have "reconnect_debt (foldl storage_next st evs) = []"
    by (auto simp: is_write_allowed_def is_remote_delete_allowed_def run_events_foldl)
  then have "subseq (reconnect_debt st) evs"
    by (rule reconnect.need_paid)
  with assms(1) show ?thesis by auto
qed

theorem reattach_needs_identity_and_verify_witness:
  "is_write_allowed (run_events DETACHED [DEVICE_ARRIVED, IDENTITY_OK, VERIFY_OK]) \<and>
   subseq [IDENTITY_OK, VERIFY_OK] [DEVICE_ARRIVED, IDENTITY_OK, VERIFY_OK]"
proof -
  have run: "is_write_allowed (run_events DETACHED [DEVICE_ARRIVED, IDENTITY_OK, VERIFY_OK])"
    by (simp add: transition_def transitions_def is_write_allowed_def)
  show ?thesis
    using run reattach_needs_identity_and_verify
      [of DETACHED "[DEVICE_ARRIVED, IDENTITY_OK, VERIFY_OK]"] by simp
qed

text \<open>
  A root the user ejected stays ejected until the user asks to reconnect: whatever probes,
  device events or errors arrive, the machine leaves that state only in a sequence that contains
  a reconnect request. In particular a device arrival alone does not reattach it.
\<close>

lemma user_detach_is_sticky:
  assumes "run_events DETACHED_BY_USER evs \<noteq> DETACHED_BY_USER"
  shows "RECONNECT_REQUESTED \<in> set evs"
proof -
  from assms have "user_debt (foldl storage_next DETACHED_BY_USER evs) = []"
    by (cases "foldl storage_next DETACHED_BY_USER evs") (auto simp: run_events_foldl)
  then have "subseq (user_debt DETACHED_BY_USER) evs"
    by (rule user_detach.need_paid)
  then show ?thesis by (auto simp: subseq_singleton_left)
qed

lemma user_detach_is_sticky_witness:
  "run_events DETACHED_BY_USER [DEVICE_ARRIVED, RECONNECT_REQUESTED] \<noteq> DETACHED_BY_USER \<and>
   RECONNECT_REQUESTED \<in> set [DEVICE_ARRIVED, RECONNECT_REQUESTED]"
proof -
  have "run_events DETACHED_BY_USER [DEVICE_ARRIVED, RECONNECT_REQUESTED] \<noteq> DETACHED_BY_USER"
    by (simp add: transition_def transitions_def)
  with user_detach_is_sticky [of "[DEVICE_ARRIVED, RECONNECT_REQUESTED]"] show ?thesis by simp
qed

end
