(* ===== verification/Manifest_Events.thy ===== *)
theory Manifest_Events
  imports Mail_Prelude
begin

text \<open>
  Manifest events and their schema (\<^verbatim>\<open>infrastructure/storage/manifest.py\<close>, lines 25 to 337): JSON
  values, the event dictionaries, and the validation every event passes before it is written and
  after it is read.
\<close>

section \<open>JSON values\<close>

text \<open>A Python \<open>bool\<close> is its own constructor, so \<open>isinstance(v, int) and not isinstance(v, bool)\<close>
  is \<open>is_int\<close>. A float is kept as its text.\<close>

datatype json =
    JNull
  | JBool bool
  | JInt int
  | JFloat string
  | JStr string
  | JList "json list"
  | JObj "(string \<times> json) list"

type_synonym event = "(string \<times> json) list"

text \<open>\<open>dict.get\<close>: a missing key reads as \<open>None\<close>, as a null value does.\<close>

definition jget :: "event \<Rightarrow> string \<Rightarrow> json" where
  "jget ev k = (case map_of ev k of None \<Rightarrow> JNull | Some v \<Rightarrow> v)"

definition has_key :: "event \<Rightarrow> string \<Rightarrow> bool" where
  "has_key ev k \<longleftrightarrow> k \<in> fst ` set ev"

fun is_int :: "json \<Rightarrow> bool" where
  "is_int (JInt _) = True" | "is_int _ = False"

fun is_bool :: "json \<Rightarrow> bool" where
  "is_bool (JBool _) = True" | "is_bool _ = False"

fun is_str :: "json \<Rightarrow> bool" where
  "is_str (JStr _) = True" | "is_str _ = False"

fun is_text :: "json \<Rightarrow> bool" where
  "is_text (JStr s) = (s \<noteq> [])" | "is_text _ = False"

definition is_null :: "json \<Rightarrow> bool" where
  "is_null v \<longleftrightarrow> v = JNull"

fun opt_str :: "string option \<Rightarrow> json" where
  "opt_str None = JNull" | "opt_str (Some s) = JStr s"

fun opt_int :: "int option \<Rightarrow> json" where
  "opt_int None = JNull" | "opt_int (Some i) = JInt i"

lemma jget_simps [simp]:
  "jget [] k = JNull"
  "jget ((k', v) # ev) k = (if k = k' then v else jget ev k)"
  by (simp_all add: jget_def)

lemma has_key_simps [simp]:
  "has_key [] k = False"
  "has_key ((k', v) # ev) k = (k = k' \<or> has_key ev k)"
  by (auto simp: has_key_def)

lemma opt_str_cases [simp]:
  "opt_str x = JStr s \<longleftrightarrow> x = Some s" "opt_str x = JNull \<longleftrightarrow> x = None"
  "is_int (opt_str x) = False"
  by (cases x; simp)+

section \<open>Checks\<close>

definition check :: "bool \<Rightarrow> error \<Rightarrow> error + unit" where
  "check c e = (if c then Inr () else Inl e)"

fun all_checks :: "(error + unit) list \<Rightarrow> error + unit" where
  "all_checks [] = Inr ()"
| "all_checks (Inl e # _) = Inl e"
| "all_checks (Inr _ # cs) = all_checks cs"

lemma check_Inr [simp]: "check c e = Inr u \<longleftrightarrow> c"
  by (simp add: check_def)

lemma all_checks_Inr: "all_checks cs = Inr () \<longleftrightarrow> (\<forall>c\<in>set cs. \<exists>u. c = Inr u)"
  by (induction cs rule: all_checks.induct) auto

lemma all_checks_Cons:
  "all_checks (c # cs) = (case c of Inl e \<Rightarrow> Inl e | Inr _ \<Rightarrow> all_checks cs)"
  by (cases c) simp_all

lemma all_checks_append:
  "all_checks (cs @ ds) = (case all_checks cs of Inl e \<Rightarrow> Inl e | Inr _ \<Rightarrow> all_checks ds)"
  by (induction cs rule: all_checks.induct) simp_all

definition parse_timestamp :: "env \<Rightarrow> json \<Rightarrow> error + string" where
  "parse_timestamp E v = (case v of
     JStr s \<Rightarrow>
       (let normalized = (if s \<noteq> [] \<and> last s = CHR ''Z'' then butlast s @ ''+00:00'' else s)
        in case iso E normalized of
             IsoInvalid \<Rightarrow> Inl (ValueError ''manifest event timestamp is invalid'')
           | IsoNaive \<Rightarrow> Inl (ValueError ''manifest event timestamp must include a timezone'')
           | IsoAware month \<Rightarrow> Inr month)
   | _ \<Rightarrow> Inl (ValueError ''manifest event timestamp must be an ISO-8601 string''))"

definition timestamp_check :: "env \<Rightarrow> json \<Rightarrow> error + unit" where
  "timestamp_check E v = (case parse_timestamp E v of Inl e \<Rightarrow> Inl e | Inr _ \<Rightarrow> Inr ())"

definition require_fields :: "event \<Rightarrow> string list \<Rightarrow> error + unit" where
  "require_fields ev required =
     check (\<forall>f\<in>set required. has_key ev f) (ValueError ''event is missing required fields'')"

definition require_text :: "event \<Rightarrow> string \<Rightarrow> error + unit" where
  "require_text ev f = check (is_text (jget ev f)) (TypeError ''field must be a non-empty string'')"

definition validate_checkpoint_sequence :: "json \<Rightarrow> int option \<Rightarrow> error + int" where
  "validate_checkpoint_sequence v previous = (case v of
     JInt n \<Rightarrow>
       if n < 0 then Inl (ValueError ''checkpoint event sequence must be a non-negative integer'')
       else (case previous of
           None \<Rightarrow> Inr n
         | Some p \<Rightarrow> if n \<le> p
             then Inl (ValueError ''checkpoint event sequence must increase monotonically'')
             else Inr n)
   | _ \<Rightarrow> Inl (ValueError ''checkpoint event sequence must be a non-negative integer''))"

section \<open>Schema\<close>

definition manifest_events :: "string list" where
  "manifest_events =
     [''fetch'', ''fetch_skipped'', ''parse_failed'', ''delete_detected'', ''moved'',
      ''remote_state_unknown'', ''checkpoint'', ''account_snapshot'', ''folder_snapshot'',
      ''purge_intent'', ''purged'', ''remote_delete_intent'', ''remote_delete_completed'',
      ''remote_delete_uncertain'', ''message_membership_snapshot'', ''message_identity_linked'']"

definition fetch_fields :: "string list" where
  "fetch_fields =
     [''event'', ''account_id'', ''folder_raw_name'', ''uid'', ''uidvalidity'', ''source_item_key'',
      ''message_id'', ''relative_path'', ''file_hash'', ''size_bytes'', ''timestamp'',
      ''deduplicated'']"

definition checkpoint_fields :: "string list" where
  "checkpoint_fields = [''event'', ''account_id'', ''timestamp'', ''sequence'', ''batch_id'']"

definition account_snapshot_fields :: "string list" where
  "account_snapshot_fields =
     [''event'', ''account_id'', ''provider_type'', ''display_name'', ''host'', ''port'',
      ''username'', ''timestamp'']"

definition folder_snapshot_fields :: "string list" where
  "folder_snapshot_fields =
     [''event'', ''account_id'', ''folder_raw_name'', ''display_name'', ''uidvalidity'',
      ''delimiter'', ''timestamp'']"

definition purge_fields :: "string list" where
  "purge_fields =
     [''event'', ''account_id'', ''source_item_key'', ''relative_path'', ''file_hash'',
      ''timestamp'', ''shared_reference_count'', ''physical_delete'']"

definition remote_delete_fields :: "string list" where
  "remote_delete_fields =
     [''event'', ''account_id'', ''folder_raw_name'', ''uid'', ''uidvalidity'', ''mode'',
      ''timestamp'']"

definition moved_fields :: "string list" where
  "moved_fields =
     [''event'', ''account_id'', ''folder_raw_name'', ''moved_to_folder_raw_name'', ''uid'',
      ''uidvalidity'', ''source_item_key'', ''timestamp'']"

definition membership_snapshot_fields :: "string list" where
  "membership_snapshot_fields =
     [''event'', ''account_id'', ''source_item_key'', ''memberships'', ''timestamp'']"

definition identity_link_fields :: "string list" where
  "identity_link_fields =
     [''event'', ''account_id'', ''canonical_source_item_key'', ''alias_source_item_key'',
      ''evidence_kind'', ''file_hash'', ''timestamp'']"

definition secret_field_parts :: "string list" where
  "secret_field_parts = [''password'', ''passwd'', ''secret'', ''token'', ''credential'']"

text \<open>Python's \<open>part in text\<close>.\<close>

fun contains_text :: "string \<Rightarrow> string \<Rightarrow> bool" where
  "contains_text part [] = (part = [])"
| "contains_text part (c # cs) =
     (take (length part) (c # cs) = part \<or> contains_text part cs)"

definition int_check :: "event \<Rightarrow> string \<Rightarrow> error + unit" where
  "int_check ev f = check (is_int (jget ev f)) (TypeError ''field must be an integer'')"

definition null_or :: "(json \<Rightarrow> bool) \<Rightarrow> event \<Rightarrow> string \<Rightarrow> error + unit" where
  "null_or p ev f = check (is_null (jget ev f) \<or> p (jget ev f)) (TypeError ''field has a wrong type'')"

definition bool_or_int_if_present :: "event \<Rightarrow> string \<Rightarrow> error + unit" where
  "bool_or_int_if_present ev f =
     check (\<not> has_key ev f \<or> is_bool (jget ev f) \<or> is_int (jget ev f))
       (TypeError ''field must be a boolean or integer'')"

definition membership_check :: "json \<Rightarrow> error + unit" where
  "membership_check v = (case v of
     JObj m \<Rightarrow> all_checks
       (map (require_text m) [''folder_raw_name'', ''remote_state''] @
        map (null_or is_int m) [''uid'', ''uidvalidity''] @
        map (null_or is_str m)
          [''moved_to_folder_raw_name'', ''imap_flags'', ''flags_seen_at'', ''last_seen_at''])
   | _ \<Rightarrow> Inl (TypeError ''membership snapshot entries must be objects''))"

definition fetch_checks :: "env \<Rightarrow> event \<Rightarrow> (error + unit) list" where
  "fetch_checks E ev =
     [require_fields ev fetch_fields, int_check ev ''uid'', int_check ev ''uidvalidity'',
      int_check ev ''size_bytes'',
      check (is_bool (jget ev ''deduplicated''))
        (TypeError ''fetch event deduplicated must be a boolean''),
      null_or is_str ev ''internal_date'',
      (if is_null (jget ev ''internal_date'') then Inr ()
       else timestamp_check E (jget ev ''internal_date''))]"

definition fetch_skipped_checks :: "event \<Rightarrow> (error + unit) list" where
  "fetch_skipped_checks ev =
     [require_fields ev [''uid'', ''uidvalidity'', ''size_bytes'', ''reason''],
      check (\<not> (has_key ev ''relative_path'' \<or> has_key ev ''file_hash''))
        (ValueError ''fetch_skipped events must not contain EML path or hash'')]"

definition checkpoint_checks :: "event \<Rightarrow> (error + unit) list" where
  "checkpoint_checks ev =
     [require_fields ev checkpoint_fields, require_text ev ''account_id'',
      require_text ev ''batch_id'',
      (case validate_checkpoint_sequence (jget ev ''sequence'') None of
         Inl e \<Rightarrow> Inl e | Inr _ \<Rightarrow> Inr ())]"

definition account_snapshot_checks :: "event \<Rightarrow> (error + unit) list" where
  "account_snapshot_checks ev =
     [require_fields ev account_snapshot_fields, require_text ev ''account_id'',
      require_text ev ''provider_type'', require_text ev ''host'', require_text ev ''username'',
      null_or is_str ev ''display_name'', bool_or_int_if_present ev ''is_enabled'',
      int_check ev ''port'',
      check (\<not> (\<exists>f\<in>fst ` set ev. \<exists>part\<in>set secret_field_parts. contains_text part (casefold f)))
        (ValueError ''account_snapshot events must not contain credentials or tokens'')]"

definition folder_snapshot_checks :: "event \<Rightarrow> (error + unit) list" where
  "folder_snapshot_checks ev =
     [require_fields ev folder_snapshot_fields, require_text ev ''account_id'',
      require_text ev ''folder_raw_name'', require_text ev ''display_name'',
      null_or is_int ev ''uidvalidity'', null_or is_str ev ''delimiter'',
      bool_or_int_if_present ev ''is_sync_target'']"

definition purge_checks :: "event \<Rightarrow> (error + unit) list" where
  "purge_checks ev =
     [require_fields ev purge_fields, require_text ev ''account_id'',
      require_text ev ''source_item_key'', require_text ev ''relative_path'',
      require_text ev ''file_hash'',
      check (case jget ev ''shared_reference_count'' of JInt n \<Rightarrow> 0 \<le> n | _ \<Rightarrow> False)
        (TypeError ''purge event shared_reference_count must be a non-negative integer''),
      check (is_bool (jget ev ''physical_delete''))
        (TypeError ''purge event physical_delete must be a boolean'')]"

definition remote_delete_checks :: "event \<Rightarrow> (error + unit) list" where
  "remote_delete_checks ev =
     [require_fields ev remote_delete_fields, require_text ev ''account_id'',
      require_text ev ''folder_raw_name'', int_check ev ''uid'', int_check ev ''uidvalidity'',
      check (jget ev ''mode'' \<in> {JStr ''trash'', JStr ''expunge''})
        (ValueError ''event mode must be 'trash' or 'expunge' '')]"

definition moved_checks :: "event \<Rightarrow> (error + unit) list" where
  "moved_checks ev =
     [require_fields ev moved_fields, require_text ev ''account_id'',
      require_text ev ''folder_raw_name'', require_text ev ''moved_to_folder_raw_name'',
      require_text ev ''source_item_key'', int_check ev ''uid'', int_check ev ''uidvalidity'']"

definition membership_snapshot_checks :: "event \<Rightarrow> (error + unit) list" where
  "membership_snapshot_checks ev =
     [require_fields ev membership_snapshot_fields, require_text ev ''account_id'',
      require_text ev ''source_item_key'',
      (case jget ev ''memberships'' of
         JList ms \<Rightarrow> all_checks (map membership_check ms)
       | _ \<Rightarrow> Inl (TypeError ''message_membership_snapshot memberships must be a list'')),
      (case jget ev ''gmail_labels'' of
         JNull \<Rightarrow> Inr ()
       | JList ls \<Rightarrow> check (\<forall>l\<in>set ls. is_str l)
           (TypeError ''message_membership_snapshot gmail_labels must be a string list'')
       | _ \<Rightarrow> Inl (TypeError ''message_membership_snapshot gmail_labels must be a string list''))]"

definition identity_link_checks :: "event \<Rightarrow> (error + unit) list" where
  "identity_link_checks ev =
     [require_fields ev identity_link_fields, require_text ev ''account_id'',
      require_text ev ''canonical_source_item_key'', require_text ev ''alias_source_item_key'',
      require_text ev ''evidence_kind'', require_text ev ''file_hash'',
      check (jget ev ''canonical_source_item_key'' \<noteq> jget ev ''alias_source_item_key'')
        (ValueError ''identity link canonical and alias keys must differ'')]"

definition schema_checks :: "env \<Rightarrow> string \<Rightarrow> event \<Rightarrow> (error + unit) list" where
  "schema_checks E name ev =
    (if name = ''fetch'' then fetch_checks E ev
     else if name = ''fetch_skipped'' then fetch_skipped_checks ev
     else if name = ''checkpoint'' then checkpoint_checks ev
     else if name = ''account_snapshot'' then account_snapshot_checks ev
     else if name = ''folder_snapshot'' then folder_snapshot_checks ev
     else if name \<in> {''purge_intent'', ''purged''} then purge_checks ev
     else if name \<in> {''remote_delete_intent'', ''remote_delete_completed'',
                     ''remote_delete_uncertain''} then remote_delete_checks ev
     else if name = ''moved'' then moved_checks ev
     else if name = ''message_membership_snapshot'' then membership_snapshot_checks ev
     else if name = ''message_identity_linked'' then identity_link_checks ev
     else [])"

definition validate_event :: "env \<Rightarrow> event \<Rightarrow> error + unit" where
  "validate_event E ev = (case jget ev ''event'' of
     JStr name \<Rightarrow>
       if name \<notin> set manifest_events then Inl (ValueError ''unsupported manifest event'')
       else all_checks (timestamp_check E (jget ev ''timestamp'') # schema_checks E name ev)
   | _ \<Rightarrow> Inl (ValueError ''unsupported manifest event''))"

lemmas schema_defs =
  fetch_checks_def fetch_skipped_checks_def checkpoint_checks_def account_snapshot_checks_def
  folder_snapshot_checks_def purge_checks_def remote_delete_checks_def moved_checks_def
  membership_snapshot_checks_def identity_link_checks_def

lemmas field_list_defs =
  fetch_fields_def checkpoint_fields_def account_snapshot_fields_def folder_snapshot_fields_def
  purge_fields_def remote_delete_fields_def moved_fields_def membership_snapshot_fields_def
  identity_link_fields_def

lemmas check_defs = require_fields_def require_text_def int_check_def null_or_def
  bool_or_int_if_present_def timestamp_check_def is_null_def

lemma validate_event_timestamp:
  "validate_event E ev = Inr () \<Longrightarrow> \<exists>month. parse_timestamp E (jget ev ''timestamp'') = Inr month"
  by (auto simp: validate_event_def timestamp_check_def all_checks_Cons
      split: json.splits if_splits sum.splits)

lemma validate_event_name:
  "validate_event E ev = Inr () \<Longrightarrow> \<exists>name\<in>set manifest_events. jget ev ''event'' = JStr name"
  by (auto simp: validate_event_def split: json.splits if_splits)

text \<open>A remote-delete event passes only in one of the two modes the schema lists.\<close>

lemma validate_remote_delete_mode:
  assumes "validate_event E ev = Inr ()"
    and "jget ev ''event'' \<in> {JStr ''remote_delete_intent'', JStr ''remote_delete_completed'',
           JStr ''remote_delete_uncertain''}"
  shows "jget ev ''mode'' \<in> {JStr ''trash'', JStr ''expunge''}"
  using assms
  by (auto simp: validate_event_def schema_checks_def remote_delete_checks_def all_checks_Inr
      split: json.splits if_splits)

end
