(* ===== verification/Manifest_File.thy ===== *)
theory Manifest_File
  imports Manifest_Events "HOL-Library.Word" "HOL-Library.Char_ord" "HOL-Library.List_Lexorder"
begin

text \<open>
  Manifest files at byte level (\<^verbatim>\<open>infrastructure/storage/manifest.py\<close>): one JSON line per event
  with a CRC-32 suffix, reading with detachment of a torn final record, and tail repair. The JSON
  text of a dictionary comes from a codec that stands for \<open>json.dumps\<close> and \<open>json.loads\<close>.
\<close>

unbundle bit_operations_syntax

section \<open>CRC-32 and hexadecimal text\<close>

text \<open>\<open>zlib.crc32\<close>: the reflected polynomial \<open>0xEDB88320\<close>, started and finished with all ones.\<close>

primrec crc_shift :: "nat \<Rightarrow> 32 word \<Rightarrow> 32 word" where
  "crc_shift 0 w = w"
| "crc_shift (Suc n) w =
     crc_shift n (if bit w 0 then drop_bit 1 w XOR 0xEDB88320 else drop_bit 1 w)"

definition crc32 :: "string \<Rightarrow> 32 word" where
  "crc32 s = NOT (foldl (\<lambda>w c. crc_shift 8 (w XOR of_nat (of_char c))) 0xFFFFFFFF s)"

definition hex_char :: "nat \<Rightarrow> char" where
  "hex_char n = ''0123456789abcdef'' ! n"

primrec hex_text :: "nat \<Rightarrow> nat \<Rightarrow> string" where
  "hex_text 0 n = []"
| "hex_text (Suc k) n = hex_text k (n div 16) @ [hex_char (n mod 16)]"

definition hex_digit :: "char \<Rightarrow> nat option" where
  "hex_digit c =
    (let n = of_char c in
     if 48 \<le> n \<and> n \<le> 57 then Some (n - 48)
     else if 97 \<le> n \<and> n \<le> 102 then Some (n - 87)
     else if 65 \<le> n \<and> n \<le> 70 then Some (n - 55)
     else None)"

definition hex_value :: "string \<Rightarrow> nat" where
  "hex_value s = foldl (\<lambda>n c. 16 * n + (case hex_digit c of None \<Rightarrow> 0 | Some d \<Rightarrow> d)) 0 s"

section \<open>Records as lines\<close>

record codec =
  dumps :: "event \<Rightarrow> string"
  loads :: "string \<Rightarrow> json option"

abbreviation newline :: char where
  "newline \<equiv> CHR 0x0A"

definition encode_event :: "env \<Rightarrow> codec \<Rightarrow> event \<Rightarrow> error + string" where
  "encode_event E C ev = (case validate_event E ev of
     Inl e \<Rightarrow> Inl e
   | Inr _ \<Rightarrow>
       (let encoded = dumps C ev
        in Inr (encoded @ ''|CRC32:'' @ hex_text 8 (unat (crc32 encoded)) @ [newline])))"

text \<open>The suffix pattern \<^verbatim>\<open>\|CRC32:([0-9a-fA-F]{8})$\<close> on a line without its newline: the payload
  before it and the eight digits.\<close>

definition crc_suffix :: "string \<Rightarrow> (string \<times> string) option" where
  "crc_suffix content =
    (let n = length content - 15; suffix = drop n content; digits = drop 7 suffix
     in if length content \<ge> 15 \<and> take 7 suffix = ''|CRC32:'' \<and>
           list_all (\<lambda>c. hex_digit c \<noteq> None) digits
        then Some (take n content, digits) else None)"

definition parse_line :: "env \<Rightarrow> codec \<Rightarrow> string \<Rightarrow> error + event" where
  "parse_line E C line =
    (if line = [] \<or> last line \<noteq> newline
     then Inl (ManifestCorruptError ''manifest record is missing its trailing newline'')
     else case crc_suffix (butlast line) of
       None \<Rightarrow> Inl (ManifestCorruptError ''manifest record has no valid CRC32 suffix'')
     | Some (payload, digits) \<Rightarrow>
         if unat (crc32 payload) \<noteq> hex_value digits
         then Inl (ManifestCorruptError ''manifest record CRC32 does not match its payload'')
         else (case loads C payload of
             None \<Rightarrow> Inl (ManifestCorruptError ''manifest record contains invalid JSON'')
           | Some (JObj ev) \<Rightarrow>
               (case validate_event E ev of
                  Inl _ \<Rightarrow> Inl (ManifestCorruptError
                    ''manifest record does not satisfy the event schema'')
                | Inr _ \<Rightarrow> Inr ev)
           | Some _ \<Rightarrow> Inl (ManifestCorruptError ''manifest record must be a JSON object'')))"

section \<open>Reading a file\<close>

text \<open>\<open>readline\<close> until the end of the file: each line keeps its newline, the last may lack it.\<close>

fun readlines :: "string \<Rightarrow> string list" where
  "readlines [] = []"
| "readlines (c # cs) =
     (if c = newline then [c] # readlines cs
      else (case readlines cs of [] \<Rightarrow> [[c]] | l # ls \<Rightarrow> (c # l) # ls))"

text \<open>The loop of \<open>read_events\<close>: the events yielded, and the offset of a malformed last record.\<close>

fun read_loop ::
  "env \<Rightarrow> codec \<Rightarrow> nat \<Rightarrow> int option \<Rightarrow> string list \<Rightarrow> error + (event list \<times> nat option)" where
  "read_loop E C offset last_sequence [] = Inr ([], None)"
| "read_loop E C offset last_sequence (line # rest) =
    (case parse_line E C line of
       Inl e \<Rightarrow> if rest \<noteq> [] then Inl e else Inr ([], Some offset)
     | Inr ev \<Rightarrow>
         (case (if jget ev ''event'' = JStr ''checkpoint''
                then map_sum id Some (validate_checkpoint_sequence (jget ev ''sequence'') last_sequence)
                else Inr last_sequence) of
            Inl _ \<Rightarrow> Inl (ManifestCorruptError
              ''manifest checkpoint sequences are not strictly increasing'')
          | Inr sequence \<Rightarrow>
              (case read_loop E C (offset + length line) sequence rest of
                 Inl e \<Rightarrow> Inl e
               | Inr (evs, truncate_at) \<Rightarrow> Inr (ev # evs, truncate_at))))"

text \<open>A completely consumed \<open>read_events\<close>: the events and the bytes the file holds afterwards.\<close>

definition read_events :: "env \<Rightarrow> codec \<Rightarrow> string \<Rightarrow> error + (event list \<times> string)" where
  "read_events E C bytes = (case read_loop E C 0 None (readlines bytes) of
     Inl e \<Rightarrow> Inl e
   | Inr (evs, None) \<Rightarrow> Inr (evs, bytes)
   | Inr (evs, Some n) \<Rightarrow> Inr (evs, take n bytes))"

definition repair_tail :: "env \<Rightarrow> codec \<Rightarrow> string \<Rightarrow> error + (nat \<times> string)" where
  "repair_tail E C bytes = (case read_events E C bytes of
     Inl e \<Rightarrow> Inl e
   | Inr (_, bytes') \<Rightarrow> Inr (length bytes - length bytes', bytes'))"

section \<open>Canonical dictionaries\<close>

text \<open>\<open>sort_keys=True\<close> writes a dictionary in key order, at every level; \<open>wf_json\<close> says that the
  keys of each dictionary are distinct, as they are in Python.\<close>

primrec canon :: "json \<Rightarrow> json" where
  "canon JNull = JNull"
| "canon (JBool b) = JBool b"
| "canon (JInt i) = JInt i"
| "canon (JFloat f) = JFloat f"
| "canon (JStr s) = JStr s"
| "canon (JList xs) = JList (map canon xs)"
| "canon (JObj d) = JObj (sort_key fst (map (map_prod id canon) d))"

primrec wf_json :: "json \<Rightarrow> bool" where
  "wf_json JNull = True"
| "wf_json (JBool b) = True"
| "wf_json (JInt i) = True"
| "wf_json (JFloat f) = True"
| "wf_json (JStr s) = True"
| "wf_json (JList xs) = list_all id (map wf_json xs)"
| "wf_json (JObj d) = (distinct (map fst d) \<and> list_all snd (map (map_prod id wf_json) d))"

definition canon_event :: "event \<Rightarrow> event" where
  "canon_event ev = sort_key fst (map (map_prod id canon) ev)"

definition wf_event :: "event \<Rightarrow> bool" where
  "wf_event ev \<longleftrightarrow> wf_json (JObj ev)"

text \<open>What the code relies on of \<open>json\<close>: \<open>loads\<close> reads back the object \<open>dumps\<close> wrote in key order,
  and the text of one object has no raw newline (control characters are escaped).\<close>

definition codec_ok :: "codec \<Rightarrow> event \<Rightarrow> bool" where
  "codec_ok C ev \<longleftrightarrow> wf_event ev \<and>
     loads C (dumps C ev) = Some (JObj (canon_event ev)) \<and> newline \<notin> set (dumps C ev)"

lemma map_of_sort_key:
  assumes "distinct (map fst d)"
  shows "map_of (sort_key fst d) = map_of d"
proof -
  have "distinct (map fst (sort_key fst d))"
    using assms by (metis distinct_map distinct_sort set_sort)
  with assms show ?thesis by (simp add: map_of_inject_set)
qed

lemma map_of_map_prod: "map_of (map (map_prod id f) d) k = map_option f (map_of d k)"
  by (induction d) auto

lemma jget_canon_event:
  "wf_event ev \<Longrightarrow> jget (canon_event ev) k = canon (jget ev k)"
  by (simp add: canon_event_def wf_event_def jget_def map_of_sort_key comp_def map_of_map_prod
      split: option.split)

lemma has_key_canon_event [simp]: "has_key (canon_event ev) k = has_key ev k"
  by (simp add: has_key_def canon_event_def image_image)

lemma keys_canon_event [simp]: "fst ` set (canon_event ev) = fst ` set ev"
  by (simp add: canon_event_def image_image)

lemma canon_shape [simp]:
  "is_int (canon v) = is_int v" "is_bool (canon v) = is_bool v" "is_str (canon v) = is_str v"
  "is_text (canon v) = is_text v" "is_null (canon v) = is_null v"
  by (cases v; simp add: is_null_def)+

lemma canon_eq_leaf [simp]:
  "canon v = JStr s \<longleftrightarrow> v = JStr s" "canon v = JInt i \<longleftrightarrow> v = JInt i" "canon v = JNull \<longleftrightarrow> v = JNull"
  by (cases v; simp)+

lemma canon_event_JObj: "canon (JObj d) = JObj (canon_event d)"
  by (simp add: canon_event_def)

lemma parse_timestamp_canon [simp]: "parse_timestamp E (canon v) = parse_timestamp E v"
  by (cases v) (simp_all add: parse_timestamp_def)

lemma validate_checkpoint_sequence_canon [simp]:
  "validate_checkpoint_sequence (canon v) p = validate_checkpoint_sequence v p"
  by (cases v) (simp_all add: validate_checkpoint_sequence_def)

lemma membership_check_canon: "wf_json v \<Longrightarrow> membership_check (canon v) = membership_check v"
proof (cases v)
  case (JObj d)
  assume "wf_json v"
  with JObj have "wf_event d" by (simp add: wf_event_def)
  with JObj show ?thesis
    by (simp only: canon_event_JObj membership_check_def json.case)
      (simp add: require_text_def null_or_def jget_canon_event)
qed (simp_all add: membership_check_def)

lemma wf_event_jget: "wf_event ev \<Longrightarrow> jget ev k = v \<Longrightarrow> wf_json v"
  by (induction ev) (auto simp: wf_event_def split: if_splits)

lemma memberships_canon:
  assumes "wf_event ev" and "jget ev k = JList ms"
  shows "all_checks (map (membership_check \<circ> canon) ms) = all_checks (map membership_check ms)"
proof -
  from assms have "\<forall>m\<in>set ms. wf_json m"
    using wf_event_jget [of ev k "JList ms"] by (simp add: list_all_iff)
  then have "map (membership_check \<circ> canon) ms = map membership_check ms"
    by (simp add: membership_check_canon)
  then show ?thesis by (rule arg_cong)
qed

lemmas canon_simps = jget_canon_event check_defs

lemma membership_snapshot_checks_canon:
  assumes "wf_event ev"
  shows "membership_snapshot_checks (canon_event ev) = membership_snapshot_checks ev"
  using assms memberships_canon [OF assms, of "''memberships''"]
  by (cases "jget ev ''memberships''"; cases "jget ev ''gmail_labels''")
    (simp_all add: membership_snapshot_checks_def canon_simps comp_def)

lemma identity_link_checks_canon:
  assumes "wf_event ev" and "all_checks (identity_link_checks ev) = Inr ()"
  shows "all_checks (identity_link_checks (canon_event ev)) = Inr ()"
proof -
  from assms(2) have "is_text (jget ev ''canonical_source_item_key'')"
    and "is_text (jget ev ''alias_source_item_key'')"
    and "jget ev ''canonical_source_item_key'' \<noteq> jget ev ''alias_source_item_key''"
    by (simp_all add: identity_link_checks_def all_checks_Inr require_text_def)
  then have "canon (jget ev ''canonical_source_item_key'') \<noteq> canon (jget ev ''alias_source_item_key'')"
    by (cases "jget ev ''canonical_source_item_key''"; cases "jget ev ''alias_source_item_key''") auto
  with assms show ?thesis
    by (simp add: identity_link_checks_def all_checks_Inr canon_simps)
qed

lemma remaining_checks_canon:
  assumes "wf_event ev"
  shows "fetch_checks E (canon_event ev) = fetch_checks E ev"
    "fetch_skipped_checks (canon_event ev) = fetch_skipped_checks ev"
    "checkpoint_checks (canon_event ev) = checkpoint_checks ev"
    "account_snapshot_checks (canon_event ev) = account_snapshot_checks ev"
    "folder_snapshot_checks (canon_event ev) = folder_snapshot_checks ev"
    "remote_delete_checks (canon_event ev) = remote_delete_checks ev"
    "moved_checks (canon_event ev) = moved_checks ev"
    "purge_checks (canon_event ev) = purge_checks ev"
  using assms
  by (simp_all add: schema_defs canon_simps)
    (cases "jget ev ''shared_reference_count''"; simp)

lemma all_checks_Cons_Inr: "all_checks (c # cs) = Inr () \<longleftrightarrow> (\<exists>u. c = Inr u) \<and> all_checks cs = Inr ()"
  by (cases c) auto

lemma schema_checks_canon:
  assumes "wf_event ev"
  shows "schema_checks E name (canon_event ev) =
    (if name = ''message_identity_linked'' then identity_link_checks (canon_event ev)
     else schema_checks E name ev)"
  using assms
  by (cases "name = ''message_identity_linked''")
    (simp_all add: schema_checks_def remaining_checks_canon membership_snapshot_checks_canon)

lemma validate_event_canon:
  assumes "wf_event ev" and "validate_event E ev = Inr ()"
  shows "validate_event E (canon_event ev) = Inr ()"
proof -
  from validate_event_name [OF assms(2)] obtain name
    where name: "name \<in> set manifest_events" "jget ev ''event'' = JStr name" by blast
  have "all_checks (schema_checks E name (canon_event ev)) = Inr ()"
    if "all_checks (schema_checks E name ev) = Inr ()"
  proof (cases "name = ''message_identity_linked''")
    case True
    with that have "all_checks (identity_link_checks ev) = Inr ()"
      by (simp add: schema_checks_def)
    with True assms(1) show ?thesis
      by (simp add: schema_checks_canon identity_link_checks_canon)
  next
    case False
    with that assms(1) show ?thesis by (simp add: schema_checks_canon)
  qed
  with assms name show ?thesis
    by (auto simp: validate_event_def all_checks_Cons_Inr timestamp_check_def jget_canon_event)
qed

section \<open>Lines read back\<close>

lemma hex_digit_char: "n < 16 \<Longrightarrow> hex_digit (hex_char n) = Some n"
proof -
  have "list_all (\<lambda>k. hex_digit (hex_char k) = Some k) [0..<16]" by code_simp
  moreover assume "n < 16"
  ultimately show ?thesis by (simp add: list_all_iff)
qed

lemma hex_value_text: "hex_value (hex_text k n) = n mod 16 ^ k"
proof (induction k arbitrary: n)
  case 0
  show ?case by (simp add: hex_value_def)
next
  case (Suc k)
  have "n mod 16 ^ Suc k = 16 * (n div 16 mod 16 ^ k) + n mod 16"
    by (simp add: mod_mult2_eq)
  with Suc [of "n div 16"] show ?case by (simp add: hex_value_def hex_digit_char)
qed

lemma length_hex_text [simp]: "length (hex_text k n) = k"
  by (induction k arbitrary: n) simp_all

lemma hex_text_digits: "list_all (\<lambda>c. hex_digit c \<noteq> None) (hex_text k n)"
  by (induction k arbitrary: n) (simp_all add: hex_digit_char)

lemma crc_suffix_encoded:
  "crc_suffix (payload @ ''|CRC32:'' @ hex_text 8 n) = Some (payload, hex_text 8 n)"
  using hex_text_digits [of 8 n] by (simp add: crc_suffix_def)

lemma hex_newline: "newline \<notin> set (hex_text k n)"
proof -
  have "hex_digit newline = None" by (simp add: hex_digit_def)
  with hex_text_digits [of k n] show ?thesis by (auto simp: list_all_iff)
qed

text \<open>The encoded line of an event, where encoding succeeds.\<close>

definition event_body :: "codec \<Rightarrow> event \<Rightarrow> string" where
  "event_body C ev = dumps C ev @ ''|CRC32:'' @ hex_text 8 (unat (crc32 (dumps C ev)))"

definition event_line :: "codec \<Rightarrow> event \<Rightarrow> string" where
  "event_line C ev = event_body C ev @ [newline]"

lemma encode_event_Inr:
  "encode_event E C ev = Inr line \<longleftrightarrow> validate_event E ev = Inr () \<and> line = event_line C ev"
  by (auto simp: encode_event_def event_line_def event_body_def Let_def split: sum.splits)

lemma unat_crc_bound: "unat (crc32 s) < 16 ^ 8"
  using unsigned_less [of "crc32 s"] by simp

lemma parse_line_event_line:
  assumes "codec_ok C ev" and "validate_event E ev = Inr ()"
  shows "parse_line E C (event_line C ev) = Inr (canon_event ev)"
proof -
  from assms have wf: "wf_event ev" and "loads C (dumps C ev) = Some (JObj (canon_event ev))"
    by (simp_all add: codec_ok_def)
  moreover have "hex_value (hex_text 8 (unat (crc32 (dumps C ev)))) = unat (crc32 (dumps C ev))"
    using unat_crc_bound [of "dumps C ev"] by (simp add: hex_value_text)
  moreover have "crc_suffix (event_body C ev) =
      Some (dumps C ev, hex_text 8 (unat (crc32 (dumps C ev))))"
    unfolding event_body_def by (rule crc_suffix_encoded)
  ultimately show ?thesis
    using validate_event_canon [OF wf assms(2)] by (simp add: parse_line_def event_line_def)
qed

lemma event_body_newline:
  "codec_ok C ev \<Longrightarrow> newline \<notin> set (event_body C ev)"
  using hex_newline by (simp add: codec_ok_def event_body_def)

lemma readlines_line:
  "newline \<notin> set l \<Longrightarrow> readlines (l @ newline # rest) = (l @ [newline]) # readlines rest"
  by (induction l) auto

lemma readlines_no_newline: "newline \<notin> set l \<Longrightarrow> l \<noteq> [] \<Longrightarrow> readlines l = [l]"
  by (induction l) (auto split: list.split elim: readlines.elims)

lemma readlines_event_lines:
  assumes "\<forall>ev\<in>set evs. codec_ok C ev"
  shows "readlines (concat (map (event_line C) evs) @ tail) =
         map (event_line C) evs @ readlines tail"
  using assms
proof (induction evs)
  case (Cons ev evs)
  have "newline \<notin> set (event_body C ev)"
    using Cons.prems by (simp add: event_body_newline)
  with Cons readlines_line [of "event_body C ev" "concat (map (event_line C) evs) @ tail"]
  show ?case by (simp add: event_line_def [of C ev])
qed simp

text \<open>The checkpoint sequences of a list of events increase strictly, from a previous one.\<close>

fun checkpoints_increase :: "int option \<Rightarrow> event list \<Rightarrow> bool" where
  "checkpoints_increase p [] = True"
| "checkpoints_increase p (ev # evs) =
     (if jget ev ''event'' = JStr ''checkpoint''
      then (case validate_checkpoint_sequence (jget ev ''sequence'') p of
              Inl _ \<Rightarrow> False | Inr n \<Rightarrow> checkpoints_increase (Some n) evs)
      else checkpoints_increase p evs)"

lemma parse_line_no_newline: "newline \<notin> set l \<Longrightarrow> \<exists>e. parse_line E C l = Inl e"
  by (auto simp: parse_line_def dest: last_in_set)

lemma read_loop_event_lines:
  assumes "\<forall>ev\<in>set evs. codec_ok C ev \<and> validate_event E ev = Inr ()"
    and "checkpoints_increase p evs"
    and rest: "\<And>off q. read_loop E C off q rest = Inr ([], at off)"
  shows "read_loop E C offset p (map (event_line C) evs @ rest) =
    Inr (map canon_event evs, at (offset + length (concat (map (event_line C) evs))))"
  using assms(1,2)
proof (induction evs arbitrary: offset p)
  case Nil
  show ?case by (simp add: rest)
next
  case (Cons ev evs)
  have "parse_line E C (event_line C ev) = Inr (canon_event ev)"
    by (rule parse_line_event_line) (use Cons.prems in auto)
  moreover have "wf_event ev" using Cons.prems by (simp add: codec_ok_def)
  ultimately show ?case
    using Cons.prems Cons.IH
    by (cases "jget ev ''event'' = JStr ''checkpoint''")
      (auto simp: jget_canon_event add.assoc split: sum.splits)
qed

lemma read_loop_tail:
  assumes "newline \<notin> set tail"
  shows "read_loop E C off q (if tail = [] then [] else [tail]) =
         Inr ([], if tail = [] then None else Some off)"
  using parse_line_no_newline [OF assms, of E C] by auto

section \<open>Properties\<close>

text \<open>
  C5. A manifest file survives a torn write. For any valid events written one after the other
  (with strictly increasing checkpoints) and followed by any bytes of an unfinished record, that
  is bytes without a newline, reading returns exactly the events, in order and up to the key
  order of their dictionaries, and leaves the file with exactly the bytes of the complete records.
\<close>

theorem read_events_survives_torn_tail:
  assumes "\<forall>ev\<in>set evs. codec_ok C ev \<and> encode_event E C ev = Inr (event_line C ev)"
    and "checkpoints_increase None evs" and "newline \<notin> set tail"
  shows "read_events E C (concat (map (event_line C) evs) @ tail) =
         Inr (map canon_event evs, concat (map (event_line C) evs))"
proof -
  have lines: "readlines (concat (map (event_line C) evs) @ tail) =
      map (event_line C) evs @ (if tail = [] then [] else [tail])"
    using readlines_event_lines [of evs C tail] assms(1,3) by (simp add: readlines_no_newline)
  from assms(1) have "\<forall>ev\<in>set evs. codec_ok C ev \<and> validate_event E ev = Inr ()"
    by (simp add: encode_event_Inr)
  from read_loop_event_lines [where at = "\<lambda>off. if tail = [] then None else Some off",
      OF this assms(2) read_loop_tail [OF assms(3)], of 0] lines
  show ?thesis by (cases "tail = []") (simp_all add: read_events_def)
qed

definition sample_env :: env where
  "sample_env = \<lparr>now = ''2026-01-02T03:04:05+00:00'',
     iso = (\<lambda>_. IsoAware ''202601''), sha256 = (\<lambda>s. ''h'' @ s)\<rparr>"

definition sample_checkpoint :: event where
  "sample_checkpoint =
     [(''event'', JStr ''checkpoint''), (''account_id'', JStr ''acc''),
      (''timestamp'', JStr ''2026-01-02T03:04:05+00:00''), (''sequence'', JInt 1),
      (''batch_id'', JStr ''b'')]"

definition sample_codec :: codec where
  "sample_codec = \<lparr>dumps = (\<lambda>_. ''{}''), loads = (\<lambda>_. Some (JObj (canon_event sample_checkpoint)))\<rparr>"

lemma sample_checkpoint_valid: "validate_event sample_env sample_checkpoint = Inr ()"
  by (simp add: sample_checkpoint_def sample_env_def validate_event_def manifest_events_def
      schema_checks_def schema_defs check_defs field_list_defs parse_timestamp_def check_def
      validate_checkpoint_sequence_def)

theorem read_events_survives_torn_tail_witness:
  "read_events sample_env sample_codec (event_line sample_codec sample_checkpoint @ ''{torn'') =
     Inr ([canon_event sample_checkpoint], event_line sample_codec sample_checkpoint)"
proof -
  have ok: "\<forall>ev\<in>set [sample_checkpoint]. codec_ok sample_codec ev \<and>
      encode_event sample_env sample_codec ev = Inr (event_line sample_codec ev)"
    using sample_checkpoint_valid
    by (simp add: codec_ok_def sample_codec_def encode_event_Inr wf_event_def sample_checkpoint_def)
  have inc: "checkpoints_increase None [sample_checkpoint]"
    by (simp add: sample_checkpoint_def validate_checkpoint_sequence_def)
  show ?thesis
    using read_events_survives_torn_tail [OF ok inc, of "''{torn''"] by simp
qed

end
