(* ===== verification/Identity.thy ===== *)
theory Identity
  imports Mail_Prelude
begin

text \<open>
  Identifiers and keys: account identifiers used as path components
  (\<^verbatim>\<open>domain/accounts.py\<close>), the remote identity keys under which synchronization, deletion and
  rebuild agree on a message (\<^verbatim>\<open>domain/message_identity.py\<close>), and stored IMAP flags
  (\<^verbatim>\<open>domain/imap_flags.py\<close>).
\<close>

section \<open>Account identifiers\<close>

definition forbidden_path_chars :: string where
  "forbidden_path_chars = ''<>:'' @ [CHR 0x22] @ ''/'' @ [CHR 0x5C] @ ''|?*''"

definition reserved_devices :: "string list" where
  "reserved_devices =
     [''con'', ''prn'', ''aux'', ''nul''] @
     map (\<lambda>d. ''com'' @ [d]) ''123456789'' @ map (\<lambda>d. ''lpt'' @ [d]) ''123456789''"

text \<open>\<open>_ACCOUNT_ID_RESERVED\<close>: a device name, alone or before a dot, in any case.\<close>

definition account_id_reserved :: "string \<Rightarrow> bool" where
  "account_id_reserved s \<longleftrightarrow> hd (split_at (\<lambda>c. c = CHR ''.'') (casefold s)) \<in> set reserved_devices"

definition validate_account_id :: "string \<Rightarrow> error + unit" where
  "validate_account_id account_id =
    (if account_id = [] \<or> account_id \<in> {''.'', ''..''}
     then Inl (ValueError ''account_id must not be empty or a path component'')
     else if \<exists>c\<in>set account_id. (of_char c :: nat) < 32
     then Inl (ValueError ''account_id must not contain control characters'')
     else if \<exists>c\<in>set account_id. c \<in> set forbidden_path_chars
     then Inl (ValueError ''account_id contains a forbidden path character'')
     else if last account_id \<in> {CHR ''.'', CHR '' ''}
     then Inl (ValueError ''account_id must not end with a dot or space'')
     else if account_id_reserved account_id
     then Inl (ValueError ''account_id is a reserved Windows device name'')
     else if length account_id > 255
     then Inl (ValueError ''account_id is too long'')
     else Inr ())"

section \<open>Base64 and decimal text\<close>

definition b64_alphabet :: string where
  "b64_alphabet =
     ''ABCDEFGHIJKLMNOPQRSTUVWXYZabcdefghijklmnopqrstuvwxyz0123456789-_''"

definition b64_char :: "nat \<Rightarrow> char" where
  "b64_char n = b64_alphabet ! n"

text \<open>\<open>base64.urlsafe_b64encode\<close>, padding included.\<close>

fun urlsafe_b64encode :: "string \<Rightarrow> string" where
  "urlsafe_b64encode [] = []"
| "urlsafe_b64encode [a] =
     [b64_char (of_char a div 4), b64_char (of_char a mod 4 * 16), CHR ''='', CHR ''='']"
| "urlsafe_b64encode [a, b] =
     [b64_char (of_char a div 4), b64_char (of_char a mod 4 * 16 + of_char b div 16),
      b64_char (of_char b mod 16 * 4), CHR ''='']"
| "urlsafe_b64encode (a # b # c # r) =
     [b64_char (of_char a div 4), b64_char (of_char a mod 4 * 16 + of_char b div 16),
      b64_char (of_char b mod 16 * 4 + of_char c div 64), b64_char (of_char c mod 64)] @
     urlsafe_b64encode r"

definition rstrip :: "('a \<Rightarrow> bool) \<Rightarrow> 'a list \<Rightarrow> 'a list" where
  "rstrip p s = rev (dropWhile p (rev s))"

definition digit_char :: "nat \<Rightarrow> char" where
  "digit_char n = ''0123456789'' ! n"

fun nat_text :: "nat \<Rightarrow> string" where
  "nat_text n = (if n < 10 then [digit_char n] else nat_text (n div 10) @ [digit_char (n mod 10)])"

declare nat_text.simps [simp del]

text \<open>\<open>str.isdecimal\<close> on ASCII text.\<close>

definition isdecimal :: "string \<Rightarrow> bool" where
  "isdecimal s \<longleftrightarrow> s \<noteq> [] \<and> (\<forall>c\<in>set s. c \<in> set ''0123456789'')"

section \<open>Remote identity keys\<close>

definition imap_folder_key :: "string \<Rightarrow> error + string" where
  "imap_folder_key folder_raw_name =
    (if folder_raw_name = [] then Inl (ValueError ''folder_raw_name must not be empty'')
     else Inr (rstrip (\<lambda>c. c = CHR ''='') (urlsafe_b64encode folder_raw_name)))"

definition imap_source_item_key :: "string \<Rightarrow> int \<Rightarrow> int \<Rightarrow> error + string" where
  "imap_source_item_key folder_raw_name uidvalidity uid =
    (if uidvalidity < 0 \<or> uid < 1
     then Inl (ValueError ''uidvalidity and uid must be non-negative and positive respectively'')
     else case imap_folder_key folder_raw_name of
       Inl e \<Rightarrow> Inl e
     | Inr k \<Rightarrow> Inr (''imap:'' @ k @ '':'' @ nat_text (nat uidvalidity) @ '':'' @ nat_text (nat uid)))"

definition gmail_source_item_key :: "string \<Rightarrow> error + string" where
  "gmail_source_item_key gmail_msgid =
    (if \<not> isdecimal gmail_msgid then Inl (ValueError ''gmail_msgid must be a decimal string'')
     else Inr (''gmail:'' @ gmail_msgid))"

definition remote_source_item_key ::
  "string \<Rightarrow> int \<Rightarrow> int \<Rightarrow> string option \<Rightarrow> error + string" where
  "remote_source_item_key folder_raw_name uidvalidity uid gmail_msgid =
    (case gmail_msgid of
       Some g \<Rightarrow> gmail_source_item_key g
     | None \<Rightarrow> imap_source_item_key folder_raw_name uidvalidity uid)"

section \<open>Stored IMAP flags\<close>

definition has_imap_flag :: "string option \<Rightarrow> string \<Rightarrow> bool" where
  "has_imap_flag flags flag \<longleftrightarrow>
     (\<exists>token\<in>set (split_words (case flags of None \<Rightarrow> [] | Some f \<Rightarrow> f)).
        casefold token = casefold flag)"

section \<open>Lemmas\<close>

subsection \<open>Base64\<close>

lemma b64_alphabet_distinct: "distinct b64_alphabet"
  by (simp add: b64_alphabet_def)

lemma b64_alphabet_length: "length b64_alphabet = 64"
  by (simp add: b64_alphabet_def)

lemma b64_char_inject: "m < 64 \<Longrightarrow> n < 64 \<Longrightarrow> b64_char m = b64_char n \<longleftrightarrow> m = n"
  by (simp add: b64_char_def nth_eq_iff_index_eq b64_alphabet_distinct b64_alphabet_length)

lemma b64_char_in: "n < 64 \<Longrightarrow> b64_char n \<in> set b64_alphabet"
  by (simp add: b64_char_def b64_alphabet_length)

lemma b64_not_special:
  "n < 64 \<Longrightarrow> b64_char n \<noteq> CHR ''='' \<and> b64_char n \<noteq> CHR '':''"
proof -
  assume "n < 64"
  then have "b64_char n \<in> set b64_alphabet" by (rule b64_char_in)
  moreover have "CHR ''='' \<notin> set b64_alphabet" and "CHR '':'' \<notin> set b64_alphabet"
    by (simp_all add: b64_alphabet_def)
  ultimately show ?thesis by metis
qed

lemma of_char_bound [simp]: "(of_char (c::char) :: nat) < 256"
  by (metis mod_less_divisor of_char_mod_256 zero_less_numeral)

lemma sextet_bounds:
  "(of_char (a::char) :: nat) div 4 < 64" "(of_char a :: nat) mod 4 * 16 + of_char (b::char) div 16 < 64"
  "(of_char a :: nat) mod 4 * 16 < 64" "(of_char b :: nat) mod 16 * 4 + of_char (c::char) div 64 < 64"
  "(of_char b :: nat) mod 16 * 4 < 64" "(of_char c :: nat) mod 64 < 64"
proof -
  have div: "(of_char (x::char) :: nat) div 4 < 64" "(of_char x :: nat) div 16 < 16"
    "(of_char x :: nat) div 64 < 4" for x
    by (simp_all add: less_mult_imp_div_less)
  have rem: "(of_char (x::char) :: nat) mod 4 < 4" "(of_char x :: nat) mod 16 < 16"
    "(of_char x :: nat) mod 64 < 64" for x
    by simp_all
  show "(of_char a :: nat) div 4 < 64" "(of_char a :: nat) mod 4 * 16 + of_char b div 16 < 64"
    "(of_char a :: nat) mod 4 * 16 < 64" "(of_char b :: nat) mod 16 * 4 + of_char c div 64 < 64"
    "(of_char b :: nat) mod 16 * 4 < 64" "(of_char c :: nat) mod 64 < 64"
    using div [of a] div [of b] div [of c] rem [of a] rem [of b] rem [of c] by linarith+
qed

text \<open>The key text without padding, as one recursion.\<close>

fun b64_text :: "string \<Rightarrow> string" where
  "b64_text [] = []"
| "b64_text [a] = [b64_char (of_char a div 4), b64_char (of_char a mod 4 * 16)]"
| "b64_text [a, b] =
     [b64_char (of_char a div 4), b64_char (of_char a mod 4 * 16 + of_char b div 16),
      b64_char (of_char b mod 16 * 4)]"
| "b64_text (a # b # c # r) =
     [b64_char (of_char a div 4), b64_char (of_char a mod 4 * 16 + of_char b div 16),
      b64_char (of_char b mod 16 * 4 + of_char c div 64), b64_char (of_char c mod 64)] @ b64_text r"

lemma rstrip_append: "\<exists>x\<in>set ys. \<not> p x \<Longrightarrow> rstrip p (xs @ ys) = xs @ rstrip p ys"
  by (auto simp: rstrip_def dropWhile_append)

lemma b64_text_no_pad: "c \<in> set (b64_text s) \<Longrightarrow> c \<noteq> CHR ''='' \<and> c \<noteq> CHR '':''"
  by (induction s rule: b64_text.induct) (auto simp: b64_not_special sextet_bounds)

lemma rstrip_urlsafe_b64encode:
  "rstrip (\<lambda>c. c = CHR ''='') (urlsafe_b64encode s) = b64_text s"
proof (induction s rule: urlsafe_b64encode.induct)
  case (4 a b c r)
  show ?case
  proof (cases "r = []")
    case True
    then show ?thesis by (simp add: rstrip_def b64_not_special sextet_bounds)
  next
    case False
    then have "\<exists>x\<in>set (urlsafe_b64encode r). x \<noteq> CHR ''=''"
      by (cases r rule: urlsafe_b64encode.cases) (auto simp: b64_not_special sextet_bounds)
    then show ?thesis
      using rstrip_append [of "urlsafe_b64encode r" "\<lambda>c. c = CHR ''=''"
          "[b64_char (of_char a div 4), b64_char (of_char a mod 4 * 16 + of_char b div 16),
            b64_char (of_char b mod 16 * 4 + of_char c div 64), b64_char (of_char c mod 64)]"] 4
      by simp
  qed
qed (simp_all add: rstrip_def b64_not_special sextet_bounds)

lemma of_char_eq_nat: "(of_char (a::char) :: nat) = of_char b \<longleftrightarrow> a = b"
  by simp

lemma mixed_radix_inject:
  fixes x y x' y' k :: nat
  assumes "x * k + y = x' * k + y'" "y < k" "y' < k"
  shows "x = x' \<and> y = y'"
proof -
  have "(x * k + y) div k = x" "(x' * k + y') div k = x'"
    using assms(2,3) by simp_all
  with assms(1) have "x = x'" by metis
  with assms(1) show ?thesis by simp
qed

lemma sextets_inject:
  fixes a b c a' b' c' :: nat
  assumes "a < 256" "b < 256" "c < 256" "a' < 256" "b' < 256" "c' < 256"
    and a: "a div 4 = a' div 4" and ab: "a mod 4 * 16 + b div 16 = a' mod 4 * 16 + b' div 16"
    and bc: "b mod 16 * 4 + c div 64 = b' mod 16 * 4 + c' div 64"
  shows "a = a'" "b = b'" "c mod 64 = c' mod 64 \<Longrightarrow> c = c'"
proof -
  have small: "b div 16 < 16" "b' div 16 < 16" "c div 64 < 4" "c' div 64 < 4"
    using assms by (simp_all add: less_mult_imp_div_less)
  from ab small have "a mod 4 = a' mod 4" "b div 16 = b' div 16"
    using mixed_radix_inject [of "a mod 4" 16 "b div 16" "a' mod 4" "b' div 16"] by auto
  moreover from bc small have "b mod 16 = b' mod 16" and c: "c div 64 = c' div 64"
    using mixed_radix_inject [of "b mod 16" 4 "c div 64" "b' mod 16" "c' div 64"] by auto
  ultimately show "a = a'" "b = b'"
    using a by (metis div_mult_mod_eq)+
  show "c = c'" if "c mod 64 = c' mod 64"
    using that c by (metis div_mult_mod_eq)
qed

lemma b64_text_inject: "b64_text s = b64_text t \<longleftrightarrow> s = t"
proof (induction s arbitrary: t rule: b64_text.induct)
  case 1
  then show ?case by (cases t rule: b64_text.cases) auto
next
  case (2 a)
  show ?case
  proof (cases t rule: b64_text.cases)
    case (2 a')
    have "a = a'" if "of_char a div 4 = (of_char a' :: nat) div 4"
      and "of_char a mod 4 * 16 = (of_char a' :: nat) mod 4 * 16"
      using sextets_inject(1) [of "of_char a" 0 0 "of_char a'" 0 0] that
      by (simp add: of_char_eq_nat)
    with 2 show ?thesis by (auto simp: b64_char_inject sextet_bounds)
  qed auto
next
  case (3 a b)
  show ?case
  proof (cases t rule: b64_text.cases)
    case (3 a' b')
    have "a = a' \<and> b = b'" if "of_char a div 4 = (of_char a' :: nat) div 4"
      and "of_char a mod 4 * 16 + of_char b div 16 = (of_char a' :: nat) mod 4 * 16 + of_char b' div 16"
      and "of_char b mod 16 * 4 = (of_char b' :: nat) mod 16 * 4"
      using sextets_inject [of "of_char a" "of_char b" 0 "of_char a'" "of_char b'" 0] that
      by (simp add: of_char_eq_nat)
    with 3 show ?thesis by (auto simp: b64_char_inject sextet_bounds)
  qed auto
next
  case (4 a b c r)
  show ?case
  proof (cases t rule: b64_text.cases)
    case (4 a' b' c' r')
    have "a = a' \<and> b = b' \<and> c = c'" if "of_char a div 4 = (of_char a' :: nat) div 4"
      and "of_char a mod 4 * 16 + of_char b div 16 = (of_char a' :: nat) mod 4 * 16 + of_char b' div 16"
      and "of_char b mod 16 * 4 + of_char c div 64 = (of_char b' :: nat) mod 16 * 4 + of_char c' div 64"
      and "of_char c mod 64 = (of_char c' :: nat) mod 64"
      using sextets_inject [of "of_char a" "of_char b" "of_char c" "of_char a'" "of_char b'" "of_char c'"]
        that by (simp add: of_char_eq_nat)
    with 4 "4.IH" show ?thesis by (auto simp: b64_char_inject sextet_bounds)
  qed auto
qed

subsection \<open>Decimal text\<close>

definition digit_value :: "char \<Rightarrow> nat" where
  "digit_value c = of_char c - 48"

definition text_value :: "string \<Rightarrow> nat" where
  "text_value s = foldl (\<lambda>n c. 10 * n + digit_value c) 0 s"

lemma digit_value_char: "n < 10 \<Longrightarrow> digit_value (digit_char n) = n"
proof -
  assume "n < 10"
  then have "n \<in> {0, 1, 2, 3, 4, 5, 6, 7, 8, 9}" by auto
  then show ?thesis by (auto simp: digit_value_def digit_char_def)
qed

lemma digit_char_decimal: "n < 10 \<Longrightarrow> digit_char n \<in> set ''0123456789''"
  unfolding digit_char_def by (rule nth_mem) simp

lemma text_value_nat_text: "text_value (nat_text n) = n"
proof (induction n rule: nat_text.induct)
  case (1 n)
  show ?case
  proof (cases "n < 10")
    case True
    then show ?thesis by (simp add: nat_text.simps [of n] text_value_def digit_value_char)
  next
    case False
    with 1 have "text_value (nat_text (n div 10)) = n div 10" by simp
    with False show ?thesis
      by (simp add: nat_text.simps [of n] text_value_def digit_value_char)
  qed
qed

lemma nat_text_inject: "nat_text m = nat_text n \<longleftrightarrow> m = n"
  by (metis text_value_nat_text)

lemma nat_text_decimal: "c \<in> set (nat_text n) \<Longrightarrow> c \<in> set ''0123456789''"
proof (induction n rule: nat_text.induct)
  case (1 n)
  show ?case
  proof (cases "n < 10")
    case True
    with 1(2) digit_char_decimal [of n] show ?thesis
      by (auto simp: nat_text.simps [of n])
  next
    case False
    with 1 digit_char_decimal [of "n mod 10"] show ?thesis
      by (auto simp: nat_text.simps [of n])
  qed
qed

lemma nat_text_no_colon: "CHR '':'' \<notin> set (nat_text n)"
  using nat_text_decimal [of "CHR '':''" n] by auto

subsection \<open>Keys\<close>

lemma split_first_colon:
  assumes "a @ c # b = a' @ c # b'" and "c \<notin> set a" and "c \<notin> set a'"
  shows "a = a' \<and> b = b'"
proof -
  have "takeWhile (\<lambda>x. x \<noteq> c) (a @ c # b) = a" "takeWhile (\<lambda>x. x \<noteq> c) (a' @ c # b') = a'"
    using assms(2,3) by (auto simp: takeWhile_append2 takeWhile_tail)
  with assms(1) show ?thesis by (metis append_same_eq append_eq_append_conv list.inject)
qed

lemma imap_source_item_key_Inr:
  "imap_source_item_key f uv u = Inr k \<longleftrightarrow>
     0 \<le> uv \<and> 1 \<le> u \<and> f \<noteq> [] \<and>
     k = ''imap:'' @ b64_text f @ '':'' @ nat_text (nat uv) @ '':'' @ nat_text (nat u)"
  by (auto simp: imap_source_item_key_def imap_folder_key_def rstrip_urlsafe_b64encode)

lemma gmail_source_item_key_Inr:
  "gmail_source_item_key g = Inr k \<longleftrightarrow> isdecimal g \<and> k = ''gmail:'' @ g"
  by (auto simp: gmail_source_item_key_def)

lemma imap_key_inject:
  assumes "imap_source_item_key f uv u = Inr k" and "imap_source_item_key f' uv' u' = Inr k"
  shows "f = f' \<and> uv = uv' \<and> u = u'"
proof -
  from assms have bounds: "0 \<le> uv" "0 \<le> uv'" "1 \<le> u" "1 \<le> u'"
    and eq: "b64_text f @ CHR '':'' # (nat_text (nat uv) @ CHR '':'' # nat_text (nat u)) =
             b64_text f' @ CHR '':'' # (nat_text (nat uv') @ CHR '':'' # nat_text (nat u'))"
    by (auto simp: imap_source_item_key_Inr)
  have "b64_text f = b64_text f'"
    and rest: "nat_text (nat uv) @ CHR '':'' # nat_text (nat u) =
               nat_text (nat uv') @ CHR '':'' # nat_text (nat u')"
    using split_first_colon [OF eq] b64_text_no_pad by blast+
  moreover have "nat_text (nat uv) = nat_text (nat uv') \<and> nat_text (nat u) = nat_text (nat u')"
    by (rule split_first_colon [OF rest]) (rule nat_text_no_colon)+
  ultimately show ?thesis
    using bounds by (auto simp: b64_text_inject nat_text_inject eq_nat_nat_iff)
qed

subsection \<open>Flags\<close>

lemma split_words_join:
  assumes "\<forall>w\<in>set ws. w \<noteq> [] \<and> (\<forall>c\<in>set w. \<not> is_space c)"
  shows "split_words (join_with CHR '' '' ws) = ws"
proof (cases "ws = []")
  case True
  then show ?thesis by (simp add: split_words_def)
next
  case False
  have "split_at is_space (join_with CHR '' '' ws) = ws"
    by (rule split_at_join) (use False assms in \<open>auto simp: is_space_def\<close>)
  with assms show ?thesis by (simp add: split_words_def filter_id_conv)
qed

lemma has_imap_flag_join:
  assumes "\<forall>w\<in>set ws. w \<noteq> [] \<and> (\<forall>c\<in>set w. \<not> is_space c)"
  shows "has_imap_flag (Some (join_with CHR '' '' ws)) flag \<longleftrightarrow>
         casefold flag \<in> casefold ` set ws"
  using split_words_join [OF assms] by (auto simp: has_imap_flag_def image_iff eq_commute)

section \<open>Properties\<close>

text \<open>
  C29. Remote identity keys identify messages: two successful keys of an account are equal only if
  they name the same Gmail message, or both name a plain IMAP location with the same folder name,
  UIDVALIDITY and UID. So a key never merges two IMAP locations, and a Gmail key never equals an
  IMAP key.
\<close>

theorem remote_source_item_key_injective:
  assumes "remote_source_item_key f uv u g = Inr k"
    and "remote_source_item_key f' uv' u' g' = Inr k"
  shows "g = g' \<and> (g = None \<longrightarrow> f = f' \<and> uv = uv' \<and> u = u')"
proof -
  have "k \<noteq> ''gmail:'' @ d" if "imap_source_item_key p v w = Inr k" for p v w d
    using that by (auto simp: imap_source_item_key_Inr)
  then show ?thesis
    using assms imap_key_inject [of f uv u k f' uv' u']
    by (auto simp: remote_source_item_key_def gmail_source_item_key_Inr split: option.splits)
qed

theorem remote_source_item_key_injective_witness:
  "remote_source_item_key ''INBOX'' 7 12 None = Inr ''imap:SU5CT1g:7:12'' \<and>
   remote_source_item_key ''INBOX'' 7 13 None \<noteq> Inr ''imap:SU5CT1g:7:12''"
proof -
  have key: "remote_source_item_key ''INBOX'' 7 12 None = Inr ''imap:SU5CT1g:7:12''"
    by (simp add: remote_source_item_key_def imap_source_item_key_Inr b64_char_def
        b64_alphabet_def nat_text.simps digit_char_def)
  with remote_source_item_key_injective [OF key, of "''INBOX''" 7 13 None] show ?thesis by auto
qed

end
