(* ===== verification/Manifest.thy ===== *)
theory Manifest
  imports Manifest_File Identity
begin

text \<open>
  The manifest writer and reader of one account (\<^verbatim>\<open>infrastructure/storage/manifest.py\<close>) over the
  events they append: an append-only log of events, each in the file of its UTC month, of which a
  prefix has been flushed and synced. The reader sees the synced records, month by month. A locale
  states what the use cases rely on of such a log.
\<close>

section \<open>Writer\<close>

definition manifest_validate_account_id :: "string \<Rightarrow> error + unit" where
  "manifest_validate_account_id account_id =
    check (\<not> (account_id = [] \<or> account_id \<in> {''.'', ''..''} \<or> CHR ''/'' \<in> set account_id \<or>
              CHR 0x5C \<in> set account_id \<or> CHR 0x00 \<in> set account_id \<or>
              (\<exists>c\<in>set ('':*?'' @ [CHR 0x22] @ ''<>|''). c \<in> set account_id)))
      (ValueError ''account_id must be a filesystem-safe single path component'')"

record manifest =
  man_account :: string
  man_log :: "(string \<times> event) list"
  man_synced :: nat
  man_seq :: "int option"

definition append_event :: "env \<Rightarrow> event \<Rightarrow> (manifest, unit) prog" where
  "append_event E ev = (\<lambda>m. case validate_event E ev of
     Inl e \<Rightarrow> (Inl e, m)
   | Inr _ \<Rightarrow>
       (case (if jget ev ''event'' = JStr ''checkpoint''
              then map_sum id Some (validate_checkpoint_sequence (jget ev ''sequence'') (man_seq m))
              else Inr (man_seq m)) of
          Inl e \<Rightarrow> (Inl e, m)
        | Inr next_sequence \<Rightarrow>
            (case parse_timestamp E (jget ev ''timestamp'') of
               Inl e \<Rightarrow> (Inl e, m)
             | Inr month \<Rightarrow>
                 (Inr (), m\<lparr>man_log := man_log m @ [(month, ev)], man_seq := next_sequence\<rparr>))))"

definition flush_and_sync :: "(manifest, unit) prog" where
  "flush_and_sync = modify (\<lambda>m. m\<lparr>man_synced := length (man_log m)\<rparr>)"

lemma run_flush_and_sync [simp]:
  "flush_and_sync m = (Inr (), m\<lparr>man_synced := length (man_log m)\<rparr>)"
  by (simp add: flush_and_sync_def)

definition checkpoint_event :: "env \<Rightarrow> string \<Rightarrow> int \<Rightarrow> string \<Rightarrow> event" where
  "checkpoint_event E account_id seq batch_id =
     [(''event'', JStr ''checkpoint''), (''account_id'', JStr account_id),
      (''timestamp'', JStr (now E)), (''sequence'', JInt seq), (''batch_id'', JStr batch_id)]"

definition write_checkpoint :: "env \<Rightarrow> int \<Rightarrow> string \<Rightarrow> (manifest, unit) prog" where
  "write_checkpoint E seq batch_id =
     bindp (gets man_account) (\<lambda>account_id.
       thenp (append_event E (checkpoint_event E account_id seq batch_id)) flush_and_sync)"

section \<open>Reader\<close>

text \<open>The records on disk in the order of the monthly files.\<close>

definition disk_events :: "manifest \<Rightarrow> event list" where
  "disk_events m = map snd (sort_key fst (take (man_synced m) (man_log m)))"

definition read_all_events :: "manifest \<Rightarrow> error + event list" where
  "read_all_events m =
    (if checkpoints_increase None (disk_events m) then Inr (disk_events m)
     else Inl (ManifestCorruptError ''manifest checkpoint sequences are not strictly increasing''))"

definition is_checkpoint :: "event \<Rightarrow> bool" where
  "is_checkpoint ev \<longleftrightarrow> jget ev ''event'' = JStr ''checkpoint''"

definition read_last_checkpoint :: "manifest \<Rightarrow> error + event option" where
  "read_last_checkpoint m = (case read_all_events m of
     Inl e \<Rightarrow> Inl e
   | Inr evs \<Rightarrow> Inr (foldl (\<lambda>latest ev. if is_checkpoint ev then Some ev else latest) None evs))"

definition last_checkpoint_sequence :: "manifest \<Rightarrow> error + int option" where
  "last_checkpoint_sequence m = (case read_all_events m of
     Inl e \<Rightarrow> Inl e
   | Inr evs \<Rightarrow> Inr (foldl (\<lambda>latest ev. if is_checkpoint ev
                            then (case jget ev ''sequence'' of JInt n \<Rightarrow> Some n | _ \<Rightarrow> latest)
                            else latest) None evs))"

text \<open>Opening a writer on the files of an account.\<close>

definition open_writer :: "string \<Rightarrow> (string \<times> event) list \<Rightarrow> error + manifest" where
  "open_writer account_id log = (case manifest_validate_account_id account_id of
     Inl e \<Rightarrow> Inl e
   | Inr _ \<Rightarrow>
       (let m = \<lparr>man_account = account_id, man_log = log, man_synced = length log, man_seq = None\<rparr>
        in case last_checkpoint_sequence m of
             Inl e \<Rightarrow> Inl e
           | Inr s \<Rightarrow> Inr (m\<lparr>man_seq := s\<rparr>)))"

text \<open>The events after the last checkpoint (all events when there is none).\<close>

definition read_events_since_checkpoint :: "manifest \<Rightarrow> error + event list" where
  "read_events_since_checkpoint m = (case read_all_events m of
     Inl e \<Rightarrow> Inl e
   | Inr evs \<Rightarrow> Inr (rev (takeWhile (\<lambda>ev. \<not> is_checkpoint ev) (rev evs))))"

definition operation_key :: "event \<Rightarrow> json list" where
  "operation_key ev =
    (if jget ev ''event'' \<in> {JStr ''purge_intent'', JStr ''purged''}
     then map (jget ev) [''account_id'', ''source_item_key'', ''relative_path'', ''file_hash'']
     else map (jget ev) [''account_id'', ''folder_raw_name'', ''uid'', ''uidvalidity'', ''mode''])"

definition is_completion :: "event \<Rightarrow> bool" where
  "is_completion ev \<longleftrightarrow> jget ev ''event'' \<in> {JStr ''purged'', JStr ''remote_delete_completed''}"

definition is_intent :: "event \<Rightarrow> bool" where
  "is_intent ev \<longleftrightarrow> jget ev ''event'' \<in> {JStr ''purge_intent'', JStr ''remote_delete_intent''}"

definition incomplete_intents :: "event list \<Rightarrow> event list" where
  "incomplete_intents evs =
    (let completed = operation_key ` set (filter is_completion evs)
     in filter (\<lambda>ev. is_intent ev \<and> operation_key ev \<notin> completed) evs)"

definition read_incomplete_intents :: "manifest \<Rightarrow> error + event list" where
  "read_incomplete_intents m = map_sum id incomplete_intents (read_all_events m)"

section \<open>Append-only durable logs\<close>

text \<open>
  What a client of the writer relies on: appending adds to the pending records or changes nothing,
  syncing makes everything pending durable, and nothing durable is ever lost.
\<close>

locale durable_log =
  fixes app :: "'e \<Rightarrow> ('s, unit) prog"
    and sync :: "('s, unit) prog"
    and durable :: "'s \<Rightarrow> 'e list"
    and pending :: "'s \<Rightarrow> 'e list"
    and inv :: "'s \<Rightarrow> bool"
  assumes app_ok: "inv s \<Longrightarrow> app e s = (Inr u, t) \<Longrightarrow>
      inv t \<and> durable t = durable s \<and> pending t = pending s @ [e]"
    and app_err: "app e s = (Inl x, t) \<Longrightarrow> t = s"
    and sync_ok: "inv s \<Longrightarrow>
      \<exists>t. sync s = (Inr (), t) \<and> inv t \<and> durable t = durable s @ pending s \<and> pending t = []"
begin

lemma app_sync:
  assumes "inv s" and "thenp (app e) sync s = (Inr u, t)"
  shows "inv t \<and> durable t = durable s @ pending s @ [e] \<and> pending t = []"
proof (cases "app e s")
  case (Pair r s1)
  with assms show ?thesis
  proof (cases r)
    case (Inr v)
    with Pair assms(1) have "inv s1" "durable s1 = durable s" "pending s1 = pending s @ [e]"
      using app_ok [of s e v s1] by simp_all
    with Pair Inr assms(2) sync_ok [of s1] show ?thesis by (auto simp: run_then)
  qed (auto simp: run_then)
qed

lemma app_sync_err:
  assumes "inv s" and "thenp (app e) sync s = (Inl x, t)"
  shows "t = s"
proof (cases "app e s")
  case (Pair r s1)
  with assms show ?thesis
  proof (cases r)
    case (Inl y)
    with Pair assms(2) show ?thesis by (auto simp: run_then dest: app_err)
  next
    case (Inr v)
    with Pair assms(1) have "inv s1" using app_ok [of s e v s1] by simp
    with Pair Inr assms(2) sync_ok [of s1] show ?thesis by (auto simp: run_then)
  qed
qed

lemma app_keeps:
  assumes "inv s"
  shows "inv (snd (app e s)) \<and> durable (snd (app e s)) = durable s"
  using assms app_ok [of s e] app_err [of e s] by (cases "app e s"; cases "fst (app e s)") fastforce+

lemma durable_grows:
  assumes "inv s"
  shows "\<exists>xs. durable (snd (app e s)) = durable s @ xs" "\<exists>xs. durable (snd (sync s)) = durable s @ xs"
  using assms app_keeps [of s e] sync_ok [of s] by auto

lemma for_app:
  "inv s \<Longrightarrow> forp app es s = (Inr u, t) \<Longrightarrow>
   inv t \<and> durable t = durable s \<and> pending t = pending s @ es"
proof (induction es arbitrary: s)
  case Nil
  then show ?case by (simp add: forp_def)
next
  case (Cons e es)
  then obtain v s1 where e: "app e s = (Inr v, s1)" and es: "forp app es s1 = (Inr u, t)"
    by (auto simp: forp_def run_bind split: prod.splits sum.splits)
  from app_ok [OF Cons.prems(1) e] Cons.IH [OF _ es] show ?case by simp
qed

lemma for_app_sync:
  assumes "inv s" and "thenp (forp app es) sync s = (Inr u, t)"
  shows "inv t \<and> durable t = durable s @ pending s @ es \<and> pending t = []"
proof -
  from assms(2) obtain v s1 where s1: "forp app es s = (Inr v, s1)" and t: "sync s1 = (Inr u, t)"
    by (auto simp: run_then split: prod.splits sum.splits)
  from for_app [OF assms(1) s1] sync_ok [of s1] t show ?thesis by auto
qed

text \<open>A run of appends and syncs: \<open>None\<close> is a sync. The durable records are never lost or
  reordered, whichever appends are refused.\<close>

primrec log_run :: "'e option list \<Rightarrow> 's \<Rightarrow> 's" where
  "log_run [] s = s"
| "log_run (c # cs) s = log_run cs (snd (case c of None \<Rightarrow> sync s | Some e \<Rightarrow> app e s))"

lemma log_run_prefix:
  "inv s \<Longrightarrow> inv (log_run cs s) \<and> (\<exists>xs. durable (log_run cs s) = durable s @ xs)"
proof (induction cs arbitrary: s)
  case (Cons c cs)
  let ?s1 = "snd (case c of None \<Rightarrow> sync s | Some e \<Rightarrow> app e s)"
  have "inv ?s1 \<and> (\<exists>xs. durable ?s1 = durable s @ xs)"
    using app_keeps [OF Cons.prems] sync_ok [OF Cons.prems] by (auto split: option.split)
  with Cons.IH [of ?s1] show ?case by auto
qed simp

end

definition durable_events :: "manifest \<Rightarrow> event list" where
  "durable_events m = map snd (take (man_synced m) (man_log m))"

definition pending_events :: "manifest \<Rightarrow> event list" where
  "pending_events m = map snd (drop (man_synced m) (man_log m))"

text \<open>The writer's representation invariant: the synced records are a prefix of the log, every
  record is valid and stands in the file of its month, and the last checkpoint sequence is the one
  of the last checkpoint, over strictly increasing sequences.\<close>

definition last_seq :: "int option \<Rightarrow> event list \<Rightarrow> int option" where
  "last_seq p evs = foldl (\<lambda>latest ev. if is_checkpoint ev
      then (case jget ev ''sequence'' of JInt n \<Rightarrow> Some n | _ \<Rightarrow> latest) else latest) p evs"

definition manifest_inv :: "env \<Rightarrow> manifest \<Rightarrow> bool" where
  "manifest_inv E m \<longleftrightarrow>
     man_synced m \<le> length (man_log m) \<and>
     (\<forall>r\<in>set (man_log m). validate_event E (snd r) = Inr () \<and>
        parse_timestamp E (jget (snd r) ''timestamp'') = Inr (fst r)) \<and>
     man_seq m = last_seq None (map snd (man_log m)) \<and>
     checkpoints_increase None (map snd (man_log m))"

lemma append_event_ok:
  "append_event E ev m = (Inr u, m') \<longleftrightarrow>
   (\<exists>month seq. validate_event E ev = Inr () \<and>
      (if is_checkpoint ev
       then \<exists>n. validate_checkpoint_sequence (jget ev ''sequence'') (man_seq m) = Inr n \<and> seq = Some n
       else seq = man_seq m) \<and>
      parse_timestamp E (jget ev ''timestamp'') = Inr month \<and>
      m' = m\<lparr>man_log := man_log m @ [(month, ev)], man_seq := seq\<rparr>)"
  by (cases "validate_event E ev";
      cases "validate_checkpoint_sequence (jget ev ''sequence'') (man_seq m)";
      cases "parse_timestamp E (jget ev ''timestamp'')")
    (auto simp: append_event_def is_checkpoint_def)

lemma append_event_err: "append_event E ev m = (Inl e, m') \<Longrightarrow> m' = m"
  by (auto simp: append_event_def split: sum.splits)

lemma last_seq_snoc:
  "last_seq p (evs @ [ev]) = (if is_checkpoint ev
     then (case jget ev ''sequence'' of JInt n \<Rightarrow> Some n | _ \<Rightarrow> last_seq p evs) else last_seq p evs)"
  unfolding last_seq_def by simp

lemma last_seq_Cons:
  "last_seq p (ev # evs) = last_seq (if is_checkpoint ev
     then (case jget ev ''sequence'' of JInt n \<Rightarrow> Some n | _ \<Rightarrow> p) else p) evs"
  unfolding last_seq_def by simp

lemma validate_checkpoint_sequence_Inr:
  "validate_checkpoint_sequence v p = Inr n \<longleftrightarrow>
   v = JInt n \<and> 0 \<le> n \<and> (\<forall>q. p = Some q \<longrightarrow> q < n)"
  by (auto simp: validate_checkpoint_sequence_def split: json.splits if_splits option.splits)

lemma checkpoints_increase_snoc:
  "checkpoints_increase p (evs @ [ev]) \<longleftrightarrow> checkpoints_increase p evs \<and>
     (is_checkpoint ev \<longrightarrow>
       (\<exists>n. validate_checkpoint_sequence (jget ev ''sequence'') (last_seq p evs) = Inr n))"
proof (induction evs arbitrary: p)
  case Nil
  show ?case by (auto simp: is_checkpoint_def last_seq_def split: sum.splits)
next
  case (Cons a evs)
  show ?case
  proof (cases "is_checkpoint a")
    case True
    show ?thesis
    proof (cases "validate_checkpoint_sequence (jget a ''sequence'') p")
      case (Inl e)
      with True show ?thesis by (simp add: is_checkpoint_def)
    next
      case (Inr b)
      then have "jget a ''sequence'' = JInt b" by (simp add: validate_checkpoint_sequence_Inr)
      with True Inr Cons.IH [of "Some b"] show ?thesis by (simp add: is_checkpoint_def last_seq_Cons)
    qed
  next
    case False
    with Cons.IH [of p] show ?thesis by (simp add: is_checkpoint_def last_seq_Cons)
  qed
qed

lemma manifest_inv_append:
  assumes "manifest_inv E m" and "append_event E ev m = (Inr u, m')"
  shows "manifest_inv E m'"
  using assms
  by (auto simp: manifest_inv_def append_event_ok last_seq_snoc checkpoints_increase_snoc
      validate_checkpoint_sequence_Inr split: if_splits)

interpretation writer: durable_log "append_event E" flush_and_sync durable_events pending_events
  "manifest_inv E" for E
proof
  fix s :: manifest and ev u t
  assume "manifest_inv E s" "append_event E ev s = (Inr u, t)"
  then show "manifest_inv E t \<and> durable_events t = durable_events s \<and>
      pending_events t = pending_events s @ [ev]"
    using manifest_inv_append [of E s ev u t]
    by (auto simp: append_event_ok durable_events_def pending_events_def manifest_inv_def)
next
  fix s t :: manifest and ev x
  show "append_event E ev s = (Inl x, t) \<Longrightarrow> t = s" by (rule append_event_err)
next
  fix s :: manifest
  assume "manifest_inv E s"
  then show "\<exists>t. flush_and_sync s = (Inr (), t) \<and> manifest_inv E t \<and>
      durable_events t = durable_events s @ pending_events s \<and> pending_events t = []"
    by (simp add: manifest_inv_def durable_events_def pending_events_def
        flip: map_append)
qed


section \<open>Reading back\<close>

lemma last_seq_checkpoint_sequence:
  "last_checkpoint_sequence m = map_sum id (last_seq None) (read_all_events m)"
  by (cases "read_all_events m") (simp_all add: last_checkpoint_sequence_def last_seq_def)

lemma disk_events_sorted:
  "sorted (map fst (take (man_synced m) (man_log m))) \<Longrightarrow> disk_events m = durable_events m"
  by (simp add: disk_events_def durable_events_def sorted_sort_id sort_key_id_if_sorted)

lemma checkpoints_increase_append:
  "checkpoints_increase p (xs @ ys) \<Longrightarrow> checkpoints_increase p xs"
  by (induction xs arbitrary: p) (auto split: if_splits sum.splits)

lemma checkpoints_increase_durable:
  "manifest_inv E m \<Longrightarrow> checkpoints_increase None (durable_events m)"
  using checkpoints_increase_append [of None "durable_events m" "pending_events m"]
  by (simp add: manifest_inv_def durable_events_def pending_events_def flip: map_append)

lemma read_all_durable:
  assumes "manifest_inv E m" and "sorted (map fst (take (man_synced m) (man_log m)))"
  shows "read_all_events m = Inr (durable_events m)"
  using assms by (simp add: read_all_events_def disk_events_sorted checkpoints_increase_durable)

lemma manifest_inv_synced:
  assumes "manifest_inv E m"
  shows "manifest_inv E \<lparr>man_account = a, man_log = take (man_synced m) (man_log m),
     man_synced = man_synced m, man_seq = last_seq None (durable_events m)\<rparr>"
  using assms checkpoints_increase_durable [OF assms]
  by (auto simp: manifest_inv_def durable_events_def dest: in_set_takeD)

lemma foldl_last_checkpoint:
  "\<forall>ev\<in>set evs. \<not> is_checkpoint ev \<Longrightarrow>
   foldl (\<lambda>latest ev. if is_checkpoint ev then Some ev else latest) p evs = p"
  by (induction evs) auto

section \<open>Properties\<close>

text \<open>
  C4. The manifest is an append-only durable log. Whatever sequence of appends (refused or not)
  and flushes a client issues, the records that were durable stay durable, in place and in order,
  and the writer's invariant holds throughout: valid records only, each in the file of its month,
  checkpoint sequences strictly increasing.
\<close>

theorem manifest_durable_prefix:
  assumes "manifest_inv E m"
  shows "manifest_inv E (writer.log_run E cs m) \<and>
         (\<exists>xs. durable_events (writer.log_run E cs m) = durable_events m @ xs)"
  using assms by (rule writer.log_run_prefix)

definition empty_manifest :: "string \<Rightarrow> manifest" where
  "empty_manifest account_id =
     \<lparr>man_account = account_id, man_log = [], man_synced = 0, man_seq = None\<rparr>"

lemma manifest_inv_empty [simp]: "manifest_inv E (empty_manifest a)"
  by (simp add: manifest_inv_def empty_manifest_def last_seq_def)

lemma append_sample_checkpoint:
  "append_event sample_env sample_checkpoint (empty_manifest a) =
     (Inr (), (empty_manifest a)\<lparr>man_log := [(''202601'', sample_checkpoint)], man_seq := Some 1\<rparr>)"
  using sample_checkpoint_valid
  by (simp add: append_event_def sample_checkpoint_def validate_checkpoint_sequence_def
      parse_timestamp_def sample_env_def empty_manifest_def)

theorem manifest_durable_prefix_witness:
  "durable_events (writer.log_run sample_env [Some sample_checkpoint, None, Some []]
     (empty_manifest ''acc'')) = [sample_checkpoint] \<and>
   manifest_inv sample_env (writer.log_run sample_env [Some sample_checkpoint, None, Some []]
     (empty_manifest ''acc''))"
proof -
  have "append_event sample_env [] m = (Inl (ValueError ''unsupported manifest event''), m)" for m
    by (simp add: append_event_def validate_event_def jget_def)
  then have "durable_events (writer.log_run sample_env [Some sample_checkpoint, None, Some []]
     (empty_manifest ''acc'')) = [sample_checkpoint]"
    by (simp add: append_sample_checkpoint durable_events_def)
  then show ?thesis
    by (rule conjI) (rule conjunct1, rule manifest_durable_prefix, rule manifest_inv_empty)
qed

text \<open>
  C30. A writer can be reopened on its own files. When the months of the durable records do not go
  back (a clock that was not set back over the end of a month), reading returns exactly the durable
  records in the order written, and opening a new writer succeeds, satisfies the invariant, and
  continues after the last durable checkpoint sequence: pending records are forgotten, nothing else.
\<close>

theorem reopen_continues_durable:
  assumes "manifest_inv E m" and "manifest_validate_account_id a = Inr ()"
    and "sorted (map fst (take (man_synced m) (man_log m)))"
  shows "read_all_events m = Inr (durable_events m) \<and>
    (\<exists>m'. open_writer a (take (man_synced m) (man_log m)) = Inr m' \<and> manifest_inv E m' \<and>
      durable_events m' = durable_events m \<and> pending_events m' = [] \<and>
      man_seq m' = last_seq None (durable_events m))"
proof -
  let ?log = "take (man_synced m) (man_log m)"
  let ?m = "\<lparr>man_account = a, man_log = ?log, man_synced = man_synced m,
             man_seq = last_seq None (durable_events m)\<rparr>"
  have len: "length ?log = man_synced m" using assms(1) by (simp add: manifest_inv_def)
  have inv: "manifest_inv E ?m" using assms(1) by (rule manifest_inv_synced)
  have "read_all_events \<lparr>man_account = a, man_log = ?log, man_synced = man_synced m,
      man_seq = None\<rparr> = read_all_events m"
    by (simp add: read_all_events_def disk_events_def)
  with assms read_all_durable [OF assms(1,3)] len have "open_writer a ?log = Inr ?m"
    by (simp add: open_writer_def last_seq_checkpoint_sequence)
  with inv read_all_durable [OF assms(1,3)] show ?thesis
    by (simp add: durable_events_def pending_events_def)
qed

theorem reopen_continues_durable_witness:
  "\<exists>m'. open_writer ''acc'' [(''202601'', sample_checkpoint)] = Inr m' \<and> man_seq m' = Some 1"
proof -
  let ?m = "writer.log_run sample_env [Some sample_checkpoint, None] (empty_manifest ''acc'')"
  have m: "?m = \<lparr>man_account = ''acc'', man_log = [(''202601'', sample_checkpoint)],
      man_synced = 1, man_seq = Some 1\<rparr>"
    by (simp add: append_sample_checkpoint) (simp add: empty_manifest_def)
  have "manifest_inv sample_env ?m"
    by (rule conjunct1, rule writer.log_run_prefix, rule manifest_inv_empty)
  with m have inv: "manifest_inv sample_env \<lparr>man_account = ''acc'',
      man_log = [(''202601'', sample_checkpoint)], man_synced = 1, man_seq = Some 1\<rparr>"
    by metis
  have a: "manifest_validate_account_id ''acc'' = Inr ()"
    by (simp add: manifest_validate_account_id_def)
  have "last_seq None [sample_checkpoint] = Some 1"
    by (simp add: last_seq_def is_checkpoint_def sample_checkpoint_def)
  with reopen_continues_durable [OF inv a] show ?thesis
    by (auto simp: durable_events_def)
qed

text \<open>
  Incomplete intents follow the log record by record. A completion record removes exactly the
  reported intents with its operation key; an intent record is reported last, unless some earlier
  completion carries the same key, in which case it is never reported; any other record changes
  nothing.
\<close>

lemma incomplete_intents_step:
  "incomplete_intents (evs @ [ev]) =
    (if is_completion ev
     then filter (\<lambda>i. operation_key i \<noteq> operation_key ev) (incomplete_intents evs)
     else if is_intent ev \<and> operation_key ev \<notin> operation_key ` set (filter is_completion evs)
     then incomplete_intents evs @ [ev]
     else incomplete_intents evs)"
proof (cases "is_completion ev")
  case True
  then have "\<not> is_intent ev" by (auto simp: is_completion_def is_intent_def)
  with True show ?thesis
    by (auto simp: incomplete_intents_def Let_def intro!: filter_cong)
next
  case False
  then show ?thesis by (simp add: incomplete_intents_def Let_def)
qed

text \<open>
  The batch protocol of synchronization: writing a checkpoint and then appending and flushing
  events that are not checkpoints leaves exactly these events since the last checkpoint, and the
  checkpoint itself is the last one read, as long as the months do not go back.
\<close>

lemma events_since_checkpoint_exact:
  assumes "manifest_inv E m"
    and "write_checkpoint E n batch m = (Inr (), m1)"
    and "\<forall>ev\<in>set evs. \<not> is_checkpoint ev"
    and "thenp (forp (append_event E) evs) flush_and_sync m1 = (Inr (), m2)"
    and "sorted (map fst (man_log m2))"
  shows "read_events_since_checkpoint m2 = Inr evs \<and>
         read_last_checkpoint m2 = Inr (Some (checkpoint_event E (man_account m) n batch))"
proof -
  let ?c = "checkpoint_event E (man_account m) n batch"
  from assms(2) have "thenp (append_event E ?c) flush_and_sync m = (Inr (), m1)"
    by (simp add: write_checkpoint_def)
  from writer.app_sync [OF assms(1) this]
  have m1: "manifest_inv E m1" "durable_events m1 = durable_events m @ pending_events m @ [?c]"
    "pending_events m1 = []" by simp_all
  from writer.for_app_sync [OF m1(1) assms(4)] m1
  have m2: "manifest_inv E m2" "durable_events m2 = durable_events m @ pending_events m @ ?c # evs"
    by simp_all
  have "sorted (map fst (take (man_synced m2) (man_log m2)))"
    using assms(5) by (simp add: sorted_wrt_take flip: take_map)
  from read_all_durable [OF m2(1) this] m2(2)
  have read: "read_all_events m2 = Inr ((durable_events m @ pending_events m) @ ?c # evs)" by simp
  have c: "is_checkpoint ?c" by (simp add: is_checkpoint_def checkpoint_event_def)
  from read c assms(3) show ?thesis
    by (simp add: read_events_since_checkpoint_def read_last_checkpoint_def takeWhile_append
        foldl_last_checkpoint)
qed

lemma events_since_checkpoint_exact_witness:
  "\<exists>m2. read_events_since_checkpoint m2 = Inr [] \<and> man_log m2 \<noteq> [] \<and>
     read_last_checkpoint m2 = Inr (Some (checkpoint_event sample_env ''acc'' 1 ''b''))"
proof -
  let ?m2 = "(empty_manifest ''acc'')\<lparr>man_log := [(''202601'', sample_checkpoint)],
     man_seq := Some 1, man_synced := 1\<rparr>"
  have "checkpoint_event sample_env ''acc'' 1 ''b'' = sample_checkpoint"
    by (simp add: checkpoint_event_def sample_checkpoint_def sample_env_def)
  then have c: "write_checkpoint sample_env 1 ''b'' (empty_manifest ''acc'') = (Inr (), ?m2)"
    by (simp add: write_checkpoint_def empty_manifest_def [of "''acc''"]
        append_sample_checkpoint [unfolded empty_manifest_def, of "''acc''"])
  have e: "thenp (forp (append_event sample_env) []) flush_and_sync ?m2 = (Inr (), ?m2)"
    by (simp add: forp_def)
  from events_since_checkpoint_exact [OF manifest_inv_empty c _ e] show ?thesis
    by (intro exI [of _ ?m2]) (simp add: empty_manifest_def [of "''acc''"])
qed

end
