(* ===== verification/Tables.thy ===== *)
theory Tables
  imports Mail_Prelude
begin

text \<open>
  Tables as lists of rows: the SQL statements the repositories issue (conditional update, delete,
  insert, upsert) with the uniqueness constraints they keep. A partial unique index is a key that
  is \<open>None\<close> for the rows it does not cover.
\<close>

section \<open>Statements\<close>

definition update_where :: "('r \<Rightarrow> bool) \<Rightarrow> ('r \<Rightarrow> 'r) \<Rightarrow> 'r list \<Rightarrow> 'r list" where
  "update_where p f rows = map (\<lambda>r. if p r then f r else r) rows"

definition delete_where :: "('r \<Rightarrow> bool) \<Rightarrow> 'r list \<Rightarrow> 'r list" where
  "delete_where p rows = filter (\<lambda>r. \<not> p r) rows"

text \<open>\<open>INSERT ... ON CONFLICT(key) DO UPDATE\<close>: the rows with the key are updated, or a new row is
  appended when there is none.\<close>

definition upsert_row :: "('r \<Rightarrow> 'k) \<Rightarrow> 'k \<Rightarrow> ('r \<Rightarrow> 'r) \<Rightarrow> 'r \<Rightarrow> 'r list \<Rightarrow> 'r list" where
  "upsert_row key k upd new rows =
    (if k \<in> key ` set rows then update_where (\<lambda>r. key r = k) upd rows else rows @ [new])"

section \<open>Unique indexes\<close>

definition uniq :: "('r \<Rightarrow> 'k) \<Rightarrow> 'r list \<Rightarrow> bool" where
  "uniq key rows \<longleftrightarrow> distinct (map key rows)"

definition differ :: "'k option \<Rightarrow> 'k option \<Rightarrow> bool" where
  "differ a b \<longleftrightarrow> a = None \<or> a \<noteq> b"

definition uniq_some :: "('r \<Rightarrow> 'k option) \<Rightarrow> 'r list \<Rightarrow> bool" where
  "uniq_some key rows \<longleftrightarrow> sorted_wrt (\<lambda>r s. differ (key r) (key s)) rows"

lemma uniq_Nil [simp]: "uniq key []"
  by (simp add: uniq_def)

lemma uniq_snoc [simp]: "uniq key (rows @ [r]) \<longleftrightarrow> uniq key rows \<and> key r \<notin> key ` set rows"
  by (auto simp: uniq_def)

lemma uniq_delete [intro]: "uniq key rows \<Longrightarrow> uniq key (delete_where p rows)"
  by (simp add: uniq_def delete_where_def distinct_map_filter)

lemma map_key_update:
  "(\<And>r. r \<in> set rows \<Longrightarrow> p r \<Longrightarrow> key (f r) = key r) \<Longrightarrow> map key (update_where p f rows) = map key rows"
  by (simp add: update_where_def)

lemma uniq_update [intro]:
  "uniq key rows \<Longrightarrow> (\<And>r. r \<in> set rows \<Longrightarrow> p r \<Longrightarrow> key (f r) = key r) \<Longrightarrow>
   uniq key (update_where p f rows)"
  by (simp add: uniq_def map_key_update)

lemma uniq_inj: "uniq key rows \<Longrightarrow> r \<in> set rows \<Longrightarrow> s \<in> set rows \<Longrightarrow> key r = key s \<Longrightarrow> r = s"
  by (auto simp: uniq_def distinct_map dest: inj_onD)

lemma image_key_update:
  "(\<And>r. r \<in> set rows \<Longrightarrow> p r \<Longrightarrow> key (f r) = key r) \<Longrightarrow> key ` set (update_where p f rows) = key ` set rows"
  by (metis list.set_map map_key_update)

lemma set_update_where: "set (update_where p f rows) = (\<lambda>r. if p r then f r else r) ` set rows"
  by (simp add: update_where_def)

lemma set_delete_where [simp]: "set (delete_where p rows) = {r \<in> set rows. \<not> p r}"
  by (simp add: delete_where_def)

lemma length_update_where [simp]: "length (update_where p f rows) = length rows"
  by (simp add: update_where_def)

lemma update_where_Nil [simp]: "update_where p f [] = []"
  by (simp add: update_where_def)

lemma update_where_none: "\<forall>r\<in>set rows. \<not> p r \<Longrightarrow> update_where p f rows = rows"
  by (induction rows) (auto simp: update_where_def)

lemma uniq_some_snoc:
  "uniq_some key (rows @ [r]) \<longleftrightarrow>
   uniq_some key rows \<and> (\<forall>k. key r = Some k \<longrightarrow> (\<forall>s\<in>set rows. key s \<noteq> Some k))"
  by (cases "key r") (auto simp: uniq_some_def sorted_wrt_append differ_def)

lemma uniq_some_Nil [simp]: "uniq_some key []"
  by (simp add: uniq_some_def)

lemma uniq_some_inj:
  "uniq_some key rows \<Longrightarrow> r \<in> set rows \<Longrightarrow> s \<in> set rows \<Longrightarrow> key r = Some k \<Longrightarrow> key s = Some k \<Longrightarrow> r = s"
  by (induction rows) (auto simp: uniq_some_def differ_def)

lemma uniq_some_delete [intro]: "uniq_some key rows \<Longrightarrow> uniq_some key (delete_where p rows)"
  by (simp add: uniq_some_def delete_where_def sorted_wrt_filter)

lemma uniq_some_update [intro]:
  assumes "uniq_some key rows" and "\<And>r. r \<in> set rows \<Longrightarrow> p r \<Longrightarrow> key (f r) = key r"
  shows "uniq_some key (update_where p f rows)"
  using assms by (induction rows) (auto simp: uniq_some_def update_where_def differ_def)

text \<open>An update of at most one row keeps a partial unique index when the new key of that row is
  free in the other rows.\<close>

lemma uniq_some_update_one:
  assumes "uniq_some key rows" and "uniq pk rows" and "\<And>r. p r \<longleftrightarrow> pk r = k"
    and "\<And>r s c. r \<in> set rows \<Longrightarrow> p r \<Longrightarrow> s \<in> set rows \<Longrightarrow> \<not> p s \<Longrightarrow> key (f r) = Some c \<Longrightarrow>
      key s \<noteq> Some c"
  shows "uniq_some key (update_where p f rows)"
proof -
  have "differ (key (if p (rows ! i) then f (rows ! i) else rows ! i))
      (key (if p (rows ! j) then f (rows ! j) else rows ! j))"
    if ij: "i < j" and j: "j < length rows" for i j
  proof -
    from ij j assms(1) have old: "differ (key (rows ! i)) (key (rows ! j))"
      by (simp add: uniq_some_def sorted_wrt_iff_nth_less)
    have "map pk rows ! i \<noteq> map pk rows ! j"
      using ij j assms(2) unfolding uniq_def by (metis distinct_conv_nth length_map less_trans nat_neq_iff)
    then have one: "\<not> (p (rows ! i) \<and> p (rows ! j))" using ij j assms(3) by auto
    have clash: "differ (key (f (rows ! a))) (key (rows ! b)) \<and>
        differ (key (rows ! b)) (key (f (rows ! a)))"
      if "p (rows ! a)" "\<not> p (rows ! b)" "a < length rows" "b < length rows" for a b
      using assms(4) [of "rows ! a" "rows ! b"] that
      by (cases "key (f (rows ! a))"; cases "key (rows ! b)") (auto simp: differ_def)
    from ij j have "i < length rows" by simp
    with one old clash j show ?thesis by (cases "p (rows ! i)"; cases "p (rows ! j)") auto
  qed
  then show ?thesis
    by (simp add: uniq_some_def update_where_def sorted_wrt_iff_nth_less)
qed

lemma uniq_iff_some: "uniq key rows \<longleftrightarrow> uniq_some (\<lambda>r. Some (key r)) rows"
  by (induction rows) (auto simp: uniq_def uniq_some_def differ_def)

lemma uniq_update_one:
  assumes "uniq key rows" and "\<And>r. p r \<longleftrightarrow> key r = k"
    and "\<And>r s. r \<in> set rows \<Longrightarrow> p r \<Longrightarrow> s \<in> set rows \<Longrightarrow> \<not> p s \<Longrightarrow> key s \<noteq> key (f r)"
  shows "uniq key (update_where p f rows)"
  unfolding uniq_iff_some
  by (rule uniq_some_update_one [where pk = key, OF _ assms(1,2)])
    (use assms in \<open>auto simp flip: uniq_iff_some\<close>)

section \<open>Upserts\<close>

lemma uniq_upsert:
  assumes "uniq key rows" and "key new = k" and "\<And>r. key r = k \<Longrightarrow> key (upd r) = k"
  shows "uniq key (upsert_row key k upd new rows)"
  using assms by (auto simp: upsert_row_def)

lemma upsert_row_in:
  assumes "key new = k" and "\<And>r. key r = k \<Longrightarrow> key (upd r) = k"
  shows "k \<in> key ` set (upsert_row key k upd new rows)"
proof (cases "k \<in> key ` set rows")
  case True
  have "key ` set (update_where (\<lambda>r. key r = k) upd rows) = key ` set rows"
    by (rule image_key_update) (simp add: assms(2))
  with True show ?thesis by (simp add: upsert_row_def)
qed (use assms(1) in \<open>simp add: upsert_row_def\<close>)

lemma upsert_row_other:
  "key r \<noteq> k \<Longrightarrow> key new = k \<Longrightarrow> (\<And>r. key r = k \<Longrightarrow> key (upd r) = k) \<Longrightarrow>
   r \<in> set (upsert_row key k upd new rows) \<longleftrightarrow> r \<in> set rows"
  by (auto simp: upsert_row_def set_update_where image_iff)

lemma upsert_row_twice:
  assumes "\<And>r. key r = k \<Longrightarrow> key (upd r) = k" and "key new = k"
    and "\<And>r. upd (upd r) = upd r" and "upd new = new"
  shows "upsert_row key k upd new (upsert_row key k upd new rows) =
         upsert_row key k upd new rows"
proof (cases "k \<in> key ` set rows")
  case True
  have "key ` set (update_where (\<lambda>r. key r = k) upd rows) = key ` set rows"
    by (rule image_key_update) (simp add: assms(1))
  with True assms(1,3) show ?thesis by (simp add: upsert_row_def update_where_def)
next
  case False
  then have "update_where (\<lambda>r. key r = k) upd rows = rows"
    by (auto intro: update_where_none)
  with False assms(2,4) show ?thesis by (simp add: upsert_row_def update_where_def)
qed

text \<open>Another column under an upsert.\<close>

lemma image_upsert_subset:
  assumes "\<And>r. r \<in> set rows \<Longrightarrow> key r = k \<Longrightarrow> g (upd r) = g r"
  shows "g ` set rows \<subseteq> g ` set (upsert_row key k upd new rows)"
  using image_key_update [of rows "\<lambda>r. key r = k" g upd] assms by (auto simp: upsert_row_def)

lemma uniq_upsert_other:
  assumes "uniq g rows" and "\<And>r. r \<in> set rows \<Longrightarrow> key r = k \<Longrightarrow> g (upd r) = g r"
    and "k \<notin> key ` set rows \<Longrightarrow> g new \<notin> g ` set rows"
  shows "uniq g (upsert_row key k upd new rows)"
  using assms by (auto simp: upsert_row_def intro: uniq_update)

lemma ball_upsert:
  assumes "\<forall>r\<in>set rows. P r" and "\<And>r. r \<in> set rows \<Longrightarrow> key r = k \<Longrightarrow> P r \<Longrightarrow> P (upd r)"
    and "k \<notin> key ` set rows \<Longrightarrow> P new"
  shows "\<forall>r\<in>set (upsert_row key k upd new rows). P r"
  using assms by (auto simp: upsert_row_def set_update_where)

lemma ball_update:
  assumes "\<forall>r\<in>set rows. P r" and "\<And>r. r \<in> set rows \<Longrightarrow> p r \<Longrightarrow> P r \<Longrightarrow> P (f r)"
  shows "\<forall>r\<in>set (update_where p f rows). P r"
  using assms by (auto simp: set_update_where)

end
