(* ===== verification/Repository.thy ===== *)
theory Repository
  imports Tables Identity "HOL-Library.Char_ord" "HOL-Library.List_Lexorder"
begin

text \<open>
  The SQLite message repository (\<^verbatim>\<open>infrastructure/database/message_repository.py\<close>) on the finalized
  schema, in which a message has one row and one membership row per folder. A table is a list of
  rows in row order; a statement that violates a constraint raises \<open>DatabaseError\<close> and changes
  nothing. Each method is a program on the database; the transaction is added in the world state.
\<close>

section \<open>Rows\<close>

datatype local_state = Purged | Trashed | Active

text \<open>The states in the order in which a merge prefers them.\<close>

fun local_state_rank :: "local_state \<Rightarrow> nat" where
  "local_state_rank Purged = 0"
| "local_state_rank Trashed = 1"
| "local_state_rank Active = 2"

instantiation local_state :: linorder
begin

definition less_eq_local_state :: "local_state \<Rightarrow> local_state \<Rightarrow> bool" where
  "less_eq_local_state a b \<longleftrightarrow> local_state_rank a \<le> local_state_rank b"

definition less_local_state :: "local_state \<Rightarrow> local_state \<Rightarrow> bool" where
  "less_local_state a b \<longleftrightarrow> local_state_rank a < local_state_rank b"

instance
proof
  fix a b :: local_state
  show "a \<le> b \<Longrightarrow> b \<le> a \<Longrightarrow> a = b"
    by (cases a; cases b) (simp_all add: less_eq_local_state_def)
qed (auto simp: less_eq_local_state_def less_local_state_def)

end

datatype remote_state = RemotePresent | RemoteDeleted | RemoteMoved | RemoteUnknown | RemoteUncertain | NoRemote

fun local_state_text :: "local_state \<Rightarrow> string" where
  "local_state_text Purged = ''purged''"
| "local_state_text Trashed = ''trashed''"
| "local_state_text Active = ''active''"

fun remote_state_text :: "remote_state \<Rightarrow> string" where
  "remote_state_text RemotePresent = ''present''"
| "remote_state_text RemoteDeleted = ''deleted''"
| "remote_state_text RemoteMoved = ''moved''"
| "remote_state_text RemoteUnknown = ''unknown''"
| "remote_state_text RemoteUncertain = ''uncertain''"
| "remote_state_text NoRemote = ''no_remote''"

record account_row =
  acc_id :: string
  acc_provider_type :: string
  acc_display_name :: "string option"
  acc_host :: "string option"
  acc_port :: "int option"
  acc_username :: "string option"
  acc_is_enabled :: int
  acc_tls_mode :: string
  acc_ca_cert_path :: "string option"
  acc_auth_type :: string
  acc_oauth_provider :: "string option"
  acc_oauth_client_id :: "string option"
  acc_oauth_tenant :: "string option"

record folder_row =
  fld_id :: int
  fld_account_id :: string
  fld_raw_name :: string
  fld_display_name :: string
  fld_uidvalidity :: "int option"
  fld_last_seen_uid :: int
  fld_is_sync_target :: bool
  fld_last_synced_at :: "string option"
  fld_backfill_next_uid :: "int option"
  fld_initial_sync_completed :: bool
  fld_highest_modseq :: "int option"

record message_row =
  msg_id :: int
  msg_account_id :: string
  msg_message_id :: "string option"
  msg_content_key :: string
  msg_source_item_key :: string
  msg_local_state :: local_state
  msg_trashed_at :: "string option"
  msg_relative_path :: "string option"
  msg_file_hash :: "string option"
  msg_subject :: "string option"
  msg_sender :: "string option"
  msg_recipient :: "string option"
  msg_cc :: "string option"
  msg_date_sent :: "string option"
  msg_internal_date :: "string option"
  msg_size_bytes :: "int option"
  msg_has_attachment :: bool
  msg_in_reply_to :: "string option"
  msg_references_ids :: "string option"
  msg_thread_key :: "string option"
  msg_gmail_msgid :: "string option"
  msg_gmail_thrid :: "string option"
  msg_gmail_labels :: "string option"

record membership =
  mf_message_id :: int
  mf_folder_id :: int
  mf_uid :: "int option"
  mf_uidvalidity :: "int option"
  mf_remote_state :: remote_state
  mf_moved_to :: "int option"
  mf_imap_flags :: "string option"
  mf_flags_seen_at :: "string option"
  mf_last_seen_at :: "string option"

record contents =
  cnt_subject_norm :: "string option"
  cnt_sender_norm :: "string option"
  cnt_body_text :: "string option"
  cnt_attachment_names :: "string option"

record failure_row =
  sf_account_id :: string
  sf_folder_id :: int
  sf_uidvalidity :: int
  sf_uid :: int
  sf_error_class :: string
  sf_error_message :: string
  sf_attempt_count :: int

text \<open>A value as the Python code sees it. The column \<open>audit_log.message_id\<close> has TEXT affinity:
  SQLite stores an integer written to it as its decimal text.\<close>

datatype pyval = PyNone | PyInt int | PyStr string

definition int_text :: "int \<Rightarrow> string" where
  "int_text i = (if i < 0 then ''-'' @ nat_text (nat (- i)) else nat_text (nat i))"

fun text_affinity :: "pyval \<Rightarrow> pyval" where
  "text_affinity (PyInt i) = PyStr (int_text i)"
| "text_affinity v = v"

record audit_row =
  aud_occurred_at :: string
  aud_operation :: string
  aud_account_id :: "string option"
  aud_message_id :: pyval
  aud_subject :: "string option"
  aud_size_bytes :: "int option"
  aud_detail :: "string option"

record alias_row =
  al_account_id :: string
  al_observed_key :: string
  al_message_id :: int
  al_evidence_kind :: string

record db =
  accounts :: "account_row list"
  folders :: "folder_row list"
  messages :: "message_row list"
  message_folders :: "membership list"
  message_contents :: "(int \<times> contents) list"
  sync_failures :: "failure_row list"
  audit_log :: "audit_row list"
  app_state :: "(string \<times> string) list"
  aliases :: "alias_row list"
  pst_items :: "(int \<times> int option) list"
  next_folder_id :: int
  next_message_id :: int

section \<open>Keys and foreign keys\<close>

abbreviation folder_key :: "folder_row \<Rightarrow> string \<times> string" where
  "folder_key f \<equiv> (fld_account_id f, fld_raw_name f)"

abbreviation message_key :: "message_row \<Rightarrow> string \<times> string" where
  "message_key m \<equiv> (msg_account_id m, msg_source_item_key m)"

abbreviation membership_key :: "membership \<Rightarrow> int \<times> int" where
  "membership_key x \<equiv> (mf_message_id x, mf_folder_id x)"

text \<open>The partial unique index over \<open>(folder_id, uidvalidity, uid)\<close>: SQL NULLs are distinct.\<close>

definition uid_key :: "membership \<Rightarrow> (int \<times> int \<times> int) option" where
  "uid_key x = (case (mf_uidvalidity x, mf_uid x) of
     (Some v, Some u) \<Rightarrow> Some (mf_folder_id x, v, u) | _ \<Rightarrow> None)"

abbreviation alias_key :: "alias_row \<Rightarrow> string \<times> string" where
  "alias_key a \<equiv> (al_account_id a, al_observed_key a)"

abbreviation failure_key :: "failure_row \<Rightarrow> string \<times> int \<times> int \<times> int" where
  "failure_key s \<equiv> (sf_account_id s, sf_folder_id s, sf_uidvalidity s, sf_uid s)"

definition account_exists :: "db \<Rightarrow> string \<Rightarrow> bool" where
  "account_exists d a \<longleftrightarrow> a \<in> acc_id ` set (accounts d)"

definition folder_exists :: "db \<Rightarrow> int \<Rightarrow> bool" where
  "folder_exists d f \<longleftrightarrow> f \<in> fld_id ` set (folders d)"

definition message_exists :: "db \<Rightarrow> int \<Rightarrow> bool" where
  "message_exists d i \<longleftrightarrow> i \<in> msg_id ` set (messages d)"

definition sql_error :: "string \<Rightarrow> error" where
  "sql_error operation = DatabaseError (''SQLite operation failed: '' @ operation)"

text \<open>A statement with a constraint.\<close>

definition constrained :: "(db \<Rightarrow> bool) \<Rightarrow> string \<Rightarrow> (db \<Rightarrow> db) \<Rightarrow> (db, unit) prog" where
  "constrained ok operation f = (\<lambda>d. if ok d then (Inr (), f d) else (Inl (sql_error operation), d))"

section \<open>Accounts and folders\<close>

record account_arg =
  aa_id :: string
  aa_provider_type :: "string option"
  aa_display_name :: "string option"
  aa_host :: "string option"
  aa_port :: "int option option"
  aa_username :: "string option"
  aa_is_enabled :: "int option"
  aa_tls_mode :: "string option"
  aa_ca_cert_path :: "string option"
  aa_auth_type :: "string option"
  aa_oauth_provider :: "string option"
  aa_oauth_client_id :: "string option"
  aa_oauth_tenant :: "string option"

definition get_default :: "'a option \<Rightarrow> 'a \<Rightarrow> 'a" where
  "get_default x d = (case x of None \<Rightarrow> d | Some v \<Rightarrow> v)"

definition account_values :: "account_arg \<Rightarrow> account_row" where
  "account_values a =
    \<lparr>acc_id = aa_id a, acc_provider_type = get_default (aa_provider_type a) ''imap'',
     acc_display_name = aa_display_name a, acc_host = aa_host a,
     acc_port = get_default (aa_port a) (Some 993), acc_username = aa_username a,
     acc_is_enabled = get_default (aa_is_enabled a) 1,
     acc_tls_mode = get_default (aa_tls_mode a) ''implicit'', acc_ca_cert_path = aa_ca_cert_path a,
     acc_auth_type = get_default (aa_auth_type a) ''password'',
     acc_oauth_provider = aa_oauth_provider a, acc_oauth_client_id = aa_oauth_client_id a,
     acc_oauth_tenant = aa_oauth_tenant a\<rparr>"

definition upsert_account :: "account_arg \<Rightarrow> (db, string) prog" where
  "upsert_account a =
    (if aa_id a = [] then raise (DatabaseError ''Account id is required'')
     else thenp
       (modify (\<lambda>d. d\<lparr>accounts :=
          upsert_row acc_id (aa_id a) (\<lambda>_. account_values a) (account_values a) (accounts d)\<rparr>))
       (ret (aa_id a)))"

definition normalize_account_provider_type :: "string \<Rightarrow> string \<Rightarrow> (db, unit) prog" where
  "normalize_account_provider_type account provider =
    (if account = [] then raise (DatabaseError ''Account id is required'')
     else if provider = [] then raise (DatabaseError ''Provider type is required'')
     else (\<lambda>d. if \<not> account_exists d account
       then (Inl (DatabaseError (''Account does not exist: '' @ account)), d)
       else (Inr (), d\<lparr>accounts := update_where (\<lambda>r. acc_id r = account)
                          (\<lambda>r. r\<lparr>acc_provider_type := provider\<rparr>) (accounts d)\<rparr>)))"

definition list_accounts :: "(db, account_row list) prog" where
  "list_accounts = gets (\<lambda>d. sort_key acc_id (accounts d))"

text \<open>The keys \<open>display_name\<close>, \<open>uidvalidity\<close> and \<open>last_synced_at\<close> of the argument may be absent
  (outer \<open>None\<close>); present ones are updated on conflict.\<close>

record folder_arg =
  fa_account_id :: string
  fa_raw_name :: string
  fa_display_name :: "string option"
  fa_uidvalidity :: "int option option"
  fa_last_seen_uid :: "int option"
  fa_is_sync_target :: "bool option"
  fa_last_synced_at :: "string option option"
  fa_backfill_next_uid :: "int option"
  fa_initial_sync_completed :: "bool option"
  fa_highest_modseq :: "int option"

definition folder_values :: "folder_arg \<Rightarrow> int \<Rightarrow> folder_row" where
  "folder_values f i =
    \<lparr>fld_id = i, fld_account_id = fa_account_id f, fld_raw_name = fa_raw_name f,
     fld_display_name = get_default (fa_display_name f) (fa_raw_name f),
     fld_uidvalidity = get_default (fa_uidvalidity f) None,
     fld_last_seen_uid = get_default (fa_last_seen_uid f) 0,
     fld_is_sync_target = get_default (fa_is_sync_target f) False,
     fld_last_synced_at = get_default (fa_last_synced_at f) None,
     fld_backfill_next_uid = fa_backfill_next_uid f,
     fld_initial_sync_completed = get_default (fa_initial_sync_completed f) False,
     fld_highest_modseq = fa_highest_modseq f\<rparr>"

definition folder_update :: "folder_arg \<Rightarrow> folder_row \<Rightarrow> folder_row" where
  "folder_update f r = r\<lparr>
     fld_display_name := get_default (fa_display_name f) (fld_display_name r),
     fld_uidvalidity := get_default (fa_uidvalidity f) (fld_uidvalidity r),
     fld_last_synced_at := get_default (fa_last_synced_at f) (fld_last_synced_at r)\<rparr>"

definition find_folder :: "db \<Rightarrow> string \<Rightarrow> string \<Rightarrow> folder_row option" where
  "find_folder d account raw = List.find (\<lambda>f. folder_key f = (account, raw)) (folders d)"

definition upsert_folder :: "folder_arg \<Rightarrow> (db, int) prog" where
  "upsert_folder f =
    (let k = (fa_account_id f, fa_raw_name f) in
     thenp
       (constrained (\<lambda>d. k \<in> folder_key ` set (folders d) \<or> account_exists d (fa_account_id f))
          ''upsert folder''
          (\<lambda>d. d\<lparr>folders := upsert_row folder_key k (folder_update f)
                   (folder_values f (next_folder_id d)) (folders d),
                next_folder_id := (if k \<in> folder_key ` set (folders d)
                  then next_folder_id d else next_folder_id d + 1)\<rparr>))
       (bindp (gets (\<lambda>d. find_folder d (fa_account_id f) (fa_raw_name f))) (\<lambda>row.
          case row of
            None \<Rightarrow> raise (DatabaseError ''Folder upsert did not return an id'')
          | Some r \<Rightarrow> ret (fld_id r))))"

definition list_folders :: "string \<Rightarrow> (db, folder_row list) prog" where
  "list_folders account = 
     gets (\<lambda>d. sort_key fld_id (filter (\<lambda>f. fld_account_id f = account) (folders d)))"

definition list_sync_targets :: "string \<Rightarrow> (db, folder_row list) prog" where
  "list_sync_targets account =
     gets (\<lambda>d. sort_key fld_id
       (filter (\<lambda>f. fld_account_id f = account \<and> fld_is_sync_target f) (folders d)))"

definition set_sync_target :: "string \<Rightarrow> string \<Rightarrow> bool \<Rightarrow> (db, unit) prog" where
  "set_sync_target account raw enabled = (\<lambda>d.
     if (account, raw) \<notin> folder_key ` set (folders d)
     then (Inl (DatabaseError (''Folder does not exist: '' @ raw)), d)
     else (Inr (), d\<lparr>folders := update_where (\<lambda>f. folder_key f = (account, raw))
                        (\<lambda>f. f\<lparr>fld_is_sync_target := enabled\<rparr>) (folders d)\<rparr>))"

definition update_folder_columns :: "int \<Rightarrow> (folder_row \<Rightarrow> folder_row) \<Rightarrow> (db, unit) prog" where
  "update_folder_columns folder_id f =
     modify (\<lambda>d. d\<lparr>folders := update_where (\<lambda>r. fld_id r = folder_id) f (folders d)\<rparr>)"

definition initialize_sync_cursors :: "int \<Rightarrow> int \<Rightarrow> int \<Rightarrow> (db, unit) prog" where
  "initialize_sync_cursors folder_id uidvalidity max_uid =
     update_folder_columns folder_id (\<lambda>r. r\<lparr>fld_uidvalidity := Some uidvalidity,
       fld_last_seen_uid := max_uid, fld_backfill_next_uid := Some max_uid,
       fld_initial_sync_completed := (max_uid = 0), fld_highest_modseq := None\<rparr>)"

definition update_sync_cursors ::
  "int \<Rightarrow> int option \<Rightarrow> int option \<Rightarrow> bool option \<Rightarrow> (db, unit) prog" where
  "update_sync_cursors folder_id last_seen_uid backfill_next_uid initial_sync_completed =
    (if last_seen_uid = None \<and> backfill_next_uid = None \<and> initial_sync_completed = None then ret ()
     else update_folder_columns folder_id (\<lambda>r. r\<lparr>
       fld_last_seen_uid := get_default last_seen_uid (fld_last_seen_uid r),
       fld_backfill_next_uid :=
         (case backfill_next_uid of None \<Rightarrow> fld_backfill_next_uid r | Some u \<Rightarrow> Some u),
       fld_initial_sync_completed :=
         get_default initial_sync_completed (fld_initial_sync_completed r)\<rparr>))"

definition set_highest_modseq :: "int \<Rightarrow> int option \<Rightarrow> (db, unit) prog" where
  "set_highest_modseq folder_id v =
     update_folder_columns folder_id (\<lambda>r. r\<lparr>fld_highest_modseq := v\<rparr>)"


section \<open>Messages and memberships\<close>

text \<open>The message columns a record argument may carry, each with its value; \<open>source_item_key\<close> is
  required and part of the conflict target.\<close>

datatype message_column =
    ColMessageId "string option" | ColContentKey string | ColLocalState local_state
  | ColTrashedAt "string option" | ColRelativePath "string option" | ColFileHash "string option"
  | ColSubject "string option" | ColSender "string option" | ColRecipient "string option"
  | ColCc "string option" | ColDateSent "string option" | ColInternalDate "string option"
  | ColSizeBytes "int option" | ColHasAttachment bool | ColInReplyTo "string option"
  | ColReferencesIds "string option" | ColThreadKey "string option"
  | ColGmailMsgid "string option" | ColGmailThrid "string option" | ColGmailLabels "string option"

fun set_column :: "message_column \<Rightarrow> message_row \<Rightarrow> message_row" where
  "set_column (ColMessageId v) m = m\<lparr>msg_message_id := v\<rparr>"
| "set_column (ColContentKey v) m = m\<lparr>msg_content_key := v\<rparr>"
| "set_column (ColLocalState v) m = m\<lparr>msg_local_state := v\<rparr>"
| "set_column (ColTrashedAt v) m = m\<lparr>msg_trashed_at := v\<rparr>"
| "set_column (ColRelativePath v) m = m\<lparr>msg_relative_path := v\<rparr>"
| "set_column (ColFileHash v) m = m\<lparr>msg_file_hash := v\<rparr>"
| "set_column (ColSubject v) m = m\<lparr>msg_subject := v\<rparr>"
| "set_column (ColSender v) m = m\<lparr>msg_sender := v\<rparr>"
| "set_column (ColRecipient v) m = m\<lparr>msg_recipient := v\<rparr>"
| "set_column (ColCc v) m = m\<lparr>msg_cc := v\<rparr>"
| "set_column (ColDateSent v) m = m\<lparr>msg_date_sent := v\<rparr>"
| "set_column (ColInternalDate v) m = m\<lparr>msg_internal_date := v\<rparr>"
| "set_column (ColSizeBytes v) m = m\<lparr>msg_size_bytes := v\<rparr>"
| "set_column (ColHasAttachment v) m = m\<lparr>msg_has_attachment := v\<rparr>"
| "set_column (ColInReplyTo v) m = m\<lparr>msg_in_reply_to := v\<rparr>"
| "set_column (ColReferencesIds v) m = m\<lparr>msg_references_ids := v\<rparr>"
| "set_column (ColThreadKey v) m = m\<lparr>msg_thread_key := v\<rparr>"
| "set_column (ColGmailMsgid v) m = m\<lparr>msg_gmail_msgid := v\<rparr>"
| "set_column (ColGmailThrid v) m = m\<lparr>msg_gmail_thrid := v\<rparr>"
| "set_column (ColGmailLabels v) m = m\<lparr>msg_gmail_labels := v\<rparr>"

definition set_columns :: "message_column list \<Rightarrow> message_row \<Rightarrow> message_row" where
  "set_columns cols m = foldl (\<lambda>r c. set_column c r) m cols"

text \<open>A new row before its columns are set: the defaults of the table.\<close>

definition blank_message :: "int \<Rightarrow> string \<Rightarrow> string \<Rightarrow> message_row" where
  "blank_message i account key =
    \<lparr>msg_id = i, msg_account_id = account, msg_message_id = None, msg_content_key = [],
     msg_source_item_key = key, msg_local_state = Active, msg_trashed_at = None,
     msg_relative_path = None, msg_file_hash = None, msg_subject = None, msg_sender = None,
     msg_recipient = None, msg_cc = None, msg_date_sent = None, msg_internal_date = None,
     msg_size_bytes = None, msg_has_attachment = False, msg_in_reply_to = None,
     msg_references_ids = None, msg_thread_key = None, msg_gmail_msgid = None,
     msg_gmail_thrid = None, msg_gmail_labels = None\<rparr>"

record message_arg =
  ma_account_id :: string
  ma_folder_id :: int
  ma_source_item_key :: string
  ma_columns :: "message_column list"
  ma_uid :: "int option"
  ma_uidvalidity :: "int option"
  ma_remote_state :: "remote_state option"
  ma_moved_to :: "int option"
  ma_imap_flags :: "string option"
  ma_flags_seen_at :: "string option"
  ma_last_seen_at :: "string option"

definition arg_membership :: "message_arg \<Rightarrow> int \<Rightarrow> membership" where
  "arg_membership a i =
    \<lparr>mf_message_id = i, mf_folder_id = ma_folder_id a, mf_uid = ma_uid a,
     mf_uidvalidity = ma_uidvalidity a,
     mf_remote_state = get_default (ma_remote_state a) RemotePresent, mf_moved_to = ma_moved_to a,
     mf_imap_flags = ma_imap_flags a, mf_flags_seen_at = ma_flags_seen_at a,
     mf_last_seen_at = ma_last_seen_at a\<rparr>"

definition find_message_id_by_source_item_key :: "string \<Rightarrow> string \<Rightarrow> (db, int option) prog" where
  "find_message_id_by_source_item_key account key =
     gets (\<lambda>d. map_option msg_id (List.find (\<lambda>m. message_key m = (account, key)) (messages d)))"

definition upsert_message_row :: "message_arg \<Rightarrow> (db, unit) prog" where
  "upsert_message_row a =
    (let k = (ma_account_id a, ma_source_item_key a) in
     constrained (\<lambda>d. k \<in> message_key ` set (messages d) \<or> account_exists d (ma_account_id a))
       ''add message''
       (\<lambda>d. d\<lparr>messages := upsert_row message_key k (set_columns (ma_columns a))
                (set_columns (ma_columns a)
                   (blank_message (next_message_id d) (ma_account_id a) (ma_source_item_key a)))
                (messages d),
             next_message_id := (if k \<in> message_key ` set (messages d)
                then next_message_id d else next_message_id d + 1)\<rparr>))"

text \<open>The membership constraints: both folders exist, and the UID is free in the folder outside
  the row that is written.\<close>

definition membership_ok :: "db \<Rightarrow> membership \<Rightarrow> bool" where
  "membership_ok d x \<longleftrightarrow> message_exists d (mf_message_id x) \<and> folder_exists d (mf_folder_id x) \<and>
     opt_all (folder_exists d) (mf_moved_to x) \<and>
     (\<forall>y\<in>set (message_folders d). membership_key y \<noteq> membership_key x \<longrightarrow>
        uid_key x \<noteq> None \<longrightarrow> uid_key y \<noteq> uid_key x)"

definition upsert_membership :: "membership \<Rightarrow> (db, unit) prog" where
  "upsert_membership x = constrained (\<lambda>d. membership_ok d x) ''add message''
     (\<lambda>d. d\<lparr>message_folders := upsert_row membership_key (membership_key x) (\<lambda>_. x) x
              (message_folders d)\<rparr>)"

definition update_message_contents :: "int \<Rightarrow> contents \<Rightarrow> (db, unit) prog" where
  "update_message_contents i c = thenp
     (modify (\<lambda>d. d\<lparr>message_contents := delete_where (\<lambda>r. fst r = i) (message_contents d)\<rparr>))
     (constrained (\<lambda>d. message_exists d i) ''update message contents''
       (\<lambda>d. d\<lparr>message_contents := message_contents d @ [(i, c)]\<rparr>))"

text \<open>Search normalization of the four texts, with the fallbacks of \<open>_normalized_contents\<close>;
  the normalization itself (\<open>normalize_for_search\<close> after \<open>replace_surrogates\<close>) is a parameter.\<close>

record contents_arg =
  ca_subject_norm :: "string option"
  ca_sender_norm :: "string option"
  ca_subject :: "string option"
  ca_sender :: "string option"
  ca_body_text :: "string option"
  ca_attachment_names :: "string option"

definition normalized_contents :: "(string \<Rightarrow> string) \<Rightarrow> contents_arg \<Rightarrow> contents" where
  "normalized_contents norm c =
    \<lparr>cnt_subject_norm = map_option norm
       (case ca_subject_norm c of None \<Rightarrow> ca_subject c | Some v \<Rightarrow> Some v),
     cnt_sender_norm = map_option norm
       (case ca_sender_norm c of None \<Rightarrow> ca_sender c | Some v \<Rightarrow> Some v),
     cnt_body_text = map_option norm (ca_body_text c),
     cnt_attachment_names = map_option norm (ca_attachment_names c)\<rparr>"

definition add_message ::
  "(string \<Rightarrow> string) \<Rightarrow> message_arg \<Rightarrow> contents_arg option \<Rightarrow> (db, int) prog" where
  "add_message norm a cnt =
    thenp (upsert_message_row a)
    (bindp (find_message_id_by_source_item_key (ma_account_id a) (ma_source_item_key a)) (\<lambda>row.
       case row of
         None \<Rightarrow> raise (DatabaseError ''Message upsert did not return an id'')
       | Some i \<Rightarrow>
           thenp (upsert_membership (arg_membership a i))
           (thenp (case cnt of None \<Rightarrow> ret ()
                   | Some c \<Rightarrow> update_message_contents i (normalized_contents norm c))
              (ret i))))"

definition exists_source_item_key :: "string \<Rightarrow> int \<Rightarrow> string \<Rightarrow> (db, bool) prog" where
  "exists_source_item_key account folder_id key = gets (\<lambda>d.
     \<exists>m\<in>set (messages d). message_key m = (account, key) \<and>
       (\<exists>x\<in>set (message_folders d). mf_message_id x = msg_id m \<and> mf_folder_id x = folder_id))"

text \<open>A membership joined with the names of its folders.\<close>

record membership_view =
  mv_membership :: membership
  mv_folder_raw_name :: "string option"
  mv_moved_to_raw_name :: "string option"

definition folder_name :: "db \<Rightarrow> int \<Rightarrow> string option" where
  "folder_name d f = map_option fld_raw_name (List.find (\<lambda>r. fld_id r = f) (folders d))"

definition membership_view_of :: "db \<Rightarrow> membership \<Rightarrow> membership_view" where
  "membership_view_of d x =
    \<lparr>mv_membership = x, mv_folder_raw_name = folder_name d (mf_folder_id x),
     mv_moved_to_raw_name = Option.bind (mf_moved_to x) (folder_name d)\<rparr>"

definition message_memberships :: "db \<Rightarrow> int \<Rightarrow> membership list" where
  "message_memberships d i =
     sort_key mf_folder_id (filter (\<lambda>x. mf_message_id x = i) (message_folders d))"

definition list_message_memberships :: "string \<Rightarrow> string \<Rightarrow> (db, membership_view list) prog" where
  "list_message_memberships account key = gets (\<lambda>d.
     case List.find (\<lambda>m. message_key m = (account, key)) (messages d) of
       None \<Rightarrow> []
     | Some m \<Rightarrow> map (membership_view_of d)
         (filter (\<lambda>x. folder_exists d (mf_folder_id x)) (message_memberships d (msg_id m))))"

text \<open>Plain insertion, which also rejects a second row for the same message and folder.\<close>

definition insert_membership :: "membership \<Rightarrow> (db, unit) prog" where
  "insert_membership x = constrained
     (\<lambda>d. membership_key x \<notin> membership_key ` set (message_folders d) \<and> membership_ok d x)
     ''replace message memberships''
     (\<lambda>d. d\<lparr>message_folders := message_folders d @ [x]\<rparr>)"

definition replace_message_memberships :: "int \<Rightarrow> membership list \<Rightarrow> (db, unit) prog" where
  "replace_message_memberships i ms = thenp
     (modify (\<lambda>d. d\<lparr>message_folders := delete_where (\<lambda>x. mf_message_id x = i) (message_folders d)\<rparr>))
     (forp (\<lambda>x. insert_membership (x\<lparr>mf_message_id := i\<rparr>)) ms)"

text \<open>\<open>INSERT OR IGNORE\<close> into the aliases: ignored when the key is taken; the foreign keys are
  checked in any other case.\<close>

definition insert_alias :: "alias_row \<Rightarrow> (db, unit) prog" where
  "insert_alias a = (\<lambda>d.
     if alias_key a \<in> alias_key ` set (aliases d) then (Inr (), d)
     else if account_exists d (al_account_id a) \<and> message_exists d (al_message_id a)
     then (Inr (), d\<lparr>aliases := aliases d @ [a]\<rparr>)
     else (Inl (sql_error ''restore message identity alias''), d))"

definition add_message_identity_alias :: "string \<Rightarrow> string \<Rightarrow> int \<Rightarrow> string \<Rightarrow> (db, unit) prog" where
  "add_message_identity_alias account observed i kind =
    thenp (insert_alias \<lparr>al_account_id = account, al_observed_key = observed, al_message_id = i,
                         al_evidence_kind = kind\<rparr>)
    (bindp (gets (\<lambda>d. List.find (\<lambda>a. alias_key a = (account, observed)) (aliases d))) (\<lambda>row.
       case row of
         None \<Rightarrow> raise (DatabaseError ''Message identity alias maps to multiple canonical messages'')
       | Some a \<Rightarrow> if al_message_id a \<noteq> i
           then raise (DatabaseError ''Message identity alias maps to multiple canonical messages'')
           else ret ()))"

record stored_eml =
  se_relative_path :: string
  se_file_hash :: string
  se_size_bytes :: int
  se_deduplicated :: bool

definition find_stored_eml :: "string \<Rightarrow> string \<Rightarrow> (db, stored_eml option) prog" where
  "find_stored_eml account hash = gets (\<lambda>d.
     case List.find (\<lambda>m. msg_account_id m = account \<and> msg_file_hash m = Some hash \<and>
                         msg_relative_path m \<noteq> None) (sort_key msg_id (messages d)) of
       None \<Rightarrow> None
     | Some m \<Rightarrow> Some \<lparr>se_relative_path = the (msg_relative_path m), se_file_hash = hash,
         se_size_bytes = get_default (msg_size_bytes m) 0, se_deduplicated = False\<rparr>)"

definition local_uids :: "string \<Rightarrow> int \<Rightarrow> int \<Rightarrow> (db, int list) prog" where
  "local_uids account folder_id uidvalidity = gets (\<lambda>d.
     [u. x \<leftarrow> message_folders d, mf_folder_id x = folder_id, mf_uidvalidity x = Some uidvalidity,
         (\<exists>m\<in>set (messages d). msg_id m = mf_message_id x \<and> msg_account_id m = account),
         u \<leftarrow> (case mf_uid x of None \<Rightarrow> [] | Some u \<Rightarrow> [u])])"

text \<open>A message with one of its memberships, as the joined queries return it.\<close>

record message_record =
  rec_row :: message_row
  rec_membership :: "membership option"

definition get_message_by_uid ::
  "string \<Rightarrow> int \<Rightarrow> int \<Rightarrow> int \<Rightarrow> (db, message_record option) prog" where
  "get_message_by_uid account folder_id uidvalidity uid = gets (\<lambda>d.
     case [(m, x). m \<leftarrow> messages d, msg_account_id m = account, x \<leftarrow> message_folders d,
             mf_message_id x = msg_id m, mf_folder_id x = folder_id,
             mf_uidvalidity x = Some uidvalidity, mf_uid x = Some uid] of
       [] \<Rightarrow> None
     | (m, x) # _ \<Rightarrow> Some \<lparr>rec_row = m, rec_membership = Some x\<rparr>)"

definition find_move_candidates ::
  "string \<Rightarrow> string \<Rightarrow> string option \<Rightarrow> int \<Rightarrow> (db, message_record list) prog" where
  "find_move_candidates account key hash exclude_folder_id = gets (\<lambda>d.
     [\<lparr>rec_row = m, rec_membership = Some x\<rparr>.
        m \<leftarrow> sort_key msg_id (messages d), msg_account_id m = account, msg_content_key m = key,
        (case hash of None \<Rightarrow> True | Some h \<Rightarrow> msg_file_hash m = Some h),
        x \<leftarrow> message_memberships d (msg_id m), mf_folder_id x \<noteq> exclude_folder_id,
        mf_remote_state x = RemotePresent])"

definition update_remote_state ::
  "int \<Rightarrow> remote_state \<Rightarrow> int option \<Rightarrow> int option \<Rightarrow> (db, unit) prog" where
  "update_remote_state i st moved_to folder_id =
    (let p = (\<lambda>x. mf_message_id x = i \<and> opt_all ((=) (mf_folder_id x)) folder_id) in
     constrained (\<lambda>d. (\<exists>x\<in>set (message_folders d). p x) \<longrightarrow>
                      opt_all (folder_exists d) moved_to) ''update remote state''
       (\<lambda>d. d\<lparr>message_folders := update_where p
                (\<lambda>x. x\<lparr>mf_remote_state := st, mf_moved_to := moved_to\<rparr>) (message_folders d)\<rparr>))"


section \<open>Flags and labels\<close>

definition account_membership :: "db \<Rightarrow> string \<Rightarrow> int \<Rightarrow> int \<Rightarrow> membership \<Rightarrow> bool" where
  "account_membership d account folder_id uidvalidity x \<longleftrightarrow>
     mf_folder_id x = folder_id \<and> mf_uidvalidity x = Some uidvalidity \<and>
     (\<exists>m\<in>set (messages d). msg_id m = mf_message_id x \<and> msg_account_id m = account)"

definition list_flag_refresh_items ::
  "string \<Rightarrow> int \<Rightarrow> int \<Rightarrow> string \<Rightarrow> (db, message_record list) prog" where
  "list_flag_refresh_items account folder_id uidvalidity since = gets (\<lambda>d.
     sort_key (\<lambda>r. the (Option.bind (rec_membership r) mf_uid))
       [\<lparr>rec_row = m, rec_membership = Some x\<rparr>.
          x \<leftarrow> message_folders d, mf_folder_id x = folder_id, mf_uidvalidity x = Some uidvalidity,
          mf_uid x \<noteq> None, m \<leftarrow> messages d, msg_id m = mf_message_id x, msg_account_id m = account,
          opt_all (\<lambda>t. since \<le> t) (msg_internal_date m), msg_internal_date m \<noteq> None])"

definition update_flags ::
  "string \<Rightarrow> int \<Rightarrow> int \<Rightarrow> int \<Rightarrow> string option \<Rightarrow> string \<Rightarrow> (db, unit) prog" where
  "update_flags account folder_id uidvalidity uid flags seen_at = modify (\<lambda>d.
     d\<lparr>message_folders := update_where
         (\<lambda>x. account_membership d account folder_id uidvalidity x \<and> mf_uid x = Some uid)
         (\<lambda>x. x\<lparr>mf_imap_flags := flags, mf_flags_seen_at := Some seen_at\<rparr>) (message_folders d)\<rparr>)"

definition update_gmail_labels :: "int \<Rightarrow> string \<Rightarrow> (db, unit) prog" where
  "update_gmail_labels i labels = modify (\<lambda>d. d\<lparr>messages :=
     update_where (\<lambda>m. msg_id m = i) (\<lambda>m. m\<lparr>msg_gmail_labels := Some labels\<rparr>) (messages d)\<rparr>)"

text \<open>The statement of \<open>touch_flags_seen_at\<close> on one chunk, and the loop over chunks of 500.\<close>

definition touch_chunk :: "string \<Rightarrow> int \<Rightarrow> int \<Rightarrow> string \<Rightarrow> int list \<Rightarrow> db \<Rightarrow> db" where
  "touch_chunk account folder_id uidvalidity seen_at chunk d =
     d\<lparr>message_folders := update_where
         (\<lambda>x. account_membership d account folder_id uidvalidity x \<and> mf_uid x \<in> Some ` set chunk)
         (\<lambda>x. x\<lparr>mf_flags_seen_at := Some seen_at\<rparr>) (message_folders d)\<rparr>"

function chunks :: "nat \<Rightarrow> 'a list \<Rightarrow> 'a list list" where
  "chunks n xs = (if xs = [] \<or> n = 0 then [] else take n xs # chunks n (drop n xs))"
  by pat_completeness auto

termination by (relation "measure (length \<circ> snd)") auto

declare chunks.simps [simp del]

definition touch_flags_seen_at ::
  "string \<Rightarrow> int \<Rightarrow> int \<Rightarrow> int list \<Rightarrow> string \<Rightarrow> (db, unit) prog" where
  "touch_flags_seen_at account folder_id uidvalidity uids seen_at =
    (if uids = [] then ret ()
     else forp (\<lambda>chunk. modify (touch_chunk account folder_id uidvalidity seen_at chunk))
            (chunks 500 uids))"

section \<open>Merging duplicates\<close>

definition merge_state :: "local_state \<Rightarrow> local_state \<Rightarrow> local_state" where
  "merge_state canonical duplicate =
    (if Active \<in> {canonical, duplicate} then Active
     else if Trashed \<in> {canonical, duplicate} then Trashed
     else Purged)"

definition set_message :: "int \<Rightarrow> (message_row \<Rightarrow> message_row) \<Rightarrow> db \<Rightarrow> db" where
  "set_message i f d = d\<lparr>messages := update_where (\<lambda>m. msg_id m = i) f (messages d)\<rparr>"

definition find_message :: "db \<Rightarrow> int \<Rightarrow> message_row option" where
  "find_message d i = List.find (\<lambda>m. msg_id m = i) (messages d)"

definition has_contents :: "db \<Rightarrow> int \<Rightarrow> bool" where
  "has_contents d i \<longleftrightarrow> i \<in> fst ` set (message_contents d)"

definition move_contents :: "int \<Rightarrow> int \<Rightarrow> (db, unit) prog" where
  "move_contents canonical duplicate = modify (\<lambda>d.
     if \<not> has_contents d canonical \<and> has_contents d duplicate
     then d\<lparr>message_contents :=
              update_where (\<lambda>r. fst r = duplicate) (map_prod (\<lambda>_. canonical) id) (message_contents d)\<rparr>
     else d)"

definition merge_aliases :: "string \<Rightarrow> int \<Rightarrow> int \<Rightarrow> (db, unit) prog" where
  "merge_aliases account canonical duplicate =
    bindp (gets (\<lambda>d. filter (\<lambda>a. al_message_id a = duplicate \<and> al_account_id a = account) (aliases d)))
    (\<lambda>old. thenp
      (forp (\<lambda>a. insert_alias (a\<lparr>al_message_id := canonical\<rparr>)) old)
      (bindp (gets (\<lambda>d. find_message d duplicate)) (\<lambda>row. thenp
        (case row of
           None \<Rightarrow> ret ()
         | Some m \<Rightarrow> insert_alias \<lparr>al_account_id = account,
             al_observed_key = msg_source_item_key m, al_message_id = canonical,
             al_evidence_kind = ''merged_duplicate''\<rparr>)
        (modify (\<lambda>d. d\<lparr>aliases := delete_where (\<lambda>a. al_message_id a = duplicate) (aliases d)\<rparr>)))))"

definition merge_membership :: "int \<Rightarrow> int \<Rightarrow> membership \<Rightarrow> (db, unit) prog" where
  "merge_membership canonical duplicate x = (\<lambda>d.
     case List.find (\<lambda>y. membership_key y = (canonical, mf_folder_id x)) (message_folders d) of
       Some y \<Rightarrow>
         if (mf_uid y, mf_uidvalidity y) \<noteq> (mf_uid x, mf_uidvalidity x)
         then (Inl (DatabaseError
                 ''Cannot merge duplicate memberships with conflicting folder UIDs''), d)
         else (Inr (), d\<lparr>message_folders :=
                 delete_where (\<lambda>y. membership_key y = (duplicate, mf_folder_id x)) (message_folders d)\<rparr>)
     | None \<Rightarrow> (Inr (), d\<lparr>message_folders :=
                 update_where (\<lambda>y. membership_key y = (duplicate, mf_folder_id x))
                   (\<lambda>y. y\<lparr>mf_message_id := canonical\<rparr>) (message_folders d)\<rparr>))"

text \<open>\<open>DELETE FROM messages\<close>, with the cascades of the foreign keys.\<close>

definition delete_message :: "int \<Rightarrow> db \<Rightarrow> db" where
  "delete_message i d = d\<lparr>messages := delete_where (\<lambda>m. msg_id m = i) (messages d),
     message_folders := delete_where (\<lambda>x. mf_message_id x = i) (message_folders d),
     message_contents := delete_where (\<lambda>r. fst r = i) (message_contents d),
     aliases := delete_where (\<lambda>a. al_message_id a = i) (aliases d)\<rparr>"

definition merge_duplicate_message :: "string \<Rightarrow> int \<Rightarrow> int \<Rightarrow> (db, unit) prog" where
  "merge_duplicate_message account canonical duplicate =
    (if canonical = duplicate then ret ()
     else bindp (gets (\<lambda>d. (List.find (\<lambda>m. msg_id m = canonical \<and> msg_account_id m = account) (messages d),
                            List.find (\<lambda>m. msg_id m = duplicate \<and> msg_account_id m = account) (messages d))))
     (\<lambda>rows. case rows of
        (Some c, Some p) \<Rightarrow>
          if msg_file_hash c \<noteq> None \<and> msg_file_hash p \<noteq> None \<and> msg_file_hash c \<noteq> msg_file_hash p
          then raise (DatabaseError ''Cannot merge messages with different EML hashes'')
          else thenp (whenp (msg_relative_path c = None \<and> msg_file_hash c = None)
                 (modify (set_message canonical (\<lambda>m. m\<lparr>msg_file_hash := msg_file_hash p,
                    msg_relative_path := msg_relative_path p\<rparr>))))
               (thenp (whenp (merge_state (msg_local_state c) (msg_local_state p) \<noteq> msg_local_state c)
                 (modify (set_message canonical (\<lambda>m. m\<lparr>msg_local_state :=
                    merge_state (msg_local_state c) (msg_local_state p)\<rparr>))))
               (thenp (move_contents canonical duplicate)
               (thenp (merge_aliases account canonical duplicate)
               (bindp (gets (\<lambda>d. filter (\<lambda>x. mf_message_id x = duplicate) (message_folders d))) (\<lambda>ms.
                thenp (forp (merge_membership canonical duplicate) ms)
                (modify (\<lambda>d. delete_message duplicate (d\<lparr>pst_items :=
                   map (map_prod id (\<lambda>r. if r = Some duplicate then Some canonical else r))
                     (pst_items d)\<rparr>)))))))) 
      | _ \<Rightarrow> raise (DatabaseError ''Cannot merge a message that no longer exists'')))"

section \<open>Stored messages, trash and audit\<close>

definition first_membership :: "db \<Rightarrow> int \<Rightarrow> membership option" where
  "first_membership d i = (case message_memberships d i of [] \<Rightarrow> None | x # _ \<Rightarrow> Some x)"

definition message_record_of :: "db \<Rightarrow> message_row \<Rightarrow> message_record" where
  "message_record_of d m = \<lparr>rec_row = m, rec_membership = first_membership d (msg_id m)\<rparr>"

definition get_message :: "int \<Rightarrow> (db, message_record option) prog" where
  "get_message i = gets (\<lambda>d. map_option (message_record_of d) (find_message d i))"

definition list_stored_messages :: "string option \<Rightarrow> (db, message_record list) prog" where
  "list_stored_messages account = gets (\<lambda>d. map (message_record_of d)
     (filter (\<lambda>m. msg_relative_path m \<noteq> None \<and> opt_all ((=) (msg_account_id m)) account)
        (sort_key msg_id (messages d))))"

definition has_message_contents :: "int \<Rightarrow> (db, bool) prog" where
  "has_message_contents i = gets (\<lambda>d. has_contents d i)"

definition update_message_storage :: "int \<Rightarrow> string option \<Rightarrow> string option \<Rightarrow> (db, unit) prog" where
  "update_message_storage i path hash =
     modify (set_message i (\<lambda>m. m\<lparr>msg_relative_path := path, msg_file_hash := hash\<rparr>))"

text \<open>The entry's \<open>operation\<close> is always given by the callers; its timestamp too.\<close>

definition record_audit :: "audit_row \<Rightarrow> (db, unit) prog" where
  "record_audit e = modify (\<lambda>d. d\<lparr>audit_log :=
     audit_log d @ [e\<lparr>aud_message_id := text_affinity (aud_message_id e)\<rparr>]\<rparr>)"

definition list_audit_log :: "int \<Rightarrow> int \<Rightarrow> (db, audit_row list) prog" where
  "list_audit_log limit offset =
    (if limit < 0 \<or> offset < 0 then raise (ValueError ''limit and offset must be non-negative'')
     else gets (\<lambda>d. take_int limit (drop_int offset
            (rev (sort_key aud_occurred_at (audit_log d))))))"

definition set_local_state :: "int \<Rightarrow> local_state \<Rightarrow> string option \<Rightarrow> (db, unit) prog" where
  "set_local_state i st trashed_at =
     modify (set_message i (\<lambda>m. m\<lparr>msg_local_state := st, msg_trashed_at := trashed_at\<rparr>))"

text \<open>SQL orders NULL before every text.\<close>

definition opt_text_key :: "string option \<Rightarrow> string list" where
  "opt_text_key t = (case t of None \<Rightarrow> [] | Some s \<Rightarrow> [s])"

definition list_trashed :: "string option \<Rightarrow> string option \<Rightarrow> (db, message_record list) prog" where
  "list_trashed account older_than = gets (\<lambda>d. map (message_record_of d)
     (sort_key (\<lambda>m. opt_text_key (msg_trashed_at m))
       (filter (\<lambda>m. msg_local_state m = Trashed \<and> opt_all ((=) (msg_account_id m)) account \<and>
          (case older_than of None \<Rightarrow> True
           | Some limit \<Rightarrow> (case msg_trashed_at m of None \<Rightarrow> False | Some t \<Rightarrow> t < limit)))
         (sort_key msg_id (messages d)))))"

definition path_references :: "db \<Rightarrow> string \<Rightarrow> string \<Rightarrow> int \<Rightarrow> message_row list" where
  "path_references d account path exclude = filter (\<lambda>m. msg_account_id m = account \<and>
     msg_relative_path m = Some path \<and> msg_id m \<noteq> exclude \<and> msg_local_state m \<noteq> Purged) (messages d)"

definition count_path_references :: "string \<Rightarrow> string \<Rightarrow> int \<Rightarrow> (db, int) prog" where
  "count_path_references account path exclude =
     gets (\<lambda>d. int (length (path_references d account path exclude)))"

definition delete_message_contents :: "int \<Rightarrow> (db, unit) prog" where
  "delete_message_contents i =
     modify (\<lambda>d. d\<lparr>message_contents := delete_where (\<lambda>r. fst r = i) (message_contents d)\<rparr>)"

definition get_app_state :: "string \<Rightarrow> (db, string option) prog" where
  "get_app_state k = gets (\<lambda>d. map_of (app_state d) k)"

definition set_app_state :: "string \<Rightarrow> string \<Rightarrow> (db, unit) prog" where
  "set_app_state k v = modify (\<lambda>d. d\<lparr>app_state := upsert_row fst k (\<lambda>_. (k, v)) (k, v) (app_state d)\<rparr>)"

section \<open>Synchronization failures\<close>

definition record_failure :: "string \<Rightarrow> int \<Rightarrow> int \<Rightarrow> int \<Rightarrow> string \<Rightarrow> string \<Rightarrow> (db, unit) prog" where
  "record_failure account folder_id uidvalidity uid error_class message = modify (\<lambda>d.
     d\<lparr>sync_failures := upsert_row failure_key (account, folder_id, uidvalidity, uid)
        (\<lambda>s. s\<lparr>sf_error_class := error_class, sf_error_message := message,
               sf_attempt_count := sf_attempt_count s + 1\<rparr>)
        \<lparr>sf_account_id = account, sf_folder_id = folder_id, sf_uidvalidity = uidvalidity,
         sf_uid = uid, sf_error_class = error_class, sf_error_message = message,
         sf_attempt_count = 1\<rparr>
        (sync_failures d)\<rparr>)"

definition pending_failures :: "string \<Rightarrow> int \<Rightarrow> int \<Rightarrow> (db, failure_row list) prog" where
  "pending_failures account folder_id uidvalidity = gets (\<lambda>d. sort_key sf_uid
     (filter (\<lambda>s. sf_account_id s = account \<and> sf_folder_id s = folder_id \<and>
        sf_uidvalidity s = uidvalidity \<and> sf_attempt_count s < 10) (sync_failures d)))"

definition clear_failure :: "string \<Rightarrow> int \<Rightarrow> int \<Rightarrow> int \<Rightarrow> (db, unit) prog" where
  "clear_failure account folder_id uidvalidity uid = modify (\<lambda>d. d\<lparr>sync_failures :=
     delete_where (\<lambda>s. failure_key s = (account, folder_id, uidvalidity, uid)) (sync_failures d)\<rparr>)"

end
