(* ===== verification/Repository_Inv.thy ===== *)
theory Repository_Inv
  imports Repository
begin

text \<open>
  The constraints of the schema as an invariant of the database, kept by every method of the
  repository on success and on every error path.
\<close>

section \<open>Invariant\<close>

definition accounts_inv :: "db \<Rightarrow> bool" where
  "accounts_inv d \<longleftrightarrow> uniq acc_id (accounts d)"

definition folders_inv :: "db \<Rightarrow> bool" where
  "folders_inv d \<longleftrightarrow> uniq fld_id (folders d) \<and> uniq folder_key (folders d) \<and>
     (\<forall>f\<in>set (folders d). fld_id f < next_folder_id d \<and> account_exists d (fld_account_id f))"

definition messages_inv :: "db \<Rightarrow> bool" where
  "messages_inv d \<longleftrightarrow> uniq msg_id (messages d) \<and> uniq message_key (messages d) \<and>
     (\<forall>m\<in>set (messages d). msg_id m < next_message_id d \<and> account_exists d (msg_account_id m))"

definition membership_fk :: "db \<Rightarrow> membership \<Rightarrow> bool" where
  "membership_fk d x \<longleftrightarrow> message_exists d (mf_message_id x) \<and> folder_exists d (mf_folder_id x) \<and>
     opt_all (folder_exists d) (mf_moved_to x)"

definition memberships_inv :: "db \<Rightarrow> bool" where
  "memberships_inv d \<longleftrightarrow> uniq membership_key (message_folders d) \<and>
     uniq_some uid_key (message_folders d) \<and> (\<forall>x\<in>set (message_folders d). membership_fk d x)"

definition contents_inv :: "db \<Rightarrow> bool" where
  "contents_inv d \<longleftrightarrow> uniq fst (message_contents d) \<and>
     (\<forall>r\<in>set (message_contents d). message_exists d (fst r))"

definition aliases_inv :: "db \<Rightarrow> bool" where
  "aliases_inv d \<longleftrightarrow> uniq alias_key (aliases d) \<and>
     (\<forall>a\<in>set (aliases d). account_exists d (al_account_id a) \<and> message_exists d (al_message_id a))"

definition failures_inv :: "db \<Rightarrow> bool" where
  "failures_inv d \<longleftrightarrow> uniq failure_key (sync_failures d) \<and>
     (\<forall>s\<in>set (sync_failures d). 1 \<le> sf_attempt_count s) \<and> uniq fst (app_state d)"

definition db_inv :: "db \<Rightarrow> bool" where
  "db_inv d \<longleftrightarrow> accounts_inv d \<and> folders_inv d \<and> messages_inv d \<and> memberships_inv d \<and>
     contents_inv d \<and> aliases_inv d \<and> failures_inv d"

lemmas table_inv_defs = accounts_inv_def folders_inv_def messages_inv_def memberships_inv_def
  contents_inv_def aliases_inv_def failures_inv_def

lemmas exists_defs = account_exists_def folder_exists_def message_exists_def membership_fk_def

text \<open>The rows other tables refer to stay when a statement keeps or extends the sets of ids.\<close>

definition ids_extend :: "db \<Rightarrow> db \<Rightarrow> bool" where
  "ids_extend d d' \<longleftrightarrow> (\<forall>a. account_exists d a \<longrightarrow> account_exists d' a) \<and>
     (\<forall>f. folder_exists d f \<longrightarrow> folder_exists d' f) \<and> (\<forall>i. message_exists d i \<longrightarrow> message_exists d' i)"

lemma membership_fk_mono: "membership_fk d x \<Longrightarrow> ids_extend d d' \<Longrightarrow> membership_fk d' x"
  by (auto simp: membership_fk_def ids_extend_def opt_all_iff)

lemma accounts_inv_frame: "accounts_inv d \<Longrightarrow> accounts d' = accounts d \<Longrightarrow> accounts_inv d'"
  by (simp add: accounts_inv_def)

lemma folders_inv_frame:
  "folders_inv d \<Longrightarrow> folders d' = folders d \<Longrightarrow> next_folder_id d' = next_folder_id d \<Longrightarrow>
   ids_extend d d' \<Longrightarrow> folders_inv d'"
  by (auto simp: folders_inv_def ids_extend_def)

lemma messages_inv_frame:
  "messages_inv d \<Longrightarrow> messages d' = messages d \<Longrightarrow> next_message_id d' = next_message_id d \<Longrightarrow>
   ids_extend d d' \<Longrightarrow> messages_inv d'"
  by (auto simp: messages_inv_def ids_extend_def)

lemma memberships_inv_frame:
  "memberships_inv d \<Longrightarrow> message_folders d' = message_folders d \<Longrightarrow> ids_extend d d' \<Longrightarrow>
   memberships_inv d'"
  by (auto simp: memberships_inv_def intro: membership_fk_mono)

lemma contents_inv_frame:
  "contents_inv d \<Longrightarrow> message_contents d' = message_contents d \<Longrightarrow> ids_extend d d' \<Longrightarrow> contents_inv d'"
  by (auto simp: contents_inv_def ids_extend_def)

lemma aliases_inv_frame:
  "aliases_inv d \<Longrightarrow> aliases d' = aliases d \<Longrightarrow> ids_extend d d' \<Longrightarrow> aliases_inv d'"
  by (auto simp: aliases_inv_def ids_extend_def)

lemma failures_inv_frame:
  "failures_inv d \<Longrightarrow> sync_failures d' = sync_failures d \<Longrightarrow> app_state d' = app_state d \<Longrightarrow>
   failures_inv d'"
  by (simp add: failures_inv_def)

lemmas inv_frames = accounts_inv_frame folders_inv_frame messages_inv_frame memberships_inv_frame
  contents_inv_frame aliases_inv_frame failures_inv_frame

section \<open>Statements keep the invariant\<close>

lemma keeps_constrained:
  "(\<And>d. I d \<Longrightarrow> ok d \<Longrightarrow> I (f d)) \<Longrightarrow> keeps I (constrained ok operation f)"
  by (simp add: keeps_def constrained_def)

text \<open>Every table except one is framed: what remains is the table the statement writes.\<close>

lemma db_inv_accounts:
  assumes "db_inv d" and "uniq acc_id rows" and "acc_id ` set (accounts d) \<subseteq> acc_id ` set rows"
  shows "db_inv (d\<lparr>accounts := rows\<rparr>)"
proof -
  have e: "ids_extend d (d\<lparr>accounts := rows\<rparr>)"
    using assms(3) by (auto simp: ids_extend_def exists_defs)
  have "accounts_inv (d\<lparr>accounts := rows\<rparr>)" using assms(2) by (simp add: accounts_inv_def)
  with assms(1) e show ?thesis by (auto simp: db_inv_def intro: inv_frames)
qed

lemma db_inv_folders:
  assumes "db_inv d" and "uniq fld_id rows" and "uniq folder_key rows"
    and "fld_id ` set (folders d) \<subseteq> fld_id ` set rows"
    and "\<forall>f\<in>set rows. fld_id f < n \<and> account_exists d (fld_account_id f)"
  shows "db_inv (d\<lparr>folders := rows, next_folder_id := n\<rparr>)"
proof -
  let ?d = "d\<lparr>folders := rows, next_folder_id := n\<rparr>"
  have e: "ids_extend d ?d" using assms(4) by (auto simp: ids_extend_def exists_defs)
  have "folders_inv ?d" using assms(2,3,5) by (simp add: folders_inv_def account_exists_def)
  with assms(1) e show ?thesis by (auto simp: db_inv_def intro: inv_frames)
qed

lemma db_inv_messages:
  assumes "db_inv d" and "uniq msg_id rows" and "uniq message_key rows"
    and "msg_id ` set (messages d) \<subseteq> msg_id ` set rows"
    and "\<forall>m\<in>set rows. msg_id m < n \<and> account_exists d (msg_account_id m)"
  shows "db_inv (d\<lparr>messages := rows, next_message_id := n\<rparr>)"
proof -
  let ?d = "d\<lparr>messages := rows, next_message_id := n\<rparr>"
  have e: "ids_extend d ?d" using assms(4) by (auto simp: ids_extend_def exists_defs)
  have "messages_inv ?d" using assms(2,3,5) by (simp add: messages_inv_def account_exists_def)
  with assms(1) e show ?thesis by (auto simp: db_inv_def intro: inv_frames)
qed

lemma ids_extend_refl:
  "accounts d' = accounts d \<Longrightarrow> folders d' = folders d \<Longrightarrow> messages d' = messages d \<Longrightarrow> ids_extend d d'"
  by (simp add: ids_extend_def exists_defs)

lemma db_inv_memberships:
  assumes "db_inv d" and "uniq membership_key rows" and "uniq_some uid_key rows"
    and "\<forall>x\<in>set rows. membership_fk d x"
  shows "db_inv (d\<lparr>message_folders := rows\<rparr>)"
proof -
  let ?d = "d\<lparr>message_folders := rows\<rparr>"
  have e: "ids_extend d ?d" by (simp add: ids_extend_refl)
  have "memberships_inv ?d" using assms(2,3,4) e
    by (auto simp: memberships_inv_def intro: membership_fk_mono)
  with assms(1) e show ?thesis by (auto simp: db_inv_def intro: inv_frames)
qed

lemma db_inv_contents:
  assumes "db_inv d" and "uniq fst rows" and "\<forall>r\<in>set rows. message_exists d (fst r)"
  shows "db_inv (d\<lparr>message_contents := rows\<rparr>)"
proof -
  let ?d = "d\<lparr>message_contents := rows\<rparr>"
  have e: "ids_extend d ?d" by (simp add: ids_extend_refl)
  have "contents_inv ?d" using assms(2,3) by (simp add: contents_inv_def message_exists_def)
  with assms(1) e show ?thesis by (auto simp: db_inv_def intro: inv_frames)
qed

lemma db_inv_aliases:
  assumes "db_inv d" and "uniq alias_key rows"
    and "\<forall>a\<in>set rows. account_exists d (al_account_id a) \<and> message_exists d (al_message_id a)"
  shows "db_inv (d\<lparr>aliases := rows\<rparr>)"
proof -
  let ?d = "d\<lparr>aliases := rows\<rparr>"
  have e: "ids_extend d ?d" by (simp add: ids_extend_refl)
  have "aliases_inv ?d" using assms(2,3)
    by (simp add: aliases_inv_def message_exists_def account_exists_def)
  with assms(1) e show ?thesis by (auto simp: db_inv_def intro: inv_frames)
qed

lemma db_inv_other:
  assumes "db_inv d"
  shows "db_inv (d\<lparr>audit_log := rows\<rparr>)" "db_inv (d\<lparr>pst_items := items\<rparr>)"
    "uniq failure_key fs \<Longrightarrow> (\<forall>s\<in>set fs. 1 \<le> sf_attempt_count s) \<Longrightarrow> db_inv (d\<lparr>sync_failures := fs\<rparr>)"
    "uniq fst st \<Longrightarrow> db_inv (d\<lparr>app_state := st\<rparr>)"
  using assms by (simp_all add: db_inv_def table_inv_defs exists_defs opt_all_iff)

subsection \<open>Accounts and folders\<close>

lemma keeps_upsert_account: "keeps db_inv (upsert_account a)"
proof -
  have id: "acc_id (account_values a) = aa_id a" by (simp add: account_values_def)
  have "db_inv (d\<lparr>accounts := upsert_row acc_id (aa_id a) (\<lambda>_. account_values a) (account_values a)
      (accounts d)\<rparr>)" if "db_inv d" for d
    using that id
    by (intro db_inv_accounts uniq_upsert image_upsert_subset)
      (auto simp: db_inv_def accounts_inv_def)
  then show ?thesis by (auto simp: upsert_account_def intro!: keeps_modify)
qed

lemma keeps_normalize_account_provider_type: "keeps db_inv (normalize_account_provider_type a p)"
proof -
  have "db_inv (d\<lparr>accounts := update_where (\<lambda>r. acc_id r = a) (\<lambda>r. r\<lparr>acc_provider_type := p\<rparr>)
      (accounts d)\<rparr>)" if "db_inv d" for d
    using that
    by (intro db_inv_accounts uniq_update equalityD2 [OF image_key_update])
      (auto simp: db_inv_def accounts_inv_def)
  then show ?thesis by (auto simp: normalize_account_provider_type_def keeps_def)
qed

lemma keeps_upsert_folder: "keeps db_inv (upsert_folder f)"
proof -
  let ?k = "(fa_account_id f, fa_raw_name f)"
  let ?rows = "\<lambda>d. upsert_row folder_key ?k (folder_update f) (folder_values f (next_folder_id d)) (folders d)"
  let ?n = "\<lambda>d. if ?k \<in> folder_key ` set (folders d) then next_folder_id d else next_folder_id d + 1"
  have keys: "fld_id (folder_update f r) = fld_id r" "folder_key (folder_update f r) = folder_key r"
    "fld_account_id (folder_update f r) = fld_account_id r"
    "folder_key (folder_values f i) = ?k" "fld_id (folder_values f i) = i" for r i
    by (simp_all add: folder_update_def folder_values_def)
  have "db_inv (d\<lparr>folders := ?rows d, next_folder_id := ?n d\<rparr>)"
    if inv: "db_inv d" and ok: "?k \<in> folder_key ` set (folders d) \<or> account_exists d (fa_account_id f)"
    for d
  proof (rule db_inv_folders [OF inv])
    from inv have fi: "uniq fld_id (folders d)" "uniq folder_key (folders d)"
      "\<forall>f\<in>set (folders d). fld_id f < next_folder_id d \<and> account_exists d (fld_account_id f)"
      by (auto simp: db_inv_def folders_inv_def)
    show "uniq fld_id (?rows d)"
      using fi keys by (intro uniq_upsert_other) auto
    show "uniq folder_key (?rows d)"
      using fi(2) by (rule uniq_upsert) (simp_all add: folder_update_def folder_values_def)
    show "fld_id ` set (folders d) \<subseteq> fld_id ` set (?rows d)"
      by (rule image_upsert_subset) (simp add: keys)
    show "\<forall>r\<in>set (?rows d). fld_id r < ?n d \<and> account_exists d (fld_account_id r)"
      using fi ok keys by (intro ball_upsert) (auto simp: folder_values_def)
  qed
  then show ?thesis
    unfolding upsert_folder_def Let_def
    by (intro keeps_then keeps_bind keeps_gets keeps_constrained) (auto split: option.split)
qed

lemma db_inv_folders_update:
  assumes "db_inv d" and "\<And>r. fld_id (f r) = fld_id r \<and> folder_key (f r) = folder_key r"
  shows "db_inv (d\<lparr>folders := update_where p f (folders d)\<rparr>)"
proof -
  have "db_inv (d\<lparr>folders := update_where p f (folders d), next_folder_id := next_folder_id d\<rparr>)"
    using assms
    by (intro db_inv_folders uniq_update equalityD2 [OF image_key_update] ball_update)
      (auto simp: db_inv_def folders_inv_def)
  then show ?thesis by simp
qed

lemma keeps_update_folder_columns:
  "(\<And>r. fld_id (f r) = fld_id r \<and> folder_key (f r) = folder_key r) \<Longrightarrow>
   keeps db_inv (update_folder_columns i f)"
  by (auto simp: update_folder_columns_def intro!: keeps_modify db_inv_folders_update)

lemma keeps_folder_ops:
  "keeps db_inv (set_sync_target a raw e)" "keeps db_inv (initialize_sync_cursors i v u)"
  "keeps db_inv (update_sync_cursors i s b c)" "keeps db_inv (set_highest_modseq i w)"
proof -
  show "keeps db_inv (set_sync_target a raw e)"
    unfolding keeps_def by (auto simp: set_sync_target_def intro!: db_inv_folders_update)
qed (auto simp: initialize_sync_cursors_def update_sync_cursors_def set_highest_modseq_def
      intro!: keeps_update_folder_columns)

subsection \<open>Messages and memberships\<close>

lemma set_column_keys [simp]:
  "msg_id (set_column c m) = msg_id m" "msg_account_id (set_column c m) = msg_account_id m"
  "msg_source_item_key (set_column c m) = msg_source_item_key m"
  by (cases c; simp)+

lemma set_columns_keys [simp]:
  "msg_id (set_columns cs m) = msg_id m" "msg_account_id (set_columns cs m) = msg_account_id m"
  "msg_source_item_key (set_columns cs m) = msg_source_item_key m"
  by (induction cs arbitrary: m) (simp_all add: set_columns_def)

lemma blank_message_keys [simp]:
  "msg_id (blank_message i a k) = i" "msg_account_id (blank_message i a k) = a"
  "msg_source_item_key (blank_message i a k) = k"
  by (simp_all add: blank_message_def)

lemma keeps_upsert_message_row: "keeps db_inv (upsert_message_row a)"
proof -
  let ?k = "(ma_account_id a, ma_source_item_key a)"
  let ?new = "\<lambda>d. set_columns (ma_columns a)
    (blank_message (next_message_id d) (ma_account_id a) (ma_source_item_key a))"
  let ?rows = "\<lambda>d. upsert_row message_key ?k (set_columns (ma_columns a)) (?new d) (messages d)"
  let ?n = "\<lambda>d. if ?k \<in> message_key ` set (messages d) then next_message_id d else next_message_id d + 1"
  have "db_inv (d\<lparr>messages := ?rows d, next_message_id := ?n d\<rparr>)"
    if inv: "db_inv d" and ok: "?k \<in> message_key ` set (messages d) \<or> account_exists d (ma_account_id a)"
    for d
  proof (rule db_inv_messages [OF inv])
    from inv have fi: "uniq msg_id (messages d)" "uniq message_key (messages d)"
      "\<forall>m\<in>set (messages d). msg_id m < next_message_id d \<and> account_exists d (msg_account_id m)"
      by (auto simp: db_inv_def messages_inv_def)
    show "uniq msg_id (?rows d)" using fi by (intro uniq_upsert_other) auto
    show "uniq message_key (?rows d)" using fi(2) by (rule uniq_upsert) simp_all
    show "msg_id ` set (messages d) \<subseteq> msg_id ` set (?rows d)"
      by (rule image_upsert_subset) simp
    show "\<forall>r\<in>set (?rows d). msg_id r < ?n d \<and> account_exists d (msg_account_id r)"
      using fi ok by (intro ball_upsert) auto
  qed
  then show ?thesis
    by (auto simp: upsert_message_row_def Let_def intro!: keeps_constrained)
qed

lemma keeps_upsert_membership: "keeps db_inv (upsert_membership x)"
proof -
  let ?k = "membership_key x"
  let ?rows = "\<lambda>d. upsert_row membership_key ?k (\<lambda>_. x) x (message_folders d)"
  have "db_inv (d\<lparr>message_folders := ?rows d\<rparr>)" if inv: "db_inv d" and ok: "membership_ok d x" for d
  proof (rule db_inv_memberships [OF inv])
    from inv have mi: "uniq membership_key (message_folders d)" "uniq_some uid_key (message_folders d)"
      "\<forall>y\<in>set (message_folders d). membership_fk d y"
      by (auto simp: db_inv_def memberships_inv_def)
    show "uniq membership_key (?rows d)" using mi(1) by (rule uniq_upsert) simp_all
    show "uniq_some uid_key (?rows d)"
    proof (cases "?k \<in> membership_key ` set (message_folders d)")
      case True
      have "uniq_some uid_key (update_where (\<lambda>y. membership_key y = ?k) (\<lambda>_. x) (message_folders d))"
        using mi(2) mi(1) by (rule uniq_some_update_one [where k = ?k])
          (use ok in \<open>auto simp: membership_ok_def\<close>)
      with True show ?thesis by (simp add: upsert_row_def)
    next
      case False
      with ok have "\<forall>c. uid_key x = Some c \<longrightarrow> (\<forall>s\<in>set (message_folders d). uid_key s \<noteq> Some c)"
        by (auto simp: membership_ok_def image_iff)
      with False mi(2) show ?thesis by (simp add: upsert_row_def uniq_some_snoc)
    qed
    show "\<forall>y\<in>set (?rows d). membership_fk d y"
      using mi(3) ok by (intro ball_upsert) (auto simp: membership_ok_def membership_fk_def)
  qed
  then show ?thesis by (auto simp: upsert_membership_def intro!: keeps_constrained)
qed

lemma keeps_update_message_contents: "keeps db_inv (update_message_contents i c)"
proof -
  have del: "db_inv (d\<lparr>message_contents := delete_where (\<lambda>r. fst r = i) (message_contents d)\<rparr>)"
    if "db_inv d" for d
    using that by (intro db_inv_contents uniq_delete) (auto simp: db_inv_def contents_inv_def)
  have "db_inv (snd (update_message_contents i c d))" if "db_inv d" for d
  proof -
    let ?d = "d\<lparr>message_contents := delete_where (\<lambda>r. fst r = i) (message_contents d)\<rparr>"
    have inv: "db_inv ?d" using that by (rule del)
    have "db_inv (?d\<lparr>message_contents := message_contents ?d @ [(i, c)]\<rparr>)" if "message_exists ?d i"
    proof (rule db_inv_contents [OF inv])
      show "uniq fst (message_contents ?d @ [(i, c)])"
        using inv by (auto simp: db_inv_def contents_inv_def)
      show "\<forall>r\<in>set (message_contents ?d @ [(i, c)]). message_exists ?d (fst r)"
        using inv that by (auto simp: db_inv_def contents_inv_def)
    qed
    with inv show ?thesis by (simp add: update_message_contents_def constrained_def)
  qed
  then show ?thesis by (simp add: keeps_def)
qed

lemma keeps_delete_message_contents: "keeps db_inv (delete_message_contents i)"
  unfolding delete_message_contents_def
  by (intro keeps_modify db_inv_contents uniq_delete) (auto simp: db_inv_def contents_inv_def)

lemma keeps_find [simp]:
  "keeps I (find_message_id_by_source_item_key a k)" "keeps I (list_message_memberships a k)"
  by (simp_all add: find_message_id_by_source_item_key_def list_message_memberships_def)

lemma keeps_add_message: "keeps db_inv (add_message norm a cnt)"
  unfolding add_message_def
  by (intro keeps_then keeps_bind keeps_upsert_message_row keeps_find)
    (auto split: option.split intro!: keeps_then keeps_upsert_membership keeps_update_message_contents)

lemma db_inv_delete_memberships:
  "db_inv d \<Longrightarrow> db_inv (d\<lparr>message_folders := delete_where p (message_folders d)\<rparr>)"
  by (intro db_inv_memberships uniq_delete uniq_some_delete)
    (auto simp: db_inv_def memberships_inv_def)

lemma keeps_insert_membership: "keeps db_inv (insert_membership x)"
proof -
  have "db_inv (d\<lparr>message_folders := message_folders d @ [x]\<rparr>)"
    if inv: "db_inv d" and new: "membership_key x \<notin> membership_key ` set (message_folders d)"
      and ok: "membership_ok d x" for d
  proof (rule db_inv_memberships [OF inv])
    from inv have mi: "uniq membership_key (message_folders d)" "uniq_some uid_key (message_folders d)"
      "\<forall>y\<in>set (message_folders d). membership_fk d y"
      by (auto simp: db_inv_def memberships_inv_def)
    show "uniq membership_key (message_folders d @ [x])" using mi new by simp
    from ok new have "\<forall>c. uid_key x = Some c \<longrightarrow> (\<forall>s\<in>set (message_folders d). uid_key s \<noteq> Some c)"
      by (auto simp: membership_ok_def image_iff)
    with mi show "uniq_some uid_key (message_folders d @ [x])" by (simp add: uniq_some_snoc)
    show "\<forall>y\<in>set (message_folders d @ [x]). membership_fk d y"
      using mi ok by (auto simp: membership_ok_def membership_fk_def)
  qed
  then show ?thesis by (auto simp: insert_membership_def intro!: keeps_constrained)
qed

lemma keeps_replace_message_memberships: "keeps db_inv (replace_message_memberships i ms)"
  unfolding replace_message_memberships_def
  by (intro keeps_then keeps_forp keeps_insert_membership keeps_modify db_inv_delete_memberships)

lemma keeps_insert_alias: "keeps db_inv (insert_alias a)"
proof -
  have "db_inv (d\<lparr>aliases := aliases d @ [a]\<rparr>)"
    if "db_inv d" "alias_key a \<notin> alias_key ` set (aliases d)"
      "account_exists d (al_account_id a) \<and> message_exists d (al_message_id a)" for d
    using that by (intro db_inv_aliases) (auto simp: db_inv_def aliases_inv_def)
  then show ?thesis unfolding keeps_def insert_alias_def by simp
qed

lemma keeps_add_message_identity_alias: "keeps db_inv (add_message_identity_alias a k i e)"
  unfolding add_message_identity_alias_def
  by (intro keeps_then keeps_bind keeps_gets keeps_insert_alias) (auto split: option.split)

lemma uid_key_updates [simp]:
  "uid_key (x\<lparr>mf_remote_state := st\<rparr>) = uid_key x" "uid_key (x\<lparr>mf_moved_to := mv\<rparr>) = uid_key x"
  "uid_key (x\<lparr>mf_imap_flags := fl\<rparr>) = uid_key x" "uid_key (x\<lparr>mf_flags_seen_at := t\<rparr>) = uid_key x"
  "uid_key (x\<lparr>mf_message_id := i\<rparr>) = uid_key x"
  by (simp_all add: uid_key_def split: option.split)

lemma db_inv_memberships_update:
  assumes "db_inv d"
    and "\<And>x. membership_key (f x) = membership_key x \<and> uid_key (f x) = uid_key x"
    and "\<And>x. x \<in> set (message_folders d) \<Longrightarrow> p x \<Longrightarrow> opt_all (folder_exists d) (mf_moved_to (f x))"
  shows "db_inv (d\<lparr>message_folders := update_where p f (message_folders d)\<rparr>)"
proof (rule db_inv_memberships [OF assms(1)])
  from assms(1) have mi: "uniq membership_key (message_folders d)"
    "uniq_some uid_key (message_folders d)" "\<forall>y\<in>set (message_folders d). membership_fk d y"
    by (auto simp: db_inv_def memberships_inv_def)
  show "uniq membership_key (update_where p f (message_folders d))"
    by (rule uniq_update [OF mi(1)]) (use assms(2) in auto)
  show "uniq_some uid_key (update_where p f (message_folders d))"
    by (rule uniq_some_update [OF mi(2)]) (use assms(2) in auto)
  show "\<forall>x\<in>set (update_where p f (message_folders d)). membership_fk d x"
  proof (rule ball_update [OF mi(3)])
    fix x assume "x \<in> set (message_folders d)" "p x" "membership_fk d x"
    moreover from assms(2) [of x] have "mf_message_id (f x) = mf_message_id x"
      "mf_folder_id (f x) = mf_folder_id x" by simp_all
    ultimately show "membership_fk d (f x)" using assms(3) [of x] by (simp add: membership_fk_def)
  qed
qed

lemma keeps_update_remote_state: "keeps db_inv (update_remote_state i st mv f)"
  unfolding update_remote_state_def Let_def
  by (intro keeps_constrained db_inv_memberships_update) auto

lemma membership_fk_moved:
  "db_inv d \<Longrightarrow> x \<in> set (message_folders d) \<Longrightarrow> opt_all (folder_exists d) (mf_moved_to x)"
  by (auto simp: db_inv_def memberships_inv_def membership_fk_def)

lemma keeps_update_flags: "keeps db_inv (update_flags a f v u fl t)"
  unfolding update_flags_def
  by (intro keeps_modify db_inv_memberships_update) (auto simp: membership_fk_moved)

lemma keeps_touch_flags_seen_at: "keeps db_inv (touch_flags_seen_at a f v us t)"
proof -
  have "keeps db_inv (modify (touch_chunk a f v t chunk))" for chunk
    unfolding touch_chunk_def
    by (intro keeps_modify db_inv_memberships_update) (auto simp: membership_fk_moved)
  then show ?thesis by (auto simp: touch_flags_seen_at_def)
qed

subsection \<open>Updates of message rows\<close>

lemma db_inv_set_message:
  assumes "db_inv d" and "\<And>m. msg_id (f m) = msg_id m \<and> message_key (f m) = message_key m"
  shows "db_inv (set_message i f d)"
proof -
  have "db_inv (d\<lparr>messages := update_where (\<lambda>m. msg_id m = i) f (messages d),
      next_message_id := next_message_id d\<rparr>)"
    using assms
    by (intro db_inv_messages uniq_update equalityD2 [OF image_key_update] ball_update)
      (auto simp: db_inv_def messages_inv_def)
  then show ?thesis by (simp add: set_message_def)
qed

lemma keeps_message_ops:
  "keeps db_inv (set_local_state i st t)" "keeps db_inv (update_message_storage i p h)"
  "keeps db_inv (update_gmail_labels i l)"
  unfolding set_local_state_def update_message_storage_def update_gmail_labels_def
    set_message_def [symmetric]
  by (auto intro!: keeps_modify db_inv_set_message)

lemma keeps_other_ops:
  "keeps db_inv (record_audit e)" "keeps db_inv (set_app_state k v)"
  "keeps db_inv (record_failure a f uv u c m)" "keeps db_inv (clear_failure a f uv u)"
proof -
  show "keeps db_inv (record_audit e)"
    unfolding record_audit_def by (intro keeps_modify db_inv_other)
  show "keeps db_inv (set_app_state k v)"
    unfolding set_app_state_def
    by (intro keeps_modify db_inv_other uniq_upsert) (auto simp: db_inv_def failures_inv_def)
  show "keeps db_inv (record_failure a f uv u c m)"
    unfolding record_failure_def
    by (intro keeps_modify db_inv_other uniq_upsert ball_upsert)
      (auto simp: db_inv_def failures_inv_def)
  show "keeps db_inv (clear_failure a f uv u)"
    unfolding clear_failure_def
    by (intro keeps_modify db_inv_other uniq_delete) (auto simp: db_inv_def failures_inv_def)
qed

subsection \<open>Merging\<close>

lemma exists_delete_message [simp]:
  "message_exists (delete_message i d) j \<longleftrightarrow> message_exists d j \<and> j \<noteq> i"
  "folder_exists (delete_message i d) f \<longleftrightarrow> folder_exists d f"
  "account_exists (delete_message i d) a \<longleftrightarrow> account_exists d a"
  by (auto simp: delete_message_def exists_defs)

lemma db_inv_delete_message:
  assumes "db_inv d"
  shows "db_inv (delete_message i d)"
proof -
  let ?d = "delete_message i d"
  from assms have inv: "accounts_inv d" "folders_inv d" "messages_inv d" "memberships_inv d"
    "contents_inv d" "aliases_inv d" "failures_inv d" by (simp_all add: db_inv_def)
  have fk: "membership_fk ?d x" if "membership_fk d x" "mf_message_id x \<noteq> i" for x
    using that by (simp add: membership_fk_def opt_all_iff)
  have "accounts_inv ?d" "failures_inv ?d" "folders_inv ?d"
    using inv(1,2,7) by (simp_all add: table_inv_defs delete_message_def account_exists_def)
  moreover have "messages_inv ?d"
    using inv(3) by (auto simp: messages_inv_def delete_message_def account_exists_def)
  moreover have "memberships_inv ?d"
    using inv(4) fk by (auto simp: memberships_inv_def delete_message_def [of i d])
  moreover have "contents_inv ?d"
    using inv(5) by (auto simp: contents_inv_def delete_message_def [of i d] message_exists_def)
  moreover have "aliases_inv ?d"
    using inv(6) by (auto simp: aliases_inv_def delete_message_def [of i d] exists_defs)
  ultimately show ?thesis by (simp add: db_inv_def)
qed

lemma keeps_move_contents:
  "keeps (\<lambda>d. db_inv d \<and> message_exists d c) (move_contents c p)"
proof -
  have "db_inv (d\<lparr>message_contents :=
      update_where (\<lambda>r. fst r = p) (map_prod (\<lambda>_. c) id) (message_contents d)\<rparr>)"
    if inv: "db_inv d" and c: "message_exists d c" and no: "\<not> has_contents d c" for d
  proof (rule db_inv_contents [OF inv])
    from inv have ci: "uniq fst (message_contents d)"
      "\<forall>r\<in>set (message_contents d). message_exists d (fst r)"
      by (auto simp: db_inv_def contents_inv_def)
    show "uniq fst (update_where (\<lambda>r. fst r = p) (map_prod (\<lambda>_. c) id) (message_contents d))"
      using ci(1) by (rule uniq_update_one [where k = p])
        (use no in \<open>auto simp: has_contents_def image_iff\<close>)
    show "\<forall>r\<in>set (update_where (\<lambda>r. fst r = p) (map_prod (\<lambda>_. c) id) (message_contents d)).
        message_exists d (fst r)"
      using ci(2) c by (intro ball_update) auto
  qed
  then show ?thesis
    by (auto simp: move_contents_def message_exists_def [of "_\<lparr>message_contents := _\<rparr>"]
        simp flip: message_exists_def intro!: keeps_modify)
qed

text \<open>The message ids are not touched by the statements before the final delete.\<close>

definition same_messages :: "db \<Rightarrow> db \<Rightarrow> bool" where
  "same_messages d0 d \<longleftrightarrow> msg_id ` set (messages d) = msg_id ` set (messages d0)"

lemma keeps_insert_alias_ids: "keeps (same_messages d0) (insert_alias a)"
  by (simp add: keeps_def insert_alias_def same_messages_def)

lemma keeps_merge_aliases:
  "keeps db_inv (merge_aliases account c p)" "keeps (same_messages d0) (merge_aliases account c p)"
proof -
  have "db_inv (d\<lparr>aliases := delete_where q (aliases d)\<rparr>)" if "db_inv d" for d q
    using that by (intro db_inv_aliases uniq_delete) (auto simp: db_inv_def aliases_inv_def)
  then show "keeps db_inv (merge_aliases account c p)"
    unfolding merge_aliases_def
    by (intro keeps_bind keeps_then keeps_gets keeps_forp keeps_insert_alias keeps_modify)
      (auto split: option.split intro: keeps_insert_alias)
  show "keeps (same_messages d0) (merge_aliases account c p)"
    unfolding merge_aliases_def
    by (intro keeps_bind keeps_then keeps_gets keeps_forp keeps_insert_alias_ids keeps_modify)
      (auto split: option.split intro: keeps_insert_alias_ids simp: same_messages_def)
qed

lemma keeps_merge_membership:
  assumes "c \<noteq> p"
  shows "keeps (\<lambda>d. db_inv d \<and> message_exists d c) (merge_membership c p x)"
proof -
  have "db_inv (d\<lparr>message_folders := update_where (\<lambda>y. membership_key y = (p, mf_folder_id x))
      (\<lambda>y. y\<lparr>mf_message_id := c\<rparr>) (message_folders d)\<rparr>)"
    if inv: "db_inv d" and c: "message_exists d c"
      and none: "List.find (\<lambda>y. membership_key y = (c, mf_folder_id x)) (message_folders d) = None" for d
  proof (rule db_inv_memberships [OF inv])
    from inv have mi: "uniq membership_key (message_folders d)"
      "uniq_some uid_key (message_folders d)" "\<forall>y\<in>set (message_folders d). membership_fk d y"
      by (auto simp: db_inv_def memberships_inv_def)
    let ?rows = "update_where (\<lambda>y. membership_key y = (p, mf_folder_id x))
      (\<lambda>y. y\<lparr>mf_message_id := c\<rparr>) (message_folders d)"
    show "uniq membership_key ?rows"
      using mi(1) by (rule uniq_update_one) (use none in \<open>auto simp: find_None_iff_ball\<close>)
    show "uniq_some uid_key ?rows" using mi(2) by (rule uniq_some_update) simp
    show "\<forall>y\<in>set ?rows. membership_fk d y"
      using mi(3) c by (intro ball_update) (auto simp: membership_fk_def)
  qed
  then show ?thesis
    unfolding keeps_def merge_membership_def
    by (auto simp: message_exists_def intro: db_inv_delete_memberships split: option.split)
qed

lemma keeps_merge_duplicate_message: "keeps db_inv (merge_duplicate_message account c p)"
proof (cases "c = p")
  case False
  let ?I = "\<lambda>d. db_inv d \<and> message_exists d c"
  have set: "keeps ?I (modify (set_message c f))"
    if "\<And>m. msg_id (f m) = msg_id m \<and> message_key (f m) = message_key m" for f
  proof (rule keeps_modify)
    fix d assume I: "?I d"
    have "msg_id ` set (messages (set_message c f d)) = msg_id ` set (messages d)"
      unfolding set_message_def by (simp add: image_key_update that)
    with I show "?I (set_message c f d)"
      using db_inv_set_message [OF conjunct1 [OF I] that] by (simp add: message_exists_def)
  qed
  have al: "keeps ?I (merge_aliases account c p)"
    using keeps_merge_aliases(1) [of account c p] keeps_merge_aliases(2) [of _ account c p]
    unfolding keeps_def same_messages_def message_exists_def by metis
  have del: "?I (delete_message p (d\<lparr>pst_items := items\<rparr>))" if "?I d" for d items
  proof
    show "db_inv (delete_message p (d\<lparr>pst_items := items\<rparr>))"
      using that by (intro db_inv_delete_message db_inv_other(2)) simp
    show "message_exists (delete_message p (d\<lparr>pst_items := items\<rparr>)) c"
      using that False by (simp, simp add: message_exists_def)
  qed
  have steps: "keeps ?I (thenp (whenp q (modify (set_message c (\<lambda>m. m\<lparr>msg_file_hash := h,
        msg_relative_path := r\<rparr>))))
      (thenp (whenp q' (modify (set_message c (\<lambda>m. m\<lparr>msg_local_state := st\<rparr>))))
      (thenp (move_contents c p) (thenp (merge_aliases account c p)
      (bindp (gets ms) (\<lambda>ms. thenp (forp (merge_membership c p) ms)
        (modify (\<lambda>d. delete_message p (d\<lparr>pst_items := items d\<rparr>)))))))))" for q q' h r st ms items
    by (intro keeps_then keeps_when keeps_bind keeps_gets keeps_forp set al keeps_move_contents
        keeps_merge_membership [OF False] keeps_modify del) simp_all
  show ?thesis
    unfolding keeps_def
  proof (intro allI impI)
    fix d assume inv: "db_inv d"
    let ?c = "List.find (\<lambda>m. msg_id m = c \<and> msg_account_id m = account) (messages d)"
    have "message_exists d c" if "?c = Some m" for m
      using find_Some_in_set [OF that] by (auto simp: message_exists_def)
    with inv steps [unfolded keeps_def] False show "db_inv (snd (merge_duplicate_message account c p d))"
      unfolding merge_duplicate_message_def by (auto simp: run_bind split: option.split)
  qed
qed (simp add: merge_duplicate_message_def)

end
