(* ===== verification/Eml_Storage.thy ===== *)
theory Eml_Storage
  imports Repository
begin

text \<open>
  Stored EML files (\<^verbatim>\<open>infrastructure/storage/eml_storage.py\<close>): paths below the storage root,
  content-addressed saving through a temporary file, and hash-verified reading. A file system is a
  list of files, each a path relative to the root (its components) with its bytes. Symbolic links,
  directories without files and failing disks are outside the model.
\<close>

section \<open>Paths\<close>

record fs =
  fs_root :: "string list"
  fs_files :: "(string list \<times> string) list"

definition path_text :: "string list \<Rightarrow> string" where
  "path_text comps = join_with (CHR ''/'') comps"

definition path_parts :: "string \<Rightarrow> string list" where
  "path_parts s = split_at (\<lambda>c. c = CHR ''/'') s"

text \<open>\<open>Path.resolve\<close> on components: empty and dot components vanish, dot-dot removes one.\<close>

fun resolve_parts :: "string list \<Rightarrow> string list \<Rightarrow> string list" where
  "resolve_parts acc [] = rev acc"
| "resolve_parts acc (p # ps) =
     (if p = [] \<or> p = ''.'' then resolve_parts acc ps
      else if p = ''..'' then resolve_parts (tl acc) ps
      else resolve_parts (p # acc) ps)"

definition resolve_inside :: "string list \<Rightarrow> string \<Rightarrow> error + string list" where
  "resolve_inside root relative_path =
    (let start = (if relative_path \<noteq> [] \<and> hd relative_path = CHR ''/'' then [] else rev root);
         candidate = resolve_parts start (path_parts relative_path)
     in if take (length root) candidate \<noteq> root
        then Inl (ValueError ''EML path escapes the storage root'')
        else if candidate = root
        then Inl (ValueError ''EML path must name a file below the storage root'')
        else Inr (drop (length root) candidate))"

section \<open>Files\<close>

definition fs_lookup :: "fs \<Rightarrow> string list \<Rightarrow> string option" where
  "fs_lookup f p = map_of (fs_files f) p"

definition fs_write :: "string list \<Rightarrow> string \<Rightarrow> fs \<Rightarrow> fs" where
  "fs_write p bytes f =
     f\<lparr>fs_files := upsert_row fst p (\<lambda>_. (p, bytes)) (p, bytes) (fs_files f)\<rparr>"

definition fs_unlink :: "string list \<Rightarrow> fs \<Rightarrow> fs" where
  "fs_unlink p f = f\<lparr>fs_files := delete_where (\<lambda>r. fst r = p) (fs_files f)\<rparr>"

text \<open>\<open>os.replace\<close> of an existing source.\<close>

definition fs_replace :: "string list \<Rightarrow> string list \<Rightarrow> fs \<Rightarrow> fs" where
  "fs_replace source destination f = (case fs_lookup f source of
     None \<Rightarrow> f
   | Some bytes \<Rightarrow> if source = destination then f else fs_write destination bytes (fs_unlink source f))"

section \<open>Saving\<close>

definition pad_left :: "nat \<Rightarrow> string \<Rightarrow> string" where
  "pad_left n s = replicate (n - length s) (CHR ''0'') @ s"

text \<open>The UTC year and month of the internal date.\<close>

definition date_directory :: "(nat \<times> nat) option \<Rightarrow> string list" where
  "date_directory internal_date = (case internal_date of
     None \<Rightarrow> [''unknown'']
   | Some (year, month) \<Rightarrow> [pad_left 4 (nat_text year), pad_left 2 (nat_text month)])"

definition eml_name :: "string \<Rightarrow> string" where
  "eml_name file_hash = take 32 file_hash @ ''.eml''"

definition find_existing_eml :: "env \<Rightarrow> string \<Rightarrow> string \<Rightarrow> fs \<Rightarrow> stored_eml option" where
  "find_existing_eml E account_id file_hash f =
    map_option (\<lambda>(p, bytes). \<lparr>se_relative_path = path_text p, se_file_hash = file_hash,
        se_size_bytes = int (length bytes), se_deduplicated = True\<rparr>)
      (List.find (\<lambda>(p, bytes). take 2 p = [''eml'', account_id] \<and> length p > 2 \<and>
          last p = eml_name file_hash \<and> sha256 E bytes = file_hash) (fs_files f))"

definition eml_destination :: "string \<Rightarrow> (nat \<times> nat) option \<Rightarrow> string \<Rightarrow> string list" where
  "eml_destination account_id internal_date file_hash =
     [''eml'', account_id] @ date_directory internal_date @ [eml_name file_hash]"

text \<open>\<open>uuid\<close> is the name of the temporary file. The check of an existing destination repeats the
  search and only matters when the search missed the file.\<close>

definition save_eml ::
  "env \<Rightarrow> string \<Rightarrow> string \<Rightarrow> (nat \<times> nat) option \<Rightarrow> string \<Rightarrow> (fs, stored_eml) prog" where
  "save_eml E uuid account_id internal_date raw =
    (case validate_account_id account_id of
       Inl e \<Rightarrow> raise e
     | Inr _ \<Rightarrow>
        (let file_hash = sha256 E raw;
             destination = eml_destination account_id internal_date file_hash;
             temporary = [''tmp'', uuid @ ''.eml'']
         in bindp (gets (find_existing_eml E account_id file_hash)) (\<lambda>existing.
            case existing of
              Some s \<Rightarrow> ret s
            | None \<Rightarrow> bindp (gets (\<lambda>f. fs_lookup f destination)) (\<lambda>old.
                case old of
                  Some bytes \<Rightarrow> if sha256 E bytes = file_hash
                    then ret \<lparr>se_relative_path = path_text destination, se_file_hash = file_hash,
                              se_size_bytes = int (length bytes), se_deduplicated = True\<rparr>
                    else thenp (modify (fs_write temporary raw))
                         (thenp (modify (fs_replace temporary destination))
                         (ret \<lparr>se_relative_path = path_text destination, se_file_hash = file_hash,
                               se_size_bytes = int (length raw), se_deduplicated = False\<rparr>))
                | None \<Rightarrow> thenp (modify (fs_write temporary raw))
                         (thenp (modify (fs_replace temporary destination))
                         (ret \<lparr>se_relative_path = path_text destination, se_file_hash = file_hash,
                               se_size_bytes = int (length raw), se_deduplicated = False\<rparr>))))))"

section \<open>Reading and deleting\<close>

definition valid_hash_text :: "string \<Rightarrow> bool" where
  "valid_hash_text h \<longleftrightarrow> length h = 64 \<and> list_all (\<lambda>c. c \<in> set ''0123456789abcdefABCDEF'') h"

definition reuse :: "env \<Rightarrow> string \<Rightarrow> string \<Rightarrow> fs \<Rightarrow> error + stored_eml option" where
  "reuse E relative_path expected_hash f =
    (if \<not> valid_hash_text expected_hash then Inr None
     else case resolve_inside (fs_root f) relative_path of
       Inl e \<Rightarrow> Inl e
     | Inr p \<Rightarrow> (case fs_lookup f p of
         None \<Rightarrow> Inr None
       | Some bytes \<Rightarrow>
           if sha256 E bytes \<noteq> casefold expected_hash then Inr None
           else Inr (Some \<lparr>se_relative_path = relative_path, se_file_hash = sha256 E bytes,
                           se_size_bytes = int (length bytes), se_deduplicated = True\<rparr>)))"

definition read_eml :: "string \<Rightarrow> fs \<Rightarrow> error + string" where
  "read_eml relative_path f = (case resolve_inside (fs_root f) relative_path of
     Inl e \<Rightarrow> Inl e
   | Inr p \<Rightarrow> (case fs_lookup f p of None \<Rightarrow> Inl FileNotFoundError | Some bytes \<Rightarrow> Inr bytes))"

definition read_verified :: "env \<Rightarrow> string \<Rightarrow> string \<Rightarrow> fs \<Rightarrow> error + string" where
  "read_verified E relative_path expected_hash f =
    (if \<not> valid_hash_text expected_hash then Inl (StorageError ''Invalid expected EML hash'')
     else case read_eml relative_path f of
       Inl e \<Rightarrow> Inl e
     | Inr bytes \<Rightarrow>
         if sha256 E bytes \<noteq> casefold expected_hash
         then Inl (StorageError ''EML file hash does not match expected hash'')
         else Inr bytes)"

definition eml_exists :: "string \<Rightarrow> fs \<Rightarrow> error + bool" where
  "eml_exists relative_path f = (case resolve_inside (fs_root f) relative_path of
     Inl e \<Rightarrow> Inl e | Inr p \<Rightarrow> Inr (fs_lookup f p \<noteq> None))"

definition delete_eml :: "string \<Rightarrow> (fs, unit) prog" where
  "delete_eml relative_path = (\<lambda>f. case resolve_inside (fs_root f) relative_path of
     Inl e \<Rightarrow> (Inl e, f) | Inr p \<Rightarrow> (Inr (), fs_unlink p f))"

text \<open>The quarantine name is the file name with a unique suffix.\<close>

definition quarantine :: "string \<Rightarrow> string \<Rightarrow> (fs, unit) prog" where
  "quarantine unique relative_path = (\<lambda>f. case resolve_inside (fs_root f) relative_path of
     Inl e \<Rightarrow> (Inl e, f)
   | Inr p \<Rightarrow> (case fs_lookup f p of
       None \<Rightarrow> (Inr (), f)
     | Some _ \<Rightarrow> (Inr (), fs_replace p
         [''tmp'', ''quarantine'', last p @ ''.'' @ unique @ ''.eml''] f)))"

section \<open>Lemmas\<close>

definition fs_inv :: "fs \<Rightarrow> bool" where
  "fs_inv f \<longleftrightarrow> uniq fst (fs_files f)"

lemma map_of_update:
  "map_of (update_where (\<lambda>r. fst r = p) (\<lambda>_. (p, b)) rows) q =
     (if q = p then map_option (\<lambda>_. b) (map_of rows p) else map_of rows q)"
  by (induction rows) (auto simp: update_where_def)

lemma map_of_upsert:
  "map_of (upsert_row fst p (\<lambda>_. (p, b)) (p, b) rows) q = (if q = p then Some b else map_of rows q)"
proof (cases "p \<in> fst ` set rows")
  case True
  then obtain c where "map_of rows p = Some c" by (metis map_of_eq_None_iff option.exhaust)
  with True show ?thesis by (simp add: upsert_row_def map_of_update)
next
  case False
  then have "map_of rows p = None" by (simp add: map_of_eq_None_iff)
  with False show ?thesis by (auto simp: upsert_row_def map_add_def split: option.split)
qed

lemma map_of_delete: "map_of (delete_where (\<lambda>r. fst r = p) rows) q = (if q = p then None else map_of rows q)"
  by (induction rows) (auto simp: delete_where_def)

lemma fs_lookup_write [simp]: "fs_lookup (fs_write p b f) q = (if q = p then Some b else fs_lookup f q)"
  by (simp add: fs_lookup_def fs_write_def map_of_upsert)

lemma fs_lookup_unlink [simp]: "fs_lookup (fs_unlink p f) q = (if q = p then None else fs_lookup f q)"
  by (simp add: fs_lookup_def fs_unlink_def map_of_delete)

lemma fs_lookup_replace:
  "fs_lookup f s = Some b \<Longrightarrow> s \<noteq> t \<Longrightarrow> fs_lookup (fs_replace s t f) q =
     (if q = t then Some b else if q = s then None else fs_lookup f q)"
  by (simp add: fs_replace_def)

lemma fs_root_ops [simp]:
  "fs_root (fs_write p b f) = fs_root f" "fs_root (fs_unlink p f) = fs_root f"
  "fs_root (fs_replace s t f) = fs_root f"
  by (simp_all add: fs_write_def fs_unlink_def fs_replace_def split: option.split)

text \<open>Plain components survive the round trip through text and resolution.\<close>

definition plain_part :: "string \<Rightarrow> bool" where
  "plain_part p \<longleftrightarrow> p \<noteq> [] \<and> p \<noteq> ''.'' \<and> p \<noteq> ''..'' \<and> CHR ''/'' \<notin> set p"

lemma resolve_parts_plain: "list_all plain_part ps \<Longrightarrow> resolve_parts acc ps = rev acc @ ps"
  by (induction ps arbitrary: acc) (auto simp: plain_part_def)

lemma path_parts_text: "list_all plain_part ps \<Longrightarrow> ps \<noteq> [] \<Longrightarrow> path_parts (path_text ps) = ps"
  unfolding path_parts_def path_text_def
  by (rule split_at_join) (auto simp: list_all_iff plain_part_def)

lemma path_text_hd: "list_all plain_part ps \<Longrightarrow> ps \<noteq> [] \<Longrightarrow> path_text ps \<noteq> [] \<and> hd (path_text ps) \<noteq> CHR ''/''"
proof -
  assume "list_all plain_part ps" "ps \<noteq> []"
  then obtain w ws where ps: "ps = w # ws" and w: "plain_part w" by (cases ps) auto
  then obtain c cs where "w = c # cs" "c \<noteq> CHR ''/''" by (cases w) (auto simp: plain_part_def)
  with ps show ?thesis by (cases ws) (auto simp: path_text_def)
qed

lemma resolve_inside_text:
  assumes "list_all plain_part ps" and "ps \<noteq> []"
  shows "resolve_inside root (path_text ps) = Inr ps"
  using path_text_hd [OF assms] path_parts_text [OF assms] assms
  by (simp add: resolve_inside_def resolve_parts_plain)

lemma digit_char_plain: "n < 10 \<Longrightarrow> digit_char n \<in> set ''0123456789''"
  unfolding digit_char_def by (rule nth_mem) simp

lemma nat_text_digits: "set (nat_text n) \<subseteq> set ''0123456789'' \<and> nat_text n \<noteq> []"
proof (induction n rule: nat_text.induct)
  case (1 n)
  show ?case
    using 1 digit_char_plain [of n] digit_char_plain [of "n mod 10"]
    by (cases "n < 10") (simp_all add: nat_text.simps [of n])
qed

lemma digits_plain:
  assumes "set s \<subseteq> set ''0123456789''" and "s \<noteq> []"
  shows "plain_part s"
proof -
  have "CHR ''.'' \<notin> set s" "CHR ''/'' \<notin> set s" using assms(1) by auto
  with assms(2) show ?thesis by (auto simp: plain_part_def)
qed

lemma date_directory_plain: "list_all plain_part (date_directory d)"
proof (cases d)
  case None
  then show ?thesis by (simp add: date_directory_def plain_part_def)
next
  case (Some ym)
  have "plain_part (pad_left k (nat_text n))" for k n
    using nat_text_digits [of n] by (intro digits_plain) (auto simp: pad_left_def)
  with Some show ?thesis by (cases ym) (simp add: date_directory_def)
qed

text \<open>What the code relies on of SHA-256 digests: 64 lower-case hexadecimal digits.\<close>

definition digest_ok :: "env \<Rightarrow> string \<Rightarrow> bool" where
  "digest_ok E raw \<longleftrightarrow> length (sha256 E raw) = 64 \<and> list_all (\<lambda>c. c \<in> set ''0123456789abcdef'') (sha256 E raw)"

lemma digest_ok_valid: "digest_ok E raw \<Longrightarrow> valid_hash_text (sha256 E raw)"
proof -
  have "set ''0123456789abcdef'' \<subseteq> set ''0123456789abcdefABCDEF''" by simp
  then show "digest_ok E raw \<Longrightarrow> valid_hash_text (sha256 E raw)"
    unfolding digest_ok_def valid_hash_text_def list_all_iff by blast
qed

lemma char_lower_hex: "c \<in> set ''0123456789abcdef'' \<Longrightarrow> char_lower c = c"
  by (auto simp: char_lower_def)

lemma digest_ok_casefold: "digest_ok E raw \<Longrightarrow> casefold (sha256 E raw) = sha256 E raw"
  unfolding digest_ok_def casefold_def list_all_iff using char_lower_hex by (intro map_idI) blast

lemma eml_name_plain: "digest_ok E raw \<Longrightarrow> plain_part (eml_name (sha256 E raw))"
proof -
  assume d: "digest_ok E raw"
  then have "CHR ''/'' \<notin> set (take 32 (sha256 E raw))"
    by (auto simp: digest_ok_def list_all_iff dest: in_set_takeD)
  then show ?thesis by (auto simp: plain_part_def eml_name_def append_eq_Cons_conv)
qed

lemma account_id_plain: "validate_account_id a = Inr () \<Longrightarrow> plain_part a"
  by (auto simp: validate_account_id_def plain_part_def forbidden_path_chars_def split: if_splits)

lemma destination_plain:
  assumes "validate_account_id a = Inr ()" and "digest_ok E raw"
  shows "list_all plain_part (eml_destination a d (sha256 E raw))"
  using account_id_plain [OF assms(1)] eml_name_plain [OF assms(2)] date_directory_plain [of d]
  by (simp add: eml_destination_def plain_part_def)

text \<open>Every stored file has a plain path: the shape in which the repository names it.\<close>

definition fs_plain :: "fs \<Rightarrow> bool" where
  "fs_plain f \<longleftrightarrow> (\<forall>r\<in>set (fs_files f). list_all plain_part (fst r) \<and> fst r \<noteq> [])"

lemma read_verified_plain:
  assumes "list_all plain_part p" and "p \<noteq> []" and "fs_lookup f p = Some bytes"
    and "digest_ok E raw" and "sha256 E bytes = sha256 E raw"
  shows "read_verified E (path_text p) (sha256 E raw) f = Inr bytes"
  using assms resolve_inside_text [OF assms(1,2), of "fs_root f"]
  by (simp add: read_verified_def read_eml_def digest_ok_valid digest_ok_casefold)

lemma find_existing_Some:
  assumes "find_existing_eml E a h f = Some s" and "fs_inv f" and "fs_plain f"
  obtains p bytes where "fs_lookup f p = Some bytes" "list_all plain_part p" "p \<noteq> []"
    "sha256 E bytes = h" "s = \<lparr>se_relative_path = path_text p, se_file_hash = h,
      se_size_bytes = int (length bytes), se_deduplicated = True\<rparr>"
proof -
  from assms(1) obtain p bytes where
    find: "List.find (\<lambda>(p, bytes). take 2 p = [''eml'', a] \<and> length p > 2 \<and> last p = eml_name h \<and>
      sha256 E bytes = h) (fs_files f) = Some (p, bytes)"
    and s: "s = \<lparr>se_relative_path = path_text p, se_file_hash = h,
      se_size_bytes = int (length bytes), se_deduplicated = True\<rparr>"
    by (auto simp: find_existing_eml_def)
  from find_Some_in_set [OF find] have r: "(p, bytes) \<in> set (fs_files f)" "sha256 E bytes = h" by simp_all
  from r(1) assms(2) have "fs_lookup f p = Some bytes"
    by (simp add: fs_lookup_def fs_inv_def uniq_def)
  moreover from r(1) assms(3) have "list_all plain_part p" "p \<noteq> []"
    by (auto simp: fs_plain_def)
  ultimately show ?thesis using r(2) s by (rule that)
qed

lemma destination_not_tmp: "eml_destination a d h \<noteq> [''tmp'', t]"
  by (simp add: eml_destination_def)

section \<open>Properties\<close>

text \<open>
  C28. What is saved can be read back and verified, and saving never damages the store. For an
  accepted account, saving succeeds; the recorded path and hash then pass verification and give
  bytes with the digest of the raw message, the very bytes unless a file with this digest was
  reused; a reuse changes nothing; and a file below \<^verbatim>\<open>eml/\<close> is only ever replaced when it is the
  destination itself with damaged contents.
\<close>

theorem save_eml_read_back:
  assumes "validate_account_id a = Inr ()" and "digest_ok E raw" and "fs_inv f" and "fs_plain f"
  shows "\<exists>s f' bytes. save_eml E uuid a d raw f = (Inr s, f') \<and>
    read_verified E (se_relative_path s) (se_file_hash s) f' = Inr bytes \<and>
    sha256 E bytes = sha256 E raw \<and> se_size_bytes s = int (length bytes) \<and>
    (if se_deduplicated s then f' = f else bytes = raw) \<and>
    (\<forall>p b. hd p = ''eml'' \<longrightarrow> fs_lookup f p = Some b \<longrightarrow>
       fs_lookup f' p = Some b \<or> p = eml_destination a d (sha256 E raw) \<and> sha256 E b \<noteq> sha256 E raw)"
proof (cases "find_existing_eml E a (sha256 E raw) f")
  case (Some s)
  from find_existing_Some [OF this assms(3,4)] obtain p bytes where
    p: "fs_lookup f p = Some bytes" "list_all plain_part p" "p \<noteq> []" "sha256 E bytes = sha256 E raw"
    and s: "s = \<lparr>se_relative_path = path_text p, se_file_hash = sha256 E raw,
      se_size_bytes = int (length bytes), se_deduplicated = True\<rparr>" .
  have "save_eml E uuid a d raw f = (Inr s, f)"
    using assms(1) Some by (simp add: save_eml_def Let_def)
  moreover have "read_verified E (path_text p) (sha256 E raw) f = Inr bytes"
    using p assms(2) by (intro read_verified_plain) simp_all
  ultimately show ?thesis using p s by auto
next
  case None
  let ?dest = "eml_destination a d (sha256 E raw)" and ?tmp = "[''tmp'', uuid @ ''.eml'']"
  have plain: "list_all plain_part ?dest" "?dest \<noteq> []"
    using destination_plain [OF assms(1,2)] by (simp_all add: eml_destination_def)
  show ?thesis
  proof (cases "\<exists>b. fs_lookup f ?dest = Some b \<and> sha256 E b = sha256 E raw")
    case True
    then obtain b where b: "fs_lookup f ?dest = Some b" "sha256 E b = sha256 E raw" by blast
    have "save_eml E uuid a d raw f = (Inr \<lparr>se_relative_path = path_text ?dest,
        se_file_hash = sha256 E raw, se_size_bytes = int (length b), se_deduplicated = True\<rparr>, f)"
      using assms(1) None b by (simp add: save_eml_def Let_def)
    moreover have "read_verified E (path_text ?dest) (sha256 E raw) f = Inr b"
      using plain b assms(2) by (intro read_verified_plain) simp_all
    ultimately show ?thesis using b by auto
  next
    case False
    let ?f = "fs_replace ?tmp ?dest (fs_write ?tmp raw f)"
    have look: "fs_lookup ?f q = (if q = ?dest then Some raw else if q = ?tmp then None else fs_lookup f q)" for q
      using destination_not_tmp [of a d "sha256 E raw" "uuid @ ''.eml''"]
      by (subst fs_lookup_replace [where b = raw]) auto
    have "save_eml E uuid a d raw f = (Inr \<lparr>se_relative_path = path_text ?dest,
        se_file_hash = sha256 E raw, se_size_bytes = int (length raw), se_deduplicated = False\<rparr>, ?f)"
      using assms(1) None False by (auto simp: save_eml_def Let_def split: option.split)
    moreover have "read_verified E (path_text ?dest) (sha256 E raw) ?f = Inr raw"
      using plain look assms(2) by (intro read_verified_plain) simp_all
    ultimately show ?thesis using look False by auto
  qed
qed

definition hash_env :: env where
  "hash_env = \<lparr>now = ''2026-01-02T03:04:05+00:00'', iso = (\<lambda>_. IsoAware ''202601''),
     sha256 = (\<lambda>s. replicate 64 (if s = ''raw'' then CHR ''a'' else CHR ''b''))\<rparr>"

lemma hash_env_digest [simp]: "digest_ok hash_env s"
  by (simp add: digest_ok_def hash_env_def list_all_iff)

definition empty_fs :: fs where
  "empty_fs = \<lparr>fs_root = [''data''], fs_files = []\<rparr>"

theorem save_eml_read_back_witness:
  "\<exists>s f'. save_eml hash_env ''t'' ''acc'' (Some (2026, 1)) ''raw'' empty_fs = (Inr s, f') \<and>
     read_verified hash_env (se_relative_path s) (se_file_hash s) f' = Inr ''raw''"
proof -
  have a: "validate_account_id ''acc'' = Inr ()" by code_simp
  have f: "fs_inv empty_fs" "fs_plain empty_fs" by (simp_all add: fs_inv_def fs_plain_def empty_fs_def)
  have "find_existing_eml hash_env ''acc'' h empty_fs = None" for h
    by (simp add: find_existing_eml_def empty_fs_def)
  then have "\<not> se_deduplicated s" if "save_eml hash_env ''t'' ''acc'' (Some (2026, 1)) ''raw'' empty_fs = (Inr s, f')"
    for s f'
    using that a by (auto simp: save_eml_def Let_def fs_lookup_def empty_fs_def)
  with save_eml_read_back [where raw = "''raw''" and uuid = "''t''" and d = "Some (2026, 1)", OF a hash_env_digest f] show ?thesis
    by metis
qed

end
