(* ===== verification/World.thy ===== *)
theory World
  imports Storage_State Manifest Repository_Inv Eml_Storage
begin

text \<open>
  The state the use cases act on: the database with its open transaction, the stored files, the
  manifest of the account and the mail server. A ghost history records the irrevocable effects, the
  deletion of a file and the calls that change the server, each with the state it happened in.
\<close>

section \<open>State\<close>

datatype remote_call =
    MoveToTrash string int "int option"
  | ExpungeMessage string int "int option"
  | RemoveMembership string int "int option"

datatype effect = Unlink string | Remote remote_call

record snapshot =
  snap_db :: db
  snap_fs :: fs
  snap_durable :: "event list"

record 'r world =
  w_db :: db
  w_batch :: "db option"
  w_fs :: fs
  w_man :: manifest
  w_remote :: 'r
  w_history :: "(effect \<times> snapshot) list"

definition snapshot_of :: "'r world \<Rightarrow> snapshot" where
  "snapshot_of w = \<lparr>snap_db = w_db w, snap_fs = w_fs w, snap_durable = durable_events (w_man w)\<rparr>"

section \<open>Lifting the components\<close>

text \<open>Inside a batch \<open>w_batch\<close> holds the database as it was committed last; outside a batch the
  connection commits every statement.\<close>

definition committed :: "'r world \<Rightarrow> db" where
  "committed w = (case w_batch w of None \<Rightarrow> w_db w | Some d \<Rightarrow> d)"

definition on_db :: "(db, 'a) prog \<Rightarrow> ('r world, 'a) prog" where
  "on_db m = (\<lambda>w. case m (w_db w) of (r, d) \<Rightarrow> (r, w\<lparr>w_db := d\<rparr>))"

definition begin_batch :: "('r world, unit) prog" where
  "begin_batch = (\<lambda>w. if w_batch w \<noteq> None
     then (Inl (DatabaseError ''A database batch is already open''), w)
     else (Inr (), w\<lparr>w_batch := Some (w_db w)\<rparr>))"

definition commit_batch :: "('r world, unit) prog" where
  "commit_batch = modify (\<lambda>w. w\<lparr>w_batch := None\<rparr>)"

definition man_append :: "env \<Rightarrow> event \<Rightarrow> ('r world, unit) prog" where
  "man_append E ev = (\<lambda>w. case append_event E ev (w_man w) of (r, m) \<Rightarrow> (r, w\<lparr>w_man := m\<rparr>))"

definition man_sync :: "('r world, unit) prog" where
  "man_sync = (\<lambda>w. case flush_and_sync (w_man w) of (r, m) \<Rightarrow> (r, w\<lparr>w_man := m\<rparr>))"

definition record_effect :: "effect \<Rightarrow> 'r world \<Rightarrow> 'r world" where
  "record_effect e w = w\<lparr>w_history := w_history w @ [(e, snapshot_of w)]\<rparr>"

definition storage_exists :: "string \<Rightarrow> ('r world, bool) prog" where
  "storage_exists path = (\<lambda>w. (eml_exists path (w_fs w), w))"

definition storage_delete :: "string \<Rightarrow> ('r world, unit) prog" where
  "storage_delete path = (\<lambda>w. case delete_eml path (w_fs w) of
     (Inl e, f) \<Rightarrow> (Inl e, w)
   | (Inr u, f) \<Rightarrow> (Inr u, (record_effect (Unlink path) w)\<lparr>w_fs := f\<rparr>))"

definition storage_read_verified :: "env \<Rightarrow> string \<Rightarrow> string \<Rightarrow> ('r world, string) prog" where
  "storage_read_verified E path hash = (\<lambda>w. (read_verified E path hash (w_fs w), w))"

text \<open>A query of the server, and a call that changes it.\<close>

definition on_remote :: "('r, 'a) prog \<Rightarrow> ('r world, 'a) prog" where
  "on_remote m = (\<lambda>w. case m (w_remote w) of (r, s) \<Rightarrow> (r, w\<lparr>w_remote := s\<rparr>))"

definition remote_effect :: "remote_call \<Rightarrow> ('r, 'a) prog \<Rightarrow> ('r world, 'a) prog" where
  "remote_effect c m = (\<lambda>w. on_remote m (record_effect (Remote c) w))"

section \<open>What the liftings keep\<close>

lemma keeps_on_db: "(\<And>w d r. I w \<Longrightarrow> m (w_db w) = (r, d) \<Longrightarrow> I (w\<lparr>w_db := d\<rparr>)) \<Longrightarrow> keeps I (on_db m)"
  by (auto simp: keeps_def on_db_def split: prod.split)

lemma on_db_gets [simp]: "on_db (gets f) = gets (\<lambda>w. f (w_db w))"
  by (simp add: fun_eq_iff on_db_def)

lemma run_on_db [simp]: "m (w_db w) = (r, d) \<Longrightarrow> on_db m w = (r, w\<lparr>w_db := d\<rparr>)"
  by (simp add: on_db_def)

lemma on_db_modify: "on_db (modify f) = modify (\<lambda>w. w\<lparr>w_db := f (w_db w)\<rparr>)"
  by (simp add: fun_eq_iff on_db_def)

lemma keeps_batch:
  "(\<And>w b. I w \<Longrightarrow> I (w\<lparr>w_batch := b\<rparr>)) \<Longrightarrow> keeps I begin_batch"
  "(\<And>w b. I w \<Longrightarrow> I (w\<lparr>w_batch := b\<rparr>)) \<Longrightarrow> keeps I commit_batch"
  by (auto simp: keeps_def begin_batch_def commit_batch_def)

section \<open>Guarded worlds\<close>

text \<open>
  A world in which the manifest is intact, the database satisfies a condition, and every
  irrevocable effect so far was allowed in the state in which it happened.
\<close>

definition guarded :: "env \<Rightarrow> (db \<Rightarrow> bool) \<Rightarrow> (effect \<Rightarrow> snapshot \<Rightarrow> bool) \<Rightarrow> 'r world \<Rightarrow> bool" where
  "guarded E db_ok allowed w \<longleftrightarrow> manifest_inv E (w_man w) \<and> db_ok (w_db w) \<and>
     (\<forall>(e, s)\<in>set (w_history w). allowed e s)"

lemma keeps_guarded_on_db:
  assumes "keeps db_ok m"
  shows "keeps (guarded E db_ok allowed) (on_db m)"
proof (rule keeps_on_db)
  fix w d r
  assume "guarded E db_ok allowed w" "m (w_db w) = (r, d)"
  with assms show "guarded E db_ok allowed (w\<lparr>w_db := d\<rparr>)"
    by (auto simp: guarded_def dest: keepsD)
qed

lemma man_append_ok:
  "man_append E ev w = (Inr u, w') \<longleftrightarrow>
   (\<exists>m. append_event E ev (w_man w) = (Inr u, m) \<and> w' = w\<lparr>w_man := m\<rparr>)"
  by (auto simp: man_append_def split: prod.split)

lemma man_append_err: "man_append E ev w = (Inl e, w') \<Longrightarrow> w' = w"
  by (auto simp: man_append_def dest: append_event_err split: prod.splits)

lemma keeps_guarded_append [intro]: "keeps (guarded E db_ok allowed) (man_append E ev)"
  unfolding keeps_def guarded_def man_append_def
  using writer.app_keeps [of E _ ev] by (auto split: prod.split) (metis snd_conv)

lemma run_man_sync:
  "man_sync w = (Inr (), w\<lparr>w_man := (w_man w)\<lparr>man_synced := length (man_log (w_man w))\<rparr>\<rparr>)"
  by (simp add: man_sync_def)

lemma keeps_guarded_sync [intro]: "keeps (guarded E db_ok allowed) man_sync"
  unfolding keeps_def guarded_def run_man_sync
  using writer.sync_ok [of E] by (auto simp: run_flush_and_sync)

lemma keeps_guarded_batch [intro]:
  "keeps (guarded E db_ok allowed) begin_batch" "keeps (guarded E db_ok allowed) commit_batch"
  by (auto intro!: keeps_batch simp: guarded_def)

lemma keeps_guarded_exists [intro]: "keeps I (storage_exists path)"
  by (simp add: keeps_def storage_exists_def)

lemma keeps_guarded_read [intro]: "keeps I (storage_read_verified E path hash)"
  by (simp add: keeps_def storage_read_verified_def)

lemma keeps_guarded_remote [intro]: "keeps (guarded E db_ok allowed) (on_remote m)"
  by (auto simp: keeps_def on_remote_def guarded_def split: prod.split)

text \<open>The two operations that have an irrevocable effect keep the guard in a state in which the
  effect is allowed.\<close>

lemma guarded_delete:
  assumes "guarded E db_ok allowed w" and "allowed (Unlink path) (snapshot_of w)"
  shows "guarded E db_ok allowed (snd (storage_delete path w))"
  using assms
  by (auto simp: storage_delete_def guarded_def record_effect_def split: prod.split sum.split)

lemma guarded_remote_effect:
  assumes "guarded E db_ok allowed w" and "allowed (Remote c) (snapshot_of w)"
  shows "guarded E db_ok allowed (snd (remote_effect c m w))"
  using assms
  by (auto simp: remote_effect_def on_remote_def guarded_def record_effect_def split: prod.split)

text \<open>Appending and flushing one record makes it durable and leaves the rest of the world alone.\<close>

definition journal :: "env \<Rightarrow> event \<Rightarrow> ('r world, unit) prog" where
  "journal E ev = thenp (man_append E ev) man_sync"

lemma journal_ok:
  assumes "journal E ev w = (Inr u, w')" and "manifest_inv E (w_man w)"
  shows "\<exists>m. w' = w\<lparr>w_man := m\<rparr> \<and> manifest_inv E m \<and> pending_events m = [] \<and>
    durable_events m = durable_events (w_man w) @ pending_events (w_man w) @ [ev]"
proof -
  from assms(1) obtain m where m: "thenp (append_event E ev) flush_and_sync (w_man w) = (Inr (), m)"
    and w': "w' = w\<lparr>w_man := m\<rparr>"
    by (auto simp: journal_def run_then man_append_def run_man_sync split: prod.splits sum.splits)
  from writer.app_sync [OF assms(2) m] w' show ?thesis by blast
qed

lemma journal_err: "journal E ev w = (Inl e, w') \<Longrightarrow> w' = w"
  by (auto simp: journal_def run_then man_append_def run_man_sync dest: append_event_err
      split: prod.splits sum.splits)

lemma keeps_guarded_journal [intro]: "keeps (guarded E db_ok allowed) (journal E ev)"
  by (auto simp: journal_def)

section \<open>Crashes\<close>

text \<open>What is left after the process dies: the committed database, the synced manifest records,
  the files and the server. The next start opens a writer on the records (\<open>open_writer\<close>).\<close>

definition restart :: "'r world \<Rightarrow> error + 'r world" where
  "restart w = (case open_writer (man_account (w_man w)) (take (man_synced (w_man w)) (man_log (w_man w))) of
     Inl e \<Rightarrow> Inl e
   | Inr m \<Rightarrow> Inr (w\<lparr>w_db := committed w, w_batch := None, w_man := m\<rparr>))"

end
