(* ===== verification/Repository_Props.thy ===== *)
theory Repository_Props
  imports Repository_Inv
begin

text \<open>
  Properties of the message repository: the schema constraints, idempotent upserts, the failure
  counter, and what a merge of two message rows keeps and loses.
\<close>

section \<open>Reading a message\<close>

lemma run_get_message:
  "get_message i d = (Inr (map_option (message_record_of d) (find_message d i)), d)"
  by (simp add: get_message_def)

lemma rec_row_of [simp]: "rec_row (message_record_of d m) = m"
  by (simp add: message_record_of_def)

lemma find_message_in: "find_message d i = Some m \<Longrightarrow> m \<in> set (messages d) \<and> msg_id m = i"
  by (auto simp: find_message_def dest: find_Some_in_set)

section \<open>Idempotent columns\<close>

lemma set_column_absorb_or_commute:
  "(\<forall>m. set_column c' (set_column c m) = set_column c' m) \<or>
   (\<forall>m. set_column c' (set_column c m) = set_column c (set_column c' m))"
  by (cases c; cases c'; simp)

lemma set_column_absorb:
  "set_column c (set_columns cs (set_column c m)) = set_column c (set_columns cs m)"
proof (induction cs arbitrary: m)
  case Nil
  show ?case by (cases c) (simp_all add: set_columns_def)
next
  case (Cons c' cs)
  have step: "set_columns (c' # cs) x = set_columns cs (set_column c' x)" for x
    by (simp add: set_columns_def)
  show ?case
    using set_column_absorb_or_commute [of c' c] Cons.IH [of "set_column c' m"] by (auto simp: step)
qed

lemma set_columns_idem: "set_columns cs (set_columns cs m) = set_columns cs m"
proof (induction cs rule: rev_induct)
  case (snoc c cs)
  have step: "set_columns (cs @ [c]) x = set_column c (set_columns cs x)" for x
    by (simp add: set_columns_def)
  show ?case by (simp add: step set_column_absorb snoc)
qed (simp add: set_columns_def)

section \<open>Merge step by step\<close>

lemma merge_state_max: "merge_state a b = max a b"
  by (cases a; cases b) (simp_all add: merge_state_def max_def less_eq_local_state_def)

text \<open>Statements that leave the messages, or everything but the aliases, alone.\<close>

lemma insert_alias_frame:
  "insert_alias a d = (r, d') \<Longrightarrow> messages d' = messages d \<and> message_folders d' = message_folders d \<and>
     message_contents d' = message_contents d \<and> alias_key ` set (aliases d) \<subseteq> alias_key ` set (aliases d')"
  by (auto simp: insert_alias_def split: if_splits)

text \<open>While all keys of the duplicate are taken, inserting more aliases for the canonical row does
  not change who owns them.\<close>

definition owned_by :: "int \<Rightarrow> (string \<times> string) set \<Rightarrow> db \<Rightarrow> bool" where
  "owned_by p K d \<longleftrightarrow> uniq alias_key (aliases d) \<and>
     K \<subseteq> alias_key ` {a \<in> set (aliases d). al_message_id a = p}"

lemma keeps_owned_by: "keeps (owned_by p K) (insert_alias a)"
proof -
  have "owned_by p K (snd (insert_alias a d))" if "owned_by p K d" for d
  proof -
    have "{b \<in> set (aliases d). al_message_id b = p} \<subseteq>
        {b \<in> set (aliases (snd (insert_alias a d))). al_message_id b = p}"
      by (auto simp: insert_alias_def)
    moreover have "uniq alias_key (aliases (snd (insert_alias a d)))"
      using that by (simp add: insert_alias_def owned_by_def)
    ultimately show ?thesis
      using that image_mono unfolding owned_by_def by (meson subset_trans)
  qed
  then show ?thesis by (simp add: keeps_def)
qed

lemma owned_by_deleted:
  assumes "owned_by p K d" and "k \<in> K"
  shows "k \<notin> alias_key ` set (delete_where (\<lambda>a. al_message_id a = p) (aliases d))"
proof
  assume "k \<in> alias_key ` set (delete_where (\<lambda>a. al_message_id a = p) (aliases d))"
  then obtain a where a: "a \<in> set (aliases d)" "al_message_id a \<noteq> p" "k = alias_key a" by auto
  from assms obtain b where b: "b \<in> set (aliases d)" "al_message_id b = p" "k = alias_key b"
    unfolding owned_by_def by blast
  from a b assms(1) have "a = b" unfolding owned_by_def by (metis uniq_inj)
  with a b show False by simp
qed

lemma merge_aliases_loses:
  assumes "merge_aliases account c p d = (Inr u, d')" and "uniq alias_key (aliases d)"
    and "a \<in> set (aliases d)" and "al_message_id a = p"
  shows "alias_key a \<notin> alias_key ` set (aliases d')"
proof -
  let ?K = "alias_key ` {a \<in> set (aliases d). al_message_id a = p}"
  let ?old = "filter (\<lambda>a. al_message_id a = p \<and> al_account_id a = account) (aliases d)"
  let ?row = "\<lambda>row. case row of None \<Rightarrow> ret ()
     | Some m \<Rightarrow> insert_alias \<lparr>al_account_id = account, al_observed_key = msg_source_item_key m,
         al_message_id = c, al_evidence_kind = ''merged_duplicate''\<rparr>"
  let ?m = "thenp (forp (\<lambda>a. insert_alias (a\<lparr>al_message_id := c\<rparr>)) ?old)
      (bindp (gets (\<lambda>d. find_message d p)) ?row)"
  have "keeps (owned_by p ?K) ?m"
    by (intro keeps_then keeps_bind keeps_gets keeps_forp keeps_owned_by)
      (auto split: option.split intro: keeps_owned_by)
  moreover have "owned_by p ?K d" using assms(2) by (simp add: owned_by_def)
  ultimately have owned: "owned_by p ?K (snd (?m d))" by (simp add: keeps_def)
  have "merge_aliases account c p d = (case ?m d of (Inl e, t) \<Rightarrow> (Inl e, t)
      | (Inr _, t) \<Rightarrow> (Inr (), t\<lparr>aliases := delete_where (\<lambda>a. al_message_id a = p) (aliases t)\<rparr>))"
    by (simp add: merge_aliases_def run_bind run_then split: prod.split sum.split)
  with assms(1) have "aliases d' = delete_where (\<lambda>a. al_message_id a = p) (aliases (snd (?m d)))"
    by (auto split: prod.splits sum.splits)
  moreover have "alias_key a \<in> ?K" using assms(3,4) by blast
  ultimately show ?thesis using owned_by_deleted [OF owned] by simp
qed

definition folders_of :: "int \<Rightarrow> db \<Rightarrow> int set" where
  "folders_of i d = mf_folder_id ` {x \<in> set (message_folders d). mf_message_id x = i}"

lemma folders_of_set:
  "folders_of i d = set (map mf_folder_id (filter (\<lambda>x. mf_message_id x = i) (message_folders d)))"
  by (simp add: folders_of_def)

lemma folders_of_iff: "f \<in> folders_of i d \<longleftrightarrow> (i, f) \<in> membership_key ` set (message_folders d)"
  by (auto simp: folders_of_def image_iff)

lemma merge_membership_step:
  assumes "merge_membership c p x d = (Inr u, d')" and "c \<noteq> p" and "mf_folder_id x \<in> folders_of p d"
  shows "folders_of c d' = insert (mf_folder_id x) (folders_of c d)"
    and "folders_of p d' = folders_of p d - {mf_folder_id x}"
    and "messages d' = messages d" and "message_contents d' = message_contents d"
    and "aliases d' = aliases d"
proof -
  let ?find = "List.find (\<lambda>y. membership_key y = (c, mf_folder_id x)) (message_folders d)"
  have "folders_of c d' = insert (mf_folder_id x) (folders_of c d) \<and>
      folders_of p d' = folders_of p d - {mf_folder_id x} \<and> messages d' = messages d \<and>
      message_contents d' = message_contents d \<and> aliases d' = aliases d"
  proof (cases ?find)
    case None
    with assms(1) have d': "d' = d\<lparr>message_folders := update_where
        (\<lambda>y. membership_key y = (p, mf_folder_id x)) (\<lambda>y. y\<lparr>mf_message_id := c\<rparr>) (message_folders d)\<rparr>"
      by (simp add: merge_membership_def)
    from assms(3) obtain z where z: "z \<in> set (message_folders d)" "mf_message_id z = p"
      "mf_folder_id z = mf_folder_id x" by (auto simp: folders_of_def)
    have rows: "message_folders d' = update_where (\<lambda>y. membership_key y = (p, mf_folder_id x))
        (\<lambda>y. y\<lparr>mf_message_id := c\<rparr>) (message_folders d)" by (simp add: d')
    have keys: "membership_key ` set (message_folders d') =
        (\<lambda>y. if membership_key y = (p, mf_folder_id x) then (c, mf_folder_id x) else membership_key y)
          ` set (message_folders d)"
      unfolding rows set_update_where image_image by (rule image_cong) simp_all
    have "f \<in> folders_of c d' \<longleftrightarrow> f \<in> insert (mf_folder_id x) (folders_of c d)"
      "f \<in> folders_of p d' \<longleftrightarrow> f \<in> folders_of p d - {mf_folder_id x}" for f
      using z assms(2) unfolding folders_of_iff keys insert_iff Diff_iff
      by (auto simp: image_iff split: if_splits)
    then show ?thesis by (auto simp: d')
  next
    case (Some y)
    with assms(1) have d': "d' = d\<lparr>message_folders :=
        delete_where (\<lambda>y. membership_key y = (p, mf_folder_id x)) (message_folders d)\<rparr>"
      by (auto simp: merge_membership_def split: if_splits)
    from find_Some_in_set [OF Some] have "mf_folder_id x \<in> folders_of c d"
      by (auto simp: folders_of_def intro!: image_eqI [where x = y])
    with assms(2) show ?thesis by (auto simp: d' folders_of_def image_iff)
  qed
  then show "folders_of c d' = insert (mf_folder_id x) (folders_of c d)"
    "folders_of p d' = folders_of p d - {mf_folder_id x}" "messages d' = messages d"
    "message_contents d' = message_contents d" "aliases d' = aliases d" by simp_all
qed

lemma merge_memberships_all:
  assumes "forp (merge_membership c p) ms d = (Inr u, d')" and "c \<noteq> p"
    and "distinct (map mf_folder_id ms)" and "mf_folder_id ` set ms \<subseteq> folders_of p d"
  shows "folders_of c d' = mf_folder_id ` set ms \<union> folders_of c d \<and> messages d' = messages d \<and>
         message_contents d' = message_contents d \<and> aliases d' = aliases d"
  using assms
proof (induction ms arbitrary: d)
  case Nil
  then show ?case by (simp add: forp_def)
next
  case (Cons x ms)
  from Cons.prems(1) obtain v d1 where x: "merge_membership c p x d = (Inr v, d1)"
    and ms: "forp (merge_membership c p) ms d1 = (Inr u, d')"
    by (auto simp: forp_def run_bind split: prod.splits sum.splits)
  have fx: "mf_folder_id x \<in> folders_of p d" using Cons.prems(4) by simp
  note step = merge_membership_step [OF x Cons.prems(2) fx]
  have "mf_folder_id ` set ms \<subseteq> folders_of p d1"
    using Cons.prems(3,4) by (simp add: step(2) subset_Diff_insert)
  with Cons.IH [OF ms Cons.prems(2)] Cons.prems(3) step show ?case by auto
qed

lemma merge_aliases_frame:
  assumes "merge_aliases account c p d = (Inr u, d')"
  shows "messages d' = messages d \<and> message_folders d' = message_folders d \<and>
         message_contents d' = message_contents d"
proof -
  let ?I = "\<lambda>t. messages t = messages d \<and> message_folders t = message_folders d \<and>
    message_contents t = message_contents d"
  have ins: "keeps ?I (insert_alias a)" for a
    by (simp add: keeps_def insert_alias_def)
  have "keeps ?I (merge_aliases account c p)"
    unfolding merge_aliases_def
    by (intro keeps_bind keeps_then keeps_gets keeps_forp ins keeps_modify)
      (auto split: option.split intro: ins)
  from keepsD [OF this _ assms] show ?thesis by simp
qed

lemma set_message_id [simp]: "set_message i (\<lambda>m. m) d = d"
  by (simp add: set_message_def update_where_def)

definition take_storage :: "message_row \<Rightarrow> message_row \<Rightarrow> message_row \<Rightarrow> message_row" where
  "take_storage mc mp m = (if msg_relative_path mc = None \<and> msg_file_hash mc = None
     then m\<lparr>msg_file_hash := msg_file_hash mp, msg_relative_path := msg_relative_path mp\<rparr> else m)"

definition take_state :: "message_row \<Rightarrow> message_row \<Rightarrow> message_row \<Rightarrow> message_row" where
  "take_state mc mp m = (if msg_local_state mc = max (msg_local_state mc) (msg_local_state mp)
     then m else m\<lparr>msg_local_state := max (msg_local_state mc) (msg_local_state mp)\<rparr>)"

lemma take_keys [simp]:
  "msg_id (take_storage mc mp m) = msg_id m" "msg_id (take_state mc mp m) = msg_id m"
  "msg_local_state (take_storage mc mp m) = msg_local_state m"
  by (simp_all add: take_storage_def take_state_def)

lemma take_state_self: "msg_local_state (take_state mc mp (take_storage mc mp mc)) =
    max (msg_local_state mc) (msg_local_state mp)"
  by (simp add: take_state_def)

lemma merge_duplicate_ok:
  assumes "merge_duplicate_message account c p d = (Inr u, d')" and "c \<noteq> p"
  obtains mc mp d2 d4 d5 where
    "List.find (\<lambda>m. msg_id m = c \<and> msg_account_id m = account) (messages d) = Some mc"
    "List.find (\<lambda>m. msg_id m = p \<and> msg_account_id m = account) (messages d) = Some mp"
    "msg_file_hash mc = None \<or> msg_file_hash mp = None \<or> msg_file_hash mc = msg_file_hash mp"
    "d2 = set_message c (take_state mc mp) (set_message c (take_storage mc mp) d)"
    "merge_aliases account c p (snd (move_contents c p d2)) = (Inr (), d4)"
    "forp (merge_membership c p) (filter (\<lambda>x. mf_message_id x = p) (message_folders d4)) d4 = (Inr (), d5)"
    "d' = delete_message p (d5\<lparr>pst_items :=
       map (map_prod id (\<lambda>r. if r = Some p then Some c else r)) (pst_items d5)\<rparr>)"
  using assms
  by (auto simp: merge_duplicate_message_def run_bind run_then run_when merge_state_max
      move_contents_def take_state_def [abs_def] take_storage_def [abs_def]
      split: option.splits prod.splits sum.splits if_splits)

lemma find_message_set:
  assumes "\<And>m. msg_id (f m) = msg_id m"
  shows "find_message (set_message i f d) i = map_option f (find_message d i)"
proof -
  have "List.find (\<lambda>m. msg_id m = i) (update_where (\<lambda>m. msg_id m = i) f rows) =
      map_option f (List.find (\<lambda>m. msg_id m = i) rows)" for rows
    by (induction rows) (auto simp: update_where_def assms)
  then show ?thesis by (simp add: find_message_def set_message_def)
qed

lemma find_message_delete: "c \<noteq> p \<Longrightarrow> find_message (delete_message p d) c = find_message d c"
proof -
  assume "c \<noteq> p"
  then have "List.find (\<lambda>m. msg_id m = c) (delete_where (\<lambda>m. msg_id m = p) rows) =
      List.find (\<lambda>m. msg_id m = c) rows" for rows
    by (induction rows) (auto simp: delete_where_def)
  then show ?thesis by (simp add: find_message_def delete_message_def)
qed

lemma find_message_account:
  assumes "uniq msg_id (messages d)"
    and "List.find (\<lambda>m. msg_id m = i \<and> msg_account_id m = a) (messages d) = Some m"
  shows "find_message d i = Some m"
proof -
  from find_Some_in_set [OF assms(2)] have m: "m \<in> set (messages d)" "msg_id m = i" by simp_all
  then obtain m' where m': "find_message d i = Some m'"
    by (cases "find_message d i") (auto simp: find_message_def find_None_iff_ball)
  from find_Some_in_set [OF m' [unfolded find_message_def]] m assms(1) have "m' = m"
    by (auto intro: uniq_inj)
  with m' show ?thesis by simp
qed

lemma distinct_folders:
  "uniq membership_key rows \<Longrightarrow> distinct (map mf_folder_id (filter (\<lambda>x. mf_message_id x = p) rows))"
  by (induction rows) (auto simp: uniq_def image_iff)

lemma has_contents_iff: "has_contents d i \<longleftrightarrow> (\<exists>b. (i, b) \<in> set (message_contents d))"
  by (force simp: has_contents_def)

lemma move_contents_run:
  "messages (snd (move_contents c p d)) = messages d"
  "message_folders (snd (move_contents c p d)) = message_folders d"
  "aliases (snd (move_contents c p d)) = aliases d"
  "has_contents (snd (move_contents c p d)) c \<longleftrightarrow> has_contents d c \<or> has_contents d p"
proof -
  have "\<exists>b. (c, b) \<in> set (update_where (\<lambda>r. fst r = p) (map_prod (\<lambda>_. c) id) rows)"
    if "(p, b) \<in> set rows" for b and rows :: "(int \<times> contents) list"
    using that by (force simp: set_update_where)
  then show "has_contents (snd (move_contents c p d)) c \<longleftrightarrow> has_contents d c \<or> has_contents d p"
    by (auto simp: move_contents_def has_contents_iff)
qed (simp_all add: move_contents_def)

lemma set_message_frame [simp]:
  "message_folders (set_message i f d) = message_folders d"
  "message_contents (set_message i f d) = message_contents d"
  "aliases (set_message i f d) = aliases d"
  by (simp_all add: set_message_def)

lemma delete_message_frame [simp]:
  "c \<noteq> p \<Longrightarrow> folders_of c (delete_message p d) = folders_of c d"
  "c \<noteq> p \<Longrightarrow> has_contents (delete_message p d) c = has_contents d c"
  by (auto simp: folders_of_def delete_message_def has_contents_iff)

section \<open>Properties\<close>


text \<open>
  Merging a duplicate row into a canonical one keeps what the user has: the duplicate row is
  gone, the canonical row has the more alive of the two local states (active before trashed before
  purged), it is a member of every folder either row was in, and it has searchable contents exactly
  when one of them had.
\<close>

lemma merge_keeps_state_folders_contents:
  assumes "db_inv d" and "c \<noteq> p" and "merge_duplicate_message account c p d = (Inr (), d')"
    and "find_message d c = Some mc" and "find_message d p = Some mp"
  shows "\<not> message_exists d' p \<and>
    (\<exists>m. find_message d' c = Some m \<and>
       msg_local_state m = max (msg_local_state mc) (msg_local_state mp)) \<and>
    folders_of c d' = folders_of c d \<union> folders_of p d \<and>
    (has_contents d' c \<longleftrightarrow> has_contents d c \<or> has_contents d p)"
proof -
  from merge_duplicate_ok [OF assms(3,2)] obtain mc' mp' d2 d4 d5 where
    mc': "List.find (\<lambda>m. msg_id m = c \<and> msg_account_id m = account) (messages d) = Some mc'"
    and mp': "List.find (\<lambda>m. msg_id m = p \<and> msg_account_id m = account) (messages d) = Some mp'"
    and d2: "d2 = set_message c (take_state mc' mp') (set_message c (take_storage mc' mp') d)"
    and d4: "merge_aliases account c p (snd (move_contents c p d2)) = (Inr (), d4)"
    and d5: "forp (merge_membership c p) (filter (\<lambda>x. mf_message_id x = p) (message_folders d4)) d4 =
      (Inr (), d5)"
    and d': "d' = delete_message p (d5\<lparr>pst_items :=
       map (map_prod id (\<lambda>r. if r = Some p then Some c else r)) (pst_items d5)\<rparr>)" .
  have uniq: "uniq msg_id (messages d)" "uniq membership_key (message_folders d)"
    using assms(1) by (simp_all add: db_inv_def messages_inv_def memberships_inv_def)
  from find_message_account [OF uniq(1) mc'] find_message_account [OF uniq(1) mp'] assms(4,5)
  have rows: "mc' = mc" "mp' = mp" by simp_all
  have "\<exists>m. find_message d2 c = Some m \<and>
      msg_local_state m = max (msg_local_state mc) (msg_local_state mp)"
    by (simp add: d2 rows find_message_set assms(4) take_state_self)
  moreover note f4 = merge_aliases_frame [OF d4]
  moreover have "folders_of c d5 = folders_of p d \<union> folders_of c d \<and> messages d5 = messages d4 \<and>
      message_contents d5 = message_contents d4"
    using merge_memberships_all [OF d5 assms(2)] distinct_folders [OF uniq(2)] f4
    by (simp add: folders_of_def move_contents_run d2)
  moreover have "has_contents d5 c \<longleftrightarrow> has_contents d c \<or> has_contents d p"
    using calculation move_contents_run(4) [of c p d2] by (simp add: has_contents_def d2)
  moreover have "find_message d' c = find_message d5 c" "folders_of c d' = folders_of c d5"
    "has_contents d' c = has_contents d5 c" "\<not> message_exists d' p"
    using assms(2) by (simp_all add: d' find_message_delete,
        simp_all add: find_message_def folders_of_def has_contents_def)
  ultimately show ?thesis
    by (auto simp: find_message_def move_contents_run)
qed

text \<open>A small database for the examples: one account, two folders, and one message present in each
  under two rows.\<close>

definition sample_account :: account_row where
  "sample_account = account_values \<lparr>aa_id = ''acc'', aa_provider_type = None,
     aa_display_name = None, aa_host = Some ''h'', aa_port = None, aa_username = Some ''u'',
     aa_is_enabled = None, aa_tls_mode = None, aa_ca_cert_path = None, aa_auth_type = None,
     aa_oauth_provider = None, aa_oauth_client_id = None, aa_oauth_tenant = None\<rparr>"

definition sample_folder :: "int \<Rightarrow> string \<Rightarrow> folder_row" where
  "sample_folder i raw = folder_values \<lparr>fa_account_id = ''acc'', fa_raw_name = raw,
     fa_display_name = None, fa_uidvalidity = Some (Some 7), fa_last_seen_uid = None,
     fa_is_sync_target = Some True, fa_last_synced_at = None, fa_backfill_next_uid = None,
     fa_initial_sync_completed = None, fa_highest_modseq = None\<rparr> i"

definition sample_message :: "int \<Rightarrow> string \<Rightarrow> local_state \<Rightarrow> message_row" where
  "sample_message i key st = set_columns
     [ColLocalState st, ColRelativePath (Some ''eml/acc/m.eml''), ColFileHash (Some ''ab''),
      ColSizeBytes (Some 3)] (blank_message i ''acc'' key)"

definition sample_membership :: "int \<Rightarrow> int \<Rightarrow> int \<Rightarrow> membership" where
  "sample_membership i f u =
    \<lparr>mf_message_id = i, mf_folder_id = f, mf_uid = Some u, mf_uidvalidity = Some 7,
     mf_remote_state = RemotePresent, mf_moved_to = None, mf_imap_flags = None,
     mf_flags_seen_at = None, mf_last_seen_at = None\<rparr>"

definition sample_contents :: contents where
  "sample_contents = \<lparr>cnt_subject_norm = None, cnt_sender_norm = None, cnt_body_text = Some ''b'',
     cnt_attachment_names = None\<rparr>"

definition sample_db :: db where
  "sample_db =
    \<lparr>accounts = [sample_account], folders = [sample_folder 1 ''INBOX'', sample_folder 2 ''Trash''],
     messages = [sample_message 1 ''k1'' Trashed, sample_message 2 ''k2'' Active],
     message_folders = [sample_membership 1 1 5, sample_membership 2 2 6],
     message_contents = [(2, sample_contents)], sync_failures = [], audit_log = [], app_state = [],
     aliases = [\<lparr>al_account_id = ''acc'', al_observed_key = ''old'', al_message_id = 2,
                 al_evidence_kind = ''copyuid''\<rparr>],
     pst_items = [], next_folder_id = 3, next_message_id = 3\<rparr>"

lemmas sample_db_defs = sample_db_def sample_account_def sample_folder_def sample_message_def
  sample_membership_def sample_contents_def account_values_def folder_values_def blank_message_def
  set_columns_def get_default_def

lemma sample_db_inv: "db_inv sample_db"
  by (simp add: db_inv_def table_inv_defs exists_defs uniq_def uniq_some_def differ_def uid_key_def
      sample_db_defs)

lemma sample_merge: "fst (merge_duplicate_message ''acc'' 1 2 sample_db) = Inr ()"
  by code_simp

lemma sample_rows:
  "find_message sample_db 1 = Some (sample_message 1 ''k1'' Trashed)"
  "find_message sample_db 2 = Some (sample_message 2 ''k2'' Active)"
  by (simp_all add: find_message_def sample_db_def) (simp_all add: sample_db_defs)

lemma merge_keeps_state_folders_contents_witness:
  "folders_of 1 (snd (merge_duplicate_message ''acc'' 1 2 sample_db)) = {1, 2} \<and>
   has_contents (snd (merge_duplicate_message ''acc'' 1 2 sample_db)) 1 \<and>
   (\<exists>m. find_message (snd (merge_duplicate_message ''acc'' 1 2 sample_db)) 1 = Some m \<and>
      msg_local_state m = Active)"
proof -
  have run: "merge_duplicate_message ''acc'' 1 2 sample_db =
      (Inr (), snd (merge_duplicate_message ''acc'' 1 2 sample_db))"
    using sample_merge by (metis prod.collapse)
  have max: "max (msg_local_state (sample_message 1 ''k1'' Trashed))
      (msg_local_state (sample_message 2 ''k2'' Active)) = Active"
    by (simp add: sample_db_defs max_def less_eq_local_state_def)
  have f: "folders_of 1 sample_db \<union> folders_of 2 sample_db = {1, 2}" "has_contents sample_db 2"
    by (auto simp: folders_of_set has_contents_def sample_db_def sample_membership_def)
  have "(1 :: int) \<noteq> 2" by simp
  from merge_keeps_state_folders_contents [OF sample_db_inv this run sample_rows] f max
  show ?thesis by metis
qed

text \<open>
  The same merge loses the aliases of the duplicate. They are re-inserted with
  \<^verbatim>\<open>INSERT OR IGNORE\<close> while the old rows still hold their unique keys, so the insertion is ignored,
  and then the old rows are deleted: after a successful merge no alias with such a key exists, and
  the observed key no longer resolves to the message.
\<close>

lemma merge_loses_duplicate_aliases:
  assumes "db_inv d" and "c \<noteq> p" and "merge_duplicate_message account c p d = (Inr (), d')"
    and "a \<in> set (aliases d)" and "al_message_id a = p"
  shows "alias_key a \<notin> alias_key ` set (aliases d')"
proof -
  from merge_duplicate_ok [OF assms(3,2)] obtain mc mp d2 d4 d5 where
    d2: "d2 = set_message c (take_state mc mp) (set_message c (take_storage mc mp) d)"
    and d4: "merge_aliases account c p (snd (move_contents c p d2)) = (Inr (), d4)"
    and d5: "forp (merge_membership c p) (filter (\<lambda>x. mf_message_id x = p) (message_folders d4)) d4 =
      (Inr (), d5)"
    and d': "d' = delete_message p (d5\<lparr>pst_items :=
       map (map_prod id (\<lambda>r. if r = Some p then Some c else r)) (pst_items d5)\<rparr>)" .
  have uniq: "uniq alias_key (aliases d)" "uniq membership_key (message_folders d)"
    using assms(1) by (simp_all add: db_inv_def aliases_inv_def memberships_inv_def)
  have lost: "alias_key a \<notin> alias_key ` set (aliases d4)"
    using merge_aliases_loses [OF d4 _ _ assms(5)] uniq(1) assms(4) by (simp add: move_contents_run d2)
  have "aliases d5 = aliases d4"
    using merge_memberships_all [OF d5 assms(2)] distinct_folders [OF uniq(2)]
      merge_aliases_frame [OF d4]
    by (simp add: folders_of_def move_contents_run d2)
  with lost show ?thesis by (auto simp: d' delete_message_def)
qed

lemma merge_loses_duplicate_aliases_witness:
  "(''acc'', ''old'') \<in> alias_key ` set (aliases sample_db) \<and>
   (''acc'', ''old'') \<notin> alias_key ` set (aliases (snd (merge_duplicate_message ''acc'' 1 2 sample_db)))"
proof -
  let ?a = "\<lparr>al_account_id = ''acc'', al_observed_key = ''old'', al_message_id = 2,
    al_evidence_kind = ''copyuid''\<rparr>"
  have a: "?a \<in> set (aliases sample_db)" by (simp add: sample_db_def)
  have run: "merge_duplicate_message ''acc'' 1 2 sample_db =
      (Inr (), snd (merge_duplicate_message ''acc'' 1 2 sample_db))"
    using sample_merge by (metis prod.collapse)
  from merge_loses_duplicate_aliases [OF sample_db_inv _ run a]
  have "alias_key ?a \<notin> alias_key ` set (aliases (snd (merge_duplicate_message ''acc'' 1 2 sample_db)))"
    by simp
  moreover have "alias_key ?a \<in> alias_key ` set (aliases sample_db)" using a by (rule imageI)
  ultimately show ?thesis by simp
qed

section \<open>Upserted messages\<close>

lemma upsert_row_fixed:
  assumes "\<And>r. r \<in> set rows \<Longrightarrow> key r = k \<Longrightarrow> upd r = r" and "k \<in> key ` set rows"
  shows "upsert_row key k upd new rows = rows"
  using assms by (simp add: upsert_row_def update_where_def map_idI)

lemma upsert_message_row_ok:
  assumes "upsert_message_row a d = (Inr u, d')"
  shows "(ma_account_id a, ma_source_item_key a) \<in> message_key ` set (messages d')"
    and "\<forall>m\<in>set (messages d'). message_key m = (ma_account_id a, ma_source_item_key a) \<longrightarrow>
      set_columns (ma_columns a) m = m"
    and "message_folders d' = message_folders d" and "folders d' = folders d"
    and "message_contents d' = message_contents d"
proof -
  let ?k = "(ma_account_id a, ma_source_item_key a)"
  from assms have d': "messages d' = upsert_row message_key ?k (set_columns (ma_columns a))
      (set_columns (ma_columns a) (blank_message (next_message_id d) (ma_account_id a)
        (ma_source_item_key a))) (messages d)"
    and rest: "message_folders d' = message_folders d" "folders d' = folders d"
      "message_contents d' = message_contents d"
    by (auto simp: upsert_message_row_def Let_def constrained_def split: if_splits)
  show "?k \<in> message_key ` set (messages d')"
    unfolding d' by (rule upsert_row_in) simp_all
  show "\<forall>m\<in>set (messages d'). message_key m = ?k \<longrightarrow> set_columns (ma_columns a) m = m"
    unfolding d' by (auto simp: upsert_row_def set_update_where set_columns_idem image_iff)
  show "message_folders d' = message_folders d" "folders d' = folders d"
    "message_contents d' = message_contents d" using rest by simp_all
qed

lemma upsert_message_row_again:
  assumes "(ma_account_id a, ma_source_item_key a) \<in> message_key ` set (messages d)"
    and "\<forall>m\<in>set (messages d). message_key m = (ma_account_id a, ma_source_item_key a) \<longrightarrow>
      set_columns (ma_columns a) m = m"
  shows "upsert_message_row a d = (Inr (), d)"
proof -
  have "upsert_row message_key (ma_account_id a, ma_source_item_key a) (set_columns (ma_columns a))
      new (messages d) = messages d" for new
    by (rule upsert_row_fixed) (use assms in auto)
  with assms(1) show ?thesis by (simp add: upsert_message_row_def Let_def constrained_def)
qed

lemma upsert_membership_ok:
  assumes "upsert_membership x d = (Inr u, d')"
  shows "membership_ok d x" and "x \<in> set (message_folders d')"
    and "\<forall>y\<in>set (message_folders d'). membership_key y = membership_key x \<longrightarrow> y = x"
    and "\<forall>y\<in>set (message_folders d'). membership_key y \<noteq> membership_key x \<longrightarrow> y \<in> set (message_folders d)"
    and "d' = d\<lparr>message_folders := message_folders d'\<rparr>"
proof -
  from assms have ok: "membership_ok d x" and d': "d' = d\<lparr>message_folders :=
      upsert_row membership_key (membership_key x) (\<lambda>_. x) x (message_folders d)\<rparr>"
    by (auto simp: upsert_membership_def constrained_def split: if_splits)
  show "membership_ok d x" by (rule ok)
  show "x \<in> set (message_folders d')"
    by (auto simp: d' upsert_row_def set_update_where)
  show "\<forall>y\<in>set (message_folders d'). membership_key y = membership_key x \<longrightarrow> y = x"
    by (auto simp: d' upsert_row_def set_update_where image_iff)
  show "\<forall>y\<in>set (message_folders d'). membership_key y \<noteq> membership_key x \<longrightarrow> y \<in> set (message_folders d)"
    by (auto simp: d' upsert_row_def set_update_where split: if_splits)
  show "d' = d\<lparr>message_folders := message_folders d'\<rparr>" by (simp add: d')
qed

lemma upsert_membership_again:
  assumes "membership_ok d x" and "x \<in> set (message_folders d)"
    and "\<forall>y\<in>set (message_folders d). membership_key y = membership_key x \<longrightarrow> y = x"
  shows "upsert_membership x d = (Inr (), d)"
proof -
  have "upsert_row membership_key (membership_key x) (\<lambda>_. x) x (message_folders d) = message_folders d"
    by (rule upsert_row_fixed) (use assms in auto)
  with assms(1) show ?thesis by (simp add: upsert_membership_def constrained_def)
qed

lemma update_message_contents_frame:
  "update_message_contents i c d = (r, d') \<Longrightarrow> messages d' = messages d \<and> folders d' = folders d \<and>
     message_folders d' = message_folders d \<and> accounts d' = accounts d"
  by (auto simp: update_message_contents_def constrained_def split: if_splits)

text \<open>
  Storing a message is an idempotent upsert. After a successful \<^verbatim>\<open>add_message\<close> there is a row
  with the account and source key and the returned id, which holds every column of the record, and
  the membership in the record's folder is exactly the record's. Storing the same record again
  returns the same id and changes nothing.
\<close>

lemma add_message_idempotent:
  assumes "add_message norm a cnt d = (Inr i, d1)"
  shows "(\<exists>m\<in>set (messages d1). msg_id m = i \<and> set_columns (ma_columns a) m = m \<and>
            message_key m = (ma_account_id a, ma_source_item_key a)) \<and>
         arg_membership a i \<in> set (message_folders d1) \<and>
         add_message norm a None d1 = (Inr i, d1)"
proof -
  from assms obtain v d' i' d2 where row: "upsert_message_row a d = (Inr v, d')"
    and find: "map_option msg_id (List.find (\<lambda>m. message_key m = (ma_account_id a, ma_source_item_key a))
      (messages d')) = Some i"
    and mem: "upsert_membership (arg_membership a i) d' = (Inr i', d2)"
    and cnt: "(case cnt of None \<Rightarrow> ret () | Some c \<Rightarrow>
      update_message_contents i (normalized_contents norm c)) d2 = (Inr (), d1)"
    by (auto simp: add_message_def run_then run_bind find_message_id_by_source_item_key_def
        split: prod.splits sum.splits option.splits)
  note r = upsert_message_row_ok [OF row] and m = upsert_membership_ok [OF mem]
  have "messages d1 = messages d2 \<and> folders d1 = folders d2 \<and> message_folders d1 = message_folders d2"
    using cnt update_message_contents_frame [of i _ d2 _ d1] by (cases cnt) auto
  moreover have "messages d2 = messages d'" "folders d2 = folders d'"
    using arg_cong [OF m(5), of messages] arg_cong [OF m(5), of folders] by simp_all
  ultimately have frame: "messages d1 = messages d'" "folders d1 = folders d'"
    "message_folders d1 = message_folders d2" by simp_all
  have "membership_ok d1 (arg_membership a i)"
    using m(1,4) unfolding membership_ok_def message_exists_def folder_exists_def
    by (auto simp: frame)
  with frame m(2,3) have mem': "upsert_membership (arg_membership a i) d1 = (Inr (), d1)"
    by (intro upsert_membership_again) simp_all
  have row': "upsert_message_row a d1 = (Inr (), d1)"
    using r(1,2) frame by (intro upsert_message_row_again) simp_all
  have "find_message_id_by_source_item_key (ma_account_id a) (ma_source_item_key a) d1 = (Inr (Some i), d1)"
    using find by (simp add: find_message_id_by_source_item_key_def frame)
  then have "add_message norm a None d1 = (Inr i, d1)"
    by (simp add: add_message_def row' mem')
  moreover from find obtain x where "x \<in> set (messages d')" "msg_id x = i"
    "message_key x = (ma_account_id a, ma_source_item_key a)"
    using find_Some_in_set by fastforce
  ultimately show ?thesis using r(2) frame m(2) by auto
qed

definition sample_arg :: message_arg where
  "sample_arg = \<lparr>ma_account_id = ''acc'', ma_folder_id = 1, ma_source_item_key = ''k3'',
     ma_columns = [ColContentKey ''c'', ColLocalState Active], ma_uid = Some 9,
     ma_uidvalidity = Some 7, ma_remote_state = None, ma_moved_to = None, ma_imap_flags = None,
     ma_flags_seen_at = None, ma_last_seen_at = None\<rparr>"

lemma add_message_idempotent_witness:
  "add_message id sample_arg None (snd (add_message id sample_arg None sample_db)) =
     (Inr 3, snd (add_message id sample_arg None sample_db))"
proof -
  have "fst (add_message id sample_arg None sample_db) = Inr 3" by code_simp
  then have "add_message id sample_arg None sample_db =
      (Inr 3, snd (add_message id sample_arg None sample_db))" by (metis prod.collapse)
  from add_message_idempotent [OF this] show ?thesis by simp
qed

section \<open>The failure counter\<close>

lemma record_failure_first:
  assumes "(a, f, v, u) \<notin> failure_key ` set (sync_failures d)"
  shows "\<exists>s. sync_failures (snd (record_failure a f v u c m d)) = sync_failures d @ [s] \<and>
     failure_key s = (a, f, v, u) \<and> sf_attempt_count s = 1"
  using assms by (simp add: record_failure_def upsert_row_def)

lemma record_failure_again:
  assumes "\<exists>rows s. sync_failures d = rows @ [s] \<and> failure_key s = (a, f, v, u) \<and>
    sf_attempt_count s = n \<and> (a, f, v, u) \<notin> failure_key ` set rows"
  shows "\<exists>rows s. sync_failures (snd (record_failure a f v u c m d)) = rows @ [s] \<and>
    failure_key s = (a, f, v, u) \<and> sf_attempt_count s = n + 1 \<and>
    (a, f, v, u) \<notin> failure_key ` set rows"
proof -
  from assms obtain rows s where d: "sync_failures d = rows @ [s]" "failure_key s = (a, f, v, u)"
    "sf_attempt_count s = n" "(a, f, v, u) \<notin> failure_key ` set rows" by blast
  have "update_where (\<lambda>s. failure_key s = (a, f, v, u)) g rows = rows" for g
    using d(4) by (intro update_where_none) auto
  moreover have "(a, f, v, u) \<in> failure_key ` set (sync_failures d)" using d by simp
  ultimately show ?thesis
    using d by (simp add: record_failure_def upsert_row_def update_where_def)
qed

lemma record_failures_count:
  assumes "\<exists>rows s. sync_failures d = rows @ [s] \<and> failure_key s = (a, f, v, u) \<and>
    sf_attempt_count s = n \<and> (a, f, v, u) \<notin> failure_key ` set rows"
  shows "\<exists>rows s. sync_failures (snd (forp (\<lambda>e. record_failure a f v u (fst e) (snd e)) es d)) = rows @ [s] \<and>
    failure_key s = (a, f, v, u) \<and> sf_attempt_count s = n + int (length es) \<and>
    (a, f, v, u) \<notin> failure_key ` set rows"
  using assms
proof (induction es arbitrary: d n)
  case Nil
  then show ?case by (simp add: forp_def)
next
  case (Cons e es)
  let ?d = "snd (record_failure a f v u (fst e) (snd e) d)"
  have run: "forp (\<lambda>e. record_failure a f v u (fst e) (snd e)) (e # es) d =
      forp (\<lambda>e. record_failure a f v u (fst e) (snd e)) es ?d"
    by (simp add: forp_def record_failure_def run_bind)
  from Cons.IH [OF record_failure_again [OF Cons.prems]] show ?case
    unfolding run by (simp add: algebra_simps)
qed

text \<open>
  A message that keeps failing is retried at most nine more times. After a first failure of a
  UID and any further failures of it, whatever their error class, the attempt counter is the number
  of failures, and the UID is listed for retry exactly while this is below ten; clearing the failure
  takes it off the list.
\<close>

lemma failure_retry_budget:
  assumes "(a, f, v, u) \<notin> failure_key ` set (sync_failures d)" and "es \<noteq> []"
    and "d' = snd (forp (\<lambda>e. record_failure a f v u (fst e) (snd e)) es d)"
    and "pending_failures a f v d' = (Inr rows, t)"
    and "pending_failures a f v (snd (clear_failure a f v u d')) = (Inr rows', t')"
  shows "(u \<in> sf_uid ` set rows \<longleftrightarrow> length es < 10) \<and> u \<notin> sf_uid ` set rows'"
proof -
  obtain e es' where es: "es = e # es'" using assms(2) by (cases es) auto
  let ?d = "snd (record_failure a f v u (fst e) (snd e) d)"
  have run: "forp (\<lambda>e. record_failure a f v u (fst e) (snd e)) es d =
      forp (\<lambda>e. record_failure a f v u (fst e) (snd e)) es' ?d"
    by (simp add: es forp_def record_failure_def run_bind)
  from record_failure_first [OF assms(1)] assms(1)
  have "\<exists>rows s. sync_failures ?d = rows @ [s] \<and> failure_key s = (a, f, v, u) \<and>
      sf_attempt_count s = 1 \<and> (a, f, v, u) \<notin> failure_key ` set rows" by blast
  from record_failures_count [OF this, of es'] obtain rs s where
    s: "sync_failures d' = rs @ [s]" "failure_key s = (a, f, v, u)"
      "sf_attempt_count s = int (length es)" "(a, f, v, u) \<notin> failure_key ` set rs"
    unfolding assms(3) run by (auto simp: es)
  from assms(4) have "set rows = {r \<in> set (sync_failures d'). sf_account_id r = a \<and>
      sf_folder_id r = f \<and> sf_uidvalidity r = v \<and> sf_attempt_count r < 10}"
    by (auto simp: pending_failures_def)
  then have rows: "set rows = {r \<in> insert s (set rs). sf_account_id r = a \<and>
      sf_folder_id r = f \<and> sf_uidvalidity r = v \<and> sf_attempt_count r < 10}"
    by (simp only: s(1) set_append set_simps Un_insert_right Un_empty_right)
  have "r = s" if "r \<in> set rows" "sf_uid r = u" for r
    using that s(4) by (auto simp: rows)
  moreover have "s \<in> set rows \<longleftrightarrow> length es < 10" "sf_uid s = u"
    using s(2,3) by (auto simp: rows)
  ultimately have "u \<in> sf_uid ` set rows \<longleftrightarrow> length es < 10" by auto
  moreover from assms(5) have "u \<notin> sf_uid ` set rows'"
    by (auto simp: pending_failures_def clear_failure_def)
  ultimately show ?thesis by simp
qed

lemma failure_retry_budget_witness:
  "(5 \<in> sf_uid ` set (sync_failures (snd (forp (\<lambda>e. record_failure ''acc'' 1 7 5 (fst e) (snd e))
      [(''fetch'', ''x''), (''fetch'', ''y'')] sample_db)))) \<and>
   (\<exists>rows t. pending_failures ''acc'' 1 7 (snd (forp (\<lambda>e. record_failure ''acc'' 1 7 5 (fst e) (snd e))
      [(''fetch'', ''x''), (''fetch'', ''y'')] sample_db)) = (Inr rows, t) \<and> 5 \<in> sf_uid ` set rows)"
proof -
  let ?es = "[(''fetch'', ''x''), (''fetch'', ''y'')]"
  let ?d = "snd (forp (\<lambda>e. record_failure ''acc'' 1 7 5 (fst e) (snd e)) ?es sample_db)"
  have fresh: "(''acc'', 1, 7, 5) \<notin> failure_key ` set (sync_failures sample_db)"
    by (simp add: sample_db_def)
  obtain rows t where p: "pending_failures ''acc'' 1 7 ?d = (Inr rows, t)"
    and sub: "set rows \<subseteq> set (sync_failures ?d)"
    by (auto simp: pending_failures_def)
  obtain rows' t' where q: "pending_failures ''acc'' 1 7 (snd (clear_failure ''acc'' 1 7 5 ?d)) = (Inr rows', t')"
    by (simp add: pending_failures_def)
  have "5 \<in> sf_uid ` set rows"
    using failure_retry_budget [OF fresh _ refl p q] by simp
  with p sub show ?thesis by blast
qed

end
