(* ===== verification/Trash.thy ===== *)
theory Trash
  imports World Repository_Props
begin

text \<open>
  The local trash (\<^verbatim>\<open>usecases/trash.py\<close>): moving messages to the trash and back, listing what may be
  purged, purging with a journal of intents and completions, and recovery after a crash. The
  manifest is the IMAP manifest of the account; PST generations use another writer.
\<close>

section \<open>Trash and restore\<close>

record trash_result =
  tr_trashed_ids :: "int list"
  tr_restored_ids :: "int list"
  tr_skipped_ids :: "int list"

definition move_step :: "string \<Rightarrow> int list \<times> int list \<Rightarrow> int \<Rightarrow> (db, int list \<times> int list) prog" where
  "move_step trashed_at acc i = (case acc of (trashed, skipped) \<Rightarrow>
     bindp (get_message i) (\<lambda>record. case record of
       None \<Rightarrow> ret (trashed, skipped @ [i])
     | Some r \<Rightarrow>
         if msg_local_state (rec_row r) = Purged then ret (trashed, skipped @ [i])
         else if msg_local_state (rec_row r) = Trashed then ret (trashed, skipped)
         else thenp (set_local_state i Trashed (Some trashed_at)) (ret (trashed @ [i], skipped))))"

definition move_to_trash :: "string \<Rightarrow> int list \<Rightarrow> (db, trash_result) prog" where
  "move_to_trash trashed_at message_ids =
    bindp (foldp (move_step trashed_at) ([], []) message_ids) (\<lambda>acc. case acc of (trashed, skipped) \<Rightarrow>
      ret \<lparr>tr_trashed_ids = trashed, tr_restored_ids = [], tr_skipped_ids = skipped\<rparr>)"

definition restore_step :: "int list \<times> int list \<Rightarrow> int \<Rightarrow> (db, int list \<times> int list) prog" where
  "restore_step acc i = (case acc of (restored, skipped) \<Rightarrow>
     bindp (get_message i) (\<lambda>record. case record of
       None \<Rightarrow> ret (restored, skipped @ [i])
     | Some r \<Rightarrow>
         if msg_local_state (rec_row r) \<noteq> Trashed then ret (restored, skipped @ [i])
         else thenp (set_local_state i Active None) (ret (restored @ [i], skipped))))"

definition restore_from_trash :: "int list \<Rightarrow> (db, trash_result) prog" where
  "restore_from_trash message_ids =
    bindp (foldp restore_step ([], []) message_ids) (\<lambda>acc. case acc of (restored, skipped) \<Rightarrow>
      ret \<lparr>tr_trashed_ids = [], tr_restored_ids = restored, tr_skipped_ids = skipped\<rparr>)"

section \<open>Purge candidates\<close>

text \<open>\<open>cutoff\<close> stands for the text of \<open>now - timedelta(days=grace_days)\<close>.\<close>

definition list_purge_candidates :: "(int \<Rightarrow> string) \<Rightarrow> int \<Rightarrow> (db, message_record list) prog" where
  "list_purge_candidates cutoff grace_days =
    (if grace_days < 0 then raise (ValueError ''grace_days must be non-negative'')
     else list_trashed None (Some (cutoff grace_days)))"

definition list_startup_purge_candidates ::
  "string \<Rightarrow> (int \<Rightarrow> string) \<Rightarrow> int \<Rightarrow> (db, message_record list) prog" where
  "list_startup_purge_candidates mode cutoff grace_days =
    (if mode = ''manual'' then ret []
     else if mode \<notin> {''grace'', ''immediate''}
     then raise (ValueError (''unsupported purge mode: '' @ mode))
     else list_purge_candidates cutoff grace_days)"

section \<open>Purging\<close>

definition purge_event ::
  "string \<Rightarrow> message_row \<Rightarrow> string \<Rightarrow> string \<Rightarrow> string \<Rightarrow> int \<Rightarrow> bool \<Rightarrow> event" where
  "purge_event name m relative_path file_hash timestamp shared physical =
     [(''event'', JStr name), (''account_id'', JStr (msg_account_id m)),
      (''source_item_key'', JStr (msg_source_item_key m)), (''relative_path'', JStr relative_path),
      (''file_hash'', JStr file_hash), (''timestamp'', JStr timestamp),
      (''shared_reference_count'', JInt shared), (''physical_delete'', JBool physical)]"

definition purge_audit_entry :: "message_row \<Rightarrow> string \<Rightarrow> bool \<Rightarrow> audit_row" where
  "purge_audit_entry m timestamp physical =
    \<lparr>aud_occurred_at = timestamp, aud_operation = ''local_purge'',
     aud_account_id = Some (msg_account_id m), aud_message_id = PyInt (msg_id m),
     aud_subject = msg_subject m, aud_size_bytes = msg_size_bytes m,
     aud_detail = Some (''physical_delete='' @ (if physical then ''true'' else ''false''))\<rparr>"

definition audit_exists :: "message_row \<Rightarrow> (db, bool) prog" where
  "audit_exists m = bindp (list_audit_log (2 ^ 31 - 1) 0) (\<lambda>rows.
     ret (\<exists>a\<in>set rows. aud_operation a = ''local_purge'' \<and> aud_message_id a = PyInt (msg_id m) \<and>
            aud_account_id a = Some (msg_account_id m)))"

definition finish_purge_database :: "env \<Rightarrow> message_row \<Rightarrow> bool \<Rightarrow> ('r world, unit) prog" where
  "finish_purge_database E m physical =
    thenp begin_batch
    (thenp (on_db (delete_message_contents (msg_id m)))
    (thenp (on_db (update_message_storage (msg_id m) None None))
    (thenp (on_db (set_local_state (msg_id m) Purged None))
    (bindp (on_db (audit_exists m)) (\<lambda>known.
     thenp (whenp (\<not> known) (on_db (record_audit (purge_audit_entry m (now E) physical))))
     commit_batch)))))"

definition complete_purge ::
  "env \<Rightarrow> message_row \<Rightarrow> string \<Rightarrow> bool option \<Rightarrow> bool \<Rightarrow> ('r world, bool \<times> bool \<times> string option) prog" where
  "complete_purge E m timestamp intended write_intent =
    (case (msg_relative_path m, msg_file_hash m) of
       (Some relative_path, Some file_hash) \<Rightarrow>
         if relative_path = [] \<or> file_hash = [] then ret (False, False, None)
         else bindp (on_db (count_path_references (msg_account_id m) relative_path (msg_id m))) (\<lambda>shared.
           let physical = (shared = 0 \<and> opt_all id intended) in
           thenp (whenp write_intent (journal E
             (purge_event ''purge_intent'' m relative_path file_hash timestamp shared physical)))
           (bindp (if physical then storage_exists relative_path else ret False) (\<lambda>found.
            thenp (whenp found (storage_delete relative_path))
            (thenp (journal E (purge_event ''purged'' m relative_path file_hash timestamp shared physical))
            (thenp (finish_purge_database E m physical)
              (ret (True, found, if shared = 0 then None else Some relative_path)))))))
     | _ \<Rightarrow> ret (False, False, None))"

record purge_result =
  pr_purged_ids :: "int list"
  pr_skipped_ids :: "int list"
  pr_deleted_paths :: "string list"
  pr_shared_paths :: "string list"
  pr_total_size :: int

definition purge_step ::
  "env \<Rightarrow> purge_result \<Rightarrow> message_row \<Rightarrow> ('r world, purge_result) prog" where
  "purge_step E res m =
    (if msg_local_state m \<noteq> Trashed
     then ret (res\<lparr>pr_skipped_ids := pr_skipped_ids res @ [msg_id m]\<rparr>)
     else bindp (complete_purge E m (now E) None True) (\<lambda>(completed, deleted, shared_path).
       if \<not> completed then ret (res\<lparr>pr_skipped_ids := pr_skipped_ids res @ [msg_id m]\<rparr>)
       else ret (res\<lparr>pr_purged_ids := pr_purged_ids res @ [msg_id m],
         pr_deleted_paths := pr_deleted_paths res @
           (case msg_relative_path m of Some p \<Rightarrow> if deleted then [p] else [] | None \<Rightarrow> []),
         pr_shared_paths := pr_shared_paths res @
           (case shared_path of Some p \<Rightarrow> [p] | None \<Rightarrow> [])\<rparr>)))"

definition purge_records :: "int list \<Rightarrow> db \<Rightarrow> message_row list" where
  "purge_records message_ids d =
     [rec_row r. i \<leftarrow> message_ids,
        r \<leftarrow> (case map_option (message_record_of d) (find_message d i) of None \<Rightarrow> [] | Some r \<Rightarrow> [r])]"

definition purge :: "env \<Rightarrow> storage_state \<Rightarrow> int list \<Rightarrow> ('r world, purge_result) prog" where
  "purge E st message_ids =
    (if \<not> is_write_allowed st then raise StorageDetachedError
     else bindp (on_db (gets (purge_records message_ids))) (\<lambda>records.
       foldp (purge_step E)
         \<lparr>pr_purged_ids = [], pr_skipped_ids = [], pr_deleted_paths = [], pr_shared_paths = [],
          pr_total_size = sum_list (map (\<lambda>m. case msg_size_bytes m of Some n \<Rightarrow> max 0 n | None \<Rightarrow> 0) records)\<rparr>
         records))"

section \<open>Recovery\<close>

abbreviation event_key :: "event \<Rightarrow> json \<times> json" where
  "event_key ev \<equiv> (jget ev ''account_id'', jget ev ''source_item_key'')"

definition record_for_key :: "message_row list \<Rightarrow> json \<times> json \<Rightarrow> message_row option" where
  "record_for_key records k =
     List.find (\<lambda>m. (JStr (msg_account_id m), JStr (msg_source_item_key m)) = k) (rev records)"

definition recover_intent :: "env \<Rightarrow> message_row list \<Rightarrow> event \<Rightarrow> ('r world, unit) prog" where
  "recover_intent E records intent =
    (if jget intent ''event'' \<noteq> JStr ''purge_intent'' then ret ()
     else case record_for_key records (event_key intent) of
       None \<Rightarrow> ret ()
     | Some m \<Rightarrow>
         (case (jget intent ''timestamp'', jget intent ''relative_path'', jget intent ''file_hash'') of
            (JStr timestamp, JStr relative_path, JStr file_hash) \<Rightarrow>
              if msg_relative_path m \<notin> {None, Some relative_path} \<or>
                 msg_file_hash m \<notin> {None, Some file_hash} then ret ()
              else thenp (complete_purge E
                (m\<lparr>msg_relative_path := Some relative_path, msg_file_hash := Some file_hash\<rparr>) timestamp
                (case jget intent ''physical_delete'' of JBool b \<Rightarrow> Some b | _ \<Rightarrow> None) False)
                (ret ())
          | _ \<Rightarrow> ret ()))"

definition recover_completed :: "env \<Rightarrow> message_row list \<Rightarrow> event \<Rightarrow> ('r world, unit) prog" where
  "recover_completed E records ev = (case record_for_key records (event_key ev) of
     None \<Rightarrow> ret ()
   | Some m \<Rightarrow>
       if msg_local_state m = Purged then ret ()
       else (case jget ev ''physical_delete'' of
           JBool b \<Rightarrow> finish_purge_database E m b
         | _ \<Rightarrow> ret ()))"

text \<open>The dictionary of the completed events: the last event of each key, in order of first
  occurrence.\<close>

definition completed_events :: "event list \<Rightarrow> event list" where
  "completed_events evs = map snd (foldl (\<lambda>d ev.
     if jget ev ''event'' = JStr ''purged''
     then upsert_row fst (event_key ev) (\<lambda>_. (event_key ev, ev)) (event_key ev, ev) d else d) [] evs)"

definition recover_incomplete_purges :: "env \<Rightarrow> storage_state \<Rightarrow> ('r world, unit) prog" where
  "recover_incomplete_purges E st =
    (if \<not> is_write_allowed st then raise StorageDetachedError
     else bindp (on_db (list_stored_messages None)) (\<lambda>stored.
       let records = map rec_row stored in
       bindp (gets (\<lambda>w. read_all_events (w_man w))) (\<lambda>r. bindp (lift_sum r) (\<lambda>events.
       bindp (gets (\<lambda>w. read_incomplete_intents (w_man w))) (\<lambda>r. bindp (lift_sum r) (\<lambda>intents.
       thenp (forp (recover_intent E records) intents)
         (forp (recover_completed E records) (completed_events events))))))))"

end
