(* ===== verification/Trash_Props.thy ===== *)
theory Trash_Props
  imports Trash
begin

text \<open>
  Properties of the local trash: no file is deleted before its purge is journalled or while another
  message still needs it, trash and restore are inverse, and what recovery does to a message.
\<close>

section \<open>Guard of a purge\<close>

text \<open>A file may be unlinked when a durable intent names it and no message of the account that is
  not purged refers to it, other than the one the intent names. A purge never calls the server.\<close>

fun purge_allowed :: "effect \<Rightarrow> snapshot \<Rightarrow> bool" where
  "purge_allowed (Remote c) s = False"
| "purge_allowed (Unlink path) s =
     (\<exists>ev\<in>set (snap_durable s). jget ev ''event'' = JStr ''purge_intent'' \<and>
        jget ev ''relative_path'' = JStr path \<and>
        (\<forall>m\<in>set (messages (snap_db s)). JStr (msg_account_id m) = jget ev ''account_id'' \<and>
           msg_relative_path m = Some path \<and> msg_local_state m \<noteq> Purged \<longrightarrow>
           JStr (msg_source_item_key m) = jget ev ''source_item_key''))"

text \<open>The identity of the rows is fixed during a purge.\<close>

definition row_identity :: "message_row \<Rightarrow> int \<times> string \<times> string" where
  "row_identity m = (msg_id m, message_key m)"

definition same_ids :: "db \<Rightarrow> db \<Rightarrow> bool" where
  "same_ids d0 d \<longleftrightarrow> map row_identity (messages d) = map row_identity (messages d0)"

lemma same_ids_refl [simp]: "same_ids d d"
  by (simp add: same_ids_def)

lemma same_ids_key:
  assumes "same_ids d0 d" and "uniq msg_id (messages d0)" and "m0 \<in> set (messages d0)"
    and "m \<in> set (messages d)" and "msg_id m = msg_id m0"
  shows "message_key m = message_key m0"
proof -
  have "row_identity ` set (messages d) = row_identity ` set (messages d0)"
    using assms(1) unfolding same_ids_def by (metis list.set_map)
  then have "row_identity m \<in> row_identity ` set (messages d0)" using assms(4) by blast
  then obtain m1 where m1: "m1 \<in> set (messages d0)" "row_identity m = row_identity m1" by blast
  with assms(5) have "msg_id m1 = msg_id m0" "message_key m = message_key m1"
    by (simp_all add: row_identity_def)
  with m1(1) assms(2,3) show ?thesis using uniq_inj by metis
qed

lemma keeps_same_ids:
  "keeps (same_ids d0) (delete_message_contents i)" "keeps (same_ids d0) (update_message_storage i p h)"
  "keeps (same_ids d0) (set_local_state i st t)" "keeps (same_ids d0) (record_audit a)"
  "keeps (same_ids d0) (audit_exists m)"
proof -
  have set: "same_ids d0 (set_message i f d)"
    if "\<And>m. msg_id (f m) = msg_id m \<and> message_key (f m) = message_key m" "same_ids d0 d" for f i d
  proof -
    have "map row_identity (update_where (\<lambda>m. msg_id m = i) f (messages d)) = map row_identity (messages d)"
      using that(1) by (intro map_key_update) (simp add: row_identity_def)
    with that(2) show ?thesis by (simp add: same_ids_def set_message_def)
  qed
  show "keeps (same_ids d0) (update_message_storage i p h)" "keeps (same_ids d0) (set_local_state i st t)"
    unfolding update_message_storage_def set_local_state_def by (auto intro!: keeps_modify set)
qed (auto simp: delete_message_contents_def record_audit_def audit_exists_def list_audit_log_def
    same_ids_def intro!: keeps_modify)

abbreviation purge_guard :: "env \<Rightarrow> db \<Rightarrow> 'r world \<Rightarrow> bool" where
  "purge_guard E d0 \<equiv> guarded E (same_ids d0) purge_allowed"

lemma keeps_finish_purge_database: "keeps (purge_guard E d0) (finish_purge_database E m b)"
  unfolding finish_purge_database_def
  by (intro keeps_then keeps_bind keeps_when keeps_guarded_batch keeps_guarded_on_db keeps_same_ids)

lemma no_references:
  assumes "path_references d a p i = []" and "m \<in> set (messages d)" and "msg_account_id m = a"
    and "msg_relative_path m = Some p" and "msg_local_state m \<noteq> Purged"
  shows "msg_id m = i"
  using assms by (auto simp: path_references_def filter_empty_conv)

text \<open>The unlink step of a purge in a state with the durable intent.\<close>

lemma purge_unlink_guard:
  assumes "purge_guard E d0 w" and "uniq msg_id (messages d0)"
    and "m0 \<in> set (messages d0)" and "msg_id m = msg_id m0" and "message_key m = message_key m0"
    and "path_references (w_db w) (msg_account_id m) path (msg_id m) = []"
    and "ev \<in> set (durable_events (w_man w))" and "jget ev ''event'' = JStr ''purge_intent''"
    and "jget ev ''relative_path'' = JStr path" and "event_key ev = (JStr (msg_account_id m), JStr (msg_source_item_key m))"
  shows "purge_guard E d0 (snd (storage_delete path w))"
proof (rule guarded_delete [OF assms(1)])
  have "msg_source_item_key x = msg_source_item_key m"
    if "x \<in> set (messages (w_db w))" "msg_account_id x = msg_account_id m"
      "msg_relative_path x = Some path" "msg_local_state x \<noteq> Purged" for x
  proof -
    have "msg_id x = msg_id m0" using no_references [OF assms(6) that] assms(4) by simp
    with assms(1-3,5) that(1) show ?thesis
      using same_ids_key [of d0 "w_db w" m0 x] by (simp add: guarded_def)
  qed
  then show "purge_allowed (Unlink path) (snapshot_of w)"
    using assms(7-10) by (auto simp: snapshot_of_def intro!: bexI [of _ ev])
qed

lemma purge_tail_guard:
  assumes "purge_guard E d0 w"
    and "physical \<Longrightarrow> purge_guard E d0 (snd (storage_delete path w))"
    and "\<And>found. keeps (purge_guard E d0) (rest found)"
  shows "purge_guard E d0 (snd (bindp (if physical then storage_exists path else ret False)
    (\<lambda>found. thenp (whenp found (storage_delete path)) (rest found)) w))"
proof (cases physical)
  case False
  with assms(1) assms(3) [unfolded keeps_def] show ?thesis by (simp add: whenp_def)
next
  case True
  show ?thesis
  proof (cases "eml_exists path (w_fs w)")
    case (Inl e)
    with True assms(1) show ?thesis by (simp add: run_bind storage_exists_def)
  next
    case (Inr found)
    have "purge_guard E d0 (snd (whenp found (storage_delete path) w))"
      using assms(1,2) True by (simp add: whenp_def)
    with True Inr show ?thesis
      by (simp add: run_bind storage_exists_def snd_thenp_keeps assms(3))
  qed
qed

lemma purge_event_get [simp]:
  "jget (purge_event n m p h t c b) ''event'' = JStr n"
  "jget (purge_event n m p h t c b) ''relative_path'' = JStr p"
  "jget (purge_event n m p h t c b) ''file_hash'' = JStr h"
  "jget (purge_event n m p h t c b) ''timestamp'' = JStr t"
  "jget (purge_event n m p h t c b) ''physical_delete'' = JBool b"
  "jget (purge_event n m p h t c b) ''account_id'' = JStr (msg_account_id m)"
  "jget (purge_event n m p h t c b) ''source_item_key'' = JStr (msg_source_item_key m)"
  by (simp_all add: purge_event_def)

lemma complete_purge_guard:
  assumes guard: "purge_guard E d0 w" and ids: "uniq msg_id (messages d0)" "m0 \<in> set (messages d0)"
      "msg_id m = msg_id m0" "message_key m = message_key m0"
    and intent: "write_intent \<or> (\<exists>ev\<in>set (durable_events (w_man w)).
      jget ev ''event'' = JStr ''purge_intent'' \<and> Some (jget ev ''relative_path'') = map_option JStr (msg_relative_path m) \<and>
      event_key ev = (JStr (msg_account_id m), JStr (msg_source_item_key m)))"
  shows "purge_guard E d0 (snd (complete_purge E m ts intended write_intent w))"
proof (cases "\<exists>p h. msg_relative_path m = Some p \<and> msg_file_hash m = Some h \<and> p \<noteq> [] \<and> h \<noteq> []")
  case False
  then have "complete_purge E m ts intended write_intent w = (Inr (False, False, None), w)"
    by (auto simp: complete_purge_def split: option.split)
  with guard show ?thesis by simp
next
  case True
  then obtain p h where ph: "msg_relative_path m = Some p" "msg_file_hash m = Some h" "p \<noteq> []" "h \<noteq> []"
    by blast
  let ?shared = "int (length (path_references (w_db w) (msg_account_id m) p (msg_id m)))"
  let ?phys = "?shared = 0 \<and> opt_all id intended"
  let ?intent = "whenp write_intent (journal E (purge_event ''purge_intent'' m p h ts ?shared ?phys))"
  let ?rest = "\<lambda>found. thenp (journal E (purge_event ''purged'' m p h ts ?shared ?phys))
    (thenp (finish_purge_database E m ?phys) (ret (True, found, if ?shared = 0 then None else Some p)))"
  let ?tail = "bindp (if ?phys then storage_exists p else ret False)
    (\<lambda>found. thenp (whenp found (storage_delete p)) (?rest found))"
  have run: "complete_purge E m ts intended write_intent w = thenp ?intent ?tail w"
    using ph by (simp add: complete_purge_def count_path_references_def Let_def run_bind)
  have tail: "purge_guard E d0 (snd (?tail w1))"
    if g: "purge_guard E d0 w1" and db: "w_db w1 = w_db w" and ev: "ev \<in> set (durable_events (w_man w1))"
      "jget ev ''event'' = JStr ''purge_intent''" "jget ev ''relative_path'' = JStr p"
      "event_key ev = (JStr (msg_account_id m), JStr (msg_source_item_key m))" for w1 ev
  proof (rule purge_tail_guard [OF g])
    assume "?phys"
    then have refs: "path_references (w_db w1) (msg_account_id m) p (msg_id m) = []" by (simp add: db)
    show "purge_guard E d0 (snd (storage_delete p w1))"
      by (rule purge_unlink_guard [OF g ids refs ev])
  next
    show "keeps (purge_guard E d0) (?rest found)" for found
      by (intro keeps_then keeps_guarded_journal keeps_finish_purge_database keeps_ret)
  qed
  show ?thesis
  proof (cases write_intent)
    case False
    then have skip: "thenp ?intent ?tail w = ?tail w"
      by (simp only: whenp_def if_False thenp_def bindp_ret_left)
    from False intent ph(1) obtain ev where "ev \<in> set (durable_events (w_man w))"
      "jget ev ''event'' = JStr ''purge_intent''" "jget ev ''relative_path'' = JStr p"
      "event_key ev = (JStr (msg_account_id m), JStr (msg_source_item_key m))" by auto
    from tail [OF guard refl this] show ?thesis by (simp only: run skip)
  next
    case True
    show ?thesis
    proof (cases "?intent w")
      case (Pair r w1)
      have g: "purge_guard E d0 w1"
        using keepsD [OF keeps_guarded_journal guard] Pair True by (simp add: whenp_def)
      show ?thesis
      proof (cases r)
        case (Inl e)
        with Pair g show ?thesis by (simp add: run)
      next
        case (Inr u)
        with Pair True obtain mm where "w1 = w\<lparr>w_man := mm\<rparr>" "durable_events mm =
            durable_events (w_man w) @ pending_events (w_man w) @
            [purge_event ''purge_intent'' m p h ts ?shared ?phys]"
          using journal_ok [of E _ w u w1] guard by (auto simp: whenp_def guarded_def)
        then have "purge_guard E d0 (snd (?tail w1))"
          by (intro tail [OF g, of "purge_event ''purge_intent'' m p h ts ?shared ?phys"]) simp_all
        with Pair Inr show ?thesis by (simp add: run)
      qed
    qed
  qed
qed

lemma purge_records_in: "m \<in> set (purge_records ids d) \<Longrightarrow> m \<in> set (messages d)"
  by (auto simp: purge_records_def find_message_def message_record_of_def split: option.splits
      dest!: find_Some_in_set [OF sym])

lemma purge_guard_run:
  assumes "purge_guard E (w_db w) w" and "uniq msg_id (messages (w_db w))"
  shows "purge_guard E (w_db w) (snd (purge E st ids w))"
proof (cases "is_write_allowed st")
  case True
  let ?d0 = "w_db w" and ?records = "purge_records ids (w_db w)"
  have step: "purge_guard E ?d0 (snd (purge_step E res m w'))"
    if "m \<in> set ?records" "purge_guard E ?d0 w'" for res m w'
  proof -
    have "purge_guard E ?d0 (snd (complete_purge E m (now E) None True w'))"
      by (rule complete_purge_guard [OF that(2) assms(2) purge_records_in [OF that(1)]]) simp_all
    with that(2) show ?thesis
      by (auto simp: purge_step_def run_bind split: prod.split sum.split)
  qed
  have "purge_guard E ?d0 (snd (foldp (purge_step E) res ?records w))" for res
    by (rule guard_foldp [OF step assms(1)])
  with True show ?thesis by (simp add: purge_def run_bind)
qed (use assms in \<open>simp add: purge_def\<close>)

section \<open>Properties\<close>

text \<open>
  C1. A purge deletes a file only when this can be recovered and harms nobody. Started on an intact
  manifest and a database with unique ids, whatever ids are asked for and whatever errors occur on
  the way, every file it unlinks is named by a purge intent that was already durable at that moment,
  and at that moment no other message of the account that is not purged refers to the file. A purge
  never contacts the server, and with the storage detached it has no effect at all.
\<close>

theorem purge_unlinks_journalled_unreferenced:
  assumes "manifest_inv E (w_man w)" and "db_inv (w_db w)" and "w_history w = []"
    and "purge E st ids w = (r, w')"
  shows "(\<forall>(e, s)\<in>set (w_history w'). purge_allowed e s) \<and>
         (is_write_allowed st \<or> w' = w \<and> r = Inl StorageDetachedError)"
proof -
  have "purge_guard E (w_db w) w" using assms(1,3) by (simp add: guarded_def)
  moreover have "uniq msg_id (messages (w_db w))"
    using assms(2) by (simp add: db_inv_def messages_inv_def)
  ultimately have "purge_guard E (w_db w) (snd (purge E st ids w))" by (rule purge_guard_run)
  with assms(4) show ?thesis by (auto simp: guarded_def purge_def)
qed

definition sample_trash_db :: db where
  "sample_trash_db = sample_db\<lparr>messages := [sample_message 1 ''k1'' Trashed],
     message_folders := [sample_membership 1 1 5], message_contents := [], aliases := []\<rparr>"

definition sample_world :: "unit world" where
  "sample_world = \<lparr>w_db = sample_trash_db, w_batch = None,
     w_fs = \<lparr>fs_root = [''data''], fs_files = [([''eml'', ''acc'', ''m.eml''], ''raw'')]\<rparr>,
     w_man = empty_manifest ''acc'', w_remote = (), w_history = []\<rparr>"

lemma sample_trash_db_inv: "db_inv sample_trash_db"
  by (simp add: db_inv_def table_inv_defs exists_defs uniq_def uniq_some_def differ_def uid_key_def
      sample_trash_db_def sample_db_defs)

theorem purge_unlinks_journalled_unreferenced_witness:
  "map fst (w_history (snd (purge sample_env ATTACHED [1] sample_world))) = [Unlink ''eml/acc/m.eml''] \<and>
   purge_allowed (Unlink ''eml/acc/m.eml'')
     (snd (hd (w_history (snd (purge sample_env ATTACHED [1] sample_world)))))"
proof -
  let ?run = "purge sample_env ATTACHED [1] sample_world"
  have hist: "map fst (w_history (snd ?run)) = [Unlink ''eml/acc/m.eml'']" by code_simp
  then obtain s where s: "w_history (snd ?run) = [(Unlink ''eml/acc/m.eml'', s)]"
    by (cases "w_history (snd ?run)") auto
  have pre: "manifest_inv sample_env (w_man sample_world)" "db_inv (w_db sample_world)"
    "w_history sample_world = []"
    using sample_trash_db_inv by (simp_all add: sample_world_def)
  from purge_unlinks_journalled_unreferenced [OF pre, of ATTACHED "[1]" "fst ?run" "snd ?run"] s hist
  show ?thesis by simp
qed

section \<open>Trash and restore\<close>

definition trash_row :: "string \<Rightarrow> message_row \<Rightarrow> message_row" where
  "trash_row t m = m\<lparr>msg_local_state := Trashed, msg_trashed_at := Some t\<rparr>"

definition trash_rows :: "string \<Rightarrow> int set \<Rightarrow> db \<Rightarrow> db" where
  "trash_rows t T d = d\<lparr>messages := update_where (\<lambda>m. msg_id m \<in> T) (trash_row t) (messages d)\<rparr>"

lemma trash_row_id [simp]: "msg_id (trash_row t m) = msg_id m" "msg_local_state (trash_row t m) = Trashed"
  by (simp_all add: trash_row_def)

lemma find_trash_rows:
  "find_message (trash_rows t T d) i =
     map_option (\<lambda>m. if i \<in> T then trash_row t m else m) (find_message d i)"
proof -
  have "List.find (\<lambda>m. msg_id m = i) (update_where (\<lambda>m. msg_id m \<in> T) (trash_row t) rows) =
      map_option (\<lambda>m. if i \<in> T then trash_row t m else m) (List.find (\<lambda>m. msg_id m = i) rows)" for rows
    by (induction rows) (auto simp: update_where_def)
  then show ?thesis by (simp add: find_message_def trash_rows_def)
qed

lemma trash_one:
  assumes "i \<notin> T"
  shows "set_local_state i Trashed (Some t) (trash_rows t T d) = (Inr (), trash_rows t (insert i T) d)"
proof -
  have "update_where (\<lambda>m. msg_id m = i) (trash_row t)
      (update_where (\<lambda>m. msg_id m \<in> T) (trash_row t) (messages d)) =
      update_where (\<lambda>m. msg_id m \<in> insert i T) (trash_row t) (messages d)"
    by (auto simp: update_where_def trash_row_def)
  then show ?thesis
    by (simp add: set_local_state_def set_message_def trash_rows_def trash_row_def [abs_def])
qed

lemma restore_one:
  assumes "i \<notin> T" and "\<And>m. m \<in> set (messages d) \<Longrightarrow> msg_id m = i \<Longrightarrow>
    msg_local_state m = Active \<and> msg_trashed_at m = None"
  shows "set_local_state i Active None (trash_rows t (insert i T) d) = (Inr (), trash_rows t T d)"
proof -
  have "update_where (\<lambda>m. msg_id m = i) (\<lambda>m. m\<lparr>msg_local_state := Active, msg_trashed_at := None\<rparr>)
      (update_where (\<lambda>m. msg_id m \<in> insert i T) (trash_row t) (messages d)) =
      update_where (\<lambda>m. msg_id m \<in> T) (trash_row t) (messages d)"
    using assms by (auto simp: update_where_def trash_row_def)
  then show ?thesis by (simp add: set_local_state_def set_message_def trash_rows_def)
qed

definition active_ids :: "db \<Rightarrow> int set" where
  "active_ids d = {i. \<exists>m. find_message d i = Some m \<and> msg_local_state m = Active}"

lemma move_to_trash_fold:
  assumes "foldp (move_step t) (T, S) ids (trash_rows t (set T) d) = (Inr (T', S'), d')"
    and "distinct T" and "set T \<subseteq> active_ids d"
  shows "d' = trash_rows t (set T') d \<and> distinct T' \<and> set T' = set T \<union> (set ids \<inter> active_ids d)"
  using assms
proof (induction ids arbitrary: T S)
  case Nil
  then show ?case by auto
next
  case (Cons i ids)
  let ?d = "trash_rows t (set T) d"
  consider (none) "find_message d i = None"
    | (known) m where "find_message d i = Some m" "i \<in> set T"
    | (active) m where "find_message d i = Some m" "i \<notin> set T" "msg_local_state m = Active"
    | (other) m where "find_message d i = Some m" "i \<notin> set T" "msg_local_state m \<noteq> Active"
    by (cases "find_message d i") auto
  then have "\<exists>T1 S1. move_step t (T, S) i ?d = (Inr (T1, S1), trash_rows t (set T1) d) \<and>
      distinct T1 \<and> set T1 = set T \<union> ({i} \<inter> active_ids d)"
  proof cases
    case none
    then show ?thesis using Cons.prems(2)
      by (simp add: move_step_def run_bind run_get_message find_trash_rows active_ids_def)
  next
    case known
    then show ?thesis using Cons.prems(2)
      by (auto simp: move_step_def run_bind run_get_message find_trash_rows)
  next
    case active
    then show ?thesis using Cons.prems(2)
      by (auto simp: move_step_def run_bind run_get_message find_trash_rows run_then trash_one
          active_ids_def)
  next
    case other
    then show ?thesis using Cons.prems(2)
      by (cases "msg_local_state m")
        (simp_all add: move_step_def run_bind run_get_message find_trash_rows active_ids_def)
  qed
  then obtain T1 S1 where step: "move_step t (T, S) i ?d = (Inr (T1, S1), trash_rows t (set T1) d)"
    and T1: "distinct T1" "set T1 = set T \<union> ({i} \<inter> active_ids d)" by blast
  from Cons.prems(1) step
  have "foldp (move_step t) (T1, S1) ids (trash_rows t (set T1) d) = (Inr (T', S'), d')" by simp
  from Cons.IH [OF this T1(1)] T1(2) Cons.prems(3) show ?case by auto
qed

lemma restore_fold:
  assumes "distinct T" and "\<And>i m. i \<in> set T \<Longrightarrow> m \<in> set (messages d) \<Longrightarrow> msg_id m = i \<Longrightarrow>
      msg_local_state m = Active \<and> msg_trashed_at m = None"
    and "\<And>i. i \<in> set T \<Longrightarrow> find_message d i \<noteq> None"
  shows "foldp restore_step (R, S) T (trash_rows t (set T) d) = (Inr (R @ T, S), d)"
  using assms
proof (induction T arbitrary: R)
  case Nil
  have "trash_rows t {} d = d" by (simp add: trash_rows_def update_where_def)
  then show ?case by simp
next
  case (Cons i T)
  have "restore_step (R, S) i (trash_rows t (set (i # T)) d) = (Inr (R @ [i], S), trash_rows t (set T) d)"
  proof -
    have i: "i \<notin> set T" using Cons.prems(1) by simp
    obtain m where m: "find_message d i = Some m" using Cons.prems(3) [of i] by auto
    have "set_local_state i Active None (trash_rows t (insert i (set T)) d) = (Inr (), trash_rows t (set T) d)"
      using i by (rule restore_one) (use Cons.prems(2) in auto)
    with m show ?thesis
      by (simp add: restore_step_def run_bind run_get_message find_trash_rows run_then)
  qed
  moreover have "foldp restore_step (R @ [i], S) T (trash_rows t (set T) d) = (Inr ((R @ [i]) @ T, S), d)"
    by (rule Cons.IH) (use Cons.prems in auto)
  ultimately show ?case by simp
qed

lemma move_to_trash_total: "\<exists>r d'. foldp (move_step t) acc ids d = (Inr r, d')"
proof (induction ids arbitrary: acc d)
  case (Cons i ids)
  have "\<exists>r d'. move_step t acc i d = (Inr r, d')"
    by (auto simp: move_step_def run_bind run_get_message run_then set_local_state_def
        split: prod.split option.split)
  then obtain r d' where "move_step t acc i d = (Inr r, d')" by blast
  with Cons show ?case by simp
qed simp

text \<open>
  Trash and restore are inverse. Moving any list of ids to the trash succeeds and trashes
  exactly the active messages among them, once each; restoring the reported ids restores all of them
  and gives back the database as it was, provided active messages have no trash date.
\<close>

lemma trash_restore_round_trip:
  assumes "db_inv d" and "\<forall>m\<in>set (messages d). msg_local_state m = Active \<longrightarrow> msg_trashed_at m = None"
  shows "\<exists>r d1. move_to_trash t ids d = (Inr r, d1) \<and> distinct (tr_trashed_ids r) \<and>
    set (tr_trashed_ids r) = set ids \<inter> active_ids d \<and>
    restore_from_trash (tr_trashed_ids r) d1 =
      (Inr \<lparr>tr_trashed_ids = [], tr_restored_ids = tr_trashed_ids r, tr_skipped_ids = []\<rparr>, d)"
proof -
  obtain T S d1 where run: "foldp (move_step t) ([], []) ids d = (Inr (T, S), d1)"
    using move_to_trash_total [of t "([], [])" ids d] by auto
  have id: "trash_rows t (set []) d = d" by (simp add: trash_rows_def update_where_def)
  from move_to_trash_fold [of t "[]" "[]" ids d T S d1] run
  have T: "d1 = trash_rows t (set T) d" "distinct T" "set T = set ids \<inter> active_ids d"
    by (simp_all only: id) auto
  have uniq: "uniq msg_id (messages d)" using assms(1) by (simp add: db_inv_def messages_inv_def)
  have "msg_local_state m = Active \<and> msg_trashed_at m = None"
    if "i \<in> set T" "m \<in> set (messages d)" "msg_id m = i" for i m
  proof -
    from that(1) T(3) obtain m' where m': "find_message d i = Some m'" "msg_local_state m' = Active"
      by (auto simp: active_ids_def)
    from find_Some_in_set [OF m'(1) [unfolded find_message_def]] that uniq have "m' = m"
      by (auto intro: uniq_inj)
    with m' that(2) assms(2) show ?thesis by auto
  qed
  moreover have "find_message d i \<noteq> None" if "i \<in> set T" for i
    using that T(3) by (auto simp: active_ids_def)
  ultimately have "foldp restore_step ([], []) T d1 = (Inr ([] @ T, []), d)"
    unfolding T(1) by (intro restore_fold T(2)) auto
  with run T show ?thesis
    by (auto simp: move_to_trash_def restore_from_trash_def run_bind)
qed

lemma trash_restore_round_trip_witness:
  "\<exists>r d1. move_to_trash ''t'' [1, 2, 2] sample_db = (Inr r, d1) \<and> set (tr_trashed_ids r) = {2} \<and>
     restore_from_trash (tr_trashed_ids r) d1 =
      (Inr \<lparr>tr_trashed_ids = [], tr_restored_ids = tr_trashed_ids r, tr_skipped_ids = []\<rparr>, sample_db)"
proof -
  have none: "\<forall>m\<in>set (messages sample_db). msg_local_state m = Active \<longrightarrow> msg_trashed_at m = None"
    by (simp add: sample_db_defs)
  have "set [1, 2, 2] \<inter> active_ids sample_db = {2}"
    by (auto simp: active_ids_def sample_rows) (simp_all add: sample_db_defs)
  with trash_restore_round_trip [OF sample_db_inv none, of "''t''" "[1, 2, 2]"] show ?thesis
    by metis
qed

section \<open>The audit of a purge\<close>

lemma record_audit_text:
  "record_audit e d = (Inr u, d') \<Longrightarrow> \<forall>a\<in>set (audit_log d). \<forall>i. aud_message_id a \<noteq> PyInt i \<Longrightarrow>
   \<forall>a\<in>set (audit_log d'). \<forall>i. aud_message_id a \<noteq> PyInt i"
  by (cases "aud_message_id e") (auto simp: record_audit_def)

lemma record_audits_text:
  "forp record_audit es d = (Inr u, d') \<Longrightarrow> \<forall>a\<in>set (audit_log d). \<forall>i. aud_message_id a \<noteq> PyInt i \<Longrightarrow>
   \<forall>a\<in>set (audit_log d'). \<forall>i. aud_message_id a \<noteq> PyInt i"
proof (induction es arbitrary: d)
  case (Cons e es)
  then show ?case
    by (auto simp: forp_def run_bind record_audit_text split: prod.splits sum.splits)
qed (auto simp: forp_def)

text \<open>
  The check for an existing audit entry never finds one. The column that holds the message id
  has text affinity, so the id of a recorded entry is read back as text, and the comparison with the
  integer id of the message fails: after any audit entries, those of the same purge included, the
  check answers no.
\<close>

lemma audit_exists_never_true:
  assumes "audit_log d = []" and "forp record_audit es d = (Inr (), d')"
  shows "audit_exists m d' = (Inr False, d')"
proof -
  from record_audits_text [OF assms(2)] assms(1)
  have "\<forall>a\<in>set (audit_log d'). \<forall>i. aud_message_id a \<noteq> PyInt i" by simp
  then have "\<forall>a\<in>set (take_int (2 ^ 31 - 1) (drop_int 0 (rev (sort_key aud_occurred_at (audit_log d'))))).
      aud_message_id a \<noteq> PyInt (msg_id m)"
    by (auto simp: take_int_eq drop_int_eq dest: in_set_takeD)
  then show ?thesis by (auto simp: audit_exists_def list_audit_log_def run_bind)
qed

lemma audit_exists_never_true_witness:
  "let m = sample_message 1 ''k1'' Trashed;
       d' = snd (record_audit (purge_audit_entry m ''t'' True) sample_db)
   in map aud_operation (audit_log d') = [''local_purge''] \<and> audit_exists m d' = (Inr False, d')"
proof -
  let ?m = "sample_message 1 ''k1'' Trashed"
  let ?d = "snd (record_audit (purge_audit_entry ?m ''t'' True) sample_db)"
  have "forp record_audit [purge_audit_entry ?m ''t'' True] sample_db = (Inr (), ?d)"
    by (simp add: forp_def record_audit_def run_bind)
  from audit_exists_never_true [OF _ this, of ?m]
  have "audit_exists ?m ?d = (Inr False, ?d)" by (simp add: sample_db_def)
  then show ?thesis
    by (simp add: Let_def record_audit_def sample_db_def purge_audit_entry_def)
qed

section \<open>Recovery\<close>

definition purged_row :: "int \<Rightarrow> db \<Rightarrow> bool" where
  "purged_row i d \<longleftrightarrow> (\<forall>m\<in>set (messages d). msg_id m = i \<longrightarrow>
      msg_local_state m = Purged \<and> msg_relative_path m = None \<and> msg_file_hash m = None) \<and>
    \<not> has_contents d i"

lemma finish_purge_database_ok:
  assumes "finish_purge_database E m b w = (Inr u, w')"
  shows "purged_row (msg_id m) (w_db w')" and "w_batch w' = None" and "w_man w' = w_man w"
  using assms
  by (auto simp: finish_purge_database_def run_then run_bind run_when begin_batch_def commit_batch_def
      on_db_def delete_message_contents_def update_message_storage_def set_local_state_def
      record_audit_def audit_exists_def list_audit_log_def set_message_def set_update_where
      purged_row_def has_contents_def split: if_splits)

lemma keeps_purged_row:
  "keeps (purged_row i) (delete_message_contents j)" "keeps (purged_row i) (update_message_storage j None None)"
  "keeps (purged_row i) (set_local_state j Purged t)" "keeps (purged_row i) (record_audit a)"
  "keeps (purged_row i) (audit_exists m)"
  by (auto simp: keeps_def purged_row_def has_contents_def delete_message_contents_def
      update_message_storage_def set_local_state_def record_audit_def audit_exists_def
      list_audit_log_def set_message_def set_update_where run_bind)

text \<open>The programs of a recovery only act on the world through these liftings; a condition on the
  database and the durable records that they keep is kept by the whole.\<close>

definition recovered :: "env \<Rightarrow> (db \<Rightarrow> bool) \<Rightarrow> event set \<Rightarrow> 'r world \<Rightarrow> bool" where
  "recovered E db_ok evs w \<longleftrightarrow> manifest_inv E (w_man w) \<and> db_ok (w_db w) \<and>
     evs \<subseteq> set (durable_events (w_man w))"

lemma keeps_recovered_on_db: "keeps db_ok m \<Longrightarrow> keeps (recovered E db_ok evs) (on_db m)"
  by (auto intro!: keeps_on_db simp: recovered_def dest: keepsD)

lemma keeps_recovered_journal: "keeps (recovered E db_ok evs) (journal E ev)"
  unfolding keeps_def
proof (intro allI impI)
  fix w :: "'r world"
  assume w: "recovered E db_ok evs w"
  show "recovered E db_ok evs (snd (journal E ev w))"
  proof (cases "journal E ev w")
    case (Pair r w')
    then show ?thesis
      using w journal_ok [of E ev w _ w'] journal_err [of E ev w _ w']
      by (cases r) (fastforce simp: recovered_def)+
  qed
qed

lemma keeps_recovered_other:
  "keeps (recovered E db_ok evs) begin_batch" "keeps (recovered E db_ok evs) commit_batch"
  "keeps (recovered E db_ok evs) (storage_delete p)"
  by (auto simp: keeps_def recovered_def begin_batch_def commit_batch_def storage_delete_def
      record_effect_def split: prod.split sum.split)

lemma keeps_recovered_finish:
  assumes "\<And>i. keeps db_ok (delete_message_contents i)"
    and "\<And>i. keeps db_ok (update_message_storage i None None)"
    and "\<And>i. keeps db_ok (set_local_state i Purged None)" and "\<And>a. keeps db_ok (record_audit a)"
    and "\<And>m. keeps db_ok (audit_exists m)"
  shows "keeps (recovered E db_ok evs) (finish_purge_database E m b)"
  unfolding finish_purge_database_def
  by (intro keeps_then keeps_bind keeps_when keeps_recovered_other keeps_recovered_on_db assms)

lemma keeps_recovered_complete_purge:
  assumes "\<And>m b. keeps (recovered E db_ok evs :: 'r world \<Rightarrow> bool) (finish_purge_database E m b)"
  shows "keeps (recovered E db_ok evs :: 'r world \<Rightarrow> bool) (complete_purge E m ts intended wi)"
proof -
  have "keeps (recovered E db_ok evs :: 'r world \<Rightarrow> bool) (if b then storage_exists p else ret False)"
    for b p by auto
  then show ?thesis
    unfolding complete_purge_def count_path_references_def on_db_gets Let_def
    by (auto split: option.split intro!: keeps_bind keeps_then keeps_when keeps_recovered_journal
        keeps_recovered_other assms)
qed

lemmas keeps_recovered_ids =
  keeps_recovered_finish [OF keeps_same_ids(1,2,3,4,5)]
  keeps_recovered_complete_purge [OF keeps_recovered_finish [OF keeps_same_ids(1,2,3,4,5)]]

lemmas keeps_recovered_purged =
  keeps_recovered_finish [OF keeps_purged_row(1,2,3,4,5)]
  keeps_recovered_complete_purge [OF keeps_recovered_finish [OF keeps_purged_row(1,2,3,4,5)]]

lemma keeps_recover_steps:
  assumes "\<And>m ts i. keeps I (complete_purge E m ts i False)"
    and "\<And>m b. keeps I (finish_purge_database E m b)"
  shows "keeps I (recover_intent E records ev)" "keeps I (recover_completed E records ev)"
proof -
  show "keeps I (recover_intent E records ev)"
    unfolding recover_intent_def
    by (auto split: option.split json.split intro!: keeps_then assms(1))
  show "keeps I (recover_completed E records ev)"
    unfolding recover_completed_def by (auto split: option.split json.split intro!: assms(2))
qed

lemma complete_purge_ok:
  assumes "complete_purge E m ts intended wi w = (Inr r, w')" and "manifest_inv E (w_man w)"
    and "msg_relative_path m = Some p" "msg_file_hash m = Some h" "p \<noteq> []" "h \<noteq> []"
  shows "purged_row (msg_id m) (w_db w') \<and> manifest_inv E (w_man w') \<and>
    (\<exists>n b. purge_event ''purged'' m p h ts n b \<in> set (durable_events (w_man w')))"
proof -
  let ?J = "recovered E (\<lambda>_. True) {}"
  let ?n = "int (length (path_references (w_db w) (msg_account_id m) p (msg_id m)))"
  let ?b = "?n = 0 \<and> opt_all id intended"
  have "thenp (whenp wi (journal E (purge_event ''purge_intent'' m p h ts ?n ?b)))
      (bindp (if ?b then storage_exists p else ret False) (\<lambda>found.
        thenp (whenp found (storage_delete p))
          (thenp (journal E (purge_event ''purged'' m p h ts ?n ?b))
            (thenp (finish_purge_database E m ?b)
              (ret (True, found, if ?n = 0 then None else Some p)))))) w = (Inr r, w')"
    using assms(1,3-6) by (simp add: complete_purge_def count_path_references_def Let_def run_bind)
  then obtain u1 w1 found w2 u3 w3 u4 w4 u5 w5 where
    w1: "whenp wi (journal E (purge_event ''purge_intent'' m p h ts ?n ?b)) w = (Inr u1, w1)"
    and w2: "(if ?b then storage_exists p else ret False) w1 = (Inr found, w2)"
    and w3: "whenp found (storage_delete p) w2 = (Inr u3, w3)"
    and w4: "journal E (purge_event ''purged'' m p h ts ?n ?b) w3 = (Inr u4, w4)"
    and w5: "finish_purge_database E m ?b w4 = (Inr u5, w5)"
    and w6: "ret (True, found, if ?n = 0 then None else Some p) w5 = (Inr r, w')"
    by (elim then_okE bind_okE) (rule that; assumption)
  from w6 have w': "w' = w5" by simp
  have J: "?J w" using assms(2) by (simp add: recovered_def)
  have "?J w1" by (rule keepsD [OF keeps_when [OF keeps_recovered_journal] J w1])
  moreover have "w2 = w1" using w2 by (auto simp: storage_exists_def split: if_splits)
  ultimately have "?J w3" using keepsD [OF keeps_when [OF keeps_recovered_other(3)] _ w3] by simp
  with journal_ok [OF w4] have "manifest_inv E (w_man w4)"
    "purge_event ''purged'' m p h ts ?n ?b \<in> set (durable_events (w_man w4))"
    by (auto simp: recovered_def)
  with finish_purge_database_ok [OF w5] w' show ?thesis by auto
qed

lemma recover_okE:
  assumes "recover_incomplete_purges E st w = (Inr u, w')"
  obtains records events intents w1 where "is_write_allowed st"
    "records = map rec_row (map (message_record_of (w_db w))
       (filter (\<lambda>m. msg_relative_path m \<noteq> None) (sort_key msg_id (messages (w_db w)))))"
    "read_all_events (w_man w) = Inr events" "intents = incomplete_intents events"
    "forp (recover_intent E records) intents w = (Inr (), w1)"
    "forp (recover_completed E records) (completed_events events) w1 = (Inr (), w')"
  using assms
  by (auto simp: recover_incomplete_purges_def list_stored_messages_def run_bind run_then Let_def
      read_incomplete_intents_def split: if_splits prod.splits sum.splits)

lemma record_for_key_unique:
  assumes "uniq message_key (messages d)" and "m \<in> set (messages d)" and "msg_relative_path m \<noteq> None"
  shows "record_for_key (map rec_row (map (message_record_of d)
      (filter (\<lambda>m. msg_relative_path m \<noteq> None) (sort_key msg_id (messages d)))))
      (JStr (msg_account_id m), JStr (msg_source_item_key m)) = Some m"
proof -
  let ?rows = "filter (\<lambda>m. msg_relative_path m \<noteq> None) (sort_key msg_id (messages d))"
  have rows: "map rec_row (map (message_record_of d) ?rows) = ?rows" by (simp add: comp_def)
  let ?P = "\<lambda>x. (JStr (msg_account_id x), JStr (msg_source_item_key x)) =
    (JStr (msg_account_id m), JStr (msg_source_item_key m))"
  have m: "m \<in> set (rev ?rows)" using assms(2,3) by simp
  then obtain x where x: "List.find ?P (rev ?rows) = Some x"
    by (cases "List.find ?P (rev ?rows)") (auto simp: find_None_iff_ball)
  from find_Some_in_set [OF x] have "x \<in> set (messages d)" "message_key x = message_key m" by auto
  with assms(1,2) have "x = m" by (auto intro: uniq_inj)
  with x show ?thesis by (simp only: record_for_key_def rows)
qed

lemma disk_event_valid:
  assumes "manifest_inv E m" and "ev \<in> set (disk_events m)"
  shows "validate_event E ev = Inr ()"
  using assms by (auto simp: disk_events_def manifest_inv_def dest!: in_set_takeD)

lemma read_all_events_disk: "read_all_events m = Inr evs \<Longrightarrow> evs = disk_events m"
  by (simp add: read_all_events_def split: if_splits)

lemma valid_timestamp_text: "validate_event E ev = Inr () \<Longrightarrow> \<exists>t. jget ev ''timestamp'' = JStr t"
  using validate_event_timestamp [of E ev] by (auto simp: parse_timestamp_def split: json.splits)

lemma valid_purge_physical:
  assumes "validate_event E ev = Inr ()" and "jget ev ''event'' \<in> {JStr ''purge_intent'', JStr ''purged''}"
  shows "\<exists>b. jget ev ''physical_delete'' = JBool b"
proof -
  have "is_bool (jget ev ''physical_delete'')"
    using assms
    by (auto simp: validate_event_def schema_checks_def purge_checks_def all_checks_Inr
        split: json.splits if_splits)
  then show ?thesis by (cases "jget ev ''physical_delete''") auto
qed

lemma completed_events_in:
  assumes "ev \<in> set evs" and "jget ev ''event'' = JStr ''purged''"
  shows "\<exists>ce\<in>set (completed_events evs). ce \<in> set evs \<and> event_key ce = event_key ev \<and>
    jget ce ''event'' = JStr ''purged''"
proof -
  let ?f = "\<lambda>d ev. if jget ev ''event'' = JStr ''purged''
     then upsert_row fst (event_key ev) (\<lambda>_. (event_key ev, ev)) (event_key ev, ev) d else d"
  have inv: "(\<forall>(k, e)\<in>set (foldl ?f [] evs). k = event_key e \<and> e \<in> set evs \<and>
        jget e ''event'' = JStr ''purged'') \<and>
      fst ` set (foldl ?f [] evs) = event_key ` {e \<in> set evs. jget e ''event'' = JStr ''purged''}" for evs
  proof (induction evs rule: rev_induct)
    case (snoc e evs)
    let ?d = "foldl ?f [] evs"
    show ?case
    proof (cases "jget e ''event'' = JStr ''purged''")
      case True
      have sub: "set (upsert_row fst (event_key e) (\<lambda>_. (event_key e, e)) (event_key e, e) ?d) \<subseteq>
          insert (event_key e, e) (set ?d)"
        by (auto simp: upsert_row_def set_update_where)
      have keys: "fst ` set (upsert_row fst (event_key e) (\<lambda>_. (event_key e, e)) (event_key e, e) ?d) =
          insert (event_key e) (fst ` set ?d)"
        using sub image_upsert_subset [of ?d fst "event_key e" fst "\<lambda>_. (event_key e, e)" "(event_key e, e)"]
          upsert_row_in [of fst "(event_key e, e)" "event_key e" "\<lambda>_. (event_key e, e)" ?d]
        by auto
      with True sub snoc show ?thesis by (auto 0 3)
    next
      case False
      with snoc show ?thesis by auto
    qed
  qed simp
  have "event_key ev \<in> fst ` set (foldl ?f [] evs)" using inv [of evs] assms by blast
  then obtain ce where ce: "(event_key ev, ce) \<in> set (foldl ?f [] evs)" by auto
  with inv [of evs] have "event_key ev = event_key ce \<and> ce \<in> set evs \<and> jget ce ''event'' = JStr ''purged''"
    by blast
  moreover have "ce \<in> set (completed_events evs)"
    unfolding completed_events_def using ce by force
  ultimately show ?thesis by metis
qed

lemma recover_intent_ok:
  assumes "recover_intent E records intent w = (Inr u, w')" and "manifest_inv E (w_man w)"
    and "jget intent ''event'' = JStr ''purge_intent''" and "validate_event E intent = Inr ()"
    and "record_for_key records (event_key intent) = Some m"
    and "msg_relative_path m = Some p" "msg_file_hash m = Some h" "p \<noteq> []" "h \<noteq> []"
    and "jget intent ''relative_path'' = JStr p" "jget intent ''file_hash'' = JStr h"
  shows "purged_row (msg_id m) (w_db w') \<and> manifest_inv E (w_man w') \<and>
    (\<exists>t n b. purge_event ''purged'' m p h t n b \<in> set (durable_events (w_man w')))"
proof -
  obtain t where t: "jget intent ''timestamp'' = JStr t" using valid_timestamp_text [OF assms(4)] by blast
  let ?m = "m\<lparr>msg_relative_path := Some p, msg_file_hash := Some h\<rparr>"
  have m: "?m = m" using assms(6,7) by simp
  from assms(1,3,5-7,10,11) t obtain r where
    run: "complete_purge E ?m t (case jget intent ''physical_delete'' of JBool b \<Rightarrow> Some b | _ \<Rightarrow> None)
      False w = (Inr r, w')"
    by (auto simp: recover_intent_def run_then split: prod.splits sum.splits)
  from complete_purge_ok [OF run [unfolded m] assms(2,6-9)] show ?thesis by blast
qed


text \<open>
  C35. Recovery purges by key alone. Whenever the manifest holds a completed purge of a source key,
  however old, recovery purges the stored message that has this key now, also when it is active:
  a message that was purged and later fetched again under the same key loses its path, hash and
  contents and is marked purged at the next start.
\<close>

theorem recovery_purges_refetched:
  assumes "recover_incomplete_purges E st w = (Inr (), w')"
    and "manifest_inv E (w_man w)" and "db_inv (w_db w)"
    and "ev \<in> set (disk_events (w_man w))" and "jget ev ''event'' = JStr ''purged''"
    and "m \<in> set (messages (w_db w))" and "msg_relative_path m \<noteq> None" and "msg_local_state m = Active"
    and "event_key ev = (JStr (msg_account_id m), JStr (msg_source_item_key m))"
  shows "purged_row (msg_id m) (w_db w') \<and> same_ids (w_db w) (w_db w')"
proof -
  from recover_okE [OF assms(1)] obtain records events intents w1 where
    r: "records = map rec_row (map (message_record_of (w_db w))
       (filter (\<lambda>m. msg_relative_path m \<noteq> None) (sort_key msg_id (messages (w_db w)))))"
    and rev: "read_all_events (w_man w) = Inr events" and i: "intents = incomplete_intents events"
    and w1: "forp (recover_intent E records) intents w = (Inr (), w1)"
    and w': "forp (recover_completed E records) (completed_events events) w1 = (Inr (), w')" .
  have events: "events = disk_events (w_man w)" using rev by (rule read_all_events_disk)
  from completed_events_in [OF assms(4,5)] obtain ce where
    ce: "ce \<in> set (completed_events events)" "ce \<in> set (disk_events (w_man w))"
      "event_key ce = event_key ev" "jget ce ''event'' = JStr ''purged''"
    unfolding events by blast
  obtain b where b: "jget ce ''physical_delete'' = JBool b"
    using valid_purge_physical [OF disk_event_valid [OF assms(2) ce(2)]] ce(4) by blast
  have rec: "record_for_key records (event_key ce) = Some m"
    unfolding r ce(3) assms(9)
    by (rule record_for_key_unique) (use assms(3,6,7) in \<open>auto simp: db_inv_def messages_inv_def\<close>)
  let ?ids = "recovered E (same_ids (w_db w)) {}"
  have ids: "keeps ?ids (recover_intent E records x)" "keeps ?ids (recover_completed E records x)" for x
    by (rule keeps_recover_steps; rule keeps_recovered_ids)+
  have dn: "keeps (recovered E (purged_row (msg_id m)) {}) (recover_completed E records x)" for x
    by (rule keeps_recover_steps; rule keeps_recovered_purged)
  have start: "?ids w" using assms(2) by (simp add: recovered_def)
  then have "?ids w1" using ids(1) w1 by (metis keeps_forp keepsD)
  have "recovered E (purged_row (msg_id m)) {} w'"
  proof (rule forp_establishes [where J = ?ids, OF w' ce(1) \<open>?ids w1\<close>])
    fix v w2 w3 assume I: "?ids w2" and run: "recover_completed E records ce w2 = (Inr v, w3)"
    then have "finish_purge_database E m b w2 = (Inr v, w3)"
      using assms(8) by (simp add: recover_completed_def rec b)
    from finish_purge_database_ok [OF this] I show "recovered E (purged_row (msg_id m)) {} w3"
      by (simp add: recovered_def)
  qed (rule ids dn)+
  moreover have "?ids w'" using \<open>?ids w1\<close> ids(2) w' by (metis keeps_forp keepsD)
  ultimately show ?thesis by (simp add: recovered_def)
qed

definition sample_intent :: event where
  "sample_intent = purge_event ''purge_intent'' (sample_message 1 ''k1'' Trashed) ''eml/acc/m.eml'' ''ab''
     (now sample_env) 0 True"

definition sample_journal_world :: "event \<Rightarrow> local_state \<Rightarrow> unit world" where
  "sample_journal_world ev st = sample_world\<lparr>
     w_db := sample_trash_db\<lparr>messages := [sample_message 1 ''k1'' st]\<rparr>,
     w_man := \<lparr>man_account = ''acc'', man_log = [(''202601'', ev)], man_synced = 1, man_seq = None\<rparr>\<rparr>"

lemma sample_journal_db: "db_inv (w_db (sample_journal_world ev st))"
  by (simp add: db_inv_def table_inv_defs exists_defs uniq_def uniq_some_def differ_def uid_key_def
      sample_journal_world_def sample_trash_db_def sample_db_defs)

lemma sample_purge_event_valid:
  "name \<in> {''purge_intent'', ''purged''} \<Longrightarrow>
   validate_event sample_env (purge_event name (sample_message 1 ''k1'' st) ''eml/acc/m.eml'' ''ab''
     (now sample_env) 0 True) = Inr ()"
  by (auto simp: purge_event_def sample_env_def validate_event_def manifest_events_def
      schema_checks_def schema_defs check_defs field_list_defs parse_timestamp_def check_def
      sample_db_defs)

lemma sample_journal_manifest:
  assumes "name \<in> {''purge_intent'', ''purged''}"
  shows "manifest_inv sample_env (w_man (sample_journal_world (purge_event name
    (sample_message 1 ''k1'' st') ''eml/acc/m.eml'' ''ab'' (now sample_env) 0 True) st))"
proof -
  let ?ev = "purge_event name (sample_message 1 ''k1'' st') ''eml/acc/m.eml'' ''ab'' (now sample_env) 0 True"
  have "\<not> is_checkpoint ?ev" using assms by (auto simp: is_checkpoint_def)
  moreover have "parse_timestamp sample_env (jget ?ev ''timestamp'') = Inr ''202601''"
    by (simp add: parse_timestamp_def sample_env_def)
  ultimately show ?thesis
    using sample_purge_event_valid [OF assms, of st']
    by (simp add: manifest_inv_def sample_journal_world_def last_seq_def is_checkpoint_def)
qed


theorem recovery_purges_refetched_witness:
  "let ev = purge_event ''purged'' (sample_message 1 ''k1'' Active) ''eml/acc/m.eml'' ''ab'' (now sample_env) 0 True;
       w = sample_journal_world ev Active
   in map msg_local_state (messages (w_db w)) = [Active] \<and>
      purged_row 1 (w_db (snd (recover_incomplete_purges sample_env ATTACHED w)))"
proof -
  let ?ev = "purge_event ''purged'' (sample_message 1 ''k1'' Active) ''eml/acc/m.eml'' ''ab'' (now sample_env) 0 True"
  let ?w = "sample_journal_world ?ev Active"
  let ?m = "sample_message 1 ''k1'' Active"
  have "fst (recover_incomplete_purges sample_env ATTACHED ?w) = Inr ()" by code_simp
  then have run: "recover_incomplete_purges sample_env ATTACHED ?w =
      (Inr (), snd (recover_incomplete_purges sample_env ATTACHED ?w))" by (metis prod.collapse)
  have man: "manifest_inv sample_env (w_man ?w)" by (rule sample_journal_manifest) simp
  have e: "?ev \<in> set (disk_events (w_man ?w))"
    by (simp add: disk_events_def sample_journal_world_def)
  have m: "?m \<in> set (messages (w_db ?w))" by (simp add: sample_journal_world_def)
  from recovery_purges_refetched [OF run man sample_journal_db e _ m]
  have "purged_row (msg_id ?m) (w_db (snd (recover_incomplete_purges sample_env ATTACHED ?w)))"
    by (simp add: sample_message_def set_columns_def blank_message_def)
  then show ?thesis
    by (simp add: Let_def sample_message_def) (simp add: sample_journal_world_def sample_message_def set_columns_def)
qed

end
