(* ===== verification/Account_Guards.thy ===== *)
theory Account_Guards
  imports Repository
begin

text \<open>
  Guards for operations limited to remote mail accounts (\<^verbatim>\<open>usecases/account_guards.py\<close>): a local
  PST archive account is rejected before any server operation.
\<close>

definition is_pst_account :: "account_row \<Rightarrow> bool" where
  "is_pst_account a \<longleftrightarrow> acc_provider_type a = ''pst_import''"

definition guard_account_id :: "account_row \<Rightarrow> string option" where
  "guard_account_id a = (if acc_id a = [] then None else Some (acc_id a))"

definition ensure_imap_account :: "string \<Rightarrow> (db, unit) prog" where
  "ensure_imap_account account = bindp list_accounts (\<lambda>rows.
     case List.find (\<lambda>a. guard_account_id a = Some account) rows of
       None \<Rightarrow> ret ()
     | Some a \<Rightarrow> if is_pst_account a
         then raise (PermanentError
           (''PST archive account cannot be used for an IMAP operation: '' @ account))
         else ret ())"

definition ensure_imap_message :: "message_record \<Rightarrow> (db, unit) prog" where
  "ensure_imap_message r =
    (if msg_account_id (rec_row r) = [] then ret ()
     else ensure_imap_account (msg_account_id (rec_row r)))"

lemma ensure_imap_account_state [simp]: "snd (ensure_imap_account a d) = d"
  by (simp add: ensure_imap_account_def list_accounts_def run_bind split: option.split)

lemma ensure_imap_message_state [simp]: "snd (ensure_imap_message r d) = d"
  by (simp add: ensure_imap_message_def)

lemma keeps_ensure [intro, simp]:
  "keeps I (ensure_imap_account a)" "keeps I (ensure_imap_message r)"
  by (simp_all add: keeps_def)

lemma ensure_imap_account_pst:
  assumes "uniq acc_id (accounts d)" and "a \<in> set (accounts d)" and "acc_id a \<noteq> []"
  shows "(\<exists>e. fst (ensure_imap_account (acc_id a) d) = Inl e) \<longleftrightarrow> is_pst_account a"
proof -
  obtain x where x: "List.find (\<lambda>r. guard_account_id r = Some (acc_id a)) (sort_key acc_id (accounts d)) = Some x"
    using assms(2,3)
    by (cases "List.find (\<lambda>r. guard_account_id r = Some (acc_id a)) (sort_key acc_id (accounts d))")
      (auto simp: find_None_iff_ball guard_account_id_def)
  from find_Some_in_set [OF x] have "x \<in> set (accounts d)" "acc_id x = acc_id a"
    by (auto simp: guard_account_id_def split: if_splits)
  with assms(1,2) have "x = a" by (auto intro: uniq_inj)
  with x show ?thesis by (simp add: ensure_imap_account_def list_accounts_def run_bind)
qed

end
