(* ===== verification/Delete_Remote.thy ===== *)
theory Delete_Remote
  imports World Account_Guards "HOL-Library.Product_Lexorder"
begin

text \<open>
  Deleting messages from the server (\<^verbatim>\<open>usecases/delete_remote.py\<close>): the local safety checks of a
  candidate, the dry run, the selection of a list-wide scope, the execution of a reviewed plan with
  a journal, and the reconciliation of uncertain deletions. The server is a record of functions, the
  methods of \<^verbatim>\<open>domain/fetcher.py\<close> that deletion calls.
\<close>

section \<open>Data\<close>

record 'r fetcher =
  f_supports_uid_expunge :: "('r, bool) prog"
  f_find_trash_folder :: "('r, string option) prog"
  f_select_folder :: "string \<Rightarrow> ('r, int) prog"
  f_iter_flags :: "string \<Rightarrow> int list \<Rightarrow> int \<Rightarrow> ('r, (int \<times> string list) list) prog"
  f_move_to_trash :: "string \<Rightarrow> int \<Rightarrow> int option \<Rightarrow> ('r, (int \<times> int) option) prog"
  f_expunge :: "string \<Rightarrow> int \<Rightarrow> int option \<Rightarrow> ('r, unit) prog"
  f_remove_membership :: "string \<Rightarrow> int \<Rightarrow> int option \<Rightarrow> ('r, unit) prog"
  f_list_existing_uids :: "string \<Rightarrow> ('r, int list) prog"

record delete_candidate =
  dc_message_id :: int
  dc_account_id :: string
  dc_folder_raw_name :: string
  dc_uid :: int
  dc_uidvalidity :: int
  dc_subject :: string
  dc_date_sent :: "string option"
  dc_internal_date :: "string option"
  dc_size_bytes :: int
  dc_relative_path :: string
  dc_file_hash :: string
  dc_message_id_header :: "string option"
  dc_folder_id :: "int option"

record delete_exclusion =
  ex_message_id :: int
  ex_reason :: string
  ex_subject :: string
  ex_size_bytes :: int

record delete_scope =
  sc_message_ids :: "int list"
  sc_flagged_ids :: "int list"
  sc_non_deletable_ids :: "int list"
  sc_matched_count :: nat
  sc_flagged_excluded_count :: nat
  sc_truncated :: bool
  sc_limit :: int

record dry_run_result =
  dr_candidates :: "delete_candidate list"
  dr_exclusions :: "delete_exclusion list"
  dr_total_size :: int
  dr_exclude_flagged :: bool
  dr_scope :: "delete_scope option"

record delete_result =
  del_completed :: "int list"
  del_uncertain :: "int list"
  del_skipped :: "int list"
  del_errors :: "(int \<times> string) list"
  del_total_size :: int

section \<open>Candidates\<close>

definition folder_names :: "string \<Rightarrow> (db, (int \<times> string \<times> int option) list) prog" where
  "folder_names account = bindp (list_folders account) (\<lambda>rows.
     ret (map (\<lambda>f. (fld_id f, fld_raw_name f, fld_uidvalidity f))
            (filter (\<lambda>f. fld_raw_name f \<noteq> []) rows)))"

text \<open>The memberships that remain after the choice of a folder, or the reason there is no choice.\<close>

definition choose_membership ::
  "int option \<Rightarrow> membership_view list \<Rightarrow> string + membership_view option" where
  "choose_membership folder_id ms = (case folder_id of
     Some f \<Rightarrow>
       (case filter (\<lambda>v. mf_folder_id (mv_membership v) = f) ms of
          [v] \<Rightarrow> Inr (Some v)
        | _ \<Rightarrow> Inl ''membership_not_found'')
   | None \<Rightarrow>
       (case ms of [] \<Rightarrow> Inr None | [v] \<Rightarrow> Inr (Some v) | _ \<Rightarrow> Inl ''folder_selection_required''))"

text \<open>The columns a candidate needs, or the reason one is missing.\<close>

definition candidate_columns ::
  "bool \<Rightarrow> bool \<Rightarrow> message_row \<Rightarrow> membership option \<Rightarrow> string + (string \<times> string \<times> int \<times> int \<times> int)" where
  "candidate_columns exclude_flagged require_present m mem =
    (let st = map_option mf_remote_state mem in
     if require_present \<and> st \<noteq> Some RemotePresent then Inl ''remote_state_not_deletable''
     else if st \<in> {Some RemoteDeleted, Some RemoteUncertain} then Inl ''remote_state_not_deletable''
     else if exclude_flagged \<and> has_imap_flag (Option.bind mem mf_imap_flags) ([CHR 0x5C] @ ''Flagged'')
     then Inl ''flagged''
     else if msg_account_id m = [] then Inl ''account_id_missing''
     else (case msg_relative_path m of None \<Rightarrow> Inl ''eml_missing'' | Some path \<Rightarrow>
       if path = [] then Inl ''eml_missing''
       else (case msg_file_hash m of None \<Rightarrow> Inl ''file_hash_missing'' | Some hash \<Rightarrow>
         if hash = [] then Inl ''file_hash_missing''
         else (case Option.bind mem mf_uid of None \<Rightarrow> Inl ''uid_missing'' | Some uid \<Rightarrow>
           (case Option.bind mem mf_uidvalidity of None \<Rightarrow> Inl ''uidvalidity_missing'' | Some v \<Rightarrow>
             (case msg_size_bytes m of None \<Rightarrow> Inl ''size_missing'' | Some n \<Rightarrow>
               if n < 0 then Inl ''size_missing'' else Inr (path, hash, uid, v, n)))))))"

text \<open>The folder name, from the membership or else from the folder table, where the stored
  generation of the folder must agree.\<close>

definition candidate_folder ::
  "message_row \<Rightarrow> membership option \<Rightarrow> string option \<Rightarrow> int \<Rightarrow> (db, string + string) prog" where
  "candidate_folder m mem raw_name uidvalidity =
    (if raw_name \<notin> {None, Some []} then ret (Inr (the raw_name))
     else bindp (folder_names (msg_account_id m)) (\<lambda>names. ret
       (case List.find (\<lambda>n. Some (fst n) = map_option mf_folder_id mem) names of
          None \<Rightarrow> Inl ''folder_missing''
        | Some (_, raw, v) \<Rightarrow>
            if opt_all ((=) uidvalidity) v then Inr raw else Inl ''uidvalidity_mismatch'')))"

text \<open>The verification of the EML: \<open>None\<close> when it passes, else the reason. A detached storage and
  errors of other kinds are raised.\<close>

definition verify_eml :: "env \<Rightarrow> string \<Rightarrow> string \<Rightarrow> ('r world, string option) prog" where
  "verify_eml E path hash = (\<lambda>w. case read_verified E path hash (w_fs w) of
     Inr _ \<Rightarrow> (Inr None, w)
   | Inl StorageDetachedError \<Rightarrow> (Inl StorageDetachedError, w)
   | Inl FileNotFoundError \<Rightarrow> (Inr (Some ''eml_missing''), w)
   | Inl e \<Rightarrow>
       if is_storage_error e
       then (Inr (Some (if contains_text ''hash'' (casefold (error_text e)) then ''hash_mismatch''
                        else ''eml_unreadable'')), w)
       else (Inl e, w))"

text \<open>The last two checks of a candidate, the EML and the stored contents.\<close>

definition finish_candidate ::
  "env \<Rightarrow> message_row \<Rightarrow> membership option \<Rightarrow> string \<Rightarrow> string \<times> string \<times> int \<times> int \<times> int \<Rightarrow>
   ('r world, string + delete_candidate) prog" where
  "finish_candidate E m mem raw = (\<lambda>(path, hash, uid, uidvalidity, n).
     bindp (verify_eml E path hash) (\<lambda>problem. case problem of
       Some reason \<Rightarrow> ret (Inl reason)
     | None \<Rightarrow> bindp (on_db (has_message_contents (msg_id m))) (\<lambda>has.
         if \<not> has then ret (Inl ''message_contents_missing'')
         else ret (Inr
           \<lparr>dc_message_id = msg_id m, dc_account_id = msg_account_id m, dc_folder_raw_name = raw,
            dc_uid = uid, dc_uidvalidity = uidvalidity, dc_subject = get_default (msg_subject m) [],
            dc_date_sent = msg_date_sent m, dc_internal_date = msg_internal_date m, dc_size_bytes = n,
            dc_relative_path = path, dc_file_hash = hash, dc_message_id_header = msg_message_id m,
            dc_folder_id = map_option mf_folder_id mem\<rparr>))))"

definition check_candidate ::
  "env \<Rightarrow> message_row \<Rightarrow> membership option \<Rightarrow> string option \<Rightarrow> bool \<Rightarrow> bool \<Rightarrow>
   ('r world, string + delete_candidate) prog" where
  "check_candidate E m mem raw_name exclude_flagged require_present =
    (case candidate_columns exclude_flagged require_present m mem of
       Inl reason \<Rightarrow> ret (Inl reason)
     | Inr (path, hash, uid, uidvalidity, n) \<Rightarrow>
         bindp (on_db (candidate_folder m mem raw_name uidvalidity)) (\<lambda>folder. case folder of
           Inl reason \<Rightarrow> ret (Inl reason)
         | Inr raw \<Rightarrow> finish_candidate E m mem raw (path, hash, uid, uidvalidity, n)))"

definition candidate_from_record ::
  "env \<Rightarrow> message_record \<Rightarrow> int option \<Rightarrow> bool \<Rightarrow> bool \<Rightarrow> ('r world, string + delete_candidate) prog" where
  "candidate_from_record E r folder_id exclude_flagged require_present =
    (let m = rec_row r in
     bindp (on_db (list_message_memberships (msg_account_id m) (msg_source_item_key m))) (\<lambda>ms.
     case choose_membership folder_id ms of
       Inl reason \<Rightarrow> ret (Inl reason)
     | Inr view \<Rightarrow> check_candidate E m
         (case view of None \<Rightarrow> rec_membership r | Some v \<Rightarrow> Some (mv_membership v))
         (Option.bind view mv_folder_raw_name) exclude_flagged require_present))"

section \<open>Dry run\<close>

definition fixed_exclusion :: "delete_scope option \<Rightarrow> int \<Rightarrow> string option" where
  "fixed_exclusion scope i = (case scope of
     None \<Rightarrow> None
   | Some s \<Rightarrow> if i \<in> set (sc_non_deletable_ids s) then Some ''remote_state_not_deletable''
       else if i \<in> set (sc_flagged_ids s) then Some ''flagged'' else None)"

definition exclusion :: "int \<Rightarrow> string \<Rightarrow> message_record option \<Rightarrow> delete_exclusion" where
  "exclusion i reason r =
    \<lparr>ex_message_id = i, ex_reason = reason,
     ex_subject = (case r of None \<Rightarrow> [] | Some x \<Rightarrow> get_default (msg_subject (rec_row x)) []),
     ex_size_bytes = (case r of None \<Rightarrow> 0 | Some x \<Rightarrow> get_default (msg_size_bytes (rec_row x)) 0)\<rparr>"

definition dry_run_step ::
  "env \<Rightarrow> int option \<Rightarrow> bool \<Rightarrow> delete_scope option \<Rightarrow> delete_candidate list \<times> delete_exclusion list \<Rightarrow>
   int \<times> message_record option \<Rightarrow> ('r world, delete_candidate list \<times> delete_exclusion list) prog" where
  "dry_run_step E folder_id exclude_flagged scope acc item =
    (case acc of (candidates, exclusions) \<Rightarrow> case item of (i, record) \<Rightarrow>
     (case fixed_exclusion scope i of
        Some reason \<Rightarrow> ret (candidates, exclusions @ [exclusion i reason record])
      | None \<Rightarrow>
          if \<not> opt_all (\<lambda>s. i \<in> set (sc_message_ids s)) scope
          then ret (candidates, exclusions @ [exclusion i ''outside_delete_scope'' None])
          else (case record of
             None \<Rightarrow> ret (candidates, exclusions @ [exclusion i ''message_not_found'' None])
           | Some r \<Rightarrow>
               bindp (candidate_from_record E r folder_id exclude_flagged (scope \<noteq> None)) (\<lambda>c.
               case c of
                 Inl reason \<Rightarrow> ret (candidates, exclusions @ [exclusion i reason (Some r)])
               | Inr candidate \<Rightarrow> ret (candidates @ [candidate], exclusions)))))"

definition dry_run ::
  "env \<Rightarrow> storage_state \<Rightarrow> int list \<Rightarrow> int option \<Rightarrow> bool \<Rightarrow> delete_scope option \<Rightarrow>
   ('r world, dry_run_result) prog" where
  "dry_run E st message_ids folder_id exclude_flagged scope =
    bindp (on_db (gets (\<lambda>d. map (\<lambda>i. map_option (message_record_of d) (find_message d i)) message_ids)))
    (\<lambda>records. thenp
      (forp (\<lambda>r. case r of None \<Rightarrow> ret () | Some x \<Rightarrow> on_db (ensure_imap_message x)) records)
      (if \<not> is_remote_delete_allowed st then raise StorageDetachedError
       else bindp (foldp (dry_run_step E folder_id exclude_flagged scope) ([], []) (zip message_ids records))
         (\<lambda>(candidates, exclusions). ret
           \<lparr>dr_candidates = candidates, dr_exclusions = exclusions,
            dr_total_size = sum_list (map dc_size_bytes candidates),
            dr_exclude_flagged = exclude_flagged, dr_scope = scope\<rparr>)))"

section \<open>Scope selection\<close>

text \<open>The columns of a listed message that the selection reads; dates are instants in UTC.\<close>

record message_summary =
  sm_id :: int
  sm_remote_state :: "remote_state option"
  sm_imap_flags :: "string option"
  sm_date_sent :: "int option"
  sm_internal_date :: "int option"

definition delete_scope_sort_key :: "message_summary \<Rightarrow> int \<times> int \<times> int" where
  "delete_scope_sort_key s =
    (case (case sm_date_sent s of None \<Rightarrow> sm_internal_date s | Some t \<Rightarrow> Some t) of
       None \<Rightarrow> (0, 0, sm_id s)
     | Some t \<Rightarrow> (1, t, sm_id s))"

definition select_delete_scope :: "message_summary list \<Rightarrow> bool \<Rightarrow> int \<Rightarrow> error + delete_scope" where
  "select_delete_scope items exclude_flagged limit =
    (if limit \<le> 0 then Inl (ValueError ''limit must be positive'')
     else
       (let non_deletable = map sm_id (filter (\<lambda>s. sm_remote_state s \<noteq> Some RemotePresent) items);
            flagged = map sm_id (filter (\<lambda>s. sm_id s \<notin> set non_deletable \<and> exclude_flagged \<and>
              has_imap_flag (sm_imap_flags s) ([CHR 0x5C] @ ''Flagged'')) items);
            eligible = sort_key delete_scope_sort_key
              (filter (\<lambda>s. sm_id s \<notin> set non_deletable \<union> set flagged) items);
            message_ids = map sm_id (take (nat limit) eligible)
        in Inr \<lparr>sc_message_ids = message_ids, sc_flagged_ids = flagged,
                sc_non_deletable_ids = non_deletable, sc_matched_count = length items,
                sc_flagged_excluded_count = length flagged,
                sc_truncated = (int (length items) - int (length non_deletable) -
                  int (length flagged) - int (length message_ids) > 0),
                sc_limit = limit\<rparr>))"

section \<open>Journal and database of one deletion\<close>

definition delete_event :: "string \<Rightarrow> delete_candidate \<Rightarrow> string \<Rightarrow> string \<Rightarrow> event" where
  "delete_event name c mode timestamp =
     [(''event'', JStr name), (''account_id'', JStr (dc_account_id c)),
      (''folder_raw_name'', JStr (dc_folder_raw_name c)), (''uid'', JInt (dc_uid c)),
      (''uidvalidity'', JInt (dc_uidvalidity c)), (''mode'', JStr mode),
      (''timestamp'', JStr timestamp)]"

definition delete_audit_entry :: "delete_candidate \<Rightarrow> string \<Rightarrow> string \<Rightarrow> audit_row" where
  "delete_audit_entry c mode timestamp =
    \<lparr>aud_occurred_at = timestamp, aud_operation = ''remote_delete'',
     aud_account_id = Some (dc_account_id c), aud_message_id = PyInt (dc_message_id c),
     aud_subject = Some (dc_subject c), aud_size_bytes = Some (dc_size_bytes c),
     aud_detail = Some (''mode='' @ mode @ ''; uid='' @ int_text (dc_uid c) @ ''; folder='' @
       dc_folder_raw_name c)\<rparr>"

record trash_merge_plan =
  mp_alias_key :: string
  mp_duplicate_id :: "int option"
  mp_identity_event :: event
  mp_snapshot_event :: event
  mp_new_membership :: "membership list option"
  mp_trash_folder_id :: int

definition commit_completed_state ::
  "delete_candidate \<Rightarrow> string \<Rightarrow> string \<Rightarrow> message_row \<Rightarrow> trash_merge_plan option \<Rightarrow> ('r world, unit) prog" where
  "commit_completed_state c mode timestamp m plan =
    thenp begin_batch
    (thenp
      (if mode = ''remove_membership''
       then (if msg_source_item_key m = []
             then raise (StorageError ''Gmail membership removal has no canonical source key'')
             else bindp (on_db (list_message_memberships (dc_account_id c) (msg_source_item_key m))) (\<lambda>ms.
               on_db (replace_message_memberships (dc_message_id c)
                 (filter (\<lambda>x. Some (mf_folder_id x) \<noteq> dc_folder_id c) (map mv_membership ms)))))
       else (case plan of
          Some p \<Rightarrow>
            (case mp_duplicate_id p of
               Some duplicate \<Rightarrow>
                 thenp (on_db (merge_duplicate_message (dc_account_id c) (dc_message_id c) duplicate))
                   (on_db (update_remote_state (dc_message_id c) RemoteMoved
                      (Some (mp_trash_folder_id p)) (dc_folder_id c)))
             | None \<Rightarrow>
                 (case mp_new_membership p of
                    Some ms \<Rightarrow>
                      thenp (on_db (replace_message_memberships (dc_message_id c) ms))
                        (on_db (add_message_identity_alias (dc_account_id c) (mp_alias_key p)
                           (dc_message_id c) ''copyuid''))
                  | None \<Rightarrow> ret ()))
        | None \<Rightarrow> on_db (update_remote_state (dc_message_id c) RemoteDeleted None (dc_folder_id c))))
    (thenp (on_db (record_audit (delete_audit_entry c mode timestamp))) commit_batch))"

text \<open>The JSON object of one membership in a snapshot event.\<close>

definition membership_json :: "string option \<Rightarrow> membership \<Rightarrow> string option \<Rightarrow> json" where
  "membership_json raw x moved_to = JObj
     [(''folder_raw_name'', opt_str raw), (''uid'', opt_int (mf_uid x)),
      (''uidvalidity'', opt_int (mf_uidvalidity x)),
      (''remote_state'', JStr (remote_state_text (mf_remote_state x))),
      (''moved_to_folder_raw_name'', opt_str moved_to), (''imap_flags'', opt_str (mf_imap_flags x)),
      (''flags_seen_at'', opt_str (mf_flags_seen_at x)),
      (''last_seen_at'', opt_str (mf_last_seen_at x))]"

definition move_membership :: "delete_candidate \<Rightarrow> int \<Rightarrow> string \<Rightarrow> membership_view \<Rightarrow> membership_view" where
  "move_membership c trash_id trash v =
    (if Some (mf_folder_id (mv_membership v)) = dc_folder_id c
     then v\<lparr>mv_membership := (mv_membership v)\<lparr>mf_remote_state := RemoteMoved, mf_moved_to := Some trash_id\<rparr>,
            mv_moved_to_raw_name := Some trash\<rparr>
     else v)"

definition trash_membership :: "env \<Rightarrow> delete_candidate \<Rightarrow> int \<Rightarrow> int \<times> int \<Rightarrow> membership" where
  "trash_membership E c trash_id dest =
    \<lparr>mf_message_id = dc_message_id c, mf_folder_id = trash_id, mf_uid = Some (snd dest),
     mf_uidvalidity = Some (fst dest), mf_remote_state = RemotePresent, mf_moved_to = None,
     mf_imap_flags = None, mf_flags_seen_at = None, mf_last_seen_at = Some (now E)\<rparr>"

definition build_trash_merge_plan ::
  "env \<Rightarrow> delete_candidate \<Rightarrow> message_row \<Rightarrow> string \<Rightarrow> int \<times> int \<Rightarrow> (db, trash_merge_plan option) prog" where
  "build_trash_merge_plan E c m trash dest =
    (let canonical = msg_source_item_key m in
     if canonical = [] then ret None
     else bindp (lift_sum (imap_source_item_key trash (fst dest) (snd dest))) (\<lambda>alias.
       if alias = canonical then ret None
       else bindp (list_folders (dc_account_id c)) (\<lambda>fs.
         case List.find (\<lambda>f. fld_raw_name f = trash) fs of
           None \<Rightarrow> ret None
         | Some tf \<Rightarrow>
             bindp (list_message_memberships (dc_account_id c) canonical) (\<lambda>ms.
             bindp (find_message_id_by_source_item_key (dc_account_id c) alias) (\<lambda>duplicate.
             let remaining = map (move_membership c (fld_id tf) trash) ms;
                 new = trash_membership E c (fld_id tf) dest in
             ret (Some
               \<lparr>mp_alias_key = alias, mp_duplicate_id = duplicate,
                mp_identity_event =
                  [(''event'', JStr ''message_identity_linked''), (''account_id'', JStr (dc_account_id c)),
                   (''canonical_source_item_key'', JStr canonical), (''alias_source_item_key'', JStr alias),
                   (''evidence_kind'', JStr ''copyuid''), (''file_hash'', JStr (dc_file_hash c)),
                   (''timestamp'', JStr (now E))],
                mp_snapshot_event =
                  [(''event'', JStr ''message_membership_snapshot''), (''account_id'', JStr (dc_account_id c)),
                   (''source_item_key'', JStr canonical),
                   (''memberships'', JList
                     (map (\<lambda>v. membership_json (mv_folder_raw_name v) (mv_membership v) (mv_moved_to_raw_name v))
                        remaining @ [membership_json (Some trash) new None])),
                   (''timestamp'', JStr (now E))],
                mp_new_membership =
                  (if duplicate = None then Some (map mv_membership remaining @ [new]) else None),
                mp_trash_folder_id = fld_id tf\<rparr>))))))"

text \<open>\<open>loads\<close> stands for \<open>json.loads\<close> on the stored Gmail labels.\<close>

definition snapshot_labels :: "(string \<Rightarrow> json option) \<Rightarrow> delete_candidate \<Rightarrow> message_row \<Rightarrow> error + event" where
  "snapshot_labels load c m = (case msg_gmail_labels m of
     None \<Rightarrow> Inr []
   | Some text \<Rightarrow> (case load text of
       None \<Rightarrow> Inl (StorageError ''Gmail labels are invalid in the local message record'')
     | Some (JList ls) \<Rightarrow>
         if list_all is_str ls
         then Inr [(''gmail_labels'', JList (filter (\<lambda>l. l \<noteq> JStr (dc_folder_raw_name c)) ls))] else Inr []
     | Some _ \<Rightarrow> Inr []))"

definition membership_snapshot_event ::
  "env \<Rightarrow> (string \<Rightarrow> json option) \<Rightarrow> delete_candidate \<Rightarrow> message_row \<Rightarrow> (db, event) prog" where
  "membership_snapshot_event E load c m =
    (if msg_source_item_key m = []
     then raise (StorageError ''Gmail membership removal has no canonical source key'')
     else bindp (list_folders (dc_account_id c)) (\<lambda>fs.
       bindp (list_message_memberships (dc_account_id c) (msg_source_item_key m)) (\<lambda>ms.
       let rest = filter (\<lambda>v. Some (mf_folder_id (mv_membership v)) \<noteq> dc_folder_id c) ms;
           name = (\<lambda>v. if mv_folder_raw_name v \<notin> {None, Some []} then mv_folder_raw_name v
             else map_option fld_raw_name (List.find (\<lambda>f. fld_id f = mf_folder_id (mv_membership v)) fs)) in
       if \<exists>v\<in>set rest. name v \<in> {None, Some []}
       then raise (StorageError ''Gmail membership snapshot has an unknown folder'')
       else bindp (lift_sum (snapshot_labels load c m)) (\<lambda>labels. ret
         ([(''event'', JStr ''message_membership_snapshot''), (''account_id'', JStr (dc_account_id c)),
           (''source_item_key'', JStr (msg_source_item_key m)),
           (''memberships'', JList (map (\<lambda>v. membership_json (name v) (mv_membership v) (mv_moved_to_raw_name v)) rest)),
           (''timestamp'', JStr (now E))] @ labels)))))"

section \<open>Flag preflight\<close>

definition group_folders :: "delete_candidate list \<Rightarrow> string list" where
  "group_folders items =
     foldl (\<lambda>names c. if dc_folder_raw_name c \<in> set names then names else names @ [dc_folder_raw_name c]) [] items"

record preflight =
  pf_skips :: "(int \<times> string) list"
  pf_flags :: "((string \<times> int) \<times> string list) list"

definition skip_folder :: "string \<Rightarrow> delete_candidate list \<Rightarrow> preflight \<Rightarrow> preflight" where
  "skip_folder reason cs p = p\<lparr>pf_skips := map (\<lambda>c. (dc_message_id c, reason)) cs @ pf_skips p\<rparr>"

definition preflight_folder ::
  "'r fetcher \<Rightarrow> delete_candidate list \<Rightarrow> preflight \<Rightarrow> string \<Rightarrow> ('r world, preflight) prog" where
  "preflight_folder F items p raw =
    (let cs = filter (\<lambda>c. dc_folder_raw_name c = raw) items in
     if \<exists>c\<in>set cs. dc_uidvalidity c \<noteq> dc_uidvalidity (hd cs)
     then ret (skip_folder ''uidvalidity_mismatch'' cs p)
     else catchp
       (bindp (on_remote (f_select_folder F raw)) (\<lambda>v.
          if v \<noteq> dc_uidvalidity (hd cs) then ret (skip_folder ''uidvalidity_mismatch'' cs p)
          else bindp (on_remote (f_iter_flags F raw (map dc_uid cs) (dc_uidvalidity (hd cs)))) (\<lambda>refs.
            ret (p\<lparr>pf_flags := rev (map (\<lambda>r. ((raw, fst r), snd r))
              (filter (\<lambda>r. fst r \<in> dc_uid ` set cs) refs)) @ pf_flags p\<rparr>))))
       (\<lambda>e. if e = UidValidityChanged then ret (skip_folder ''uidvalidity_mismatch'' cs p)
            else if is_transient_error e \<or> e = StorageDetachedError then raise e
            else if is_fetch_error e then ret (skip_folder ''flag_unverified'' cs p)
            else raise e))"

text \<open>The verdict on one candidate: skipped with a reason, or its server flags.\<close>

definition preflight_verdict :: "preflight \<Rightarrow> delete_candidate \<Rightarrow> string + string list" where
  "preflight_verdict p c = (case map_of (pf_skips p) (dc_message_id c) of
     Some reason \<Rightarrow> Inl reason
   | None \<Rightarrow> (case map_of (pf_flags p) (dc_folder_raw_name c, dc_uid c) of
       None \<Rightarrow> Inl ''flag_unverified'' | Some flags \<Rightarrow> Inr flags))"

definition flags_text :: "string list \<Rightarrow> string" where
  "flags_text flags = join_with (CHR '' '') flags"

definition skip_message :: "int \<Rightarrow> string \<Rightarrow> delete_result \<Rightarrow> delete_result" where
  "skip_message i reason res =
     res\<lparr>del_skipped := del_skipped res @ [i], del_errors := del_errors res @ [(i, reason)]\<rparr>"

definition preflight_pick ::
  "preflight \<Rightarrow> delete_candidate list \<times> (delete_candidate \<times> string) list \<times> delete_result \<Rightarrow> delete_candidate \<Rightarrow>
   delete_candidate list \<times> (delete_candidate \<times> string) list \<times> delete_result" where
  "preflight_pick p acc c = (case acc of (keep, updates, res) \<Rightarrow>
     (case preflight_verdict p c of
        Inl reason \<Rightarrow> (keep, updates, skip_message (dc_message_id c) reason res)
      | Inr flags \<Rightarrow>
          if has_imap_flag (Some (flags_text flags)) ([CHR 0x5C] @ ''Flagged'')
          then (keep, updates @ [(c, flags_text flags)], skip_message (dc_message_id c) ''flagged_on_server'' res)
          else (keep @ [c], updates @ [(c, flags_text flags)], res)))"

definition preflight_flags ::
  "env \<Rightarrow> 'r fetcher \<Rightarrow> delete_candidate list \<Rightarrow> delete_result \<Rightarrow> ('r world, delete_candidate list \<times> delete_result) prog" where
  "preflight_flags E F items res =
    bindp (foldp (preflight_folder F items) \<lparr>pf_skips = [], pf_flags = []\<rparr> (group_folders items)) (\<lambda>p.
    case foldl (preflight_pick p) ([], [], res) items of (keep, updates, res') \<Rightarrow>
      thenp (whenp (updates \<noteq> [])
        (thenp begin_batch
        (thenp (forp (\<lambda>(c, text). case dc_folder_id c of
            None \<Rightarrow> ret ()
          | Some f \<Rightarrow> on_db (update_flags (dc_account_id c) f (dc_uidvalidity c) (dc_uid c) (Some text) (now E))) updates)
          commit_batch)))
      (ret (keep, res')))"

section \<open>Execution\<close>

text \<open>The outcome of the server call of one deletion: done, with the place of the moved message when
  the server tells it; the folder changed its generation; unknown, with the text of the error; or
  refused.\<close>

datatype call_outcome =
    CallDone "(int \<times> int) option"
  | CallInvalidated
  | CallUncertain string
  | CallRefused string

definition remote_delete_call ::
  "'r fetcher \<Rightarrow> string \<Rightarrow> bool \<Rightarrow> delete_candidate \<Rightarrow> ('r world, (int \<times> int) option) prog" where
  "remote_delete_call F mode exclude_flagged c =
    (let raw = dc_folder_raw_name c; uid = dc_uid c;
         expected = (if exclude_flagged then Some (dc_uidvalidity c) else None) in
     if mode = ''trash'' then remote_effect (MoveToTrash raw uid expected) (f_move_to_trash F raw uid expected)
     else if mode = ''expunge''
     then thenp (remote_effect (ExpungeMessage raw uid expected) (f_expunge F raw uid expected)) (ret None)
     else thenp (remote_effect (RemoveMembership raw uid expected) (f_remove_membership F raw uid expected)) (ret None))"

definition attempt_remote_delete ::
  "'r fetcher \<Rightarrow> string \<Rightarrow> bool \<Rightarrow> delete_candidate \<Rightarrow> ('r world, call_outcome) prog" where
  "attempt_remote_delete F mode exclude_flagged c =
    catchp (bindp (remote_delete_call F mode exclude_flagged c) (\<lambda>moved. ret (CallDone moved)))
      (\<lambda>e. if e = UidValidityChanged then ret CallInvalidated
           else if is_transient_error e \<or> e = StorageDetachedError then ret (CallUncertain (error_text e))
           else if is_fetch_error e then ret (CallRefused (error_text e))
           else raise e)"

definition plan_is_stale :: "delete_candidate \<Rightarrow> delete_candidate \<Rightarrow> bool" where
  "plan_is_stale planned c \<longleftrightarrow> dc_file_hash c \<noteq> dc_file_hash planned \<or>
     dc_relative_path c \<noteq> dc_relative_path planned \<or> dc_uid c \<noteq> dc_uid planned \<or>
     dc_uidvalidity c \<noteq> dc_uidvalidity planned \<or> dc_folder_raw_name c \<noteq> dc_folder_raw_name planned"

text \<open>What a run of the plan fixes at the start: the mode, whether flagged messages are spared, the
  trash folder of the server, and the accounts of Google.\<close>

record delete_run =
  run_mode :: string
  run_exclude_flagged :: bool
  run_trash_folder :: "string option"
  run_google_ids :: "string list"

definition trash_plan ::
  "env \<Rightarrow> delete_run \<Rightarrow> delete_candidate \<Rightarrow> message_row \<Rightarrow> (int \<times> int) option \<Rightarrow> (db, trash_merge_plan option) prog" where
  "trash_plan E R c m moved =
    (case (moved, run_trash_folder R) of
       (Some dest, Some trash) \<Rightarrow>
         if run_mode R = ''trash'' \<and> dc_account_id c \<notin> set (run_google_ids R)
         then build_trash_merge_plan E c m trash dest else ret None
     | _ \<Rightarrow> ret None)"

definition complete_delete ::
  "env \<Rightarrow> (string \<Rightarrow> json option) \<Rightarrow> delete_run \<Rightarrow> delete_candidate \<Rightarrow> message_row \<Rightarrow> (int \<times> int) option \<Rightarrow>
   ('r world, unit) prog" where
  "complete_delete E load R c m moved =
    bindp (on_db (trash_plan E R c m moved)) (\<lambda>plan.
    thenp (man_append E (delete_event ''remote_delete_completed'' c (run_mode R) (now E)))
    (thenp
      (if run_mode R = ''remove_membership''
       then bindp (on_db (membership_snapshot_event E load c m)) (man_append E)
       else (case plan of
          None \<Rightarrow> ret ()
        | Some p \<Rightarrow> thenp (man_append E (mp_identity_event p)) (man_append E (mp_snapshot_event p))))
    (thenp man_sync (commit_completed_state c (run_mode R) (now E) m plan))))"

text \<open>What remains to do for one candidate after its server call, by the outcome of the call.\<close>

definition after_call ::
  "env \<Rightarrow> (string \<Rightarrow> json option) \<Rightarrow> delete_run \<Rightarrow> delete_candidate \<Rightarrow> message_row \<Rightarrow>
   delete_result \<times> string list \<Rightarrow> call_outcome \<Rightarrow> ('r world, delete_result \<times> string list) prog" where
  "after_call E load R c m acc outcome = (case acc of (res, invalidated) \<Rightarrow>
     (case outcome of
        CallInvalidated \<Rightarrow>
          ret (skip_message (dc_message_id c) ''uidvalidity_mismatch'' res, dc_folder_raw_name c # invalidated)
      | CallUncertain text \<Rightarrow>
          thenp (journal E (delete_event ''remote_delete_uncertain'' c (run_mode R) (now E)))
            (ret (res\<lparr>del_uncertain := del_uncertain res @ [dc_message_id c],
                     del_errors := del_errors res @ [(dc_message_id c, text)]\<rparr>, invalidated))
      | CallRefused text \<Rightarrow> ret (skip_message (dc_message_id c) text res, invalidated)
      | CallDone moved \<Rightarrow>
          thenp (complete_delete E load R c m moved)
            (ret (res\<lparr>del_completed := del_completed res @ [dc_message_id c],
                     del_total_size := del_total_size res + dc_size_bytes c\<rparr>, invalidated))))"

definition execute_step ::
  "env \<Rightarrow> 'r fetcher \<Rightarrow> (string \<Rightarrow> json option) \<Rightarrow> delete_run \<Rightarrow> delete_result \<times> string list \<Rightarrow>
   delete_candidate \<Rightarrow> ('r world, delete_result \<times> string list) prog" where
  "execute_step E F load R acc planned = (case acc of (res, invalidated) \<Rightarrow>
     let skip = (\<lambda>reason. ret (skip_message (dc_message_id planned) reason res, invalidated)) in
     if dc_folder_raw_name planned \<in> set invalidated then skip ''uidvalidity_mismatch''
     else bindp (on_db (get_message (dc_message_id planned))) (\<lambda>record. case record of
       None \<Rightarrow> skip ''message_not_found''
     | Some r \<Rightarrow> bindp (candidate_from_record E r (dc_folder_id planned) False False) (\<lambda>verified.
         case verified of
           Inl reason \<Rightarrow> skip reason
         | Inr c \<Rightarrow>
             if plan_is_stale planned c then skip ''plan_stale''
             else thenp (journal E (delete_event ''remote_delete_intent'' c (run_mode R) (now E)))
               (bindp (attempt_remote_delete F (run_mode R) (run_exclude_flagged R) c)
                 (after_call E load R c (rec_row r) (res, invalidated))))))"

definition empty_delete_result :: delete_result where
  "empty_delete_result =
    \<lparr>del_completed = [], del_uncertain = [], del_skipped = [], del_errors = [], del_total_size = 0\<rparr>"

definition google_account_ids :: "account_row list \<Rightarrow> string list" where
  "google_account_ids rows = map acc_id (filter (\<lambda>a. acc_oauth_provider a = Some ''google'') rows)"

text \<open>The conditions under which a plan is refused as a whole, and the trash folder.\<close>

definition execute_guards ::
  "'r fetcher \<Rightarrow> storage_state \<Rightarrow> delete_candidate list \<Rightarrow> string \<Rightarrow> int \<Rightarrow> bool \<Rightarrow> ('r world, delete_run) prog" where
  "execute_guards F st items mode delete_batch_limit exclude_flagged =
    thenp (forp (\<lambda>c. on_db (ensure_imap_account (dc_account_id c))) items)
    (if \<not> is_remote_delete_allowed st then raise StorageDetachedError
     else if mode \<notin> {''trash'', ''expunge'', ''remove_membership''}
     then raise (ValueError (''mode must be 'trash', 'expunge', or 'remove_membership'' @ [CHR 0x27]))
     else if delete_batch_limit \<le> 0 then raise (ValueError ''delete_batch_limit must be positive'')
     else if int (length items) > delete_batch_limit
     then raise (ValueError (''delete plan exceeds the batch limit ('' @ int_text delete_batch_limit @ '')''))
     else bindp (on_db list_accounts) (\<lambda>rows.
       let google = google_account_ids rows in
       if mode = ''expunge'' \<and> (\<exists>c\<in>set items. dc_account_id c \<in> set google)
       then raise (PermanentError ''Gmail accounts do not support remote expunge'')
       else if mode = ''remove_membership'' \<and> (\<exists>c\<in>set items. dc_account_id c \<notin> set google)
       then raise (PermanentError ''remote membership removal is only supported for Gmail labels'')
       else bindp (if mode = ''expunge'' then on_remote (f_supports_uid_expunge F) else ret True) (\<lambda>supported.
         if \<not> supported then raise (PermanentError ''UID EXPUNGE is not supported by this IMAP server'')
         else bindp (if mode = ''trash'' \<and> items \<noteq> [] then on_remote (f_find_trash_folder F) else ret None)
           (\<lambda>trash. if mode = ''trash'' \<and> items \<noteq> [] \<and> trash = None
             then raise (PermanentError ''could not identify the remote trash folder'')
             else ret \<lparr>run_mode = mode, run_exclude_flagged = exclude_flagged, run_trash_folder = trash,
                       run_google_ids = google\<rparr>))))"

definition execute_items ::
  "env \<Rightarrow> 'r fetcher \<Rightarrow> (string \<Rightarrow> json option) \<Rightarrow> delete_run \<Rightarrow> delete_candidate list \<Rightarrow> delete_result \<Rightarrow>
   ('r world, delete_result) prog" where
  "execute_items E F load R items res =
    bindp (foldp (execute_step E F load R) (res, []) items) (\<lambda>acc. ret (fst acc))"

definition execute ::
  "env \<Rightarrow> 'r fetcher \<Rightarrow> (string \<Rightarrow> json option) \<Rightarrow> storage_state \<Rightarrow> delete_candidate list \<Rightarrow> string \<Rightarrow> int \<Rightarrow>
   bool \<Rightarrow> ('r world, delete_result) prog" where
  "execute E F load st items mode delete_batch_limit exclude_flagged =
    bindp (execute_guards F st items mode delete_batch_limit exclude_flagged) (\<lambda>R.
    bindp (if exclude_flagged \<and> items \<noteq> [] then preflight_flags E F items empty_delete_result
           else ret (items, empty_delete_result))
      (\<lambda>(keep, res). execute_items E F load R keep res))"

section \<open>Reconciliation\<close>

definition folder_id_of :: "string \<Rightarrow> string \<Rightarrow> (db, int option) prog" where
  "folder_id_of account raw = bindp (list_folders account) (\<lambda>fs.
     ret (map_option fld_id (List.find (\<lambda>f. fld_raw_name f = raw) fs)))"

definition message_by_uid ::
  "string \<Rightarrow> int option \<Rightarrow> int \<Rightarrow> int \<Rightarrow> (db, message_record option) prog" where
  "message_by_uid account folder_id uidvalidity uid = bindp (list_stored_messages (Some account)) (\<lambda>rs.
     ret (List.find (\<lambda>r. map_option mf_folder_id (rec_membership r) = folder_id \<and>
       Option.bind (rec_membership r) mf_uidvalidity = Some uidvalidity \<and>
       Option.bind (rec_membership r) mf_uid = Some uid) rs))"

text \<open>The candidate built for a reconciled deletion; the folder id keeps its default.\<close>

definition candidate_for_reconciliation ::
  "message_row \<Rightarrow> string \<Rightarrow> string \<Rightarrow> int \<Rightarrow> int \<Rightarrow> delete_candidate option" where
  "candidate_for_reconciliation m account raw uid uidvalidity =
    (case (msg_size_bytes m, msg_relative_path m, msg_file_hash m) of
       (Some n, Some path, Some hash) \<Rightarrow> Some
         \<lparr>dc_message_id = msg_id m, dc_account_id = account, dc_folder_raw_name = raw, dc_uid = uid,
          dc_uidvalidity = uidvalidity, dc_subject = get_default (msg_subject m) [],
          dc_date_sent = msg_date_sent m, dc_internal_date = msg_internal_date m, dc_size_bytes = n,
          dc_relative_path = path, dc_file_hash = hash, dc_message_id_header = msg_message_id m,
          dc_folder_id = None\<rparr>
     | _ \<Rightarrow> None)"

text \<open>Whether the server confirms that the message is gone; errors of the server leave it open.\<close>

definition confirm_gone :: "'r fetcher \<Rightarrow> string \<Rightarrow> int \<Rightarrow> int \<Rightarrow> ('r world, bool) prog" where
  "confirm_gone F raw uid uidvalidity =
    catchp (bindp (on_remote (f_select_folder F raw)) (\<lambda>v.
        if v \<noteq> uidvalidity then ret False
        else bindp (on_remote (f_list_existing_uids F raw)) (\<lambda>uids. ret (uid \<notin> set uids))))
      (\<lambda>e. if is_fetch_error e \<or> e = StorageDetachedError then ret False else raise e)"

definition reconcile_candidate ::
  "env \<Rightarrow> (string \<Rightarrow> json option) \<Rightarrow> string \<Rightarrow> delete_candidate \<Rightarrow> message_row \<Rightarrow> ('r world, unit) prog" where
  "reconcile_candidate E load mode c m =
    thenp (man_append E (delete_event ''remote_delete_completed'' c mode (now E)))
    (thenp (whenp (mode = ''remove_membership'')
        (bindp (on_db (membership_snapshot_event E load c m)) (man_append E)))
    (thenp man_sync (commit_completed_state c mode (now E) m None)))"

definition reconcile_operation ::
  "env \<Rightarrow> 'r fetcher \<Rightarrow> (string \<Rightarrow> json option) \<Rightarrow> string \<Rightarrow> string \<Rightarrow> int \<Rightarrow> int \<Rightarrow> string \<Rightarrow> ('r world, unit) prog" where
  "reconcile_operation E F load account raw uid uidvalidity mode =
    bindp (confirm_gone F raw uid uidvalidity) (\<lambda>gone.
    if \<not> gone then ret ()
    else bindp (on_db (folder_id_of account raw)) (\<lambda>folder_id.
      bindp (on_db (message_by_uid account folder_id uidvalidity uid)) (\<lambda>record. case record of
        None \<Rightarrow> ret ()
      | Some r \<Rightarrow> (case candidate_for_reconciliation (rec_row r) account raw uid uidvalidity of
          None \<Rightarrow> ret ()
        | Some c \<Rightarrow> reconcile_candidate E load mode c (rec_row r)))))"

definition reconcile_intent ::
  "env \<Rightarrow> 'r fetcher \<Rightarrow> (string \<Rightarrow> json option) \<Rightarrow> event \<Rightarrow> ('r world, unit) prog" where
  "reconcile_intent E F load intent =
    (if jget intent ''event'' \<noteq> JStr ''remote_delete_intent'' then ret ()
     else (case (jget intent ''account_id'', jget intent ''folder_raw_name'', jget intent ''uid'',
         jget intent ''uidvalidity'', jget intent ''mode'') of
       (JStr account, JStr raw, JInt uid, JInt uidvalidity, JStr mode) \<Rightarrow>
         if mode \<in> {''trash'', ''expunge'', ''remove_membership''}
         then reconcile_operation E F load account raw uid uidvalidity mode else ret ()
     | (JStr _, JStr _, JInt _, JInt _, JList _) \<Rightarrow> raise (TypeError (''unhashable type: 'list'' @ [CHR 0x27]))
     | (JStr _, JStr _, JInt _, JInt _, JObj _) \<Rightarrow> raise (TypeError (''unhashable type: 'dict'' @ [CHR 0x27]))
     | _ \<Rightarrow> ret ()))"

definition reconcile_uncertain_deletes ::
  "env \<Rightarrow> 'r fetcher \<Rightarrow> (string \<Rightarrow> json option) \<Rightarrow> storage_state \<Rightarrow> ('r world, unit) prog" where
  "reconcile_uncertain_deletes E F load st =
    (if \<not> is_remote_delete_allowed st then raise StorageDetachedError
     else bindp (gets (\<lambda>w. read_incomplete_intents (w_man w))) (\<lambda>r. bindp (lift_sum r)
       (forp (reconcile_intent E F load))))"

end
