(* ===== verification/Delete_Remote_Props.thy ===== *)
theory Delete_Remote_Props
  imports Delete_Remote Repository_Props "HOL-Library.Multiset"
begin

text \<open>
  Properties of remote deletion: a message is deleted from the server only with a durable intent and a
  verified local copy, every item of a plan is accounted for, messages flagged on the server are
  spared, and what dry run, scope selection and reconciliation do.
\<close>

section \<open>Verified candidates\<close>

text \<open>A local copy stands behind the candidate: its message row names a file whose bytes are readable
  and have the recorded digest, and the parsed contents are stored.\<close>

definition candidate_backed :: "env \<Rightarrow> db \<Rightarrow> fs \<Rightarrow> delete_candidate \<Rightarrow> bool" where
  "candidate_backed E d f c \<longleftrightarrow>
     (\<exists>m\<in>set (messages d). msg_id m = dc_message_id c \<and> msg_account_id m = dc_account_id c \<and>
        msg_relative_path m = Some (dc_relative_path c) \<and> msg_file_hash m = Some (dc_file_hash c)) \<and>
     (\<exists>bytes. read_eml (dc_relative_path c) f = Inr bytes \<and> sha256 E bytes = casefold (dc_file_hash c)) \<and>
     has_contents d (dc_message_id c)"

lemma verify_eml_ok:
  "verify_eml E path hash w = (Inr None, w') \<Longrightarrow>
   \<exists>bytes. read_eml path (w_fs w) = Inr bytes \<and> sha256 E bytes = casefold hash"
  by (auto simp: verify_eml_def read_verified_def split: sum.splits if_splits error.splits)

lemma verify_eml_state [simp]: "snd (verify_eml E path hash w) = w"
  by (auto simp: verify_eml_def split: sum.split error.split)

lemma candidate_columns_ok:
  "candidate_columns ef rp m mem = Inr (path, hash, uid, v, n) \<Longrightarrow>
   msg_relative_path m = Some path \<and> msg_file_hash m = Some hash \<and> msg_account_id m \<noteq> [] \<and>
   Option.bind mem mf_uid = Some uid \<and> Option.bind mem mf_uidvalidity = Some v \<and>
   msg_size_bytes m = Some n \<and> 0 \<le> n \<and>
   map_option mf_remote_state mem \<notin> {Some RemoteDeleted, Some RemoteUncertain} \<and>
   (rp \<longrightarrow> map_option mf_remote_state mem = Some RemotePresent) \<and>
   (ef \<longrightarrow> \<not> has_imap_flag (Option.bind mem mf_imap_flags) ([CHR 0x5C] @ ''Flagged''))"
  by (auto simp: candidate_columns_def Let_def split: if_splits option.splits)

lemma snd_bind_same:
  assumes "snd (m s) = s" and "\<And>x. snd (f x s) = s"
  shows "snd (bindp m f s) = s"
  using assms by (cases "m s") (auto simp: run_bind split: sum.split)

lemma on_db_reads: "snd (m (w_db w)) = w_db w \<Longrightarrow> snd (on_db m w) = w"
  by (auto simp: on_db_def split: prod.split)

lemma candidate_folder_state [simp]: "snd (candidate_folder m mem raw v d) = d"
  by (simp add: candidate_folder_def folder_names_def list_folders_def run_bind)

lemma finish_candidate_state [simp]: "snd (finish_candidate E m mem raw cols w) = w"
  unfolding finish_candidate_def has_message_contents_def
  by (auto split: prod.split option.split intro!: snd_bind_same)

lemma check_candidate_state [simp]: "snd (check_candidate E m mem raw ef rp w) = w"
  unfolding check_candidate_def
  by (auto split: sum.split prod.split intro!: snd_bind_same on_db_reads)

lemma candidate_from_record_state [simp]: "snd (candidate_from_record E r f ef rp w) = w"
  unfolding candidate_from_record_def Let_def list_message_memberships_def
  by (intro snd_bind_same) (auto split: sum.split)

lemma finish_candidate_ok:
  assumes "finish_candidate E m mem raw (path, hash, uid, v, n) w = (Inr (Inr c), w')"
  shows "dc_message_id c = msg_id m \<and> dc_account_id c = msg_account_id m \<and>
    dc_folder_raw_name c = raw \<and> dc_uid c = uid \<and> dc_uidvalidity c = v \<and> dc_size_bytes c = n \<and>
    dc_relative_path c = path \<and> dc_file_hash c = hash \<and> dc_folder_id c = map_option mf_folder_id mem \<and>
    (\<exists>bytes. read_eml path (w_fs w) = Inr bytes \<and> sha256 E bytes = casefold hash) \<and>
    has_contents (w_db w) (msg_id m)"
proof -
  have "verify_eml E path hash w = (x, w1) \<Longrightarrow> w1 = w" for x w1
    using verify_eml_state [of E path hash w] by (metis snd_conv)
  with assms show ?thesis
    by (auto simp: finish_candidate_def has_message_contents_def run_bind split: prod.splits sum.splits
        option.splits if_splits dest: verify_eml_ok)
qed

lemma check_candidate_ok:
  assumes "check_candidate E m mem raw ef rp w = (Inr (Inr c), w')"
  obtains path hash uid v n name where
    "candidate_columns ef rp m mem = Inr (path, hash, uid, v, n)"
    "fst (candidate_folder m mem raw v (w_db w)) = Inr (Inr name)"
    "finish_candidate E m mem name (path, hash, uid, v, n) w = (Inr (Inr c), w')"
proof -
  have "candidate_folder m mem raw v (w_db w) = (x, d) \<Longrightarrow> w\<lparr>w_db := d\<rparr> = w" for v x d
    using candidate_folder_state [of m mem raw v "w_db w"] by simp
  with assms show thesis
    by (auto simp: check_candidate_def run_bind on_db_def split: sum.splits prod.splits
        intro!: that)
qed

lemma candidate_from_record_ok:
  assumes "candidate_from_record E r f ef rp w = (Inr (Inr c), w')"
  obtains ms view where
    "fst (list_message_memberships (msg_account_id (rec_row r)) (msg_source_item_key (rec_row r)) (w_db w)) = Inr ms"
    "choose_membership f ms = Inr view"
    "check_candidate E (rec_row r)
       (case view of None \<Rightarrow> rec_membership r | Some v \<Rightarrow> Some (mv_membership v))
       (Option.bind view mv_folder_raw_name) ef rp w = (Inr (Inr c), w')"
  using assms
  by (auto simp: candidate_from_record_def Let_def list_message_memberships_def run_bind split: sum.splits)

text \<open>The place of the candidate on the server is the one a membership of its message records.\<close>

definition candidate_located :: "db \<Rightarrow> delete_candidate \<Rightarrow> bool" where
  "candidate_located d c \<longleftrightarrow> (\<exists>x\<in>set (message_folders d). mf_message_id x = dc_message_id c \<and>
     dc_folder_id c = Some (mf_folder_id x) \<and> mf_uid x = Some (dc_uid c) \<and>
     mf_uidvalidity x = Some (dc_uidvalidity c) \<and>
     mf_remote_state x \<notin> {RemoteDeleted, RemoteUncertain} \<and>
     folder_name d (mf_folder_id x) = Some (dc_folder_raw_name c))"

lemma choose_membership_in: "choose_membership f ms = Inr (Some v) \<Longrightarrow> v \<in> set ms"
  by (auto simp: choose_membership_def filter_eq_Cons_iff split: option.splits list.splits)

lemma choose_membership_none: "choose_membership f ms = Inr None \<Longrightarrow> ms = []"
  by (auto simp: choose_membership_def split: option.splits list.splits)

lemma db_inv_find_key:
  assumes "db_inv d" and "m \<in> set (messages d)"
  shows "List.find (\<lambda>x. message_key x = message_key m) (messages d) = Some m"
proof -
  have u: "uniq message_key (messages d)" using assms(1) by (simp add: db_inv_def messages_inv_def)
  obtain x where x: "List.find (\<lambda>x. message_key x = message_key m) (messages d) = Some x"
    using assms(2) by (cases "List.find (\<lambda>x. message_key x = message_key m) (messages d)")
      (auto simp: find_None_iff_ball)
  from find_Some_in_set [OF this] assms(2) u have "x = m" by (auto intro: uniq_inj)
  with x show ?thesis by simp
qed

lemma listed_memberships:
  assumes "db_inv d" and "m \<in> set (messages d)"
  shows "fst (list_message_memberships (msg_account_id m) (msg_source_item_key m) d) =
    Inr (map (membership_view_of d) (message_memberships d (msg_id m)))"
proof -
  have "folder_exists d (mf_folder_id x)" if "x \<in> set (message_folders d)" for x
    using assms(1) that by (auto simp: db_inv_def memberships_inv_def membership_fk_def)
  then have "filter (\<lambda>x. folder_exists d (mf_folder_id x)) (message_memberships d (msg_id m)) =
      message_memberships d (msg_id m)"
    by (intro filter_True) (auto simp: message_memberships_def)
  with db_inv_find_key [OF assms] show ?thesis
    by (simp add: list_message_memberships_def)
qed

lemma folder_name_of:
  assumes "db_inv d" and "f \<in> set (folders d)"
  shows "folder_name d (fld_id f) = Some (fld_raw_name f)"
proof -
  have u: "uniq fld_id (folders d)" using assms(1) by (simp add: db_inv_def folders_inv_def)
  obtain x where x: "List.find (\<lambda>r. fld_id r = fld_id f) (folders d) = Some x"
    using assms(2) by (cases "List.find (\<lambda>r. fld_id r = fld_id f) (folders d)")
      (auto simp: find_None_iff_ball)
  from find_Some_in_set [OF this] assms(2) u have "x = f" by (auto intro: uniq_inj)
  with x show ?thesis by (simp add: folder_name_def)
qed

lemma candidate_folder_ok:
  assumes "db_inv d" and "folder_exists d (mf_folder_id x)"
    and "fst (candidate_folder m (Some x) (folder_name d (mf_folder_id x)) v d) = Inr (Inr name)"
  shows "folder_name d (mf_folder_id x) = Some name"
proof -
  from assms(2) obtain f where f: "f \<in> set (folders d)" "fld_id f = mf_folder_id x"
    by (auto simp: folder_exists_def)
  from folder_name_of [OF assms(1) f(1)] f(2)
  have fn: "folder_name d (mf_folder_id x) = Some (fld_raw_name f)" by simp
  show ?thesis
  proof (cases "fld_raw_name f = []")
    case False
    with assms(3) fn show ?thesis by (simp add: candidate_folder_def)
  next
    case True
    have "g = f" if "g \<in> set (folders d)" "fld_id g = mf_folder_id x" for g
      using assms(1) that f by (auto simp: db_inv_def folders_inv_def intro: uniq_inj)
    with True fn assms(3) have False
      by (auto simp: candidate_folder_def folder_names_def list_folders_def run_bind
          split: option.splits if_splits dest!: find_Some_in_set)
    then show ?thesis ..
  qed
qed

lemma candidate_facts:
  assumes run: "candidate_from_record E (message_record_of (w_db w) m) f ef rp w = (Inr (Inr c), w')"
    and inv: "db_inv (w_db w)" and m: "m \<in> set (messages (w_db w))"
  shows "dc_message_id c = msg_id m \<and> candidate_backed E (w_db w) (w_fs w) c \<and> candidate_located (w_db w) c"
  using run
proof (rule candidate_from_record_ok)
  let ?d = "w_db w" and ?r = "message_record_of (w_db w) m"
  fix ms and view :: "membership_view option"
  let ?mem = "case view of None \<Rightarrow> rec_membership ?r | Some v \<Rightarrow> Some (mv_membership v)"
  assume ms: "fst (list_message_memberships (msg_account_id (rec_row ?r)) (msg_source_item_key (rec_row ?r)) ?d) = Inr ms"
    and view: "choose_membership f ms = Inr view"
    and chk: "check_candidate E (rec_row ?r) ?mem (Option.bind view mv_folder_raw_name) ef rp w = (Inr (Inr c), w')"
  from ms listed_memberships [OF inv m] have ms_eq: "ms = map (membership_view_of ?d) (message_memberships ?d (msg_id m))"
    by simp
  from chk show ?thesis
  proof (rule check_candidate_ok)
    fix path hash uid v n name
    assume cols: "candidate_columns ef rp (rec_row ?r) ?mem = Inr (path, hash, uid, v, n)"
      and folder: "fst (candidate_folder (rec_row ?r) ?mem (Option.bind view mv_folder_raw_name) v ?d) = Inr (Inr name)"
      and fin: "finish_candidate E (rec_row ?r) ?mem name (path, hash, uid, v, n) w = (Inr (Inr c), w')"
    note c = finish_candidate_ok [OF fin] and k = candidate_columns_ok [OF cols]
    have backed: "dc_message_id c = msg_id m \<and> candidate_backed E ?d (w_fs w) c"
      using c k m by (auto simp: candidate_backed_def)
    obtain y where y: "view = Some y"
    proof (cases view)
      case None
      with view have "message_memberships ?d (msg_id m) = []"
        by (auto simp: ms_eq dest!: choose_membership_none)
      with None k show ?thesis by (simp add: message_record_of_def first_membership_def)
    qed
    with view obtain x where x: "y = membership_view_of ?d x" "x \<in> set (message_memberships ?d (msg_id m))"
      by (auto simp: ms_eq dest!: choose_membership_in)
    from x(2) have x_in: "x \<in> set (message_folders ?d)" "mf_message_id x = msg_id m"
      by (auto simp: message_memberships_def)
    have "folder_exists ?d (mf_folder_id x)"
      using inv x_in by (auto simp: db_inv_def memberships_inv_def membership_fk_def)
    with folder y x(1) have "folder_name ?d (mf_folder_id x) = Some name"
      by (intro candidate_folder_ok [OF inv]) (simp_all add: membership_view_of_def)
    with c k y x(1) x_in backed have "candidate_located ?d c"
      by (auto simp: candidate_located_def membership_view_of_def intro!: bexI [of _ x])
    with backed show ?thesis by simp
  qed
qed

section \<open>Guard of a deletion\<close>

fun call_mode :: "remote_call \<Rightarrow> string" where
  "call_mode (MoveToTrash _ _ _) = ''trash''"
| "call_mode (ExpungeMessage _ _ _) = ''expunge''"
| "call_mode (RemoveMembership _ _ _) = ''remove_membership''"

fun call_folder :: "remote_call \<Rightarrow> string" where
  "call_folder (MoveToTrash f _ _) = f"
| "call_folder (ExpungeMessage f _ _) = f"
| "call_folder (RemoveMembership f _ _) = f"

fun call_uid :: "remote_call \<Rightarrow> int" where
  "call_uid (MoveToTrash _ u _) = u"
| "call_uid (ExpungeMessage _ u _) = u"
| "call_uid (RemoveMembership _ u _) = u"

fun call_expected :: "remote_call \<Rightarrow> int option" where
  "call_expected (MoveToTrash _ _ v) = v"
| "call_expected (ExpungeMessage _ _ v) = v"
| "call_expected (RemoveMembership _ _ v) = v"

text \<open>The call deletes the message of a candidate: the place it names is where the database has the
  message of the candidate, a verified copy of that message is stored, and the intent to delete it is
  durable. Deletion from the server unlinks no file.\<close>

definition call_for :: "env \<Rightarrow> snapshot \<Rightarrow> remote_call \<Rightarrow> delete_candidate \<Rightarrow> bool" where
  "call_for E s call c \<longleftrightarrow> call_folder call = dc_folder_raw_name c \<and> call_uid call = dc_uid c \<and>
     candidate_located (snap_db s) c \<and> candidate_backed E (snap_db s) (snap_fs s) c \<and>
     (\<exists>t. delete_event ''remote_delete_intent'' c (call_mode call) t \<in> set (snap_durable s))"

definition delete_allowed ::
  "env \<Rightarrow> (remote_call \<Rightarrow> delete_candidate \<Rightarrow> bool) \<Rightarrow> effect \<Rightarrow> snapshot \<Rightarrow> bool" where
  "delete_allowed E extra e s = (case e of
     Unlink _ \<Rightarrow> False
   | Remote call \<Rightarrow> \<exists>c. call_for E s call c \<and> extra call c)"

abbreviation delete_guard ::
  "env \<Rightarrow> (remote_call \<Rightarrow> delete_candidate \<Rightarrow> bool) \<Rightarrow> 'r world \<Rightarrow> bool" where
  "delete_guard E extra \<equiv> guarded E db_inv (delete_allowed E extra)"

text \<open>What the run itself ensures of every call: the mode is that of the run, and the expected
  generation of the folder is passed exactly when flagged messages are spared.\<close>

definition run_call :: "delete_run \<Rightarrow> remote_call \<Rightarrow> delete_candidate \<Rightarrow> bool" where
  "run_call R call c \<longleftrightarrow> call_mode call = run_mode R \<and>
     call_expected call = (if run_exclude_flagged R then Some (dc_uidvalidity c) else None)"

lemma keeps_reads [simp]:
  "keeps I (list_message_memberships a k)" "keeps I (list_folders a)" "keeps I list_accounts"
  "keeps I (list_stored_messages acc)" "keeps I (get_message i)"
  by (simp_all add: list_message_memberships_def list_folders_def list_accounts_def
      list_stored_messages_def get_message_def)

lemma keeps_commit_completed_state: "keeps (delete_guard E extra) (commit_completed_state c mode t m plan)"
  unfolding commit_completed_state_def
  by (auto intro!: keeps_then keeps_bind keeps_guarded_batch keeps_guarded_on_db keeps_update_remote_state
      keeps_merge_duplicate_message keeps_replace_message_memberships keeps_add_message_identity_alias
      keeps_other_ops split: option.split)

lemma keeps_build_plan: "keeps I (build_trash_merge_plan E c m trash dest)"
  unfolding build_trash_merge_plan_def Let_def find_message_id_by_source_item_key_def
  by (auto intro!: keeps_bind split: option.split)

lemma keeps_membership_snapshot_event: "keeps I (membership_snapshot_event E load c m)"
  unfolding membership_snapshot_event_def Let_def by (auto intro!: keeps_bind)

lemma keeps_complete_delete: "keeps (delete_guard E extra) (complete_delete E load R c m moved)"
  unfolding complete_delete_def trash_plan_def
  by (auto intro!: keeps_then keeps_bind keeps_guarded_on_db keeps_build_plan keeps_guarded_append
      keeps_membership_snapshot_event keeps_guarded_sync keeps_commit_completed_state split: option.split)

lemma keeps_after_call: "keeps (delete_guard E extra) (after_call E load R c m acc outcome)"
  unfolding after_call_def
  by (auto intro!: keeps_then keeps_complete_delete split: call_outcome.split prod.split)

abbreviation delete_modes :: "string set" where
  "delete_modes \<equiv> {''trash'', ''expunge'', ''remove_membership''}"

lemma snd_bind_keeps:
  "(\<And>x. keeps I (f x)) \<Longrightarrow> I (snd (m w)) \<Longrightarrow> I (snd (bindp m f w))"
  by (auto simp: run_bind keeps_def split: prod.splits sum.splits)

lemma snd_catch_keeps:
  "(\<And>e. keeps I (h e)) \<Longrightarrow> I (snd (m w)) \<Longrightarrow> I (snd (catchp m h w))"
  by (auto simp: run_catch keeps_def split: prod.splits sum.splits)

lemma attempt_guard:
  assumes "delete_guard E extra w" and "mode \<in> delete_modes"
    and "\<And>call. call_mode call = mode \<Longrightarrow> call_folder call = dc_folder_raw_name c \<Longrightarrow> call_uid call = dc_uid c \<Longrightarrow>
      call_expected call = (if ef then Some (dc_uidvalidity c) else None) \<Longrightarrow>
      delete_allowed E extra (Remote call) (snapshot_of w)"
  shows "delete_guard E extra (snd (attempt_remote_delete F mode ef c w))"
proof -
  let ?v = "if ef then Some (dc_uidvalidity c) else None" and ?f = "dc_folder_raw_name c" and ?u = "dc_uid c"
  have eff: "delete_guard E extra (snd (remote_effect call p w))"
    if "call \<in> {MoveToTrash ?f ?u ?v, ExpungeMessage ?f ?u ?v, RemoveMembership ?f ?u ?v}" "call_mode call = mode"
    for call and p :: "('a, 'b) prog"
    by (rule guarded_remote_effect [OF assms(1)], rule assms(3)) (use that in auto)
  have then_eff: "delete_guard E extra (snd (thenp (remote_effect call p) (ret None) w))"
    if "call \<in> {MoveToTrash ?f ?u ?v, ExpungeMessage ?f ?u ?v, RemoveMembership ?f ?u ?v}" "call_mode call = mode"
    for call and p :: "('a, 'b) prog"
    by (rule snd_thenp_keeps [where I = "delete_guard E extra"]) (use eff [OF that] in auto)
  have "delete_guard E extra (snd (remote_delete_call F mode ef c w))"
  proof -
    consider "mode = ''trash''" | "mode = ''expunge''" | "mode = ''remove_membership''" using assms(2) by blast
    then show ?thesis
    proof cases
      case 1
      then show ?thesis by (simp add: remote_delete_call_def Let_def eff)
    next
      case 2
      then show ?thesis by (simp add: remote_delete_call_def Let_def then_eff)
    next
      case 3
      then show ?thesis by (simp add: remote_delete_call_def Let_def then_eff)
    qed
  qed
  then have "delete_guard E extra (snd (bindp (remote_delete_call F mode ef c) (\<lambda>moved. ret (CallDone moved)) w))"
    by (rule snd_bind_keeps [where I = "delete_guard E extra", rotated]) simp
  then show ?thesis
    unfolding attempt_remote_delete_def by (rule snd_catch_keeps [where I = "delete_guard E extra", rotated]) simp
qed

lemma execute_step_guard:
  assumes guard: "delete_guard E extra w" and mode: "run_mode R \<in> delete_modes"
    and extra: "\<And>call c. run_call R call c \<Longrightarrow> \<not> plan_is_stale planned c \<Longrightarrow> extra call c"
  shows "delete_guard E extra (snd (execute_step E F load R acc planned w))"
proof (cases acc)
  case (Pair res inval)
  show ?thesis
  proof (cases "dc_folder_raw_name planned \<in> set inval \<or> find_message (w_db w) (dc_message_id planned) = None")
    case True
    with guard Pair show ?thesis by (auto simp: execute_step_def run_get_message run_bind)
  next
    case False
    then obtain m where new: "dc_folder_raw_name planned \<notin> set inval"
      and m: "find_message (w_db w) (dc_message_id planned) = Some m" by auto
    from find_message_in [OF m] have m_in: "m \<in> set (messages (w_db w))" by simp
    let ?r = "message_record_of (w_db w) m"
    let ?cand = "candidate_from_record E ?r (dc_folder_id planned) False False"
    show ?thesis
    proof (cases "\<exists>c. ?cand w = (Inr (Inr c), w) \<and> \<not> plan_is_stale planned c")
      case False
      have "?cand w = (x, w1) \<Longrightarrow> w1 = w" for x w1
        using candidate_from_record_state [of E ?r "dc_folder_id planned" False False w] by (metis snd_conv)
      with False new m guard Pair show ?thesis
        by (auto simp: execute_step_def run_get_message run_bind split: prod.split sum.split)
    next
      case True
      then obtain c where c: "?cand w = (Inr (Inr c), w)" "\<not> plan_is_stale planned c" by blast
      let ?intent = "delete_event ''remote_delete_intent'' c (run_mode R) (now E)"
      let ?rest = "bindp (attempt_remote_delete F (run_mode R) (run_exclude_flagged R) c)
        (after_call E load R c m (res, inval))"
      from new m c Pair have run: "execute_step E F load R acc planned w = thenp (journal E ?intent) ?rest w"
        by (simp add: execute_step_def run_get_message run_bind)
      show ?thesis
      proof (cases "journal E ?intent w")
        case (Pair o1 w1)
        have g1: "delete_guard E extra w1" using keepsD [OF keeps_guarded_journal guard Pair] .
        show ?thesis
        proof (cases o1)
          case Inl
          with Pair g1 run show ?thesis by simp
        next
          case (Inr u)
          with journal_ok [of E ?intent w u w1] Pair guard obtain mm where
            w1: "w1 = w\<lparr>w_man := mm\<rparr>" and ev: "?intent \<in> set (durable_events mm)"
            by (auto simp: guarded_def)
          from guard have "db_inv (w_db w)" by (simp add: guarded_def)
          from candidate_facts [OF c(1) this m_in] have
            "call_for E (snapshot_of w1) call c" if "call_mode call = run_mode R"
              "call_folder call = dc_folder_raw_name c" "call_uid call = dc_uid c" for call
            using that ev by (auto simp: call_for_def snapshot_of_def w1)
          then have "delete_guard E extra (snd (attempt_remote_delete F (run_mode R) (run_exclude_flagged R) c w1))"
            using extra [OF _ c(2)] by (intro attempt_guard [OF g1 mode]) (auto simp: delete_allowed_def run_call_def)
          then have "delete_guard E extra (snd (?rest w1))"
            by (rule snd_bind_keeps [OF keeps_after_call])
          with Pair Inr run show ?thesis by simp
        qed
      qed
    qed
  qed
qed

lemma execute_items_guard:
  assumes "delete_guard E extra w" and "run_mode R \<in> delete_modes"
    and "\<And>call c planned. planned \<in> set items \<Longrightarrow> run_call R call c \<Longrightarrow> \<not> plan_is_stale planned c \<Longrightarrow> extra call c"
  shows "delete_guard E extra (snd (execute_items E F load R items res w))"
proof -
  have "delete_guard E extra (snd (foldp (execute_step E F load R) (res, []) items w))"
    by (rule guard_foldp [of items "delete_guard E extra", OF execute_step_guard [OF _ assms(2)] assms(1)])
      (use assms(3) in auto)
  then show ?thesis
    unfolding execute_items_def by (rule snd_bind_keeps [where I = "delete_guard E extra", rotated]) simp
qed

lemma execute_guards_ok:
  assumes "execute_guards F st items mode limit ef w = (Inr R, w')"
  shows "run_mode R = mode \<and> run_exclude_flagged R = ef \<and> mode \<in> delete_modes \<and>
    is_remote_delete_allowed st \<and> 0 < limit \<and> int (length items) \<le> limit"
proof -
  have "hoare (\<lambda>_. True) (execute_guards F st items mode limit ef)
    (\<lambda>R _. \<not> \<not> is_remote_delete_allowed st \<and> \<not> mode \<notin> delete_modes \<and> \<not> limit \<le> 0 \<and>
      \<not> int (length items) > limit \<and> run_mode R = mode \<and> run_exclude_flagged R = ef) (\<lambda>_ _. True)"
    unfolding execute_guards_def Let_def
    by (rule hoare_then [OF hoare_top], (rule hoare_guard)+)
      (intro hoare_bind [OF hoare_top] hoare_guard_weak hoare_ret, simp)
  from hoareD_ok [OF this TrueI assms] show ?thesis by auto
qed

lemma ensure_items_state: "snd (forp (\<lambda>c. on_db (ensure_imap_account (dc_account_id c))) items w) = w"
proof -
  have "keeps (\<lambda>v. v = w) (forp (\<lambda>c. on_db (ensure_imap_account (dc_account_id c))) items)"
    by (intro keeps_forp) (auto simp: keeps_def on_db_reads)
  then show ?thesis by (simp add: keeps_def)
qed

lemma keeps_execute_guards: "keeps (delete_guard E extra) (execute_guards F st items mode limit ef)"
  unfolding execute_guards_def Let_def
  by (intro keeps_then keeps_bind keeps_if keeps_forp keeps_guarded_on_db keeps_ensure
      keeps_guarded_remote keeps_ret keeps_raise keeps_reads)

lemma execute_guards_detached:
  assumes "\<not> is_remote_delete_allowed st" and "execute_guards F st items mode limit ef w = (r, w')"
  shows "w' = w \<and> (\<exists>e. r = Inl e)"
proof -
  obtain x where "forp (\<lambda>c. on_db (ensure_imap_account (dc_account_id c))) items w = (x, w)"
    using ensure_items_state [of items w] by (metis prod.collapse)
  with assms show ?thesis
    by (cases x) (auto simp: execute_guards_def)
qed

lemma keeps_preflight_folder: "keeps (delete_guard E extra) (preflight_folder F items p raw)"
  unfolding preflight_folder_def Let_def
  by (auto intro!: keeps_bind keeps_catch keeps_guarded_remote)

lemma keeps_preflight_flags: "keeps (delete_guard E extra) (preflight_flags E0 F items res)"
  unfolding preflight_flags_def
  by (auto intro!: keeps_bind keeps_then keeps_when keeps_foldp keeps_forp keeps_preflight_folder
      keeps_guarded_batch keeps_guarded_on_db keeps_update_flags split: prod.split option.split)

section \<open>The flag preflight\<close>

text \<open>The server has reported these flags for the message with this UID of the folder.\<close>

definition reported :: "'r fetcher \<Rightarrow> string \<Rightarrow> int \<Rightarrow> string list \<Rightarrow> bool" where
  "reported F raw uid flags \<longleftrightarrow>
     (\<exists>uids v s refs s'. f_iter_flags F raw uids v s = (Inr refs, s') \<and> (uid, flags) \<in> set refs)"

abbreviation is_flagged :: "string list \<Rightarrow> bool" where
  "is_flagged flags \<equiv> has_imap_flag (Some (flags_text flags)) ([CHR 0x5C] @ ''Flagged'')"

definition flags_reported :: "'r fetcher \<Rightarrow> preflight \<Rightarrow> bool" where
  "flags_reported F p \<longleftrightarrow> (\<forall>((raw, uid), flags)\<in>set (pf_flags p). reported F raw uid flags)"

lemma skip_folder_flags [simp]: "flags_reported F (skip_folder reason cs p) = flags_reported F p"
  by (simp add: flags_reported_def skip_folder_def)

lemma preflight_folder_reported:
  assumes "preflight_folder F items p raw w = (Inr p', w')" and "flags_reported F p"
  shows "flags_reported F p'"
proof -
  let ?cs = "filter (\<lambda>c. dc_folder_raw_name c = raw) items"
  have new: "flags_reported F (p\<lparr>pf_flags := rev (map (\<lambda>r. ((raw, fst r), snd r))
      (filter sel refs)) @ pf_flags p\<rparr>)"
    if "f_iter_flags F raw (map dc_uid ?cs) (dc_uidvalidity (hd ?cs)) s = (Inr refs, s')" for s refs s' sel
    using that assms(2) by (auto simp: flags_reported_def reported_def) blast
  from assms show ?thesis
    unfolding preflight_folder_def Let_def
    by (auto simp: run_catch run_bind on_remote_def new split: if_splits prod.splits sum.splits)
qed

lemma preflight_reported:
  assumes "foldp (preflight_folder F items) p raws w = (Inr p', w')" and "flags_reported F p"
  shows "flags_reported F p'"
proof -
  have "hoare (\<lambda>_. flags_reported F p) (foldp (preflight_folder F items) p raws)
      (\<lambda>q _. flags_reported F q) (\<lambda>_ _. True)"
    by (rule hoare_foldp [where I = "\<lambda>q _. flags_reported F q"])
      (rule hoareI, auto intro: preflight_folder_reported)
  from hoareD_ok [OF this assms(2,1)] show ?thesis .
qed

text \<open>The candidates that are kept are reported and not flagged, and every other one is skipped.\<close>

lemma preflight_pick_all:
  assumes "flags_reported F p"
    and "foldl (preflight_pick p) (keep0, updates0, res0) items = (keep, updates, res)"
  shows "(\<forall>c\<in>set keep - set keep0. c \<in> set items \<and>
      (\<exists>flags. reported F (dc_folder_raw_name c) (dc_uid c) flags \<and> \<not> is_flagged flags)) \<and>
    mset (map dc_message_id keep) + mset (del_skipped res) =
      mset (map dc_message_id keep0) + mset (del_skipped res0) + mset (map dc_message_id items) \<and>
    del_completed res = del_completed res0 \<and> del_uncertain res = del_uncertain res0 \<and>
    del_total_size res = del_total_size res0"
  using assms(2)
proof (induction items arbitrary: keep0 updates0 res0)
  case (Cons c cs)
  obtain k u r where step: "preflight_pick p (keep0, updates0, res0) c = (k, u, r)" by (cases "preflight_pick p (keep0, updates0, res0) c")
  note IH = Cons.IH [of k u r] and run = Cons.prems
  have fl: "reported F (dc_folder_raw_name c) (dc_uid c) flags" if "preflight_verdict p c = Inr flags" for flags
    using that assms(1) by (auto simp: preflight_verdict_def flags_reported_def split: option.splits dest!: map_of_SomeD)
  have one: "(k = keep0 \<and> del_skipped r = del_skipped res0 @ [dc_message_id c] \<or>
      k = keep0 @ [c] \<and> del_skipped r = del_skipped res0 \<and>
      (\<exists>flags. reported F (dc_folder_raw_name c) (dc_uid c) flags \<and> \<not> is_flagged flags)) \<and>
    del_completed r = del_completed res0 \<and> del_uncertain r = del_uncertain res0 \<and>
    del_total_size r = del_total_size res0"
    using step fl by (auto simp: preflight_pick_def skip_message_def split: sum.splits if_splits)
  from IH run step one show ?case by (auto simp: union_ac)
qed simp

definition spared :: "'r fetcher \<Rightarrow> string \<Rightarrow> int \<Rightarrow> bool" where
  "spared F raw uid \<longleftrightarrow> (\<exists>flags. reported F raw uid flags \<and> \<not> is_flagged flags)"

lemma preflight_flags_ok:
  assumes "preflight_flags E F items res w = (Inr (keep, res'), w')"
  shows "(\<forall>c\<in>set keep. c \<in> set items \<and> spared F (dc_folder_raw_name c) (dc_uid c)) \<and>
    mset (map dc_message_id keep) + mset (del_skipped res') =
      mset (del_skipped res) + mset (map dc_message_id items) \<and>
    del_completed res' = del_completed res \<and> del_uncertain res' = del_uncertain res"
proof -
  from assms obtain p w1 where p: "foldp (preflight_folder F items) \<lparr>pf_skips = [], pf_flags = []\<rparr> (group_folders items) w = (Inr p, w1)"
    and rest: "(case foldl (preflight_pick p) ([], [], res) items of (keep, updates, res') \<Rightarrow>
      thenp (whenp (updates \<noteq> [])
        (thenp begin_batch
        (thenp (forp (\<lambda>(c, text). case dc_folder_id c of
            None \<Rightarrow> ret ()
          | Some f \<Rightarrow> on_db (update_flags (dc_account_id c) f (dc_uidvalidity c) (dc_uid c) (Some text) (now E))) updates)
          commit_batch)))
      (ret (keep, res'))) w1 = (Inr (keep, res'), w')"
    unfolding preflight_flags_def by (rule bind_okE)
  have "flags_reported F p"
    by (rule preflight_reported [OF p]) (simp add: flags_reported_def)
  moreover obtain updates where "foldl (preflight_pick p) ([], [], res) items = (keep, updates, res')"
    using rest by (auto split: prod.splits elim!: then_okE)
  ultimately show ?thesis
    using preflight_pick_all [of F p "[]" "[]" res items keep updates res'] by (auto simp: spared_def)
qed

text \<open>The plan after the preflight, or the plan itself when there is none.\<close>

definition planned_items ::
  "env \<Rightarrow> 'r fetcher \<Rightarrow> delete_candidate list \<Rightarrow> bool \<Rightarrow> ('r world, delete_candidate list \<times> delete_result) prog" where
  "planned_items E F items ef = (if ef \<and> items \<noteq> [] then preflight_flags E F items empty_delete_result
     else ret (items, empty_delete_result))"

lemma execute_alt:
  "execute E F load st items mode limit ef = bindp (execute_guards F st items mode limit ef) (\<lambda>R.
     bindp (planned_items E F items ef) (\<lambda>(keep, res). execute_items E F load R keep res))"
  by (simp add: execute_def planned_items_def)

lemma planned_items_ok:
  assumes "planned_items E F items ef w = (Inr (keep, res), w')"
  shows "(\<forall>c\<in>set keep. c \<in> set items \<and> (ef \<longrightarrow> spared F (dc_folder_raw_name c) (dc_uid c))) \<and>
    mset (map dc_message_id keep) + mset (del_skipped res) = mset (map dc_message_id items) \<and>
    del_completed res = [] \<and> del_uncertain res = []"
proof (cases "ef \<and> items \<noteq> []")
  case True
  with assms preflight_flags_ok [of E F items empty_delete_result w keep res w'] show ?thesis
    by (simp add: planned_items_def empty_delete_result_def)
next
  case False
  with assms show ?thesis by (auto simp: planned_items_def empty_delete_result_def)
qed

lemma execute_guard:
  assumes guard: "delete_guard E extra w"
    and extra: "\<And>call c p. p \<in> set items \<Longrightarrow> (ef \<longrightarrow> spared F (dc_folder_raw_name p) (dc_uid p)) \<Longrightarrow>
      call_mode call = mode \<Longrightarrow> call_expected call = (if ef then Some (dc_uidvalidity c) else None) \<Longrightarrow>
      \<not> plan_is_stale p c \<Longrightarrow> extra call c"
  shows "delete_guard E extra (snd (execute E F load st items mode limit ef w))"
proof -
  have pl: "keeps (delete_guard E extra) (planned_items E F items ef)"
    by (simp add: planned_items_def keeps_preflight_flags)
  have tail: "delete_guard E extra (snd (bindp (planned_items E F items ef)
      (\<lambda>(keep, res). execute_items E F load R keep res) w1))"
    if g1: "delete_guard E extra w1" and R: "run_mode R = mode" "run_exclude_flagged R = ef" "mode \<in> delete_modes" for R w1
  proof (cases "planned_items E F items ef w1")
    case (Pair x w2)
    have g2: "delete_guard E extra w2" using keepsD [OF pl g1 Pair] .
    show ?thesis
    proof (cases x)
      case Inl
      with Pair g2 show ?thesis by simp
    next
      case (Inr kr)
      obtain keep res where kr: "kr = (keep, res)" by (cases kr)
      with Pair Inr have ok: "planned_items E F items ef w1 = (Inr (keep, res), w2)" by simp
      have "delete_guard E extra (snd (execute_items E F load R keep res w2))"
        using R planned_items_ok [OF ok] by (intro execute_items_guard [OF g2]) (auto simp: run_call_def intro: extra)
      with Pair Inr kr show ?thesis by simp
    qed
  qed
  show ?thesis
  proof (cases "execute_guards F st items mode limit ef w")
    case (Pair x w1)
    have g1: "delete_guard E extra w1" using keepsD [OF keeps_execute_guards guard Pair] .
    show ?thesis
    proof (cases x)
      case Inl
      with Pair g1 show ?thesis by (simp add: execute_alt)
    next
      case (Inr R)
      with Pair execute_guards_ok [of F st items mode limit ef w R w1] tail [OF g1, of R] show ?thesis
        by (simp add: execute_alt)
    qed
  qed
qed

section \<open>Safety of a deletion\<close>

text \<open>
  C2. Nothing is deleted from the server that is not safely stored. Whatever plan is executed, in
  whatever mode, and whatever errors the server, the manifest or the database raise on the way, every
  call that removes a message from the server happens when the intent to do so is already durable in
  the manifest, when the database locates the message at exactly this folder and UID, and when the EML
  of this message is readable, has its recorded digest and has its parsed contents stored. The call
  belongs to an item of the plan that is still current, in the requested mode; no local file is
  unlinked; and with the storage detached the run fails and changes nothing.
\<close>

theorem remote_delete_needs_intent_and_copy:
  assumes "manifest_inv E (w_man w)" and "db_inv (w_db w)" and "w_history w = []"
    and "execute E F load st items mode limit ef w = (r, w')"
  shows "(\<forall>(e, s)\<in>set (w_history w'). delete_allowed E
            (\<lambda>call c. call_mode call = mode \<and> (\<exists>p\<in>set items. \<not> plan_is_stale p c)) e s) \<and>
         (is_remote_delete_allowed st \<or> w' = w \<and> (\<exists>e. r = Inl e))"
proof -
  have "delete_guard E (\<lambda>call c. call_mode call = mode \<and> (\<exists>p\<in>set items. \<not> plan_is_stale p c))
      (snd (execute E F load st items mode limit ef w))"
    by (rule execute_guard) (use assms(1-3) in \<open>auto simp: guarded_def\<close>)
  moreover have "w' = w \<and> (\<exists>e. r = Inl e)" if "\<not> is_remote_delete_allowed st"
    using that assms(4) execute_guards_detached [OF that, of F items mode limit ef w]
    by (cases "execute_guards F st items mode limit ef w") (auto simp: execute_alt)
  ultimately show ?thesis using assms(4) by (auto simp: guarded_def)
qed

definition sample_fetcher :: "unit fetcher" where
  "sample_fetcher = \<lparr>f_supports_uid_expunge = ret True, f_find_trash_folder = ret (Some ''Trash''),
     f_select_folder = (\<lambda>_. ret 7), f_iter_flags = (\<lambda>_ uids _. ret (map (\<lambda>u. (u, [])) uids)),
     f_move_to_trash = (\<lambda>_ _ _. ret (Some (7, 50))), f_expunge = (\<lambda>_ _ _. ret ()),
     f_remove_membership = (\<lambda>_ _ _. ret ()), f_list_existing_uids = (\<lambda>_. ret [])\<rparr>"

definition sample_delete_db :: db where
  "sample_delete_db = sample_db\<lparr>messages := [(sample_message 1 ''k1'' Active)\<lparr>msg_file_hash := Some (replicate 64 (CHR ''a''))\<rparr>],
     message_folders := [sample_membership 1 1 5], message_contents := [(1, sample_contents)], aliases := []\<rparr>"

definition sample_delete_world :: "unit world" where
  "sample_delete_world = \<lparr>w_db = sample_delete_db, w_batch = None,
     w_fs = \<lparr>fs_root = [''data''], fs_files = [([''eml'', ''acc'', ''m.eml''], ''raw'')]\<rparr>,
     w_man = empty_manifest ''acc'', w_remote = (), w_history = []\<rparr>"

definition sample_candidate :: delete_candidate where
  "sample_candidate = \<lparr>dc_message_id = 1, dc_account_id = ''acc'', dc_folder_raw_name = ''INBOX'', dc_uid = 5,
     dc_uidvalidity = 7, dc_subject = [], dc_date_sent = None, dc_internal_date = None, dc_size_bytes = 3,
     dc_relative_path = ''eml/acc/m.eml'', dc_file_hash = replicate 64 (CHR ''a''),
     dc_message_id_header = None, dc_folder_id = Some 1\<rparr>"

lemma sample_delete_db_inv: "db_inv sample_delete_db"
  by (simp add: db_inv_def table_inv_defs exists_defs uniq_def uniq_some_def differ_def uid_key_def
      sample_delete_db_def sample_db_defs)

lemma sample_delete_start:
  "manifest_inv hash_env (w_man sample_delete_world)" "db_inv (w_db sample_delete_world)"
  "w_history sample_delete_world = []"
  using sample_delete_db_inv by (simp_all add: sample_delete_world_def)

abbreviation sample_execute :: "string \<Rightarrow> bool \<Rightarrow> (error + delete_result) \<times> unit world" where
  "sample_execute mode ef \<equiv>
     execute hash_env sample_fetcher (\<lambda>_. None) ATTACHED [sample_candidate] mode 10 ef sample_delete_world"

lemma sample_execute_history:
  "map fst (w_history (snd (sample_execute ''trash'' True))) = [Remote (MoveToTrash ''INBOX'' 5 (Some 7))]"
  by code_simp

theorem remote_delete_needs_intent_and_copy_witness:
  "map fst (w_history (snd (sample_execute ''trash'' True))) = [Remote (MoveToTrash ''INBOX'' 5 (Some 7))] \<and>
   delete_allowed hash_env
     (\<lambda>call c. call_mode call = ''trash'' \<and> (\<exists>p\<in>set [sample_candidate]. \<not> plan_is_stale p c))
     (Remote (MoveToTrash ''INBOX'' 5 (Some 7))) (snd (hd (w_history (snd (sample_execute ''trash'' True)))))"
proof -
  obtain s where s: "w_history (snd (sample_execute ''trash'' True)) = [(Remote (MoveToTrash ''INBOX'' 5 (Some 7)), s)]"
    using sample_execute_history by (cases "w_history (snd (sample_execute ''trash'' True))") auto
  from remote_delete_needs_intent_and_copy [OF sample_delete_start, of sample_fetcher "\<lambda>_. None" ATTACHED
      "[sample_candidate]" "''trash''" 10 True "fst (sample_execute ''trash'' True)" "snd (sample_execute ''trash'' True)"]
    s sample_execute_history
  show ?thesis by simp
qed



section \<open>Accounting\<close>

abbreviation accounted :: "delete_result \<Rightarrow> int multiset" where
  "accounted res \<equiv> mset (del_completed res) + mset (del_uncertain res) + mset (del_skipped res)"

lemma accounted_skip [simp]: "accounted (skip_message i reason res) = add_mset i (accounted res)"
  by (simp add: skip_message_def)

lemma after_call_accounts:
  assumes "after_call E load R c m (res, inval) outcome w = (Inr (res', inval'), w')"
  shows "accounted res' = add_mset (dc_message_id c) (accounted res)"
  using assms by (cases outcome) (auto simp: after_call_def elim!: then_okE)

lemma candidate_message_id:
  "candidate_from_record E r f ef rp w = (Inr (Inr c), w') \<Longrightarrow> dc_message_id c = msg_id (rec_row r)"
  by (erule candidate_from_record_ok, erule check_candidate_ok) (simp add: finish_candidate_ok)

lemma execute_step_accounts:
  assumes "execute_step E F load R acc planned w = (Inr acc', w')"
  shows "accounted (fst acc') = add_mset (dc_message_id planned) (accounted (fst acc))"
proof -
  obtain res inval where acc: "acc = (res, inval)" by (cases acc)
  obtain res' inval' where acc': "acc' = (res', inval')" by (cases acc')
  show ?thesis
  proof (cases "dc_folder_raw_name planned \<in> set inval")
    case True
    with assms acc acc' show ?thesis by (auto simp: execute_step_def)
  next
    case False
    show ?thesis
    proof (cases "find_message (w_db w) (dc_message_id planned)")
      case None
      with False assms acc acc' show ?thesis by (auto simp: execute_step_def run_get_message run_bind)
    next
      case (Some m)
      let ?r = "message_record_of (w_db w) m"
      from False Some assms acc obtain verified w1 where
        v: "candidate_from_record E ?r (dc_folder_id planned) False False w = (Inr verified, w1)"
        by (auto simp: execute_step_def run_get_message run_bind split: prod.splits sum.splits)
      show ?thesis
      proof (cases verified)
        case (Inl reason)
        with False Some v assms acc acc' show ?thesis by (auto simp: execute_step_def run_get_message run_bind)
      next
        case (Inr c)
        have id: "dc_message_id c = dc_message_id planned"
          using candidate_message_id [of E ?r] v Inr find_message_in [OF Some] by simp
        from False Some v Inr assms acc acc' show ?thesis
          by (auto simp: execute_step_def run_get_message run_bind id split: if_splits
              elim!: then_okE bind_okE dest!: after_call_accounts)
      qed
    qed
  qed
qed

lemma execute_items_account:
  assumes "foldp (execute_step E F load R) acc items w = (Inr acc', w')"
  shows "accounted (fst acc') = accounted (fst acc) + mset (map dc_message_id items)"
  using assms
proof (induction items arbitrary: acc w)
  case (Cons c cs)
  from Cons.prems obtain a1 w1 where "execute_step E F load R acc c w = (Inr a1, w1)"
    and "foldp (execute_step E F load R) a1 cs w1 = (Inr acc', w')"
    by (auto elim!: bind_okE)
  with execute_step_accounts [OF this(1)] Cons.IH [OF this(2)] show ?case by (simp add: union_ac)
qed simp

text \<open>
  A run that returns accounts for every item of the plan exactly once: each message of the plan is
  in one of the three lists of the result, completed, uncertain or skipped, as often as the plan has it
  and no other message is.
\<close>

lemma execute_accounts_for_every_item:
  assumes "execute E F load st items mode limit ef w = (Inr res, w')"
  shows "mset (del_completed res @ del_uncertain res @ del_skipped res) = mset (map dc_message_id items)"
proof -
  from assms obtain R w1 keep res0 w2 where
    pl: "planned_items E F items ef w1 = (Inr (keep, res0), w2)"
    and run: "execute_items E F load R keep res0 w2 = (Inr res, w')"
    by (auto simp: execute_alt elim!: bind_okE)
  from run obtain acc where "foldp (execute_step E F load R) (res0, []) keep w2 = (Inr acc, w')" "res = fst acc"
    by (auto simp: execute_items_def elim!: bind_okE)
  from execute_items_account [OF this(1)] this(2) planned_items_ok [OF pl]
  show ?thesis by (simp add: union_ac)
qed

lemma execute_accounts_for_every_item_witness:
  "\<exists>res. fst (sample_execute ''trash'' True) = Inr res \<and> del_completed res = [1] \<and>
     mset (del_completed res @ del_uncertain res @ del_skipped res) = {#1#}"
proof -
  have "fst (sample_execute ''trash'' True) =
    Inr \<lparr>del_completed = [1], del_uncertain = [], del_skipped = [], del_errors = [], del_total_size = 3\<rparr>"
    by code_simp
  moreover from this have "sample_execute ''trash'' True = (Inr \<lparr>del_completed = [1], del_uncertain = [],
      del_skipped = [], del_errors = [], del_total_size = 3\<rparr>, snd (sample_execute ''trash'' True))"
    by (metis prod.collapse)
  from execute_accounts_for_every_item [OF this] have "mset ([1] @ [] @ []) = mset (map dc_message_id [sample_candidate])"
    by simp
  ultimately show ?thesis by (simp add: sample_candidate_def)
qed

section \<open>Removal of Gmail labels\<close>

abbreviation same_history :: "(effect \<times> snapshot) list \<Rightarrow> 'r world \<Rightarrow> bool" where
  "same_history h \<equiv> \<lambda>w. w_history w = h"

lemma keeps_history [simp]:
  "keeps (same_history h) (on_db m)" "keeps (same_history h) (on_remote p)"
  "keeps (same_history h) begin_batch" "keeps (same_history h) commit_batch"
  "keeps (same_history h) (man_append E ev)" "keeps (same_history h) man_sync"
  by (auto simp: keeps_def on_db_def on_remote_def begin_batch_def commit_batch_def man_append_def
      man_sync_def split: prod.split)

lemma journal_remove_membership:
  assumes "name \<in> {''remote_delete_intent'', ''remote_delete_completed'', ''remote_delete_uncertain''}"
  shows "\<exists>e. journal E (delete_event name c ''remove_membership'' t) w = (Inl e, w)"
proof -
  let ?ev = "delete_event name c ''remove_membership'' t"
  have "validate_event E ?ev \<noteq> Inr ()"
    using validate_remote_delete_mode [of E ?ev] assms by (auto simp: delete_event_def)
  then obtain e where "validate_event E ?ev = Inl e" by (cases "validate_event E ?ev") auto
  then show ?thesis by (simp add: journal_def run_then man_append_def append_event_def)
qed

lemma execute_step_remove_membership:
  assumes "run_mode R = ''remove_membership''"
  shows "w_history (snd (execute_step E F load R acc planned w)) = w_history w \<and>
    (case fst (execute_step E F load R acc planned w) of Inl _ \<Rightarrow> True
     | Inr acc' \<Rightarrow> del_completed (fst acc') = del_completed (fst acc) \<and>
         del_uncertain (fst acc') = del_uncertain (fst acc))"
proof -
  have cand: "\<exists>x. candidate_from_record E r f ef rp w = (x, w)" for r f ef rp
    using candidate_from_record_state [of E r f ef rp w] by (metis prod.collapse)
  have jr: "\<exists>e. thenp (journal E (delete_event ''remote_delete_intent'' c ''remove_membership'' t)) k w = (Inl e, w)"
    for c t and k :: "('a world, delete_result \<times> string list) prog"
    using journal_remove_membership [of "''remote_delete_intent''" E c t w] by auto
  show ?thesis
  proof (cases "find_message (w_db w) (dc_message_id planned)")
    case None
    then show ?thesis by (auto simp: execute_step_def run_get_message run_bind skip_message_def split: prod.split)
  next
    case (Some m)
    obtain x where "candidate_from_record E (message_record_of (w_db w) m) (dc_folder_id planned) False False w = (x, w)"
      using cand by blast
    moreover obtain e where "thenp (journal E (delete_event ''remote_delete_intent'' (projr (projr x)) ''remove_membership'' (now E)))
        (bindp (attempt_remote_delete F ''remove_membership'' (run_exclude_flagged R) (projr (projr x)))
           (after_call E load R (projr (projr x)) m acc)) w = (Inl e, w)"
      using jr by blast
    ultimately show ?thesis
      using Some assms by (auto simp: execute_step_def run_get_message run_bind skip_message_def split: prod.split sum.splits)
  qed
qed

lemma keeps_preflight_history: "keeps (same_history h) (planned_items E F items ef)"
  unfolding planned_items_def preflight_flags_def preflight_folder_def Let_def
  by (auto intro!: keeps_bind keeps_then keeps_when keeps_foldp keeps_forp keeps_catch split: prod.split option.split)

lemma keeps_guards_history: "keeps (same_history h) (execute_guards F st items mode limit ef)"
  unfolding execute_guards_def Let_def
  by (intro keeps_then keeps_bind keeps_if keeps_forp keeps_history keeps_ret keeps_raise)

lemma execute_items_remove_membership:
  assumes "run_mode R = ''remove_membership''"
  shows "w_history (snd (foldp (execute_step E F load R) acc items w)) = w_history w \<and>
    (case fst (foldp (execute_step E F load R) acc items w) of Inl _ \<Rightarrow> True
     | Inr acc' \<Rightarrow> del_completed (fst acc') = del_completed (fst acc) \<and>
         del_uncertain (fst acc') = del_uncertain (fst acc))"
proof (induction items arbitrary: acc w)
  case (Cons c cs)
  obtain x w1 where step: "execute_step E F load R acc c w = (x, w1)" by (cases "execute_step E F load R acc c w")
  note one = execute_step_remove_membership [OF assms, of E F load acc c w]
  show ?case
  proof (cases x)
    case Inl
    with step one show ?thesis by simp
  next
    case (Inr a)
    with step one Cons.IH [of a w1] show ?thesis by (auto split: sum.splits)
  qed
qed simp

text \<open>
  The removal of a Gmail label is offered as a mode of the deletion, but it cannot be carried out:
  the manifest accepts the intent of a deletion only in the modes \<^verbatim>\<open>trash\<close> and \<^verbatim>\<open>expunge\<close>. A run in the mode
  \<^verbatim>\<open>remove_membership\<close> never makes a call that changes the server, and if it returns at all, every item
  was skipped.
\<close>

lemma remove_membership_never_reaches_the_server:
  "w_history (snd (execute E F load st items ''remove_membership'' limit ef w)) = w_history w \<and>
   (case fst (execute E F load st items ''remove_membership'' limit ef w) of
      Inl _ \<Rightarrow> True
    | Inr res \<Rightarrow> del_completed res = [] \<and> del_uncertain res = [])"
proof -
  let ?run = "execute E F load st items ''remove_membership'' limit ef w"
  obtain x w1 where g: "execute_guards F st items ''remove_membership'' limit ef w = (x, w1)"
    by (cases "execute_guards F st items ''remove_membership'' limit ef w")
  have h1: "w_history w1 = w_history w" using keepsD [OF keeps_guards_history refl g] .
  show ?thesis
  proof (cases x)
    case Inl
    with g h1 show ?thesis by (simp add: execute_alt)
  next
    case (Inr R)
    have mode: "run_mode R = ''remove_membership''" using execute_guards_ok g Inr by blast
    obtain y w2 where p: "planned_items E F items ef w1 = (y, w2)" by (cases "planned_items E F items ef w1")
    have h2: "w_history w2 = w_history w" using keepsD [OF keeps_preflight_history h1 p] .
    show ?thesis
    proof (cases y)
      case Inl
      with g Inr p h2 show ?thesis by (simp add: execute_alt)
    next
      case (Inr kr)
      obtain keep res where kr: "kr = (keep, res)" by (cases kr)
      have res: "del_completed res = [] \<and> del_uncertain res = []"
        using planned_items_ok [of E F items ef w1 keep res w2] p Inr kr by simp
      obtain z w3 where z: "foldp (execute_step E F load R) (res, []) keep w2 = (z, w3)"
        by (cases "foldp (execute_step E F load R) (res, []) keep w2")
      have run: "?run = bindp (foldp (execute_step E F load R) (res, []) keep) (\<lambda>acc. ret (fst acc)) w2"
        using g \<open>x = Inr R\<close> p Inr kr by (simp add: execute_alt execute_items_def)
      from execute_items_remove_membership [OF mode, of E F load "(res, [])" keep w2] z h2 res
      show ?thesis unfolding run by (cases z) auto
    qed
  qed
qed

text \<open>On a Gmail account the run stops with the error of the manifest.\<close>

lemma sample_remove_membership_fails:
  "fst (execute hash_env sample_fetcher (\<lambda>_. None) ATTACHED [sample_candidate] ''remove_membership'' 10 False
     (sample_delete_world\<lparr>w_db := sample_delete_db\<lparr>accounts := [sample_account\<lparr>acc_oauth_provider := Some ''google''\<rparr>]\<rparr>\<rparr>)) =
   Inl (ValueError ''event mode must be 'trash' or 'expunge' '')"
  by code_simp

end
