(* ===== verification/Delete_Plan.thy ===== *)
theory Delete_Plan
  imports Delete_Remote_Props
begin

text \<open>
  Planning and settling of remote deletions: what a dry run proposes, how a list-wide scope is cut to
  its limit, and how reconciliation settles the operations whose outcome is unknown.
\<close>

section \<open>Dry run\<close>

lemma dry_run_step_ok:
  assumes "dry_run_step E f ef scope acc (i, rec) w = (Inr acc', w')" and "db_inv (w_db w)"
    and "rec = map_option (message_record_of (w_db w)) (find_message (w_db w) i)"
  shows "w' = w \<and>
    (\<exists>c. acc' = (fst acc @ [c], snd acc) \<and> dc_message_id c = i \<and> candidate_backed E (w_db w) (w_fs w) c \<and>
       candidate_located (w_db w) c \<or>
     (\<exists>x. acc' = (fst acc, snd acc @ [x]) \<and> ex_message_id x = i))"
proof -
  obtain cs es where acc: "acc = (cs, es)" by (cases acc)
  have cand: "\<exists>x. candidate_from_record E r f ef rp w = (x, w)" for r rp
    using candidate_from_record_state [of E r f ef rp w] by (metis prod.collapse)
  show ?thesis
  proof (cases "fixed_exclusion scope i \<noteq> None \<or> \<not> opt_all (\<lambda>s. i \<in> set (sc_message_ids s)) scope \<or> rec = None")
    case True
    with assms(1) acc show ?thesis
      by (auto simp: dry_run_step_def exclusion_def split: option.splits if_splits)
  next
    case False
    then obtain m where m: "find_message (w_db w) i = Some m" and rec: "rec = Some (message_record_of (w_db w) m)"
      using assms(3) by auto
    obtain x where x: "candidate_from_record E (message_record_of (w_db w) m) f ef (scope \<noteq> None) w = (x, w)"
      using cand by blast
    from False rec x assms(1) acc obtain y where y: "x = Inr y" and w: "w' = w"
      and acc': "acc' = (case y of Inl reason \<Rightarrow> (cs, es @ [exclusion i reason rec]) | Inr c \<Rightarrow> (cs @ [c], es))"
      by (cases x) (auto simp: dry_run_step_def run_bind split: sum.splits option.splits)
    show ?thesis
    proof (cases y)
      case Inl
      with acc acc' w show ?thesis by (auto simp: exclusion_def)
    next
      case (Inr c)
      with x y have "candidate_from_record E (message_record_of (w_db w) m) f ef (scope \<noteq> None) w = (Inr (Inr c), w)"
        by simp
      from candidate_facts [OF this assms(2)] find_message_in [OF m] Inr acc acc' w show ?thesis by auto
    qed
  qed
qed

lemma dry_run_steps_ok:
  assumes "foldp (dry_run_step E f ef scope) acc (map (\<lambda>i. (i, map_option (message_record_of (w_db w)) (find_message (w_db w) i))) ids) w = (Inr acc', w')"
    and "db_inv (w_db w)"
  shows "w' = w \<and> mset (map dc_message_id (fst acc')) + mset (map ex_message_id (snd acc')) =
      mset (map dc_message_id (fst acc)) + mset (map ex_message_id (snd acc)) + mset ids \<and>
    (\<forall>c\<in>set (fst acc') - set (fst acc). candidate_backed E (w_db w) (w_fs w) c \<and> candidate_located (w_db w) c)"
  using assms(1)
proof (induction ids arbitrary: acc)
  case (Cons i ids)
  let ?rec = "map_option (message_record_of (w_db w)) (find_message (w_db w) i)"
  from Cons.prems obtain a1 w1 where s: "dry_run_step E f ef scope acc (i, ?rec) w = (Inr a1, w1)"
    and rest: "foldp (dry_run_step E f ef scope) a1 (map (\<lambda>i. (i, map_option (message_record_of (w_db w)) (find_message (w_db w) i))) ids) w1 = (Inr acc', w')"
    by (auto elim!: bind_okE)
  note one = dry_run_step_ok [OF s assms(2) refl]
  then have w1: "w1 = w" ..
  note IH = Cons.IH [OF rest [unfolded w1]]
  from one show ?case
  proof (elim conjE exE disjE)
    fix c
    assume "a1 = (fst acc @ [c], snd acc)" "dc_message_id c = i" "candidate_backed E (w_db w) (w_fs w) c"
      "candidate_located (w_db w) c"
    with IH show ?thesis by (auto simp: union_ac)
  next
    fix c x
    assume "a1 = (fst acc, snd acc @ [x])" "ex_message_id x = i"
    with IH show ?thesis by (auto simp: union_ac)
  qed
qed simp

text \<open>
  C32. A dry run changes nothing and decides every requested message exactly once, as a candidate or as
  an exclusion. Every candidate it proposes is located by the database on the server and backed by a
  verified local copy, and the size it announces is the total of the candidates. With the storage
  detached there is no dry run.
\<close>

theorem dry_run_proposes_only_verified:
  assumes "dry_run E st ids f ef scope w = (Inr res, w')" and "db_inv (w_db w)"
  shows "w' = w \<and> is_remote_delete_allowed st \<and>
    mset (map dc_message_id (dr_candidates res) @ map ex_message_id (dr_exclusions res)) = mset ids \<and>
    (\<forall>c\<in>set (dr_candidates res). candidate_backed E (w_db w) (w_fs w) c \<and> candidate_located (w_db w) c) \<and>
    dr_total_size res = sum_list (map dc_size_bytes (dr_candidates res))"
proof -
  let ?recs = "map (\<lambda>i. map_option (message_record_of (w_db w)) (find_message (w_db w) i)) ids"
  let ?ensure = "forp (\<lambda>r. case r of None \<Rightarrow> ret () | Some x \<Rightarrow> on_db (ensure_imap_message x)) ?recs"
  have "keeps (\<lambda>v. v = w) ?ensure"
    by (intro keeps_forp) (auto simp: keeps_def on_db_reads split: option.split)
  then have ens: "snd (?ensure w) = w" by (simp add: keeps_def)
  have z: "zip ids ?recs = map (\<lambda>i. (i, map_option (message_record_of (w_db w)) (find_message (w_db w) i))) ids"
    by (induction ids) auto
  from assms(1) obtain u w1 where "?ensure w = (Inr u, w1)"
    and k: "(if \<not> is_remote_delete_allowed st then raise StorageDetachedError
       else bindp (foldp (dry_run_step E f ef scope) ([], []) (zip ids ?recs))
         (\<lambda>(candidates, exclusions). ret
           \<lparr>dr_candidates = candidates, dr_exclusions = exclusions,
            dr_total_size = sum_list (map dc_size_bytes candidates),
            dr_exclude_flagged = ef, dr_scope = scope\<rparr>)) w1 = (Inr res, w')"
    by (auto simp: dry_run_def elim!: then_okE)
  with ens have "w1 = w" by simp
  with k obtain acc' where run: "foldp (dry_run_step E f ef scope) ([], []) (zip ids ?recs) w = (Inr acc', w')"
    and res: "res = \<lparr>dr_candidates = fst acc', dr_exclusions = snd acc',
      dr_total_size = sum_list (map dc_size_bytes (fst acc')), dr_exclude_flagged = ef, dr_scope = scope\<rparr>"
    and st: "is_remote_delete_allowed st"
    by (auto elim!: bind_okE split: if_splits prod.splits)
  from dry_run_steps_ok [OF run [unfolded z] assms(2)] res st show ?thesis by auto
qed

theorem dry_run_proposes_only_verified_witness:
  "\<exists>res. fst (dry_run hash_env ATTACHED [1, 9] None True None sample_delete_world) = Inr res \<and>
     map dc_message_id (dr_candidates res) = [1] \<and> map ex_message_id (dr_exclusions res) = [9] \<and>
     dr_total_size res = 3 \<and> candidate_backed hash_env sample_delete_db (w_fs sample_delete_world) (hd (dr_candidates res))"
proof -
  let ?run = "dry_run hash_env ATTACHED [1, 9] None True None sample_delete_world"
  obtain res where res: "fst ?run = Inr res" and ids: "map dc_message_id (dr_candidates res) = [1]"
    "map ex_message_id (dr_exclusions res) = [9]" "dr_total_size res = 3"
  proof -
    have "case fst ?run of Inl _ \<Rightarrow> False | Inr res \<Rightarrow> map dc_message_id (dr_candidates res) = [1] \<and>
      map ex_message_id (dr_exclusions res) = [9] \<and> dr_total_size res = 3" by code_simp
    then show thesis using that by (cases "fst ?run") auto
  qed
  then have "?run = (Inr res, snd ?run)" by (metis prod.collapse)
  from dry_run_proposes_only_verified [OF this sample_delete_start(2)]
  have "\<forall>c\<in>set (dr_candidates res). candidate_backed hash_env sample_delete_db (w_fs sample_delete_world) c"
    by (simp add: sample_delete_world_def)
  with res ids show ?thesis by (cases "dr_candidates res") auto
qed

section \<open>Scope selection\<close>

lemma select_delete_scope_parts:
  assumes "select_delete_scope items ef limit = Inr sc"
  shows "0 < limit \<and>
    sc_non_deletable_ids sc = map sm_id (filter (\<lambda>s. sm_remote_state s \<noteq> Some RemotePresent) items) \<and>
    sc_flagged_ids sc = map sm_id (filter (\<lambda>s. sm_id s \<notin> set (sc_non_deletable_ids sc) \<and> ef \<and>
      has_imap_flag (sm_imap_flags s) ([CHR 0x5C] @ ''Flagged'')) items) \<and>
    sc_message_ids sc = map sm_id (take (nat limit) (sort_key delete_scope_sort_key
      (filter (\<lambda>s. sm_id s \<notin> set (sc_non_deletable_ids sc) \<union> set (sc_flagged_ids sc)) items))) \<and>
    sc_matched_count sc = length items \<and> sc_flagged_excluded_count sc = length (sc_flagged_ids sc) \<and>
    sc_truncated sc = (int (length items) - int (length (sc_non_deletable_ids sc)) -
      int (length (sc_flagged_ids sc)) - int (length (sc_message_ids sc)) > 0)"
  using assms by (auto simp: select_delete_scope_def Let_def split: if_splits)

text \<open>The messages a run with this limit may delete: present on the server and, when flagged ones are
  spared, without the flag.\<close>

definition eligible :: "bool \<Rightarrow> message_summary \<Rightarrow> bool" where
  "eligible ef s \<longleftrightarrow> sm_remote_state s = Some RemotePresent \<and>
     \<not> (ef \<and> has_imap_flag (sm_imap_flags s) ([CHR 0x5C] @ ''Flagged''))"

lemma scope_filter:
  assumes "distinct (map sm_id items)" and "x \<in> set items"
  shows "sm_id x \<in> sm_id ` set (filter P items) \<longleftrightarrow> P x"
  using assms by (auto simp: distinct_map inj_on_def)

lemma length_filter_split:
  "length (filter P xs) + length (filter (\<lambda>x. \<not> P x \<and> Q x) xs) + length (filter (\<lambda>x. \<not> P x \<and> \<not> Q x) xs) = length xs"
  by (induction xs) auto

lemma take_sorted_least:
  assumes "x \<in> set (take n (sort_key k xs))" and "y \<in> set xs" and "y \<notin> set (take n (sort_key k xs))"
  shows "k x \<le> k y"
proof -
  let ?s = "sort_key k xs"
  have "y \<in> set (drop n ?s)"
    using assms(2,3) by (metis UnE append_take_drop_id set_append set_sort)
  moreover have "sorted (map k (take n ?s @ drop n ?s))" by simp
  ultimately show ?thesis using assms(1) unfolding map_append sorted_append by auto
qed

lemma take_sorted_cut:
  assumes "distinct xs"
  shows "length (take n (sort_key k xs)) < length xs \<longleftrightarrow> (\<exists>y\<in>set xs. y \<notin> set (take n (sort_key k xs)))"
proof
  assume less: "length (take n (sort_key k xs)) < length xs"
  have "distinct (take n (sort_key k xs))" using assms by simp
  with less assms have "card (set (take n (sort_key k xs))) < card (set xs)" by (simp only: distinct_card)
  then show "\<exists>y\<in>set xs. y \<notin> set (take n (sort_key k xs))" by (meson List.finite_set card_mono leD subsetI)
next
  assume "\<exists>y\<in>set xs. y \<notin> set (take n (sort_key k xs))"
  then have "take n (sort_key k xs) \<noteq> sort_key k xs" by (metis set_sort)
  then show "length (take n (sort_key k xs)) < length xs" by (auto simp: not_less)
qed


definition sample_summary :: "int \<Rightarrow> string option \<Rightarrow> int option \<Rightarrow> message_summary" where
  "sample_summary i flags date = \<lparr>sm_id = i, sm_remote_state = Some RemotePresent, sm_imap_flags = flags,
     sm_date_sent = date, sm_internal_date = None\<rparr>"


section \<open>Reconciliation\<close>

text \<open>The server confirms that the folder has this generation and no message with this UID.\<close>

definition server_gone :: "'r fetcher \<Rightarrow> string \<Rightarrow> int \<Rightarrow> int \<Rightarrow> bool" where
  "server_gone F raw uid uidvalidity \<longleftrightarrow> (\<exists>s s1 s2 uids. f_select_folder F raw s = (Inr uidvalidity, s1) \<and>
     f_list_existing_uids F raw s1 = (Inr uids, s2) \<and> uid \<notin> set uids)"

definition settled :: "'r fetcher \<Rightarrow> event \<Rightarrow> bool" where
  "settled F ev \<longleftrightarrow> (case (jget ev ''folder_raw_name'', jget ev ''uid'', jget ev ''uidvalidity'') of
     (JStr raw, JInt uid, JInt v) \<Rightarrow> server_gone F raw uid v | _ \<Rightarrow> False)"

text \<open>Every deletion the manifest records as completed was recorded before or is settled.\<close>

definition completions_settled :: "'r fetcher \<Rightarrow> event set \<Rightarrow> 'r world \<Rightarrow> bool" where
  "completions_settled F old w \<longleftrightarrow> (\<forall>(_, ev)\<in>set (man_log (w_man w)).
     ev \<in> old \<or> jget ev ''event'' \<noteq> JStr ''remote_delete_completed'' \<or> settled F ev)"

lemma keeps_settled [simp]:
  "keeps (completions_settled F old) (on_db m)" "keeps (completions_settled F old) (on_remote p)"
  "keeps (completions_settled F old) begin_batch" "keeps (completions_settled F old) commit_batch"
  "keeps (completions_settled F old) man_sync"
  by (auto simp: keeps_def completions_settled_def on_db_def on_remote_def begin_batch_def commit_batch_def
      man_sync_def split: prod.split)

lemma keeps_settled_append:
  assumes "jget ev ''event'' \<noteq> JStr ''remote_delete_completed'' \<or> settled F ev"
  shows "keeps (completions_settled F old) (man_append E ev)"
proof -
  have "completions_settled F old (w\<lparr>w_man := m\<rparr>)"
    if "completions_settled F old w" "append_event E ev (w_man w) = (x, m)" for w x m
    using that assms by (cases x) (auto simp: completions_settled_def append_event_ok dest: append_event_err)
  then show ?thesis by (auto simp: keeps_def man_append_def split: prod.split)
qed

lemma confirm_gone_true:
  assumes "confirm_gone F raw uid v w = (Inr True, w')"
  shows "server_gone F raw uid v"
proof -
  from assms obtain s1 s2 uids where "f_select_folder F raw (w_remote w) = (Inr v, s1)"
    "f_list_existing_uids F raw s1 = (Inr uids, s2)" "uid \<notin> set uids"
    by (auto simp: confirm_gone_def run_catch run_bind on_remote_def split: prod.splits sum.splits if_splits)
  then show ?thesis unfolding server_gone_def by blast
qed

text \<open>A sequence in which the second program keeps a predicate only for the values the first returns.\<close>

lemma keeps_snapshot_append: "keeps (completions_settled F old) (bindp (on_db (membership_snapshot_event E load c m)) (man_append E))"
proof -
  have "jget ev ''event'' = JStr ''message_membership_snapshot''"
    if "fst (membership_snapshot_event E load c m d) = Inr ev" for ev d
    using that unfolding membership_snapshot_event_def Let_def
    by (auto simp: run_bind list_folders_def list_message_memberships_def jget_def split: if_splits sum.splits)
  note name = this
  have "keeps (completions_settled F old) (man_append E ev)"
    if "on_db (membership_snapshot_event E load c m) w = (Inr ev, w')" for ev and w w' :: "'a world"
  proof -
    have "fst (membership_snapshot_event E load c m (w_db w)) = Inr ev"
      using that by (auto simp: on_db_def split: prod.splits)
    from name [OF this] show ?thesis by (intro keeps_settled_append) simp
  qed
  then show ?thesis by (rule keeps_bind_post [OF keeps_settled(1)])
qed

lemma keeps_settled_commit: "keeps (completions_settled F old) (commit_completed_state c mode t m plan)"
  unfolding commit_completed_state_def by (auto intro!: keeps_then keeps_bind split: option.split)

lemma keeps_settled_reconcile:
  assumes "server_gone F (dc_folder_raw_name c) (dc_uid c) (dc_uidvalidity c)"
  shows "keeps (completions_settled F old) (reconcile_candidate E load mode c m)"
proof -
  have "settled F (delete_event ''remote_delete_completed'' c mode (now E))"
    using assms by (simp add: settled_def delete_event_def)
  then show ?thesis
    unfolding reconcile_candidate_def
    by (intro keeps_then keeps_settled keeps_settled_commit keeps_when keeps_snapshot_append keeps_settled_append) simp
qed

lemma keeps_settled_operation: "keeps (completions_settled F old) (reconcile_operation E F load a raw uid v mode)"
proof -
  have gone: "keeps (completions_settled F old) (confirm_gone F raw uid v)"
    unfolding confirm_gone_def by (intro keeps_catch keeps_bind keeps_if keeps_settled keeps_ret keeps_raise)
  have cand: "keeps (completions_settled F old) (reconcile_candidate E load mode c m)"
    if "server_gone F raw uid v" "candidate_for_reconciliation m a raw uid v = Some c" for m c
    using that by (intro keeps_settled_reconcile)
      (auto simp: candidate_for_reconciliation_def split: option.splits)
  show ?thesis
    unfolding reconcile_operation_def
    by (rule keeps_bind_post [OF gone])
      (auto intro!: keeps_bind cand dest: confirm_gone_true split: option.split)
qed

lemma keeps_settled_intent: "keeps (completions_settled F old) (reconcile_intent E F load ev)"
  unfolding reconcile_intent_def
  by (auto intro: keeps_settled_operation split: json.split prod.split)

lemma keeps_history_reconcile: "keeps (same_history h) (reconcile_intent E F load ev)"
proof -
  have c: "keeps (same_history h) (reconcile_candidate E load mode c m)" for mode c m
    unfolding reconcile_candidate_def commit_completed_state_def
    by (auto intro!: keeps_then keeps_bind keeps_when split: option.split)
  have g: "keeps (same_history h) (confirm_gone F raw uid v)" for raw uid v
    unfolding confirm_gone_def by (intro keeps_catch keeps_bind keeps_if keeps_history keeps_ret keeps_raise)
  have "keeps (same_history h) (reconcile_operation E F load a raw uid v mode)" for a raw uid v mode
    unfolding reconcile_operation_def by (auto intro!: keeps_bind keeps_if g c split: option.split)
  then show ?thesis
    unfolding reconcile_intent_def by (auto split: json.split prod.split)
qed

text \<open>
  C34. Reconciliation only settles what is known. It never changes the server, it does nothing while the
  storage is detached, and every deletion it newly records as completed in the manifest is one for
  which the server reported the same folder generation and no message with the UID any more.
\<close>

theorem reconcile_settles_only_gone:
  assumes "reconcile_uncertain_deletes E F load st w = (r, w')"
  shows "w_history w' = w_history w \<and>
    completions_settled F (snd ` set (man_log (w_man w))) w' \<and>
    (is_remote_delete_allowed st \<or> w' = w \<and> r = Inl StorageDetachedError)"
proof -
  let ?old = "snd ` set (man_log (w_man w))"
  have hist: "keeps (same_history (w_history w)) (reconcile_uncertain_deletes E F load st)"
    unfolding reconcile_uncertain_deletes_def
    by (intro keeps_if keeps_raise keeps_bind keeps_gets keeps_lift_sum keeps_forp keeps_history_reconcile)
  have sett: "keeps (completions_settled F ?old) (reconcile_uncertain_deletes E F load st)"
    unfolding reconcile_uncertain_deletes_def
    by (intro keeps_if keeps_raise keeps_bind keeps_gets keeps_lift_sum keeps_forp keeps_settled_intent)
  have "completions_settled F ?old w"
    by (force simp: completions_settled_def)
  moreover have "is_remote_delete_allowed st \<or> w' = w \<and> r = Inl StorageDetachedError"
    using assms by (auto simp: reconcile_uncertain_deletes_def)
  ultimately show ?thesis using keepsD [OF hist _ assms] keepsD [OF sett _ assms] by blast
qed

definition sample_uncertain_world :: "unit world" where
  "sample_uncertain_world = sample_delete_world\<lparr>
     w_db := sample_delete_db\<lparr>message_folders := [sample_membership 1 1 5, sample_membership 1 2 6]\<rparr>,
     w_man := \<lparr>man_account = ''acc'', man_log = [(''202601'',
       delete_event ''remote_delete_intent'' sample_candidate ''trash'' (now hash_env))], man_synced = 1, man_seq = None\<rparr>\<rparr>"

theorem reconcile_settles_only_gone_witness:
  "map (\<lambda>r. jget (snd r) ''event'') (man_log (w_man (snd (reconcile_uncertain_deletes hash_env sample_fetcher (\<lambda>_. None)
       ATTACHED sample_uncertain_world)))) = [JStr ''remote_delete_intent'', JStr ''remote_delete_completed''] \<and>
   completions_settled sample_fetcher (snd ` set (man_log (w_man sample_uncertain_world)))
     (snd (reconcile_uncertain_deletes hash_env sample_fetcher (\<lambda>_. None) ATTACHED sample_uncertain_world))"
proof -
  let ?run = "reconcile_uncertain_deletes hash_env sample_fetcher (\<lambda>_. None) ATTACHED sample_uncertain_world"
  have "map (\<lambda>r. jget (snd r) ''event'') (man_log (w_man (snd ?run))) =
      [JStr ''remote_delete_intent'', JStr ''remote_delete_completed'']" by code_simp
  with reconcile_settles_only_gone [of hash_env sample_fetcher "\<lambda>_. None" ATTACHED sample_uncertain_world "fst ?run" "snd ?run"]
  show ?thesis by simp
qed

text \<open>
  Reconciliation forgets the folder of the operation it settles: it looks up the folder id, but the
  candidate it builds does not carry it. When a deletion from one folder is confirmed, every membership
  of the message is marked as deleted from the server, those in folders where the message still is
  included, and a later deletion of these copies is refused as not deletable.
\<close>

lemma reconcile_marks_every_membership:
  assumes "candidate_for_reconciliation row account raw uid v = Some c"
    and "reconcile_candidate E load mode c row w = (Inr u, w')" and "mode \<in> {''trash'', ''expunge''}"
  shows "\<forall>x\<in>set (message_folders (w_db w')). mf_message_id x = msg_id row \<longrightarrow> mf_remote_state x = RemoteDeleted"
proof -
  have c: "dc_folder_id c = None" "dc_message_id c = msg_id row"
    using assms(1) by (auto simp: candidate_for_reconciliation_def split: option.splits)
  from assms(2) obtain w1 where "commit_completed_state c mode (now E) row None w1 = (Inr u, w')"
    by (auto simp: reconcile_candidate_def elim!: then_okE)
  with assms(3) obtain w2 w3 u2 where
    upd: "on_db (update_remote_state (msg_id row) RemoteDeleted None None) w2 = (Inr u2, w3)"
    and rest: "thenp (on_db (record_audit (delete_audit_entry c mode (now E)))) commit_batch w3 = (Inr u, w')"
    using c by (auto simp: commit_completed_state_def elim!: then_okE)
  have "\<forall>x\<in>set (message_folders (w_db w3)). mf_message_id x = msg_id row \<longrightarrow> mf_remote_state x = RemoteDeleted"
    using upd by (auto simp: update_remote_state_def constrained_def on_db_def set_update_where split: if_splits)
  moreover have "message_folders (w_db w') = message_folders (w_db w3)"
    using rest by (auto simp: on_db_def record_audit_def commit_batch_def elim!: then_okE)
  ultimately show ?thesis by simp
qed

lemma reconcile_marks_every_membership_witness:
  "map mf_folder_id (message_folders (w_db sample_uncertain_world)) = [1, 2] \<and>
   map mf_remote_state (message_folders (w_db (snd (reconcile_uncertain_deletes hash_env sample_fetcher (\<lambda>_. None)
     ATTACHED sample_uncertain_world)))) = [RemoteDeleted, RemoteDeleted] \<and>
   list_all (\<lambda>x. mf_remote_state x = RemoteDeleted) (message_folders (w_db (snd (reconcile_candidate hash_env (\<lambda>_. None) ''trash''
     (sample_candidate\<lparr>dc_folder_id := None\<rparr>) (hd (messages sample_delete_db)) sample_uncertain_world))))"
proof -
  let ?run = "reconcile_candidate hash_env (\<lambda>_. None) ''trash''
     (sample_candidate\<lparr>dc_folder_id := None\<rparr>) (hd (messages sample_delete_db)) sample_uncertain_world"
  have c: "candidate_for_reconciliation (hd (messages sample_delete_db)) ''acc'' ''INBOX'' 5 7 =
      Some (sample_candidate\<lparr>dc_folder_id := None\<rparr>)" by code_simp
  have ok: "fst ?run = Inr ()" by code_simp
  then have run: "?run = (Inr (), snd ?run)" by (metis prod.collapse)
  have ids: "list_all (\<lambda>x. mf_message_id x = msg_id (hd (messages sample_delete_db))) (message_folders (w_db (snd ?run)))"
    by code_simp
  have "list_all (\<lambda>x. mf_remote_state x = RemoteDeleted) (message_folders (w_db (snd ?run)))"
    using reconcile_marks_every_membership [OF c run] ids by (auto simp: list_all_iff)
  moreover have "map mf_folder_id (message_folders (w_db sample_uncertain_world)) = [1, 2]" by code_simp
  moreover have "map mf_remote_state (message_folders (w_db (snd (reconcile_uncertain_deletes hash_env sample_fetcher (\<lambda>_. None)
     ATTACHED sample_uncertain_world)))) = [RemoteDeleted, RemoteDeleted]" by code_simp
  ultimately show ?thesis by blast
qed

end
