(* ===== verification/Retry.thy ===== *)
theory Retry
  imports Mail_Prelude
begin

text \<open>
  The retry policy of the use cases (\<^verbatim>\<open>usecases/retry.py\<close>). The operation and the wait are programs of
  the caller; the wait receives the backoff in the unit of the delays (the random addition of at most
  ten percent is part of the wait) and tells whether the cancellation was set.
\<close>

definition raise_if_cancelled :: "('s, bool) prog \<Rightarrow> ('s, unit) prog" where
  "raise_if_cancelled cancelled = bindp cancelled (\<lambda>c. if c then raise OperationCancelledError else ret ())"

text \<open>One call and the retries that are left after it; the call is the \<open>n\<close>-th retry.\<close>

primrec retry_loop ::
  "('s, bool) prog \<Rightarrow> (int \<Rightarrow> ('s, bool) prog) \<Rightarrow> int \<Rightarrow> int \<Rightarrow> ('s, 'a) prog \<Rightarrow> nat \<Rightarrow> nat \<Rightarrow> ('s, 'a) prog" where
  "retry_loop cancelled wait base rate fn n 0 = thenp (raise_if_cancelled cancelled) fn"
| "retry_loop cancelled wait base rate fn n (Suc left) =
    thenp (raise_if_cancelled cancelled) (catchp fn (\<lambda>e.
      if \<not> is_transient_error e then raise e
      else bindp (wait ((case e of RateLimitedError _ \<Rightarrow> rate | _ \<Rightarrow> base) * 2 ^ n)) (\<lambda>c.
        thenp (whenp c (raise_if_cancelled cancelled))
          (retry_loop cancelled wait base rate fn (Suc n) left))))"

definition with_retry ::
  "('s, bool) prog \<Rightarrow> (int \<Rightarrow> ('s, bool) prog) \<Rightarrow> int \<Rightarrow> int \<Rightarrow> int \<Rightarrow> ('s, 'a) prog \<Rightarrow> ('s, 'a) prog" where
  "with_retry cancelled wait attempts base_delay rate_limit_base_delay fn =
    (if attempts < 0 then raise (ValueError ''attempts must be non-negative'')
     else if base_delay < 0 then raise (ValueError ''base_delay must be non-negative'')
     else if rate_limit_base_delay < 0 then raise (ValueError ''rate_limit_base_delay must be non-negative'')
     else retry_loop cancelled wait base_delay rate_limit_base_delay fn 0 (nat attempts))"

section \<open>What every caller may rely on\<close>

lemma keeps_raise_if_cancelled [intro]: "keeps I cancelled \<Longrightarrow> keeps I (raise_if_cancelled cancelled)"
  by (auto simp: raise_if_cancelled_def)

lemma keeps_retry_loop:
  assumes "keeps I cancelled" and "\<And>d. keeps I (wait d)" and "keeps I fn"
  shows "keeps I (retry_loop cancelled wait base rate fn n left)"
proof (induction left arbitrary: n)
  case 0
  show ?case using assms by auto
next
  case (Suc left)
  show ?case using assms Suc
    by (auto intro!: keeps_then keeps_catch keeps_bind keeps_when keeps_raise_if_cancelled)
qed

lemma keeps_with_retry [intro]:
  "keeps I cancelled \<Longrightarrow> (\<And>d. keeps I (wait d)) \<Longrightarrow> keeps I fn \<Longrightarrow>
   keeps I (with_retry cancelled wait attempts base rate fn)"
  by (auto simp: with_retry_def keeps_retry_loop)

section \<open>The policy on a scripted operation\<close>

text \<open>
  A state that holds the outcomes of the calls to come and the backoffs waited for so far. The
  reference is what the policy promises: the outcomes up to the first that is not transient, at most
  one more than the number of retries.
\<close>

record 'a script =
  outcomes :: "(error + 'a) list"
  waits :: "int list"

definition scripted_call :: "('a script, 'a) prog" where
  "scripted_call s = (case outcomes s of
     [] \<Rightarrow> (Inl (TransientError ''script''), s)
   | x # xs \<Rightarrow> (x, s\<lparr>outcomes := xs\<rparr>))"

definition scripted_wait :: "int \<Rightarrow> ('a script, bool) prog" where
  "scripted_wait d s = (Inr False, s\<lparr>waits := waits s @ [d]\<rparr>)"

fun transient_outcome :: "error + 'a \<Rightarrow> bool" where
  "transient_outcome (Inl e) = is_transient_error e"
| "transient_outcome (Inr x) = False"

fun backoff_base :: "int \<Rightarrow> int \<Rightarrow> error + 'a \<Rightarrow> int" where
  "backoff_base base rate (Inl (RateLimitedError m)) = rate"
| "backoff_base base rate _ = base"

lemma not_cancelled [simp]: "thenp (raise_if_cancelled (Pair (Inr False))) k = k"
  by (simp add: fun_eq_iff raise_if_cancelled_def run_then run_bind)

lemma retry_loop_script:
  assumes "left < length xs"
  shows "let k = length (takeWhile transient_outcome (take left xs)) in
    retry_loop (ret False) scripted_wait base rate scripted_call n left \<lparr>outcomes = xs, waits = ws\<rparr> =
      (xs ! k, \<lparr>outcomes = drop (Suc k) xs, waits = ws @ map (\<lambda>i. backoff_base base rate (xs ! i) * 2 ^ (n + i)) [0..<k]\<rparr>)"
  using assms
proof (induction left arbitrary: xs n ws)
  case 0
  then show ?case by (cases xs) (simp_all add: scripted_call_def)
next
  case (Suc left)
  then obtain x ys where xs: "xs = x # ys" "left < length ys" by (cases xs) auto
  show ?case
  proof (cases "transient_outcome x")
    case False
    then show ?thesis
      by (cases x) (simp_all add: xs run_catch scripted_call_def)
  next
    case True
    then obtain e where x: "x = Inl e" "is_transient_error e" by (cases x) auto
    have base_eq: "(case e of RateLimitedError _ \<Rightarrow> rate | _ \<Rightarrow> base) = backoff_base base rate x"
      by (cases e) (simp_all add: x)
    have idx: "map (\<lambda>i. backoff_base base rate ((x # ys) ! i) * 2 ^ (n + i)) [0..<Suc k] =
      backoff_base base rate x * 2 ^ n # map (\<lambda>i. backoff_base base rate (ys ! i) * 2 ^ (Suc n + i)) [0..<k]" for k
      by (simp add: upt_conv_Cons map_Suc_upt [symmetric] del: upt_Suc)
    note IH = Suc.IH [OF xs(2), of "Suc n" "ws @ [backoff_base base rate x * 2 ^ n]"]
    from IH x True base_eq show ?thesis
      by (simp add: xs Let_def run_then run_bind run_catch scripted_call_def scripted_wait_def
          whenp_def idx [unfolded x(1)] del: upt_Suc)
  qed
qed

text \<open>
  C38. The retry policy. Without cancellation, a call with a non-negative number of retries and delays
  returns or raises the first outcome that is not a transient error, and if every one of the first
  \<open>attempts + 1\<close> outcomes is transient, the last of them. The operation is called once for each outcome
  up to that one and never again, and before the \<open>i\<close>-th retry the policy waits for its base delay, or the
  base delay of the rate limit, times \<open>2 ^ i\<close>.
\<close>

theorem with_retry_returns_first_permanent_outcome:
  assumes "0 \<le> attempts" and "0 \<le> base" and "0 \<le> rate" and "nat attempts < length xs"
  shows "let k = length (takeWhile transient_outcome (take (nat attempts) xs)) in
    k \<le> nat attempts \<and>
    with_retry (ret False) scripted_wait attempts base rate scripted_call \<lparr>outcomes = xs, waits = []\<rparr> =
      (xs ! k, \<lparr>outcomes = drop (Suc k) xs, waits = map (\<lambda>i. backoff_base base rate (xs ! i) * 2 ^ i) [0..<k]\<rparr>)"
  using retry_loop_script [OF assms(4), of base rate 0 "[]"] assms(1-3)
    length_takeWhile_le [of transient_outcome "take (nat attempts) xs"]
  by (simp add: with_retry_def Let_def)

theorem with_retry_returns_first_permanent_outcome_witness:
  "with_retry (ret False) scripted_wait 3 1 60 scripted_call
     \<lparr>outcomes = [Inl (TransientError ''a''), Inl (RateLimitedError ''b''), Inr (7::nat), Inr 8], waits = []\<rparr> =
   (Inr 7, \<lparr>outcomes = [Inr 8], waits = [1, 120]\<rparr>)"
  using with_retry_returns_first_permanent_outcome [of 3 1 60
      "[Inl (TransientError ''a''), Inl (RateLimitedError ''b''), Inr (7::nat), Inr 8]"]
  by (simp add: Let_def upt_rec numeral_2_eq_2 numeral_3_eq_3)

end
