(* ===== verification/Snapshots.thy ===== *)
theory Snapshots
  imports World Account_Guards
begin

text \<open>
  Snapshots of accounts and folders in the manifest (\<^verbatim>\<open>usecases/snapshots.py\<close>) and the refresh of the
  folder list (\<^verbatim>\<open>usecases/sync_folders.py\<close>). The writer and the reader are those of one account's
  manifest.
\<close>

section \<open>Events\<close>

text \<open>\<open>str\<close> of a value that may be \<open>None\<close>.\<close>

definition str_of :: "string option \<Rightarrow> string" where
  "str_of x = get_default x ''None''"

definition account_event :: "env \<Rightarrow> account_row \<Rightarrow> error + event" where
  "account_event E a = (case acc_port a of
     None \<Rightarrow> Inl (TypeError (''int() argument must be a string, a bytes-like object or a real number, not 'NoneType'' @ [CHR 0x27]))
   | Some port \<Rightarrow> Inr
     [(''event'', JStr ''account_snapshot''), (''account_id'', JStr (acc_id a)),
      (''provider_type'', JStr (acc_provider_type a)), (''display_name'', opt_str (acc_display_name a)),
      (''host'', JStr (str_of (acc_host a))), (''port'', JInt port),
      (''username'', JStr (str_of (acc_username a))), (''is_enabled'', JBool (acc_is_enabled a \<noteq> 0)),
      (''tls_mode'', JStr (acc_tls_mode a)), (''ca_cert_path'', opt_str (acc_ca_cert_path a)),
      (''auth_type'', JStr (acc_auth_type a)), (''oauth_provider'', opt_str (acc_oauth_provider a)),
      (''oauth_client_id'', opt_str (acc_oauth_client_id a)), (''oauth_tenant'', opt_str (acc_oauth_tenant a)),
      (''timestamp'', JStr (now E))])"

text \<open>The attributes of a folder record that a snapshot shows. A row of the folder table has no
  delimiter.\<close>

record folder_attrs =
  at_raw_name :: string
  at_display_name :: string
  at_uidvalidity :: "int option"
  at_delimiter :: "string option"
  at_is_sync_target :: bool

definition attrs_of_row :: "folder_row \<Rightarrow> folder_attrs" where
  "attrs_of_row f = \<lparr>at_raw_name = fld_raw_name f, at_display_name = fld_display_name f,
     at_uidvalidity = fld_uidvalidity f, at_delimiter = None, at_is_sync_target = fld_is_sync_target f\<rparr>"

definition folder_snapshot_event :: "env \<Rightarrow> string \<Rightarrow> folder_attrs \<Rightarrow> event" where
  "folder_snapshot_event E account f =
     [(''event'', JStr ''folder_snapshot''), (''account_id'', JStr account),
      (''folder_raw_name'', JStr (at_raw_name f)), (''display_name'', JStr (at_display_name f)),
      (''uidvalidity'', opt_int (at_uidvalidity f)), (''delimiter'', opt_str (at_delimiter f)),
      (''is_sync_target'', JBool (at_is_sync_target f)), (''timestamp'', JStr (now E))]"

definition account_fields :: "string list" where
  "account_fields = [''account_id'', ''provider_type'', ''display_name'', ''host'', ''port'', ''username'',
     ''is_enabled'', ''tls_mode'', ''ca_cert_path'', ''auth_type'', ''oauth_provider'', ''oauth_client_id'',
     ''oauth_tenant'']"

definition folder_fields :: "string list" where
  "folder_fields = [''account_id'', ''folder_raw_name'', ''display_name'', ''uidvalidity'', ''delimiter'',
     ''is_sync_target'']"

definition matches_previous :: "event \<Rightarrow> event option \<Rightarrow> string list \<Rightarrow> bool" where
  "matches_previous ev previous names = (case previous of
     None \<Rightarrow> False | Some p \<Rightarrow> list_all (\<lambda>f. jget ev f = jget p f) names)"

definition previous_snapshot :: "event list \<Rightarrow> string \<Rightarrow> string \<Rightarrow> string \<Rightarrow> event option" where
  "previous_snapshot evs event_name identity_field identity =
     foldl (\<lambda>previous ev. if jget ev ''event'' = JStr event_name \<and> jget ev identity_field = JStr identity
        then Some ev else previous) None evs"

section \<open>Recording\<close>

definition record_snapshot ::
  "env \<Rightarrow> event \<Rightarrow> string \<Rightarrow> string \<Rightarrow> string \<Rightarrow> string list \<Rightarrow> bool \<Rightarrow> ('r world, bool) prog" where
  "record_snapshot E ev event_name identity_field identity names only_if_missing =
    bindp (gets (\<lambda>w. read_all_events (w_man w))) (\<lambda>r. bindp (lift_sum r) (\<lambda>evs.
      let previous = previous_snapshot evs event_name identity_field identity in
      if previous \<noteq> None \<and> (only_if_missing \<or> matches_previous ev previous names) then ret False
      else thenp (journal E ev) (ret True)))"

definition record_account_snapshot :: "env \<Rightarrow> account_row \<Rightarrow> bool \<Rightarrow> ('r world, bool) prog" where
  "record_account_snapshot E a only_if_missing =
    bindp (lift_sum (account_event E a)) (\<lambda>ev.
      record_snapshot E ev ''account_snapshot'' ''account_id'' (acc_id a) account_fields only_if_missing)"

definition record_folder_snapshot :: "env \<Rightarrow> string \<Rightarrow> folder_attrs \<Rightarrow> bool \<Rightarrow> ('r world, bool) prog" where
  "record_folder_snapshot E account f only_if_missing =
    record_snapshot E (folder_snapshot_event E account f) ''folder_snapshot'' ''folder_raw_name''
      (at_raw_name f) folder_fields only_if_missing"

text \<open>One round of the backfill at startup, for one account: how many account and folder snapshots it
  records.\<close>

definition backfill_account :: "env \<Rightarrow> account_row \<Rightarrow> ('r world, nat \<times> nat) prog" where
  "backfill_account E a =
    bindp (record_account_snapshot E a True) (\<lambda>recorded.
    bindp (on_db (list_folders (acc_id a))) (\<lambda>fs.
    bindp (foldp (\<lambda>n f. bindp (record_folder_snapshot E (acc_id a) (attrs_of_row f) True)
        (\<lambda>b. ret (if b then n + 1 else n))) 0 fs) (\<lambda>n.
      ret (if recorded then 1 else 0, n))))"

text \<open>One round of the migration of legacy account records: the manifest first, then the database.\<close>

definition reconcile_account_snapshot :: "env \<Rightarrow> account_row \<Rightarrow> ('r world, nat) prog" where
  "reconcile_account_snapshot E a =
    (if acc_id a = [] \<or> acc_provider_type a \<notin> {''onamae_imap'', ''imap''} then ret 0
     else thenp (record_account_snapshot E (a\<lparr>acc_provider_type := ''imap''\<rparr>) False)
       (if acc_provider_type a \<noteq> ''imap''
        then thenp (on_db (normalize_account_provider_type (acc_id a) ''imap'')) (ret 1) else ret 0))"

section \<open>Folder refresh\<close>

record remote_folder =
  rf_raw_name :: string
  rf_display_name :: string
  rf_uidvalidity :: "int option"
  rf_delimiter :: "string option"

record folder_refresh_result =
  fr_new_count :: nat
  fr_removed_raw_names :: "string list"

definition refresh_folder ::
  "env \<Rightarrow> string \<Rightarrow> bool \<Rightarrow> folder_row list \<Rightarrow> nat \<Rightarrow> remote_folder \<Rightarrow> ('r world, nat) prog" where
  "refresh_folder E account snapshots existing n rf =
    (let known = List.find (\<lambda>f. fld_raw_name f = rf_raw_name rf) (rev existing);
         target = (case known of None \<Rightarrow> False | Some f \<Rightarrow> fld_is_sync_target f) in
     thenp (whenp snapshots (thenp (record_folder_snapshot E account
         \<lparr>at_raw_name = rf_raw_name rf, at_display_name = rf_display_name rf, at_uidvalidity = rf_uidvalidity rf,
          at_delimiter = rf_delimiter rf, at_is_sync_target = target\<rparr> False) (ret ())))
     (thenp (on_db (upsert_folder
         \<lparr>fa_account_id = account, fa_raw_name = rf_raw_name rf, fa_display_name = Some (rf_display_name rf),
          fa_uidvalidity = Some (rf_uidvalidity rf), fa_last_seen_uid = None, fa_is_sync_target = Some target,
          fa_last_synced_at = None, fa_backfill_next_uid = None, fa_initial_sync_completed = None,
          fa_highest_modseq = None\<rparr>))
       (ret (if known = None then n + 1 else n))))"

definition refresh_folders ::
  "env \<Rightarrow> ('r, remote_folder list) prog \<Rightarrow> string \<Rightarrow> bool \<Rightarrow> ('r world, folder_refresh_result) prog" where
  "refresh_folders E list_remote account snapshots =
    thenp (on_db (ensure_imap_account account))
    (bindp (on_db (list_folders account)) (\<lambda>existing.
     bindp (on_remote list_remote) (\<lambda>remote.
     bindp (foldp (refresh_folder E account snapshots existing) 0 remote) (\<lambda>n.
       ret \<lparr>fr_new_count = n, fr_removed_raw_names =
         filter (\<lambda>raw. raw \<notin> rf_raw_name ` set remote) (map fld_raw_name existing)\<rparr>))))"

definition set_folder_sync_target :: "env \<Rightarrow> string \<Rightarrow> string \<Rightarrow> bool \<Rightarrow> bool \<Rightarrow> ('r world, unit) prog" where
  "set_folder_sync_target E account raw enabled snapshots =
    thenp (on_db (ensure_imap_account account))
    (bindp (on_db (list_folders account)) (\<lambda>fs.
     case List.find (\<lambda>f. fld_raw_name f = raw) fs of
       None \<Rightarrow> on_db (set_sync_target account raw enabled)
     | Some f \<Rightarrow> thenp (whenp snapshots (thenp (record_folder_snapshot E account
           (attrs_of_row (f\<lparr>fld_is_sync_target := enabled\<rparr>)) False) (ret ())))
         (on_db (set_sync_target account raw enabled))))"

end
