(* ===== verification/Snapshot_Props.thy ===== *)
theory Snapshot_Props
  imports Snapshots Repository_Props
begin

text \<open>
  Properties of snapshots and of the folder refresh: a recorded snapshot is the one read back and is
  not recorded twice, and a refresh resets the known generation of every folder.
\<close>

section \<open>Recording is idempotent\<close>

lemma previous_snapshot_snoc:
  "previous_snapshot (evs @ [ev]) n f i =
     (if jget ev ''event'' = JStr n \<and> jget ev f = JStr i then Some ev else previous_snapshot evs n f i)"
  by (simp add: previous_snapshot_def)

lemma record_snapshot_run:
  assumes "read_all_events (w_man w) = Inr evs"
  shows "record_snapshot E ev n f i names missing w =
    (if previous_snapshot evs n f i \<noteq> None \<and> (missing \<or> matches_previous ev (previous_snapshot evs n f i) names)
     then (Inr False, w) else thenp (journal E ev) (ret True) w)"
  using assms by (simp add: record_snapshot_def Let_def run_bind)

lemma record_snapshot_current:
  assumes "record_snapshot E ev n f i names False w = (Inr b, w')" and "manifest_inv E (w_man w)"
    and "sorted (map fst (man_log (w_man w')))" and "jget ev ''event'' = JStr n" and "jget ev f = JStr i"
  shows "\<exists>evs. read_all_events (w_man w') = Inr evs \<and>
    matches_previous ev (previous_snapshot evs n f i) names \<and> previous_snapshot evs n f i \<noteq> None"
proof -
  from assms(1) obtain evs where evs: "read_all_events (w_man w) = Inr evs"
    by (cases "read_all_events (w_man w)") (simp_all add: record_snapshot_def run_bind)
  note run = record_snapshot_run [OF evs, of E ev n f i names False]
  show ?thesis
  proof (cases "previous_snapshot evs n f i \<noteq> None \<and> matches_previous ev (previous_snapshot evs n f i) names")
    case True
    with run assms(1) evs show ?thesis by auto
  next
    case False
    with run assms(1) have "thenp (journal E ev) (ret True) w = (Inr b, w')" by auto
    then obtain u where "journal E ev w = (Inr u, w')" by (auto elim!: then_okE)
    from journal_ok [OF this assms(2)] obtain m where m: "w' = w\<lparr>w_man := m\<rparr>" "manifest_inv E m"
      "durable_events m = (durable_events (w_man w) @ pending_events (w_man w)) @ [ev]" by auto
    have "sorted (map fst (take (man_synced m) (man_log m)))"
      using assms(3) m(1) by (simp add: take_map [symmetric] sorted_wrt_take)
    moreover have "previous_snapshot (durable_events m) n f i = Some ev"
      unfolding m(3) using assms(4,5) by (simp only: previous_snapshot_snoc simp_thms if_True)
    ultimately show ?thesis using read_all_durable [OF m(2)] m(1)
      by (simp add: matches_previous_def list_all_iff)
  qed
qed

text \<open>
  The snapshot of a folder is recorded once. After recording the attributes of a folder, provided
  the months of the records do not run backwards, the last snapshot of this folder in the manifest shows
  exactly these attributes, and recording the same attributes again changes nothing.
\<close>

lemma folder_snapshot_recorded_once:
  assumes "record_folder_snapshot E account f False w = (Inr b, w')" and "manifest_inv E (w_man w)"
    and "sorted (map fst (man_log (w_man w')))"
  shows "(\<exists>evs. read_all_events (w_man w') = Inr evs \<and>
       matches_previous (folder_snapshot_event E account f)
         (previous_snapshot evs ''folder_snapshot'' ''folder_raw_name'' (at_raw_name f)) folder_fields) \<and>
     record_folder_snapshot E account f False w' = (Inr False, w')"
proof -
  let ?ev = "folder_snapshot_event E account f"
  have "\<exists>evs. read_all_events (w_man w') = Inr evs \<and>
    matches_previous ?ev (previous_snapshot evs ''folder_snapshot'' ''folder_raw_name'' (at_raw_name f)) folder_fields \<and>
    previous_snapshot evs ''folder_snapshot'' ''folder_raw_name'' (at_raw_name f) \<noteq> None"
    by (rule record_snapshot_current [OF assms(1) [unfolded record_folder_snapshot_def] assms(2,3)])
      (simp_all add: folder_snapshot_event_def)
  then obtain evs where "read_all_events (w_man w') = Inr evs"
    "matches_previous ?ev (previous_snapshot evs ''folder_snapshot'' ''folder_raw_name'' (at_raw_name f)) folder_fields"
    "previous_snapshot evs ''folder_snapshot'' ''folder_raw_name'' (at_raw_name f) \<noteq> None" by blast
  then show ?thesis by (simp add: record_folder_snapshot_def record_snapshot_run)
qed

definition sample_attrs :: folder_attrs where
  "sample_attrs = \<lparr>at_raw_name = ''INBOX'', at_display_name = ''Inbox'', at_uidvalidity = Some 7,
     at_delimiter = Some ''/'', at_is_sync_target = True\<rparr>"

definition sample_folder_world :: "unit world" where
  "sample_folder_world = \<lparr>w_db = sample_db, w_batch = None, w_fs = empty_fs, w_man = empty_manifest ''acc'',
     w_remote = (), w_history = []\<rparr>"

lemma folder_snapshot_recorded_once_witness:
  "fst (record_folder_snapshot sample_env ''acc'' sample_attrs False sample_folder_world) = Inr True \<and>
   fst (record_folder_snapshot sample_env ''acc'' sample_attrs False
     (snd (record_folder_snapshot sample_env ''acc'' sample_attrs False sample_folder_world))) = Inr False"
proof -
  let ?run = "record_folder_snapshot sample_env ''acc'' sample_attrs False sample_folder_world"
  have ok: "fst ?run = Inr True" by code_simp
  then have run: "?run = (Inr True, snd ?run)" by (metis prod.collapse)
  have inv: "manifest_inv sample_env (w_man sample_folder_world)" by (simp add: sample_folder_world_def)
  have "map fst (man_log (w_man (snd ?run))) = [''202601'']" by code_simp
  with folder_snapshot_recorded_once [OF run inv] ok show ?thesis by simp
qed

section \<open>A refresh forgets the generations\<close>

definition generation_unknown :: "string \<Rightarrow> string set \<Rightarrow> 'r world \<Rightarrow> bool" where
  "generation_unknown account raws w \<longleftrightarrow> (\<forall>f\<in>set (folders (w_db w)).
     fld_account_id f = account \<and> fld_raw_name f \<in> raws \<longrightarrow> fld_uidvalidity f = None)"

lemma upsert_folder_folders:
  assumes "upsert_folder fa d = (Inr i, d')"
  shows "folders d' = upsert_row folder_key (fa_account_id fa, fa_raw_name fa) (folder_update fa)
    (folder_values fa (next_folder_id d)) (folders d)"
  using assms
  by (auto simp: upsert_folder_def Let_def constrained_def run_bind elim!: then_okE split: if_splits option.splits)

lemma set_upsert_row: "set (upsert_row key k f r rows) \<subseteq> insert r ((\<lambda>x. if key x = k then f x else x) ` set rows)"
  by (auto simp: upsert_row_def set_update_where)

lemma record_snapshot_db: "w_db (snd (record_folder_snapshot E account f missing w)) = w_db w"
proof -
  have [simp]: "keeps (\<lambda>v. w_db v = w_db w) (man_append E ev)" "keeps (\<lambda>v. w_db v = w_db w) man_sync" for ev
    by (auto simp: keeps_def man_append_def man_sync_def split: prod.split)
  have "keeps (\<lambda>v. w_db v = w_db w) (record_folder_snapshot E account f missing)"
    unfolding record_folder_snapshot_def record_snapshot_def Let_def journal_def
    by (intro keeps_bind keeps_then keeps_if keeps_gets keeps_lift_sum keeps_ret) simp_all
  then show ?thesis unfolding keeps_def by blast
qed

lemma refresh_folder_forgets:
  assumes "refresh_folder E account snaps existing n rf w = (Inr n', w')" and "rf_uidvalidity rf = None"
    and "generation_unknown account raws w"
  shows "generation_unknown account (insert (rf_raw_name rf) raws) w'"
proof -
  let ?snap = "whenp snaps (thenp (record_folder_snapshot E account \<lparr>at_raw_name = rf_raw_name rf,
      at_display_name = rf_display_name rf, at_uidvalidity = rf_uidvalidity rf, at_delimiter = rf_delimiter rf,
      at_is_sync_target = (case List.find (\<lambda>f. fld_raw_name f = rf_raw_name rf) (rev existing) of None \<Rightarrow> False | Some f \<Rightarrow> fld_is_sync_target f)\<rparr> False) (ret ()))"
  have snap_db: "w_db w1 = w_db w" if "?snap w = (x, w1)" for x w1
    using that record_snapshot_db [of E account _ False w]
    by (auto simp: whenp_def run_then split: if_splits prod.splits sum.splits) (metis snd_conv)+
  from assms(1) obtain u w1 fa i d where "?snap w = (Inr u, w1)"
    and up: "upsert_folder fa (w_db w1) = (Inr i, d)" and w': "w' = w1\<lparr>w_db := d\<rparr>"
    and fa: "fa_account_id fa = account" "fa_raw_name fa = rf_raw_name rf" "fa_uidvalidity fa = Some None"
    using assms(2) by (fastforce simp: refresh_folder_def Let_def on_db_def elim!: then_okE split: prod.splits)
  from snap_db [OF this(1)] upsert_folder_folders [OF up] w'
  have "set (folders (w_db w')) \<subseteq> insert (folder_values fa (next_folder_id (w_db w)))
      ((\<lambda>x. if folder_key x = (account, rf_raw_name rf) then folder_update fa x else x) ` set (folders (w_db w)))"
    using set_upsert_row [of folder_key "(account, rf_raw_name rf)" "folder_update fa"] fa by auto
  with assms(3) fa show ?thesis
    by (fastforce simp: generation_unknown_def folder_values_def folder_update_def get_default_def split: if_splits)
qed

lemma refresh_folders_forget:
  assumes "foldp (refresh_folder E account snaps existing) n rfs w = (Inr n', w')"
    and "\<forall>rf\<in>set rfs. rf_uidvalidity rf = None" and "generation_unknown account raws w"
  shows "generation_unknown account (rf_raw_name ` set rfs \<union> raws) w'"
  using assms
proof (induction rfs arbitrary: n raws w)
  case (Cons rf rfs)
  from Cons.prems(1) obtain n1 w1 where s: "refresh_folder E account snaps existing n rf w = (Inr n1, w1)"
    and rest: "foldp (refresh_folder E account snaps existing) n1 rfs w1 = (Inr n', w')"
    by (auto elim!: bind_okE)
  have "generation_unknown account (insert (rf_raw_name rf) raws) w1"
    using refresh_folder_forgets [OF s] Cons.prems(2,3) by simp
  from Cons.IH [OF rest _ this] Cons.prems(2) show ?case by simp
qed simp

text \<open>
  A refresh of the folder list forgets the generation of every folder. The folders of an IMAP
  listing carry no UIDVALIDITY, and the refresh writes that absence over the stored value: afterwards no
  listed folder of the account has a known generation, so that the next synchronization takes each of
  them for a new folder and fetches it from the start.
\<close>

lemma refresh_folders_forgets_generations:
  assumes "refresh_folders E list_remote account snaps w = (Inr res, w')"
    and "\<And>s remote s'. list_remote s = (Inr remote, s') \<Longrightarrow> \<forall>rf\<in>set remote. rf_uidvalidity rf = None"
  shows "\<exists>remote s s'. list_remote s = (Inr remote, s') \<and> generation_unknown account (rf_raw_name ` set remote) w'"
proof -
  from assms(1) obtain w1 existing remote w2 n where r: "on_remote list_remote w1 = (Inr remote, w2)"
    and f: "foldp (refresh_folder E account snaps existing) 0 remote w2 = (Inr n, w')"
    by (auto simp: refresh_folders_def elim!: then_okE bind_okE)
  from r obtain s s' where l: "list_remote s = (Inr remote, s')"
    by (auto simp: on_remote_def split: prod.splits)
  have "generation_unknown account (rf_raw_name ` set remote \<union> {}) w'"
    by (rule refresh_folders_forget [OF f assms(2) [OF l]]) (simp add: generation_unknown_def)
  with l show ?thesis by auto
qed

lemma refresh_folders_forgets_generations_witness:
  "map fld_uidvalidity (folders (w_db sample_folder_world)) = [Some 7, Some 7] \<and>
   (\<exists>remote s s'. ret [\<lparr>rf_raw_name = ''INBOX'', rf_display_name = ''Inbox'', rf_uidvalidity = None, rf_delimiter = Some ''/''\<rparr>] (s :: unit) = (Inr remote, s') \<and>
     generation_unknown ''acc'' (rf_raw_name ` set remote)
       (snd (refresh_folders sample_env (ret [\<lparr>rf_raw_name = ''INBOX'', rf_display_name = ''Inbox'', rf_uidvalidity = None,
          rf_delimiter = Some ''/''\<rparr>]) ''acc'' True sample_folder_world)))"
proof -
  let ?l = "ret [\<lparr>rf_raw_name = ''INBOX'', rf_display_name = ''Inbox'', rf_uidvalidity = None,
          rf_delimiter = Some ''/''\<rparr>] :: (unit, remote_folder list) prog"
  let ?run = "refresh_folders sample_env ?l ''acc'' True sample_folder_world"
  have "fst ?run = Inr \<lparr>fr_new_count = 0, fr_removed_raw_names = [''Trash'']\<rparr>" by code_simp
  then have run: "?run = (Inr \<lparr>fr_new_count = 0, fr_removed_raw_names = [''Trash'']\<rparr>, snd ?run)"
    by (metis prod.collapse)
  have "map fld_uidvalidity (folders (w_db sample_folder_world)) = [Some 7, Some 7]" by code_simp
  moreover have "\<exists>remote s s'. ?l s = (Inr remote, s') \<and> generation_unknown ''acc'' (rf_raw_name ` set remote) (snd ?run)"
    by (rule refresh_folders_forgets_generations [OF run]) auto
  ultimately show ?thesis by blast
qed

end
