(* ===== verification/Sync_Mail.thy ===== *)
theory Sync_Mail
  imports Snapshots Retry
begin

text \<open>
  Synchronization of the folders of an account (\<^verbatim>\<open>usecases/sync_mail.py\<close>), first part: the data, the
  events and records of a fetched message, the durable commit of a batch, the fetch of one message and
  of a range of UIDs. The server is a record of functions; an iterator of the server is the list of what
  it yields followed by the error it ends with, if any. The parser, the JSON codec and the search
  normalization are parameters. The progress callback is left out: it only observes the counters.
\<close>

section \<open>Data\<close>

text \<open>An aware date: its UTC text and its UTC year and month.\<close>

record utc_time =
  ut_text :: string
  ut_month :: "nat \<times> nat"

record message_ref =
  ref_uid :: int
  ref_message_id :: "string option"
  ref_internal_date :: "utc_time option"
  ref_size_bytes :: "int option"
  ref_flags :: "string list"
  ref_gmail_msgid :: "string option"
  ref_gmail_thrid :: "string option"
  ref_gmail_labels :: "string list option"

record parsed_message =
  ps_subject :: string
  ps_sender :: string
  ps_recipient :: string
  ps_cc :: string
  ps_date_sent :: "utc_time option"
  ps_message_id :: "string option"
  ps_in_reply_to :: "string option"
  ps_references_ids :: "string option"
  ps_thread_key :: "string option"
  ps_content_key :: "string option"
  ps_body_text :: string
  ps_attachments :: "(string option \<times> bool) list"
  ps_has_attachment :: bool
  ps_parse_error :: "string option"

type_synonym refs = "message_ref list \<times> error option"

record 'r mailbox =
  mb_select_folder :: "string \<Rightarrow> ('r, int) prog"
  mb_get_max_uid :: "string \<Rightarrow> ('r, int) prog"
  mb_iter_message_refs :: "string \<Rightarrow> int \<Rightarrow> int \<Rightarrow> ('r, refs) prog"
  mb_iter_flags :: "string \<Rightarrow> int list \<Rightarrow> ('r, refs) prog"
  mb_iter_flags_since :: "string \<Rightarrow> int \<Rightarrow> ('r, refs) prog"
  mb_highest_modseq :: "('r, int option) prog"
  mb_condstore :: bool
  mb_list_existing_uids :: "string \<Rightarrow> ('r, int list) prog"
  mb_download :: "string \<Rightarrow> int \<Rightarrow> ('r, string) prog"
  mb_download_headers :: "string \<Rightarrow> int \<Rightarrow> ('r, string) prog"
  mb_cancelled :: "('r, bool) prog"
  mb_wait :: "int \<Rightarrow> ('r, bool) prog"

text \<open>What one run fixes: the account, whether it is a Google account, the options, the server, and the
  parameters for code outside the use case.\<close>

record 'r sync_ctx =
  cx_env :: env
  cx_mailbox :: "'r mailbox"
  cx_account :: string
  cx_google :: bool
  cx_max_message_bytes :: int
  cx_flag_refresh :: bool
  cx_flags_since :: string
  cx_flags_expired :: "string \<Rightarrow> bool"
  cx_parse :: "string \<Rightarrow> utc_time option \<Rightarrow> parsed_message"
  cx_norm :: "string \<Rightarrow> string"
  cx_dumps :: "string list \<Rightarrow> string"
  cx_loads :: "string \<Rightarrow> json option"
  cx_uuid :: string

record pending_item =
  pi_uid :: int
  pi_event :: "event option"
  pi_record :: "message_arg option"
  pi_failure_folder :: "int option"
  pi_contents :: "contents_arg option"
  pi_failure :: "(int \<times> string \<times> string) option"
  pi_clear_failure :: bool
  pi_bytes :: int

record 'r sync =
  sy_world :: "'r world"
  sy_fetched :: int
  sy_transferred :: int
  sy_skipped :: int
  sy_failed :: int
  sy_estimated :: int
  sy_known :: "((int \<times> int \<times> int) \<times> message_record) list"
  sy_checkpoint :: int
  sy_pending :: "pending_item list"
  sy_attempted :: "int list"
  sy_generation :: "(int \<times> int) list"

text \<open>Programs on the parts of the state.\<close>

definition on_world :: "('r world, 'a) prog \<Rightarrow> ('r sync, 'a) prog" where
  "on_world m = (\<lambda>s. case m (sy_world s) of (r, w) \<Rightarrow> (r, s\<lparr>sy_world := w\<rparr>))"

definition on_fs :: "(fs, 'a) prog \<Rightarrow> ('r world, 'a) prog" where
  "on_fs m = (\<lambda>w. case m (w_fs w) of (r, f) \<Rightarrow> (r, w\<lparr>w_fs := f\<rparr>))"

abbreviation sync_db :: "(db, 'a) prog \<Rightarrow> ('r sync, 'a) prog" where
  "sync_db m \<equiv> on_world (on_db m)"

abbreviation sync_remote :: "('r, 'a) prog \<Rightarrow> ('r sync, 'a) prog" where
  "sync_remote m \<equiv> on_world (on_remote m)"

definition check_cancelled :: "'r sync_ctx \<Rightarrow> ('r sync, unit) prog" where
  "check_cancelled X = sync_remote (raise_if_cancelled (mb_cancelled (cx_mailbox X)))"

definition download_with_retry :: "'r sync_ctx \<Rightarrow> ('r, 'a) prog \<Rightarrow> ('r sync, 'a) prog" where
  "download_with_retry X m =
     sync_remote (with_retry (mb_cancelled (cx_mailbox X)) (mb_wait (cx_mailbox X)) 3 1 60 m)"

text \<open>\<open>for ref in iterator\<close> with a body, and \<open>next(iterator, None)\<close>.\<close>

definition for_refs :: "('r, refs) prog \<Rightarrow> (message_ref \<Rightarrow> ('r sync, unit) prog) \<Rightarrow> ('r sync, unit) prog" where
  "for_refs iter body = bindp (sync_remote iter) (\<lambda>(rs, problem).
     thenp (forp body rs) (case problem of None \<Rightarrow> ret () | Some e \<Rightarrow> raise e))"

definition next_ref :: "('r, refs) prog \<Rightarrow> ('r sync, message_ref option) prog" where
  "next_ref iter = bindp (sync_remote iter) (\<lambda>(rs, problem). case rs of
     r # _ \<Rightarrow> ret (Some r)
   | [] \<Rightarrow> (case problem of None \<Rightarrow> ret None | Some e \<Rightarrow> raise e))"

section \<open>Events and records\<close>

definition date_iso :: "utc_time option \<Rightarrow> string option" where
  "date_iso t = map_option ut_text t"

text \<open>\<open>a or b\<close> on texts that may be \<open>None\<close>.\<close>

definition or_text :: "string option \<Rightarrow> string option \<Rightarrow> string option" where
  "or_text a b = (if a \<in> {None, Some []} then b else a)"

definition sync_contents :: "parsed_message \<Rightarrow> bool \<Rightarrow> contents_arg" where
  "sync_contents p blank =
    (let names = map (the \<circ> fst) (filter (\<lambda>(name, inline). name \<noteq> None \<and> \<not> inline) (ps_attachments p)) in
     \<lparr>ca_subject_norm = Some (if blank then [] else ps_subject p),
      ca_sender_norm = Some (if blank then [] else ps_sender p), ca_subject = None, ca_sender = None,
      ca_body_text = Some (if blank then [] else ps_body_text p),
      ca_attachment_names = Some (if blank then [] else join_with (CHR 0x0A) names)\<rparr>)"

definition fetch_event ::
  "'r sync_ctx \<Rightarrow> string \<Rightarrow> int \<Rightarrow> int \<Rightarrow> message_ref \<Rightarrow> parsed_message \<Rightarrow> stored_eml \<Rightarrow>
   string option \<Rightarrow> string option \<Rightarrow> string list option \<Rightarrow> error + event" where
  "fetch_event X raw folder_id uidvalidity ref p stored msgid thrid labels =
    (case remote_source_item_key raw uidvalidity (ref_uid ref) msgid of
       Inl e \<Rightarrow> Inl e
     | Inr key \<Rightarrow> Inr
       [(''event'', JStr ''fetch''), (''account_id'', JStr (cx_account X)), (''folder_id'', JInt folder_id),
        (''folder_raw_name'', JStr raw), (''uid'', JInt (ref_uid ref)), (''uidvalidity'', JInt uidvalidity),
        (''source_item_key'', JStr key), (''message_id'', opt_str (or_text (ps_message_id p) (ref_message_id ref))),
        (''relative_path'', JStr (se_relative_path stored)), (''file_hash'', JStr (se_file_hash stored)),
        (''size_bytes'', JInt (se_size_bytes stored)), (''internal_date'', opt_str (date_iso (ref_internal_date ref))),
        (''timestamp'', JStr (now (cx_env X))), (''deduplicated'', JBool (se_deduplicated stored)),
        (''gmail_msgid'', opt_str msgid), (''gmail_thrid'', opt_str thrid),
        (''gmail_labels'', (case labels of None \<Rightarrow> JNull | Some ls \<Rightarrow> JList (map JStr ls)))])"

definition skipped_event :: "'r sync_ctx \<Rightarrow> string \<Rightarrow> int \<Rightarrow> int \<Rightarrow> message_ref \<Rightarrow> int \<Rightarrow> event" where
  "skipped_event X raw folder_id uidvalidity ref n =
     [(''event'', JStr ''fetch_skipped''), (''account_id'', JStr (cx_account X)), (''folder_id'', JInt folder_id),
      (''folder_raw_name'', JStr raw), (''uid'', JInt (ref_uid ref)), (''uidvalidity'', JInt uidvalidity),
      (''size_bytes'', JInt n), (''reason'', JStr ''oversize''), (''timestamp'', JStr (now (cx_env X)))]"

definition record_for_message ::
  "'r sync_ctx \<Rightarrow> int \<Rightarrow> string \<Rightarrow> int \<Rightarrow> message_ref \<Rightarrow> parsed_message \<Rightarrow> stored_eml option \<Rightarrow> int \<Rightarrow>
   error + message_arg" where
  "record_for_message X folder_id raw uidvalidity ref p stored n =
    (case remote_source_item_key raw uidvalidity (ref_uid ref) (ref_gmail_msgid ref) of
       Inl e \<Rightarrow> Inl e
     | Inr key \<Rightarrow>
        (let hash = map_option se_file_hash stored;
             content_key = the (or_text (ps_content_key p) (Some (case hash of
               Some h \<Rightarrow> ''sha256:'' @ take 32 h
             | None \<Rightarrow> ''uid:'' @ int_text uidvalidity @ '':'' @ int_text (ref_uid ref)))) in
         Inr
         \<lparr>ma_account_id = cx_account X, ma_folder_id = folder_id, ma_source_item_key = key,
          ma_columns = [ColMessageId (or_text (ps_message_id p) (ref_message_id ref)), ColContentKey content_key,
            ColLocalState Active, ColRelativePath (map_option se_relative_path stored), ColFileHash hash,
            ColSubject (Some (ps_subject p)), ColSender (Some (ps_sender p)), ColRecipient (Some (ps_recipient p)),
            ColCc (Some (ps_cc p)), ColDateSent (date_iso (ps_date_sent p)),
            ColInternalDate (date_iso (ref_internal_date ref)), ColSizeBytes (Some n),
            ColHasAttachment (ps_has_attachment p), ColInReplyTo (ps_in_reply_to p),
            ColReferencesIds (ps_references_ids p), ColThreadKey (ps_thread_key p),
            ColGmailMsgid (ref_gmail_msgid ref), ColGmailThrid (ref_gmail_thrid ref),
            ColGmailLabels (map_option (cx_dumps X) (ref_gmail_labels ref))],
          ma_uid = Some (ref_uid ref), ma_uidvalidity = Some uidvalidity, ma_remote_state = Some RemotePresent,
          ma_moved_to = None, ma_imap_flags = Some (join_with (CHR '' '') (ref_flags ref)),
          ma_flags_seen_at = Some (now (cx_env X)), ma_last_seen_at = Some (now (cx_env X))\<rparr>))"

text \<open>A record argument seen as the stored message it becomes, with the id the repository gave it.\<close>

definition arg_row :: "message_arg \<Rightarrow> int \<Rightarrow> message_row" where
  "arg_row a i = set_columns (ma_columns a) (blank_message i (ma_account_id a) (ma_source_item_key a))"

definition record_of_arg :: "message_arg \<Rightarrow> int \<Rightarrow> message_record" where
  "record_of_arg a i = \<lparr>rec_row = arg_row a i, rec_membership = Some (arg_membership a i)\<rparr>"

section \<open>Membership snapshots\<close>

type_synonym membership_table = "(int \<times> membership \<times> string option) list"

definition put_membership :: "membership \<Rightarrow> membership_table \<Rightarrow> membership_table" where
  "put_membership x t =
    (let entry = (mf_folder_id x, x, None) in upsert_row fst (mf_folder_id x) (\<lambda>_. entry) entry t)"

definition label_list :: "'r sync_ctx \<Rightarrow> string option \<Rightarrow> json list option" where
  "label_list X labels = (case labels of
     None \<Rightarrow> None
   | Some text \<Rightarrow> (case cx_loads X text of
       Some (JList ls) \<Rightarrow> if list_all is_str ls then Some ls else None
     | _ \<Rightarrow> None))"

text \<open>The snapshot of a message after the removal of one folder (\<open>Inl\<close>) or with an incoming membership
  (\<open>Inr\<close>), and with further incoming memberships.\<close>

definition sync_snapshot_event ::
  "'r sync_ctx \<Rightarrow> string \<Rightarrow> int + membership \<Rightarrow> membership list \<Rightarrow> json list option \<Rightarrow> (db, event) prog" where
  "sync_snapshot_event X key change extra labels =
    bindp (list_folders (cx_account X)) (\<lambda>fs.
    bindp (list_message_memberships (cx_account X) key) (\<lambda>ms.
    let name = (\<lambda>i. map_option fld_raw_name (List.find (\<lambda>f. fld_id f = i) fs));
        stored = map (\<lambda>v. (mf_folder_id (mv_membership v), mv_membership v, mv_folder_raw_name v)) ms;
        changed = (case change of Inl i \<Rightarrow> filter (\<lambda>e. fst e \<noteq> i) stored | Inr x \<Rightarrow> put_membership x stored);
        entries = sort_key (\<lambda>e. get_default (name (fst e)) []) (foldl (\<lambda>t x. put_membership x t) changed extra) in
    ret ([(''event'', JStr ''message_membership_snapshot''), (''account_id'', JStr (cx_account X)),
          (''source_item_key'', JStr key),
          (''memberships'', JList (map (\<lambda>(i, x, raw). JObj
             [(''folder_raw_name'', (case name i of Some n \<Rightarrow> JStr n | None \<Rightarrow> JStr (get_default raw []))),
              (''uid'', opt_int (mf_uid x)), (''uidvalidity'', opt_int (mf_uidvalidity x)),
              (''remote_state'', JStr (remote_state_text (mf_remote_state x))),
              (''moved_to_folder_raw_name'', opt_str (Option.bind (mf_moved_to x) name)),
              (''imap_flags'', opt_str (mf_imap_flags x)), (''flags_seen_at'', opt_str (mf_flags_seen_at x)),
              (''last_seen_at'', opt_str (mf_last_seen_at x))]) entries)),
          (''timestamp'', JStr (now (cx_env X)))] @
         (case labels of None \<Rightarrow> [] | Some ls \<Rightarrow> [(''gmail_labels'', JList ls)]))))"

section \<open>Committing a batch\<close>

text \<open>What the first pass over a batch collects: the records of each source key, in order of first
  occurrence, and the identity aliases.\<close>

record batch_notes =
  bn_records :: "(string \<times> message_arg list) list"
  bn_aliases :: "(string \<times> string) list"

definition add_record :: "message_arg \<Rightarrow> batch_notes \<Rightarrow> batch_notes" where
  "add_record a n = (let k = ma_source_item_key a in n\<lparr>bn_records :=
     upsert_row fst k (\<lambda>(_, rs). (k, rs @ [a])) (k, [a]) (bn_records n)\<rparr>)"

definition identity_event :: "'r sync_ctx \<Rightarrow> string \<Rightarrow> string \<Rightarrow> string \<Rightarrow> string option \<Rightarrow> event" where
  "identity_event X canonical alias evidence hash =
     [(''event'', JStr ''message_identity_linked''), (''account_id'', JStr (cx_account X)),
      (''canonical_source_item_key'', JStr canonical), (''alias_source_item_key'', JStr alias),
      (''evidence_kind'', JStr evidence), (''file_hash'', opt_str hash), (''timestamp'', JStr (now (cx_env X)))]"

text \<open>The alias of a Gmail message: the key it has by folder and UID.\<close>

definition note_alias :: "'r sync_ctx \<Rightarrow> event \<Rightarrow> message_arg \<Rightarrow> batch_notes \<Rightarrow> ('r world, batch_notes) prog" where
  "note_alias X ev a n =
    (case (msg_gmail_msgid (arg_row a 0), jget ev ''folder_raw_name'', ma_uidvalidity a, ma_uid a, msg_file_hash (arg_row a 0)) of
       (Some _, JStr raw, Some v, Some u, Some hash) \<Rightarrow>
         bindp (lift_sum (imap_source_item_key raw v u)) (\<lambda>alias.
           if alias = ma_source_item_key a then ret n
           else thenp (man_append (cx_env X) (identity_event X (ma_source_item_key a) alias ''gmail_msgid'' (Some hash)))
             (ret (n\<lparr>bn_aliases := bn_aliases n @ [(ma_source_item_key a, alias)]\<rparr>)))
     | _ \<Rightarrow> ret n)"

definition journal_item :: "'r sync_ctx \<Rightarrow> batch_notes \<Rightarrow> pending_item \<Rightarrow> ('r world, batch_notes) prog" where
  "journal_item X n item = (case pi_event item of
     None \<Rightarrow> ret n
   | Some ev \<Rightarrow> thenp (man_append (cx_env X) ev)
       (case pi_record item of
          Some a \<Rightarrow> if jget ev ''event'' = JStr ''fetch'' then note_alias X ev a (add_record a n) else ret n
        | None \<Rightarrow> ret n))"

definition journal_snapshot :: "'r sync_ctx \<Rightarrow> string \<times> message_arg list \<Rightarrow> ('r world, unit) prog" where
  "journal_snapshot X entry = (case snd entry of
     [] \<Rightarrow> ret ()
   | a # as \<Rightarrow> bindp (on_db (sync_snapshot_event X (fst entry) (Inr (arg_membership a 0))
         (map (\<lambda>b. arg_membership b 0) as) (label_list X (msg_gmail_labels (arg_row a 0)))))
       (man_append (cx_env X)))"

definition journal_batch :: "'r sync_ctx \<Rightarrow> pending_item list \<Rightarrow> ('r world, batch_notes) prog" where
  "journal_batch X items =
    bindp (foldp (journal_item X) \<lparr>bn_records = [], bn_aliases = []\<rparr> items) (\<lambda>n.
    thenp (forp (journal_snapshot X) (bn_records n))
    (thenp man_sync (ret n)))"

definition store_record :: "'r sync_ctx \<Rightarrow> batch_notes \<Rightarrow> pending_item \<Rightarrow> ('r sync, unit) prog" where
  "store_record X n item = (case pi_record item of
     None \<Rightarrow> ret ()
   | Some a \<Rightarrow> bindp (sync_db (add_message (cx_norm X) a (pi_contents item))) (\<lambda>i.
       thenp (modify (\<lambda>s. s\<lparr>sy_known :=
           ((ma_folder_id a, get_default (ma_uidvalidity a) 0, get_default (ma_uid a) 0), record_of_arg a i) # sy_known s\<rparr>))
         (forp (\<lambda>(canonical, alias). whenp (canonical = ma_source_item_key a)
             (sync_db (add_message_identity_alias (cx_account X) alias i ''gmail_msgid''))) (bn_aliases n))))"

definition store_failure :: "'r sync_ctx \<Rightarrow> pending_item \<Rightarrow> ('r sync, unit) prog" where
  "store_failure X item = (case pi_failure item of
     Some (v, error_class, message) \<Rightarrow>
       (case pi_failure_folder item of
          Some f \<Rightarrow> sync_db (record_failure (cx_account X) f v (pi_uid item) error_class message)
        | None \<Rightarrow> raise (sql_error ''record failure''))
   | None \<Rightarrow>
       (case pi_record item of
          Some a \<Rightarrow> whenp (pi_clear_failure item) (sync_db (clear_failure (cx_account X) (ma_folder_id a)
            (get_default (ma_uidvalidity a) 0) (pi_uid item)))
        | None \<Rightarrow> ret ()))"

definition store_item :: "'r sync_ctx \<Rightarrow> batch_notes \<Rightarrow> pending_item \<Rightarrow> ('r sync, unit) prog" where
  "store_item X n item = thenp (store_record X n item) (store_failure X item)"

text \<open>The cursor a commit moves: the folder, the last seen UID, the next UID of the backfill, and
  whether the first synchronization is complete.\<close>

type_synonym cursor = "int \<times> int option \<times> int option \<times> bool option"

definition sync_checkpoint :: "'r sync_ctx \<Rightarrow> int \<Rightarrow> ('r world, unit) prog" where
  "sync_checkpoint X n = (\<lambda>w. case write_checkpoint (cx_env X) n (cx_uuid X) (w_man w) of (r, m) \<Rightarrow> (r, w\<lparr>w_man := m\<rparr>))"

definition commit_pending :: "'r sync_ctx \<Rightarrow> cursor option \<Rightarrow> ('r sync, unit) prog" where
  "commit_pending X cursor = bindp (gets sy_pending) (\<lambda>items.
    if items = [] \<and> cursor = None then ret ()
    else bindp (on_world (journal_batch X items)) (\<lambda>n.
      thenp (on_world begin_batch)
      (thenp (forp (store_item X n) items)
      (thenp (case cursor of
          None \<Rightarrow> ret ()
        | Some (f, last_seen, backfill, initial) \<Rightarrow> sync_db (update_sync_cursors f last_seen backfill initial))
      (thenp (on_world commit_batch)
      (thenp (modify (\<lambda>s. s\<lparr>sy_pending := [], sy_checkpoint := sy_checkpoint s + 1\<rparr>))
        (bindp (gets sy_checkpoint) (\<lambda>k. on_world (sync_checkpoint X k)))))))))"

section \<open>Fetching one message\<close>

definition oversize_item ::
  "'r sync_ctx \<Rightarrow> int \<Rightarrow> string \<Rightarrow> int \<Rightarrow> message_ref \<Rightarrow> string \<Rightarrow> int \<Rightarrow> ('r sync, pending_item) prog" where
  "oversize_item X folder_id raw uidvalidity ref bytes n =
    bindp (lift_sum (record_for_message X folder_id raw uidvalidity ref (cx_parse X bytes (ref_internal_date ref)) None n)) (\<lambda>a.
    thenp (modify (\<lambda>s. s\<lparr>sy_fetched := sy_fetched s + 1, sy_skipped := sy_skipped s + 1, sy_failed := sy_failed s + 1\<rparr>))
      (ret \<lparr>pi_uid = ref_uid ref, pi_event = Some (skipped_event X raw folder_id uidvalidity ref n),
           pi_record = Some a, pi_failure_folder = None, pi_contents = None,
           pi_failure = Some (uidvalidity, ''oversize'', ''message exceeds configured size limit''),
           pi_clear_failure = False, pi_bytes = int (length bytes)\<rparr>))"

definition place_eml :: "'r sync_ctx \<Rightarrow> message_ref \<Rightarrow> string \<Rightarrow> ('r world, stored_eml) prog" where
  "place_eml X ref bytes =
    (let hash = sha256 (cx_env X) bytes in
     bindp (on_db (find_stored_eml (cx_account X) hash)) (\<lambda>existing.
     bindp (case existing of
         None \<Rightarrow> ret None
       | Some old \<Rightarrow> bindp (gets (\<lambda>w. reuse (cx_env X) (se_relative_path old) hash (w_fs w))) lift_sum) (\<lambda>stored.
     case stored of
       Some st \<Rightarrow> ret st
     | None \<Rightarrow> on_fs (save_eml (cx_env X) (cx_uuid X) (cx_account X) (map_option ut_month (ref_internal_date ref)) bytes))))"

definition fetched_item ::
  "'r sync_ctx \<Rightarrow> int \<Rightarrow> string \<Rightarrow> int \<Rightarrow> message_ref \<Rightarrow> string \<Rightarrow> ('r sync, pending_item) prog" where
  "fetched_item X folder_id raw uidvalidity ref bytes =
    bindp (on_world (place_eml X ref bytes)) (\<lambda>stored.
    let p = cx_parse X bytes (ref_internal_date ref);
        parse_failed = (ps_parse_error p \<noteq> None) in
    bindp (lift_sum (record_for_message X folder_id raw uidvalidity ref p (Some stored) (int (length bytes)))) (\<lambda>a.
    thenp (modify (\<lambda>s. s\<lparr>sy_failed := sy_failed s + (if parse_failed then 1 else 0), sy_fetched := sy_fetched s + 1\<rparr>))
    (bindp (lift_sum (fetch_event X raw folder_id uidvalidity ref p stored (ref_gmail_msgid ref) (ref_gmail_thrid ref)
        (ref_gmail_labels ref))) (\<lambda>ev.
      ret \<lparr>pi_uid = ref_uid ref, pi_event = Some ev, pi_record = Some a, pi_failure_folder = None,
           pi_contents = Some (sync_contents p parse_failed),
           pi_failure = (if parse_failed
             then Some (uidvalidity, ''parse'', the (or_text (ps_parse_error p) (Some ''message parsing failed''))) else None),
           pi_clear_failure = (\<not> parse_failed), pi_bytes = int (length bytes)\<rparr>))))"

definition make_item ::
  "'r sync_ctx \<Rightarrow> int \<Rightarrow> string \<Rightarrow> int \<Rightarrow> message_ref \<Rightarrow> ('r sync, pending_item) prog" where
  "make_item X folder_id raw uidvalidity ref =
    (let n = get_default (ref_size_bytes ref) 0 in
     thenp (modify (\<lambda>s. s\<lparr>sy_estimated := sy_estimated s + n\<rparr>))
     (if n > cx_max_message_bytes X
      then bindp (download_with_retry X (mb_download_headers (cx_mailbox X) raw (ref_uid ref))) (\<lambda>headers.
        bindp (oversize_item X folder_id raw uidvalidity ref headers n) (\<lambda>item.
        thenp (modify (\<lambda>s. s\<lparr>sy_transferred := sy_transferred s + int (length headers)\<rparr>)) (ret item)))
      else bindp (download_with_retry X (mb_download (cx_mailbox X) raw (ref_uid ref))) (\<lambda>bytes.
        thenp (modify (\<lambda>s. s\<lparr>sy_transferred := sy_transferred s + int (length bytes),
            sy_estimated := sy_estimated s + (if ref_size_bytes ref = None then int (length bytes) else 0)\<rparr>))
        (if int (length bytes) > cx_max_message_bytes X
         then oversize_item X folder_id raw uidvalidity ref bytes (int (length bytes))
         else fetched_item X folder_id raw uidvalidity ref bytes))))"

definition fetch_failure :: "int \<Rightarrow> int \<Rightarrow> error \<Rightarrow> pending_item" where
  "fetch_failure uid uidvalidity e =
    \<lparr>pi_uid = uid, pi_event = None, pi_record = None, pi_failure_folder = None, pi_contents = None,
     pi_failure = Some (uidvalidity, (case e of AuthenticationError _ \<Rightarrow> ''auth''
       | _ \<Rightarrow> if is_transient_error e then ''transient'' else ''permanent''), error_text e),
     pi_clear_failure = False, pi_bytes = 0\<rparr>"

fun is_authentication_error :: "error \<Rightarrow> bool" where
  "is_authentication_error (AuthenticationError _) = True"
| "is_authentication_error _ = False"

definition process_ref ::
  "'r sync_ctx \<Rightarrow> int \<Rightarrow> string \<Rightarrow> int \<Rightarrow> message_ref \<Rightarrow> ('r sync, unit) prog" where
  "process_ref X folder_id raw uidvalidity ref =
    thenp (check_cancelled X)
    (bindp (catchp
        (bindp (make_item X folder_id raw uidvalidity ref) (\<lambda>item.
           ret (if pi_failure item \<noteq> None then item\<lparr>pi_failure_folder := Some folder_id\<rparr> else item)))
        (\<lambda>e. if is_authentication_error e then raise e
             else if is_fetch_error e \<or> is_storage_error e
             then thenp (modify (\<lambda>s. s\<lparr>sy_failed := sy_failed s + 1\<rparr>))
               (ret ((fetch_failure (ref_uid ref) uidvalidity e)\<lparr>pi_failure_folder := Some folder_id\<rparr>))
             else raise e))
      (\<lambda>item. modify (\<lambda>s. s\<lparr>sy_pending := sy_pending s @ [item]\<rparr>)))"

section \<open>Ranges and retries\<close>

definition batch_is_full :: "pending_item list \<Rightarrow> bool" where
  "batch_is_full items \<longleftrightarrow> length items \<ge> 100 \<or> sum_list (map pi_bytes items) \<ge> 50 * 1024 * 1024"

definition mark_attempted :: "int \<Rightarrow> ('r sync, unit) prog" where
  "mark_attempted uid = modify (\<lambda>s. s\<lparr>sy_attempted := uid # sy_attempted s\<rparr>)"

definition retry_failure ::
  "'r sync_ctx \<Rightarrow> int \<Rightarrow> string \<Rightarrow> int \<Rightarrow> failure_row \<Rightarrow> ('r sync, unit) prog" where
  "retry_failure X folder_id raw uidvalidity failure =
    bindp (next_ref (mb_iter_message_refs (cx_mailbox X) raw (sf_uid failure) (sf_uid failure))) (\<lambda>ref.
    case ref of
      None \<Rightarrow> ret ()
    | Some r \<Rightarrow>
        thenp (mark_attempted (sf_uid failure))
        (if sf_error_class failure = ''oversize'' \<and> ref_size_bytes r \<noteq> None \<and>
            get_default (ref_size_bytes r) 0 > cx_max_message_bytes X then ret ()
         else thenp (process_ref X folder_id raw uidvalidity r)
           (bindp (gets sy_pending) (\<lambda>items. whenp (batch_is_full items) (commit_pending X None)))))"

definition retry_pending_failures :: "'r sync_ctx \<Rightarrow> int \<Rightarrow> string \<Rightarrow> int \<Rightarrow> ('r sync, unit) prog" where
  "retry_pending_failures X folder_id raw uidvalidity =
    bindp (sync_db (pending_failures (cx_account X) folder_id uidvalidity))
      (forp (retry_failure X folder_id raw uidvalidity))"

text \<open>One reference of a range; the accumulator is the lowest UID since the last commit that moved the
  backfill cursor.\<close>

definition range_step ::
  "'r sync_ctx \<Rightarrow> int \<Rightarrow> string \<Rightarrow> int \<Rightarrow> bool \<Rightarrow> int option \<Rightarrow> message_ref \<Rightarrow> ('r sync, int option) prog" where
  "range_step X folder_id raw uidvalidity history lowest ref =
    bindp (gets sy_attempted) (\<lambda>attempted.
    if ref_uid ref \<in> set attempted then ret lowest
    else thenp (mark_attempted (ref_uid ref))
      (thenp (process_ref X folder_id raw uidvalidity ref)
      (let low = (case lowest of None \<Rightarrow> ref_uid ref | Some u \<Rightarrow> min u (ref_uid ref)) in
       bindp (gets sy_pending) (\<lambda>items.
         if \<not> batch_is_full items then ret (Some low)
         else if history
         then thenp (commit_pending X (Some (folder_id, None, Some (max (low - 1) 0), Some (max (low - 1) 0 = 0)))) (ret None)
         else thenp (commit_pending X None) (ret (Some low))))))"

definition process_range ::
  "'r sync_ctx \<Rightarrow> int \<Rightarrow> string \<Rightarrow> int \<Rightarrow> int \<Rightarrow> int \<Rightarrow> bool \<Rightarrow> ('r sync, int option) prog" where
  "process_range X folder_id raw uidvalidity min_uid max_uid history =
    bindp (sync_remote (mb_iter_message_refs (cx_mailbox X) raw min_uid max_uid)) (\<lambda>(rs, problem).
    bindp (foldp (range_step X folder_id raw uidvalidity history) None rs) (\<lambda>lowest.
      case problem of None \<Rightarrow> ret lowest | Some e \<Rightarrow> raise e))"

end
