(* ===== verification/Sync_Flags.thy ===== *)
theory Sync_Flags
  imports Sync_Mail
begin

text \<open>
  The refresh of the flags and Gmail labels of recent messages, the function \<open>refresh_flags\<close> inside
  \<open>sync_account\<close> (\<^verbatim>\<open>usecases/sync_mail.py\<close>). The start of the window is a text of the context, and so
  is the test whether a stored time is older than the minimum interval.
\<close>

definition valid_sqlite_modseq :: "int option \<Rightarrow> int option" where
  "valid_sqlite_modseq v = (case v of
     None \<Rightarrow> None | Some n \<Rightarrow> if n \<le> 0 \<or> n > 2 ^ 63 - 1 then None else Some n)"

definition flag_seen_at_is_expired :: "'r sync_ctx \<Rightarrow> string option \<Rightarrow> bool" where
  "flag_seen_at_is_expired X v = (case v of None \<Rightarrow> True | Some t \<Rightarrow> t = [] \<or> cx_flags_expired X t)"

text \<open>What the refresh knows of the local messages of the folder, by UID.\<close>

record refresh_item =
  ri_record :: message_record
  ri_flags :: "string option"
  ri_labels :: "string list"
  ri_expired :: bool

definition saved_labels :: "'r sync_ctx \<Rightarrow> string option \<Rightarrow> string list" where
  "saved_labels X text =
    (if text \<in> {None, Some []} then []
     else (case cx_loads X (the text) of
       Some (JList ls) \<Rightarrow> if list_all is_str ls then map (\<lambda>l. case l of JStr t \<Rightarrow> t | _ \<Rightarrow> []) ls else []
     | _ \<Rightarrow> []))"

definition refresh_items :: "'r sync_ctx \<Rightarrow> message_record list \<Rightarrow> (int \<times> refresh_item) list" where
  "refresh_items X rs = [(u, \<lparr>ri_record = r, ri_flags = mf_imap_flags x, ri_labels = saved_labels X (msg_gmail_labels (rec_row r)),
       ri_expired = flag_seen_at_is_expired X (mf_flags_seen_at x)\<rparr>).
     r \<leftarrow> rs, x \<leftarrow> (case rec_membership r of None \<Rightarrow> [] | Some x \<Rightarrow> [x]), u \<leftarrow> (case mf_uid x of None \<Rightarrow> [] | Some u \<Rightarrow> [u])]"

text \<open>The changes that wait for the next write: new flags, unchanged messages to mark as seen, and new
  labels.\<close>

record flag_queue =
  fq_changes :: "(int \<times> string) list"
  fq_touches :: "int list"
  fq_labels :: "(int \<times> string list) list"

definition empty_queue :: flag_queue where
  "empty_queue = \<lparr>fq_changes = [], fq_touches = [], fq_labels = []\<rparr>"

text \<open>The place of the refresh: the folder, its generation and the items.\<close>

record refresh_place =
  rp_folder_id :: int
  rp_uidvalidity :: int
  rp_items :: "(int \<times> refresh_item) list"

section \<open>Writing the changes\<close>

text \<open>The membership of an item as it will be after the change, for the snapshot of its labels.\<close>

definition changed_membership :: "'r sync_ctx \<Rightarrow> flag_queue \<Rightarrow> int \<Rightarrow> membership \<Rightarrow> membership" where
  "changed_membership X q uid x = x\<lparr>mf_imap_flags := (case map_of (fq_changes q) uid of
       Some flags \<Rightarrow> Some flags | None \<Rightarrow> mf_imap_flags x), mf_last_seen_at := Some (now (cx_env X))\<rparr>"

definition label_group ::
  "'r sync_ctx \<Rightarrow> refresh_place \<Rightarrow> flag_queue \<Rightarrow> folder_row list \<Rightarrow> (string \<times> (membership \<times> string list) list) list \<Rightarrow>
   int \<times> string list \<Rightarrow> error + (string \<times> (membership \<times> string list) list) list" where
  "label_group X P q fs groups entry = (case entry of (uid, labels) \<Rightarrow>
     (case (map_of (rp_items P) uid, List.find (\<lambda>f. fld_id f = rp_folder_id P) fs) of
        (Some item, Some f) \<Rightarrow>
          (let k = msg_source_item_key (rec_row (ri_record item));
               v = (case rec_membership (ri_record item) of None \<Rightarrow> [] | Some x \<Rightarrow> [(changed_membership X q uid x, labels)]) in
           Inr (upsert_row fst k (\<lambda>(_, ms). (k, ms @ v)) (k, v) groups))
      | _ \<Rightarrow> Inl (StorageError ''Gmail flag refresh lacks membership identity'')))"

definition label_snapshot :: "'r sync_ctx \<Rightarrow> string \<times> (membership \<times> string list) list \<Rightarrow> ('r world, unit) prog" where
  "label_snapshot X g = (case snd g of
     [] \<Rightarrow> ret ()
   | (x, labels) # rest \<Rightarrow> bindp (on_db (sync_snapshot_event X (fst g) (Inr x) (map fst rest) (Some (map JStr labels))))
       (man_append (cx_env X)))"

definition journal_labels :: "'r sync_ctx \<Rightarrow> refresh_place \<Rightarrow> flag_queue \<Rightarrow> ('r world, unit) prog" where
  "journal_labels X P q =
    bindp (on_db (list_folders (cx_account X))) (\<lambda>fs.
    bindp (foldp (\<lambda>groups entry. lift_sum (label_group X P q fs groups entry)) [] (fq_labels q)) (\<lambda>groups.
    thenp (forp (label_snapshot X) groups) (whenp (fq_labels q \<noteq> []) man_sync)))"

definition write_queue :: "'r sync_ctx \<Rightarrow> refresh_place \<Rightarrow> flag_queue \<Rightarrow> ('r world, unit) prog" where
  "write_queue X P q =
    thenp begin_batch
    (thenp (forp (\<lambda>(uid, flags). on_db (update_flags (cx_account X) (rp_folder_id P) (rp_uidvalidity P) uid (Some flags)
        (now (cx_env X)))) (fq_changes q))
    (thenp (whenp (fq_touches q \<noteq> []) (on_db (touch_flags_seen_at (cx_account X) (rp_folder_id P) (rp_uidvalidity P)
        (fq_touches q) (now (cx_env X)))))
    (thenp (forp (\<lambda>(uid, labels). case map_of (rp_items P) uid of
        None \<Rightarrow> ret ()
      | Some item \<Rightarrow> on_db (update_gmail_labels (msg_id (rec_row (ri_record item))) (cx_dumps X labels))) (fq_labels q))
     commit_batch)))"

definition flush_flag_updates :: "'r sync_ctx \<Rightarrow> refresh_place \<Rightarrow> flag_queue \<Rightarrow> ('r world, flag_queue) prog" where
  "flush_flag_updates X P q =
    (if q = empty_queue then ret q
     else thenp (whenp (cx_google X) (journal_labels X P q)) (thenp (write_queue X P q) (ret empty_queue)))"

section \<open>Collecting the changes\<close>

definition flush_if_large :: "'r sync_ctx \<Rightarrow> refresh_place \<Rightarrow> flag_queue \<Rightarrow> ('r world, flag_queue) prog" where
  "flush_if_large X P q =
    (if length (fq_changes q) + length (fq_touches q) + length (fq_labels q) \<ge> 500
     then flush_flag_updates X P q else ret q)"

definition labels_differ :: "'r sync_ctx \<Rightarrow> refresh_place \<Rightarrow> int \<Rightarrow> string list option \<Rightarrow> bool" where
  "labels_differ X P uid labels = (case labels of
     None \<Rightarrow> False
   | Some ls \<Rightarrow> cx_google X \<and> sort ls \<noteq> sort (case map_of (rp_items P) uid of None \<Rightarrow> [] | Some i \<Rightarrow> ri_labels i))"

definition queue_update ::
  "'r sync_ctx \<Rightarrow> refresh_place \<Rightarrow> int \<Rightarrow> string \<Rightarrow> string list option \<Rightarrow> flag_queue \<Rightarrow> ('r world, flag_queue) prog" where
  "queue_update X P uid flags labels q =
    flush_if_large X P (q\<lparr>fq_changes := fq_changes q @ [(uid, flags)],
      fq_labels := (if labels_differ X P uid labels
        then upsert_row fst uid (\<lambda>_. (uid, the labels)) (uid, the labels) (fq_labels q) else fq_labels q)\<rparr>)"

definition queue_touch :: "'r sync_ctx \<Rightarrow> refresh_place \<Rightarrow> int \<Rightarrow> flag_queue \<Rightarrow> ('r world, flag_queue) prog" where
  "queue_touch X P uid q = flush_if_large X P (q\<lparr>fq_touches := fq_touches q @ [uid]\<rparr>)"

text \<open>One reference: the accumulator is the queue and the UIDs answered so far. A full refresh compares
  with the stored flags, the others write what the server sent.\<close>

definition flag_step ::
  "'r sync_ctx \<Rightarrow> refresh_place \<Rightarrow> bool \<Rightarrow> flag_queue \<times> int list \<Rightarrow> message_ref \<Rightarrow> ('r sync, flag_queue \<times> int list) prog" where
  "flag_step X P compare acc ref = (case acc of (q, answered) \<Rightarrow>
     thenp (check_cancelled X)
     (case map_of (rp_items P) (ref_uid ref) of
        None \<Rightarrow> ret (q, answered)
      | Some item \<Rightarrow>
          (let flags = join_with (CHR '' '') (ref_flags ref) in
           bindp (on_world (if compare \<and> ri_flags item = Some flags \<and>
                \<not> labels_differ X P (ref_uid ref) (ref_gmail_labels ref)
               then queue_touch X P (ref_uid ref) q
               else queue_update X P (ref_uid ref) flags (ref_gmail_labels ref) q))
             (\<lambda>q'. ret (q', ref_uid ref # answered)))))"

definition collect_flags ::
  "'r sync_ctx \<Rightarrow> refresh_place \<Rightarrow> bool \<Rightarrow> ('r, refs) prog \<Rightarrow> ('r sync, flag_queue \<times> int list) prog" where
  "collect_flags X P compare iter =
    bindp (sync_remote iter) (\<lambda>(rs, problem).
    bindp (foldp (flag_step X P compare) (empty_queue, []) rs) (\<lambda>acc.
    thenp (case problem of None \<Rightarrow> ret () | Some e \<Rightarrow> raise e)
    (thenp (check_cancelled X) (ret acc))))"

definition set_modseq_batch :: "int \<Rightarrow> int option \<Rightarrow> ('r world, unit) prog" where
  "set_modseq_batch folder_id v =
     thenp begin_batch (thenp (on_db (set_highest_modseq folder_id v)) commit_batch)"

section \<open>The refresh\<close>

definition refresh_baseline :: "'r sync_ctx \<Rightarrow> refresh_place \<Rightarrow> string \<Rightarrow> int option \<Rightarrow> ('r sync, unit) prog" where
  "refresh_baseline X P raw current =
    bindp (collect_flags X P False (mb_iter_flags (cx_mailbox X) raw (sort (remdups (map fst (rp_items P)))))) (\<lambda>(q, _).
    thenp (on_world (flush_flag_updates X P q))
      (whenp (current \<noteq> None) (on_world (set_modseq_batch (rp_folder_id P) current))))"

definition refresh_changed :: "'r sync_ctx \<Rightarrow> refresh_place \<Rightarrow> string \<Rightarrow> int \<Rightarrow> int option \<Rightarrow> int list \<Rightarrow> ('r sync, unit) prog" where
  "refresh_changed X P raw saved current expired =
    bindp (collect_flags X P False (mb_iter_flags_since (cx_mailbox X) raw saved)) (\<lambda>(q, answered).
    bindp (on_world (foldp (\<lambda>q uid. queue_touch X P uid q) q
        (sort (filter (\<lambda>u. u \<notin> set answered) expired)))) (\<lambda>q'.
    thenp (on_world (flush_flag_updates X P q'))
      (whenp (current \<noteq> None) (on_world (set_modseq_batch (rp_folder_id P) current)))))"

definition refresh_expired :: "'r sync_ctx \<Rightarrow> refresh_place \<Rightarrow> string \<Rightarrow> bool \<Rightarrow> int option \<Rightarrow> int list \<Rightarrow> ('r sync, unit) prog" where
  "refresh_expired X P raw use_condstore saved expired =
    bindp (collect_flags X P True (mb_iter_flags (cx_mailbox X) raw (sort expired))) (\<lambda>(q, _).
    thenp (on_world (flush_flag_updates X P q))
      (whenp (\<not> use_condstore \<and> saved \<noteq> None) (on_world (set_modseq_batch (rp_folder_id P) None))))"

text \<open>The stored \<^verbatim>\<open>highest_modseq\<close> is the one the run read with the folder.\<close>

definition refresh_flags ::
  "'r sync_ctx \<Rightarrow> folder_row \<Rightarrow> int \<Rightarrow> bool \<Rightarrow> ('r sync, unit) prog" where
  "refresh_flags X folder uidvalidity initial_completed =
    (if \<not> cx_flag_refresh X \<or> \<not> initial_completed then ret ()
     else bindp (sync_db (list_flag_refresh_items (cx_account X) (fld_id folder) uidvalidity (cx_flags_since X))) (\<lambda>rows.
       let P = \<lparr>rp_folder_id = fld_id folder, rp_uidvalidity = uidvalidity, rp_items = refresh_items X rows\<rparr>;
           expired = remdups (map fst (filter (ri_expired \<circ> snd) (rp_items P)));
           raw = fld_raw_name folder in
       bindp (sync_remote (mb_highest_modseq (cx_mailbox X))) (\<lambda>reported.
       let current = valid_sqlite_modseq reported;
           saved = valid_sqlite_modseq (fld_highest_modseq folder);
           use_condstore = (mb_condstore (cx_mailbox X) \<and> current \<noteq> None);
           ahead = (case (saved, current) of (Some s, Some c) \<Rightarrow> s > c | _ \<Rightarrow> False) in
       if expired = []
       then whenp (fld_highest_modseq folder \<noteq> None \<and> (\<not> use_condstore \<or> saved = None \<or> ahead))
         (on_world (set_modseq_batch (fld_id folder) None))
       else if use_condstore \<and> (saved = None \<or> ahead) then refresh_baseline X P raw current
       else (case saved of
           Some s \<Rightarrow> if use_condstore then refresh_changed X P raw s current expired
             else refresh_expired X P raw use_condstore saved expired
         | None \<Rightarrow> refresh_expired X P raw use_condstore saved expired))))"

end
