(* ===== verification/Sync_Run.thy ===== *)
theory Sync_Run
  imports Sync_Flags
begin

text \<open>
  The run of \<open>sync_account\<close> (\<^verbatim>\<open>usecases/sync_mail.py\<close>): one folder, the detection of deletions and
  moves, the whole account, and \<open>force_fetch_message\<close>. The generation that a folder record gets from
  the server is kept in \<open>sy_generation\<close>; the table with one membership per message and folder is the
  only schema modelled.
\<close>

section \<open>One folder\<close>

definition start_folder :: "('r sync, unit) prog" where
  "start_folder = modify (\<lambda>s. s\<lparr>sy_pending := [], sy_attempted := []\<rparr>)"

definition current_attrs :: "folder_row \<Rightarrow> int \<Rightarrow> folder_attrs" where
  "current_attrs folder v = (attrs_of_row folder)\<lparr>at_uidvalidity := Some v\<rparr>"

text \<open>The cursors a run starts from: the last seen UID, the next UID of the backfill, and whether the
  first synchronization is complete.\<close>

definition open_cursors :: "'r sync_ctx \<Rightarrow> folder_row \<Rightarrow> int \<Rightarrow> ('r sync, int \<times> int \<times> bool) prog" where
  "open_cursors X folder v =
    (if fld_uidvalidity folder \<noteq> Some v
     then bindp (sync_remote (mb_get_max_uid (cx_mailbox X) (fld_raw_name folder))) (\<lambda>max_uid.
       thenp (on_world (thenp begin_batch
         (thenp (on_db (initialize_sync_cursors (fld_id folder) v max_uid))
         (thenp commit_batch
         (thenp (man_append (cx_env X) (folder_snapshot_event (cx_env X) (cx_account X) (current_attrs folder v)))
          man_sync)))))
       (ret (max_uid, max_uid, max_uid = 0)))
     else (case fld_backfill_next_uid folder of
         Some u \<Rightarrow> ret (fld_last_seen_uid folder, u, fld_initial_sync_completed folder)
       | None \<Rightarrow> bindp (sync_remote (mb_get_max_uid (cx_mailbox X) (fld_raw_name folder))) (\<lambda>u.
           thenp (on_world (thenp begin_batch
             (thenp (on_db (update_sync_cursors (fld_id folder) None (Some u) (Some (fld_initial_sync_completed folder))))
              commit_batch)))
           (ret (fld_last_seen_uid folder, u, fld_initial_sync_completed folder)))))"

definition sync_new :: "'r sync_ctx \<Rightarrow> folder_row \<Rightarrow> int \<Rightarrow> int \<Rightarrow> ('r sync, int) prog" where
  "sync_new X folder v last_seen =
    bindp (sync_remote (mb_get_max_uid (cx_mailbox X) (fld_raw_name folder))) (\<lambda>new_max.
    if new_max > last_seen
    then thenp (process_range X (fld_id folder) (fld_raw_name folder) v (last_seen + 1) new_max False)
      (thenp (commit_pending X (Some (fld_id folder, Some new_max, None, None))) (ret new_max))
    else ret last_seen)"

definition sync_history :: "'r sync_ctx \<Rightarrow> folder_row \<Rightarrow> int \<Rightarrow> int \<Rightarrow> bool \<Rightarrow> ('r sync, bool) prog" where
  "sync_history X folder v backfill initial =
    (if \<not> initial \<and> backfill > 0
     then bindp (process_range X (fld_id folder) (fld_raw_name folder) v 1 backfill True) (\<lambda>lowest.
       let cursor = (case lowest of None \<Rightarrow> 0 | Some u \<Rightarrow> max (u - 1) 0) in
       bindp (gets sy_pending) (\<lambda>items.
       thenp (if items \<noteq> [] then commit_pending X (Some (fld_id folder, None, Some cursor, Some (cursor = 0)))
              else whenp (lowest = None) (on_world (thenp begin_batch
                (thenp (on_db (update_sync_cursors (fld_id folder) None (Some 0) (Some True))) commit_batch))))
         (ret (cursor = 0))))
     else ret initial)"

definition commit_leftover :: "'r sync_ctx \<Rightarrow> ('r sync, unit) prog" where
  "commit_leftover X = bindp (gets sy_pending) (\<lambda>items. whenp (items \<noteq> []) (commit_pending X None))"

definition sync_catchup :: "'r sync_ctx \<Rightarrow> folder_row \<Rightarrow> int \<Rightarrow> int \<Rightarrow> ('r sync, unit) prog" where
  "sync_catchup X folder v last_seen =
    bindp (sync_remote (mb_get_max_uid (cx_mailbox X) (fld_raw_name folder))) (\<lambda>catchup_max.
    if catchup_max > last_seen
    then thenp (process_range X (fld_id folder) (fld_raw_name folder) v (last_seen + 1) catchup_max False)
      (commit_pending X (Some (fld_id folder, Some catchup_max, None, None)))
    else commit_leftover X)"

definition refresh_flags_quietly :: "'r sync_ctx \<Rightarrow> folder_row \<Rightarrow> int \<Rightarrow> bool \<Rightarrow> ('r sync, unit) prog" where
  "refresh_flags_quietly X folder v initial =
    catchp (refresh_flags X folder v initial)
      (\<lambda>e. if \<not> is_authentication_error e \<and> is_fetch_error e then ret () else raise e)"

definition sync_contents_of :: "'r sync_ctx \<Rightarrow> folder_row \<Rightarrow> int \<Rightarrow> int \<times> int \<times> bool \<Rightarrow> ('r sync, unit) prog" where
  "sync_contents_of X folder v cursors = (case cursors of (last_seen, backfill, initial) \<Rightarrow>
     thenp (retry_pending_failures X (fld_id folder) (fld_raw_name folder) v)
     (bindp (sync_new X folder v last_seen) (\<lambda>last_seen'.
      bindp (sync_history X folder v backfill initial) (\<lambda>initial'.
      thenp (sync_catchup X folder v last_seen')
        (refresh_flags_quietly X folder v initial')))))"

text \<open>Returns whether the run was cancelled.\<close>

definition sync_folder :: "'r sync_ctx \<Rightarrow> folder_row \<Rightarrow> ('r sync, bool) prog" where
  "sync_folder X folder =
    bindp (sync_remote (mb_select_folder (cx_mailbox X) (fld_raw_name folder))) (\<lambda>v.
    thenp (modify (\<lambda>s. s\<lparr>sy_generation := (fld_id folder, v) # sy_generation s\<rparr>))
    (bindp (open_cursors X folder v) (\<lambda>cursors.
     thenp start_folder
     (catchp (thenp (sync_contents_of X folder v cursors) (ret False))
        (\<lambda>e. if e = OperationCancelledError then thenp (commit_leftover X) (ret True)
             else if is_authentication_error e then thenp (commit_leftover X) (raise e)
             else raise e)))))"

text \<open>The folders in turn: the folders scanned to the end, or \<open>None\<close> after a cancellation.\<close>

definition scan_step :: "'r sync_ctx \<Rightarrow> int list option \<Rightarrow> folder_row \<Rightarrow> ('r sync, int list option) prog" where
  "scan_step X scanned folder = (case scanned of
     None \<Rightarrow> ret None
   | Some ids \<Rightarrow>
       catchp (bindp (sync_folder X folder) (\<lambda>cancelled.
           ret (if cancelled then None else Some (fld_id folder # ids))))
         (\<lambda>e. if \<not> is_authentication_error e \<and> is_fetch_error e then ret (Some ids) else raise e))"

section \<open>Deletions and moves\<close>

text \<open>One outcome of the detection, staged for the durable write order.\<close>

record move_state =
  mv_message_id :: int
  mv_folder_id :: int
  mv_moved_to :: "int option"
  mv_event :: event
  mv_record :: message_record
  mv_remove_membership :: bool
  mv_merge_candidate :: "message_record option"

definition known_key :: "message_record \<Rightarrow> (int \<times> int \<times> int) option" where
  "known_key r = (case rec_membership r of
     None \<Rightarrow> None
   | Some x \<Rightarrow> (case (mf_uidvalidity x, mf_uid x) of
       (Some v, Some u) \<Rightarrow> Some (mf_folder_id x, v, u) | _ \<Rightarrow> None))"

definition get_local_message :: "'r sync_ctx \<Rightarrow> int \<Rightarrow> int \<Rightarrow> int \<Rightarrow> ('r sync, message_record option) prog" where
  "get_local_message X folder_id v uid =
    bindp (gets (\<lambda>s. map_of (sy_known s) (folder_id, v, uid))) (\<lambda>known.
    case known of
      Some r \<Rightarrow> ret (Some r)
    | None \<Rightarrow> sync_db (get_message_by_uid (cx_account X) folder_id v uid))"

text \<open>A candidate that was fetched in this run, in a folder scanned to the end.\<close>

definition fresh_candidate :: "int list \<Rightarrow> ((int \<times> int \<times> int) \<times> message_record) list \<Rightarrow> message_record \<Rightarrow> bool" where
  "fresh_candidate scanned known r = (case known_key r of
     None \<Rightarrow> False
   | Some k \<Rightarrow> fst k \<in> set scanned \<and> k \<in> fst ` set known)"

definition merge_candidate ::
  "'r sync_ctx \<Rightarrow> int list \<Rightarrow> ((int \<times> int \<times> int) \<times> message_record) list \<Rightarrow> int \<Rightarrow> string option \<Rightarrow>
   message_record list \<Rightarrow> message_record option" where
  "merge_candidate X scanned known folder_id hash candidates =
    (if \<not> cx_google X \<and> hash \<noteq> None \<and> folder_id \<in> set scanned
     then (case filter (fresh_candidate scanned known) candidates of [r] \<Rightarrow> Some r | _ \<Rightarrow> None)
     else None)"

definition detection_name :: "'r sync_ctx \<Rightarrow> message_record option \<Rightarrow> string option \<Rightarrow> message_record list \<Rightarrow> string" where
  "detection_name X merge hash candidates =
    (if merge \<noteq> None then ''moved''
     else if cx_google X \<or> candidates = [] \<and> hash \<noteq> None then ''delete_detected''
     else ''remote_state_unknown'')"

definition detection_event ::
  "'r sync_ctx \<Rightarrow> string \<Rightarrow> string \<Rightarrow> int \<Rightarrow> int \<Rightarrow> string \<Rightarrow> message_row \<Rightarrow> string option \<Rightarrow> event" where
  "detection_event X name raw uid v key m moved_to =
     [(''event'', JStr name), (''account_id'', JStr (cx_account X)), (''folder_raw_name'', JStr raw),
      (''uid'', JInt uid), (''uidvalidity'', JInt v), (''source_item_key'', JStr key),
      (''message_id'', opt_str (msg_message_id m)), (''content_key'', JStr (msg_content_key m)),
      (''file_hash'', opt_str (msg_file_hash m)), (''timestamp'', JStr (now (cx_env X)))] @
     (case moved_to of None \<Rightarrow> [] | Some n \<Rightarrow> [(''moved_to_folder_raw_name'', JStr n)])"

definition move_candidates :: "'r sync_ctx \<Rightarrow> message_row \<Rightarrow> int \<Rightarrow> (db, message_record list) prog" where
  "move_candidates X m folder_id = (case msg_file_hash m of
     None \<Rightarrow> ret []
   | Some h \<Rightarrow> bindp (find_move_candidates (cx_account X) (msg_content_key m) (Some h) folder_id) (\<lambda>rs.
       ret (filter (\<lambda>r. msg_content_key (rec_row r) = msg_content_key m \<and> msg_file_hash (rec_row r) = Some h) rs)))"

text \<open>The detection for one UID that the server no longer has.\<close>

definition detect_uid ::
  "'r sync_ctx \<Rightarrow> folder_row list \<Rightarrow> int list \<Rightarrow> folder_row \<Rightarrow> int \<Rightarrow> move_state list \<Rightarrow> int \<Rightarrow>
   ('r sync, move_state list) prog" where
  "detect_uid X targets scanned folder v found uid =
    bindp (get_local_message X (fld_id folder) v uid) (\<lambda>local.
    case local of
      None \<Rightarrow> ret found
    | Some r \<Rightarrow>
        (let m = rec_row r in
         bindp (sync_db (move_candidates X m (fld_id folder))) (\<lambda>candidates.
         bindp (gets sy_known) (\<lambda>known.
         let merge = merge_candidate X scanned known (fld_id folder) (msg_file_hash m) candidates;
             moved_to = Option.bind merge (\<lambda>c. map_option mf_folder_id (rec_membership c));
             moved_name = Option.bind moved_to
               (\<lambda>i. map_option fld_raw_name (List.find (\<lambda>f. fld_id f = i) targets)) in
         bindp (if msg_source_item_key m \<noteq> [] then ret (msg_source_item_key m)
                else lift_sum (remote_source_item_key (fld_raw_name folder) v uid None)) (\<lambda>key.
         ret (found @ [\<lparr>mv_message_id = msg_id m, mv_folder_id = fld_id folder, mv_moved_to = moved_to,
            mv_event = detection_event X (detection_name X merge (msg_file_hash m) candidates)
              (fld_raw_name folder) uid v key m moved_name,
            mv_record = r, mv_remove_membership = cx_google X, mv_merge_candidate = merge\<rparr>]))))))"

definition journal_detail :: "'r sync_ctx \<Rightarrow> move_state \<Rightarrow> ('r world, unit) prog" where
  "journal_detail X t =
    (let m = rec_row (mv_record t); labels = label_list X (msg_gmail_labels m) in
     if mv_remove_membership t
     then bindp (on_db (sync_snapshot_event X (msg_source_item_key m) (Inl (mv_folder_id t)) [] labels)) (man_append (cx_env X))
     else (case (mv_merge_candidate t, rec_membership (mv_record t)) of
         (Some c, Some x) \<Rightarrow>
           thenp (man_append (cx_env X) (identity_event X (msg_source_item_key m) (msg_source_item_key (rec_row c))
              ''file_hash_move'' (msg_file_hash (rec_row c))))
           (bindp (on_db (sync_snapshot_event X (msg_source_item_key m)
              (Inr (x\<lparr>mf_remote_state := RemoteMoved, mf_moved_to := mv_moved_to t\<rparr>))
              (case rec_membership c of None \<Rightarrow> [] | Some y \<Rightarrow> [y]) labels)) (man_append (cx_env X)))
       | _ \<Rightarrow> ret ()))"

definition detection_state :: "json \<Rightarrow> remote_state" where
  "detection_state name =
    (if name = JStr ''delete_detected'' then RemoteDeleted
     else if name = JStr ''remote_state_unknown'' then RemoteUnknown else RemoteMoved)"

definition apply_state :: "'r sync_ctx \<Rightarrow> move_state \<Rightarrow> (db, unit) prog" where
  "apply_state X t =
    (if mv_remove_membership t
     then (case jget (mv_event t) ''source_item_key'' of
         JStr key \<Rightarrow>
           if key = [] then raise (StorageError ''Gmail membership removal has no canonical source key'')
           else bindp (list_message_memberships (cx_account X) key) (\<lambda>ms.
             replace_message_memberships (mv_message_id t)
               (filter (\<lambda>x. mf_folder_id x \<noteq> mv_folder_id t) (map mv_membership ms)))
       | _ \<Rightarrow> raise (StorageError ''Gmail membership removal has no canonical source key''))
     else (case mv_merge_candidate t of
         Some c \<Rightarrow>
           thenp (merge_duplicate_message (cx_account X) (mv_message_id t) (msg_id (rec_row c)))
             (update_remote_state (mv_message_id t) RemoteMoved (mv_moved_to t) (Some (mv_folder_id t)))
       | None \<Rightarrow> update_remote_state (mv_message_id t) (detection_state (jget (mv_event t) ''event''))
           (mv_moved_to t) (Some (mv_folder_id t))))"

definition commit_states :: "'r sync_ctx \<Rightarrow> move_state list \<Rightarrow> ('r world, unit) prog" where
  "commit_states X ts =
    (if ts = [] then ret ()
     else thenp (forp (\<lambda>t. man_append (cx_env X) (mv_event t)) ts)
      (thenp (forp (journal_detail X) ts)
      (thenp man_sync
      (thenp begin_batch
      (thenp (forp (\<lambda>t. on_db (apply_state X t)) ts) commit_batch)))))"

text \<open>The generation of a folder record: what the server answered in this run, else the stored one,
  else 0.\<close>

definition folder_generation :: "'r sync \<Rightarrow> folder_row \<Rightarrow> int" where
  "folder_generation s folder = (case map_of (sy_generation s) (fld_id folder) of
     Some v \<Rightarrow> v | None \<Rightarrow> get_default (fld_uidvalidity folder) 0)"

definition detect_folder :: "'r sync_ctx \<Rightarrow> folder_row list \<Rightarrow> int list \<Rightarrow> folder_row \<Rightarrow> ('r sync, unit) prog" where
  "detect_folder X targets scanned folder =
    bindp (gets (\<lambda>s. folder_generation s folder)) (\<lambda>v.
    bindp (catchp (bindp (sync_remote (mb_list_existing_uids (cx_mailbox X) (fld_raw_name folder))) (\<lambda>us. ret (Some us)))
        (\<lambda>e. if is_fetch_error e then ret None else raise e)) (\<lambda>remote.
    case remote of
      None \<Rightarrow> ret ()
    | Some uids \<Rightarrow>
        bindp (sync_db (local_uids (cx_account X) (fld_id folder) v)) (\<lambda>local.
        bindp (foldp (detect_uid X targets scanned folder v) [] (sort (remdups (filter (\<lambda>u. u \<notin> set uids) local))))
          (\<lambda>ts. on_world (commit_states X ts)))))"

section \<open>The account\<close>

record sync_result =
  sr_fetched_count :: int
  sr_transferred_bytes :: int
  sr_skipped_count :: int
  sr_failed_count :: int
  sr_cancelled :: bool

definition sync_result_of :: "bool \<Rightarrow> 'r sync \<Rightarrow> sync_result" where
  "sync_result_of cancelled s = \<lparr>sr_fetched_count = sy_fetched s, sr_transferred_bytes = sy_transferred s,
     sr_skipped_count = sy_skipped s, sr_failed_count = sy_failed s, sr_cancelled = cancelled\<rparr>"

definition fresh_sync :: "'r world \<Rightarrow> int \<Rightarrow> 'r sync" where
  "fresh_sync w checkpoint = \<lparr>sy_world = w, sy_fetched = 0, sy_transferred = 0, sy_skipped = 0, sy_failed = 0,
     sy_estimated = 0, sy_known = [], sy_checkpoint = checkpoint, sy_pending = [], sy_attempted = [], sy_generation = []\<rparr>"

definition sync_targets :: "'r sync_ctx \<Rightarrow> folder_row list \<Rightarrow> ('r sync, sync_result) prog" where
  "sync_targets X targets =
    bindp (foldp (scan_step X) (Some []) targets) (\<lambda>scanned.
    case scanned of
      None \<Rightarrow> gets (sync_result_of True)
    | Some ids \<Rightarrow> thenp (forp (detect_folder X targets ids) targets) (gets (sync_result_of False)))"

text \<open>Whether the account is a Google account is read from the account table; the context is the one
  of the caller with that field set.\<close>

definition is_google_account :: "string \<Rightarrow> account_row list \<Rightarrow> bool" where
  "is_google_account account rows \<longleftrightarrow>
     (\<exists>a\<in>set rows. acc_id a = account \<and> acc_oauth_provider a = Some ''google'')"

definition sync_account :: "'r sync_ctx \<Rightarrow> ('r world, sync_result) prog" where
  "sync_account X =
    thenp (on_db (ensure_imap_account (cx_account X)))
    (bindp (on_db list_accounts) (\<lambda>rows.
     bindp (on_db (list_sync_targets (cx_account X))) (\<lambda>targets.
     bindp (gets (\<lambda>w. man_seq (w_man w))) (\<lambda>seq w.
       case sync_targets (X\<lparr>cx_google := is_google_account (cx_account X) rows\<rparr>) targets
              (fresh_sync w (get_default seq 0)) of
         (res, s) \<Rightarrow> (res, sy_world s)))))"

section \<open>Fetching one message without the size limit\<close>

definition store_forced :: "'r sync_ctx \<Rightarrow> int \<Rightarrow> int \<Rightarrow> int \<Rightarrow> parsed_message \<Rightarrow> message_arg \<Rightarrow> ('r world, unit) prog" where
  "store_forced X folder_id v uid p a =
    thenp begin_batch
    (thenp (on_db (add_message (cx_norm X) a (Some (sync_contents p (ps_parse_error p \<noteq> None)))))
    (thenp (case ps_parse_error p of
         Some text \<Rightarrow> on_db (record_failure (cx_account X) folder_id v uid ''parse''
           (the (or_text (Some text) (Some ''message parsing failed''))))
       | None \<Rightarrow> on_db (clear_failure (cx_account X) folder_id v uid))
     commit_batch))"

definition force_fetch_message :: "'r sync_ctx \<Rightarrow> string \<Rightarrow> int \<Rightarrow> int \<Rightarrow> int \<Rightarrow> ('r world, sync_result) prog" where
  "force_fetch_message X raw folder_id v uid =
    (let mb = cx_mailbox X in
     thenp (on_remote (raise_if_cancelled (mb_cancelled mb)))
     (bindp (on_remote (mb_select_folder mb raw)) (\<lambda>current.
      if current \<noteq> v then raise (PermanentError ''message UIDVALIDITY has changed; run synchronization again'')
      else bindp (on_remote (mb_iter_message_refs mb raw uid uid)) (\<lambda>(rs, problem).
       case rs of
         [] \<Rightarrow> raise (get_default problem (PermanentError ''message no longer exists on the server''))
       | ref # _ \<Rightarrow>
          bindp (on_remote (with_retry (mb_cancelled mb) (mb_wait mb) 3 1 60 (mb_download mb raw uid))) (\<lambda>bytes.
          thenp (on_remote (raise_if_cancelled (mb_cancelled mb)))
          (bindp (place_eml X ref bytes) (\<lambda>stored.
           let p = cx_parse X bytes (ref_internal_date ref) in
           bindp (lift_sum (record_for_message X folder_id raw v ref p (Some stored) (int (length bytes)))) (\<lambda>a.
           bindp (lift_sum (fetch_event X raw folder_id v ref p stored None None None)) (\<lambda>ev.
           thenp (man_append (cx_env X) ev)
           (thenp man_sync
           (thenp (store_forced X folder_id v uid p a)
           (bindp (gets (\<lambda>w. man_seq (w_man w))) (\<lambda>seq.
            thenp (sync_checkpoint X (get_default seq 0 + 1))
              (ret \<lparr>sr_fetched_count = 1, sr_transferred_bytes = int (length bytes), sr_skipped_count = 0,
                    sr_failed_count = (if ps_parse_error p \<noteq> None then 1 else 0), sr_cancelled = False\<rparr>))))))))))))))"

end
