(* ===== verification/Sync_Inv.thy ===== *)
theory Sync_Inv
  imports Sync_Run
begin

text \<open>
  What a synchronization keeps, whatever it meets. The locale \<open>sync_keeper\<close> states what the
  synchronization relies on for a condition that relates the durable records of the manifest and the
  database: records only add to it, and so do the methods of the repository it calls, a message being
  stored only after its record is durable. Inside the locale every step of \<^const>\<open>sync_account\<close> keeps
  the condition, the manifest, the stored files and the history of irrevocable effects.
\<close>

section \<open>Stored files\<close>

text \<open>The name of a stored file identifies its digest.\<close>

definition names_identify :: "env \<Rightarrow> bool" where
  "names_identify E \<longleftrightarrow> (\<forall>x y. take 32 (sha256 E x) = take 32 (sha256 E y) \<longrightarrow> sha256 E x = sha256 E y)"

text \<open>A file below \<^verbatim>\<open>eml/\<close> that has the name of its digest.\<close>

definition intact_file :: "env \<Rightarrow> fs \<Rightarrow> string list \<Rightarrow> string \<Rightarrow> bool" where
  "intact_file E f p b \<longleftrightarrow> fs_lookup f p = Some b \<and> p \<noteq> [] \<and> hd p = ''eml'' \<and> last p = eml_name (sha256 E b)"

definition files_kept :: "env \<Rightarrow> fs \<Rightarrow> fs \<Rightarrow> bool" where
  "files_kept E f0 f \<longleftrightarrow> (\<forall>p b. intact_file E f0 p b \<longrightarrow> fs_lookup f p = Some b)"

lemma eml_name_inj: "eml_name h = eml_name h' \<Longrightarrow> take 32 h = take 32 h'"
  by (simp add: eml_name_def)

lemma files_kept_write:
  assumes "names_identify E" and "files_kept E f0 f" and "h = sha256 E raw"
    and "\<And>b. fs_lookup f (eml_destination a d h) = Some b \<Longrightarrow> sha256 E b \<noteq> h"
  shows "files_kept E f0 (fs_replace [''tmp'', t] (eml_destination a d h) (fs_write [''tmp'', t] raw f))"
proof -
  have "fs_lookup (fs_replace [''tmp'', t] (eml_destination a d h) (fs_write [''tmp'', t] raw f)) p = Some b"
    if i: "intact_file E f0 p b" for p b
  proof -
    have p: "fs_lookup f p = Some b" using assms(2) i by (simp add: files_kept_def)
    have "p \<noteq> [''tmp'', t]" using i by (auto simp: intact_file_def)
    moreover have "p \<noteq> eml_destination a d h"
    proof
      assume e: "p = eml_destination a d h"
      with i have "eml_name h = eml_name (sha256 E b)" by (simp add: intact_file_def eml_destination_def)
      then have "sha256 E b = h"
        using assms(1,3) by (metis eml_name_inj names_identify_def)
      with e p assms(4) show False by simp
    qed
    ultimately show ?thesis using p by (subst fs_lookup_replace [where b = raw]) (auto simp: eml_destination_def)
  qed
  then show ?thesis by (simp add: files_kept_def)
qed

lemma keeps_files_save:
  assumes "names_identify E"
  shows "keeps (files_kept E f0) (save_eml E uuid account date raw)"
proof -
  have "files_kept E f0 (snd (save_eml E uuid account date raw f))" if "files_kept E f0 f" for f
    using that
    by (auto simp: save_eml_def Let_def run_bind run_then intro!: files_kept_write [OF assms]
        split: sum.split option.split)
  then show ?thesis by (simp add: keeps_def)
qed

section \<open>Records of stored messages\<close>

text \<open>The path and hash a record argument writes, and the fetch record that names them.\<close>

definition stored_pair :: "message_arg \<Rightarrow> string option \<times> string option" where
  "stored_pair a = (msg_relative_path (arg_row a 0), msg_file_hash (arg_row a 0))"

definition sets_pair :: "message_arg \<Rightarrow> bool" where
  "sets_pair a \<longleftrightarrow> (\<forall>m. msg_relative_path (set_columns (ma_columns a) m) = fst (stored_pair a) \<and>
     msg_file_hash (set_columns (ma_columns a) m) = snd (stored_pair a))"

definition names_pair :: "event \<Rightarrow> string option \<times> string option \<Rightarrow> bool" where
  "names_pair ev ph \<longleftrightarrow> jget ev ''event'' = JStr ''fetch'' \<and> jget ev ''relative_path'' = opt_str (fst ph) \<and>
     jget ev ''file_hash'' = opt_str (snd ph)"

definition pair_recorded :: "event set \<Rightarrow> message_arg \<Rightarrow> bool" where
  "pair_recorded evs a \<longleftrightarrow> sets_pair a \<and>
     (fst (stored_pair a) = None \<or> (\<exists>ev\<in>evs. names_pair ev (stored_pair a)))"

definition item_ok :: "pending_item \<Rightarrow> bool" where
  "item_ok item \<longleftrightarrow> (\<forall>a. pi_record item = Some a \<longrightarrow> pair_recorded (set_option (pi_event item)) a)"

lemma record_for_message_pair:
  assumes "record_for_message X f raw v ref p stored n = Inr a"
  shows "sets_pair a" "stored_pair a = (map_option se_relative_path stored, map_option se_file_hash stored)"
  using assms
  by (auto simp: record_for_message_def Let_def sets_pair_def stored_pair_def arg_row_def set_columns_def
      split: sum.splits)

lemma fetch_event_pair:
  assumes "fetch_event X raw f v ref p stored msgid thrid labels = Inr ev"
  shows "names_pair ev (Some (se_relative_path stored), Some (se_file_hash stored))"
  using assms by (auto simp: fetch_event_def names_pair_def jget_def split: sum.splits)

lemma oversize_item_ok:
  assumes "oversize_item X f raw v ref bytes n s = (Inr item, t)"
  shows "item_ok item"
  using assms record_for_message_pair [of X f raw v ref _ None n]
  by (auto simp: oversize_item_def run_bind run_then item_ok_def pair_recorded_def split: sum.splits)

lemma fetched_item_ok:
  assumes "fetched_item X f raw v ref bytes s = (Inr item, t)"
  shows "item_ok item"
  using assms record_for_message_pair [of X f raw v ref] fetch_event_pair [of X raw f v ref]
  by (fastforce simp: fetched_item_def Let_def run_bind run_then item_ok_def pair_recorded_def
      split: sum.splits prod.splits if_splits)

lemma make_item_ok:
  assumes "make_item X f raw v ref s = (Inr item, t)"
  shows "item_ok item"
  using assms
  by (auto simp: make_item_def Let_def run_bind run_then dest: oversize_item_ok fetched_item_ok
      split: sum.splits prod.splits if_splits)

section \<open>The state of a run\<close>

text \<open>A condition \<open>J\<close> on the durable records and the database, also as it was committed last, in a world where the manifest is intact,
  the records of a set \<open>A\<close> are durable, the irrevocable effects are those of \<open>H\<close> and the intact files
  of \<open>f0\<close> are still there.\<close>

definition world_ok ::
  "(event list \<Rightarrow> db \<Rightarrow> bool) \<Rightarrow> env \<Rightarrow> (effect \<times> snapshot) list \<Rightarrow> fs \<Rightarrow> event set \<Rightarrow> 'r world \<Rightarrow> bool" where
  "world_ok J E H f0 A w \<longleftrightarrow> manifest_inv E (w_man w) \<and> J (durable_events (w_man w)) (w_db w) \<and>
     J (durable_events (w_man w)) (committed w) \<and> w_history w = H \<and> files_kept E f0 (w_fs w) \<and> A \<subseteq> set (durable_events (w_man w))"

definition run_ok ::
  "(event list \<Rightarrow> db \<Rightarrow> bool) \<Rightarrow> env \<Rightarrow> (effect \<times> snapshot) list \<Rightarrow> fs \<Rightarrow> event set \<Rightarrow> 'r sync \<Rightarrow> bool" where
  "run_ok J E H f0 A s \<longleftrightarrow> world_ok J E H f0 A (sy_world s) \<and> (\<forall>item\<in>set (sy_pending s). item_ok item)"

lemma keeps_on_world: "keeps (world_ok J E H f0 A) m \<Longrightarrow> keeps (run_ok J E H f0 A) (on_world m)"
  by (auto simp: keeps_def run_ok_def on_world_def split: prod.split)

lemma keeps_world_remote: "keeps (world_ok J E H f0 A) (on_remote m)"
  by (auto simp: keeps_def world_ok_def on_remote_def committed_def split: prod.split option.split)

lemma keeps_world_batch: "keeps (world_ok J E H f0 A) begin_batch" "keeps (world_ok J E H f0 A) commit_batch"
  by (auto simp: keeps_def world_ok_def begin_batch_def commit_batch_def committed_def)

lemma keeps_world_append: "keeps (world_ok J E H f0 A) (man_append E ev)"
  unfolding keeps_def world_ok_def man_append_def committed_def
  using writer.app_keeps [of E _ ev] by (auto simp: case_prod_unfold split: option.splits)

lemma keeps_world_db:
  "(\<And>evs. keeps (J evs) m) \<Longrightarrow> keeps (world_ok J E H f0 A) (on_db m)"
  by (auto simp: keeps_def world_ok_def on_db_def committed_def case_prod_unfold split: option.splits)

lemma keeps_world_fs:
  "keeps (files_kept E f0) m \<Longrightarrow> keeps (world_ok J E H f0 A) (on_fs m)"
  by (auto simp: keeps_def world_ok_def on_fs_def committed_def case_prod_unfold split: option.splits)

lemma keeps_world_place:
  assumes "names_identify (cx_env X)"
  shows "keeps (world_ok J (cx_env X) H f0 A) (place_eml X ref bytes)"
  unfolding place_eml_def Let_def
  by (intro keeps_bind keeps_world_db)
    (auto simp: find_stored_eml_def intro!: keeps_world_fs keeps_files_save [OF assms] split: option.split)

section \<open>Journalling a batch\<close>

text \<open>The journal of a batch only reads the database and appends records, so it keeps whatever an
  append keeps.\<close>

lemma keeps_on_db_read: "(\<And>d. snd (m d) = d) \<Longrightarrow> keeps I (on_db m)"
  by (rule keeps_on_db) (metis snd_conv world.surjective world.update_convs(1))

lemma sync_snapshot_event_reads: "snd (sync_snapshot_event X k c xs ls d) = d"
  by (simp add: sync_snapshot_event_def Let_def list_folders_def list_message_memberships_def run_bind)

lemmas keeps_snapshot_event = keeps_on_db_read [OF sync_snapshot_event_reads]

lemma keeps_note_alias: "(\<And>e. keeps I (man_append (cx_env X) e)) \<Longrightarrow> keeps I (note_alias X ev a n)"
  unfolding note_alias_def by (auto split: option.split json.split intro!: keeps_bind keeps_then)

lemma keeps_journal_item: "(\<And>e. keeps I (man_append (cx_env X) e)) \<Longrightarrow> keeps I (journal_item X n item)"
  unfolding journal_item_def by (auto split: option.split intro!: keeps_then keeps_note_alias)

lemma keeps_journal_snapshot: "(\<And>e. keeps I (man_append (cx_env X) e)) \<Longrightarrow> keeps I (journal_snapshot X entry)"
  unfolding journal_snapshot_def by (auto split: list.split intro!: keeps_bind keeps_snapshot_event)

lemma keeps_journal_batch:
  "(\<And>e. keeps I (man_append (cx_env X) e)) \<Longrightarrow> keeps I man_sync \<Longrightarrow> keeps I (journal_batch X items)"
  unfolding journal_batch_def
  by (intro keeps_bind keeps_then keeps_foldp keeps_forp keeps_journal_item keeps_journal_snapshot keeps_ret)

text \<open>A record in the log: durable, or waiting for the next flush.\<close>

definition logged :: "env \<Rightarrow> event \<Rightarrow> 'r world \<Rightarrow> bool" where
  "logged E ev w \<longleftrightarrow> manifest_inv E (w_man w) \<and>
     ev \<in> set (durable_events (w_man w)) \<union> set (pending_events (w_man w))"

lemma man_append_logs:
  assumes "manifest_inv E (w_man w)" and "man_append E ev w = (Inr u, w')"
  shows "logged E ev w'"
  using assms writer.app_ok [of E "w_man w" ev u] by (auto simp: man_append_ok logged_def)

lemma keeps_logged_append: "keeps (logged E ev) (man_append E e)"
proof (rule keepsI)
  fix w :: "'r world"
  assume w: "logged E ev w"
  show "logged E ev (snd (man_append E e w))"
  proof (cases "man_append E e w")
    case (Pair r w')
    show ?thesis
    proof (cases r)
      case (Inl x)
      with Pair w man_append_err [of E e w x w'] show ?thesis by simp
    next
      case (Inr u)
      with Pair obtain m where "append_event E e (w_man w) = (Inr u, m)" "w' = w\<lparr>w_man := m\<rparr>"
        by (auto simp: man_append_ok)
      with Pair w writer.app_ok [of E "w_man w" e u m] show ?thesis by (auto simp: logged_def)
    qed
  qed
qed

lemma keeps_inv_append: "keeps (\<lambda>w. manifest_inv E (w_man w)) (man_append E e)"
  unfolding keeps_def man_append_def using writer.app_keeps [of E _ e] by (auto simp: case_prod_unfold)

lemma journal_batch_durable:
  assumes "manifest_inv (cx_env X) (w_man w)" and "journal_batch X items w = (Inr n, w')"
    and "item \<in> set items" and "pi_event item = Some ev"
  shows "ev \<in> set (durable_events (w_man w'))"
proof -
  from assms(2) obtain w1 n1 w2 u where
    w1: "foldp (journal_item X) \<lparr>bn_records = [], bn_aliases = []\<rparr> items w = (Inr n1, w1)" and
    w2: "forp (journal_snapshot X) (bn_records n1) w1 = (Inr u, w2)" and
    w': "man_sync w2 = (Inr (), w')"
    unfolding journal_batch_def by (auto elim!: bind_okE then_okE simp: run_man_sync)
  have "logged (cx_env X) ev w1"
  proof (rule foldp_establishes [where J = "\<lambda>w. manifest_inv (cx_env X) (w_man w)", OF w1 assms(3,1)])
    fix b s v and t :: "'a world"
    assume "manifest_inv (cx_env X) (w_man s)" "journal_item X b item s = (Inr v, t)"
    then obtain s1 where s1: "logged (cx_env X) ev s1" and t: "(case pi_record item of
          Some a \<Rightarrow> if jget ev ''event'' = JStr ''fetch'' then note_alias X ev a (add_record a b) else ret b
        | None \<Rightarrow> ret b) s1 = (Inr v, t)"
      using assms(4) by (auto simp: journal_item_def elim!: then_okE dest: man_append_logs)
    have "keeps (logged (cx_env X) ev) (case pi_record item of
          Some a \<Rightarrow> if jget ev ''event'' = JStr ''fetch'' then note_alias X ev a (add_record a b) else ret b
        | None \<Rightarrow> ret b)"
      by (auto split: option.split intro!: keeps_note_alias keeps_logged_append)
    from keepsD [OF this s1 t] show "logged (cx_env X) ev t" .
  qed (intro keeps_journal_item keeps_inv_append keeps_logged_append)+
  then have "logged (cx_env X) ev w2"
    using w2 by (rule keepsD [rotated]) (intro keeps_forp keeps_journal_snapshot keeps_logged_append)
  with w' writer.sync_ok [of "cx_env X" "w_man w2"] show ?thesis
    by (auto simp: logged_def man_sync_def)
qed

section \<open>The interface\<close>

locale sync_keeper =
  fixes J :: "event list \<Rightarrow> db \<Rightarrow> bool"
  assumes grow: "J evs d \<Longrightarrow> J (evs @ evs2) d"
    and store: "J evs d \<Longrightarrow> pair_recorded (set evs) a \<Longrightarrow> J evs (snd (add_message norm a cnt d))"
    and cursors: "keeps (J evs) (initialize_sync_cursors f v u)" "keeps (J evs) (update_sync_cursors f s b c)"
      "keeps (J evs) (set_highest_modseq f q)"
    and failures: "keeps (J evs) (record_failure acc f v u cls msg)" "keeps (J evs) (clear_failure acc f v u)"
    and flags: "keeps (J evs) (update_flags acc f v u fl t)" "keeps (J evs) (touch_flags_seen_at acc f v us t)"
      "keeps (J evs) (update_gmail_labels i l)"
    and identities: "keeps (J evs) (add_message_identity_alias acc k i kind)"
      "keeps (J evs) (merge_duplicate_message acc i j)"
    and states: "keeps (J evs) (update_remote_state i st mv g)" "keeps (J evs) (replace_message_memberships i ms)"
begin

lemmas ops = cursors failures flags identities states

lemma world_sync: "keeps (world_ok J E H f0 A) man_sync"
  unfolding keeps_def
proof (intro allI impI)
  fix w :: "'r world"
  assume w: "world_ok J E H f0 A w"
  obtain m where m: "flush_and_sync (w_man w) = (Inr (), m)" "manifest_inv E m"
    "durable_events m = durable_events (w_man w) @ pending_events (w_man w)"
    using w writer.sync_ok [of E "w_man w"] by (auto simp: world_ok_def)
  with w show "world_ok J E H f0 A (snd (man_sync w))"
    by (auto simp: world_ok_def man_sync_def committed_def intro: grow split: option.splits)
qed

lemma world_checkpoint: "keeps (world_ok J (cx_env X) H f0 A) (sync_checkpoint X n)"
proof -
  have "sync_checkpoint X n =
      bindp (gets (man_account \<circ> w_man)) (\<lambda>acc. thenp (man_append (cx_env X) (checkpoint_event (cx_env X) acc n (cx_uuid X))) man_sync)"
    by (auto simp: fun_eq_iff sync_checkpoint_def write_checkpoint_def run_bind run_then man_append_def run_man_sync
        split: prod.split sum.split)
  then show ?thesis by (auto intro!: keeps_bind keeps_then keeps_world_append world_sync)
qed

lemmas world = keeps_world_append world_sync keeps_world_batch keeps_world_remote world_checkpoint

subsection \<open>Committing a batch\<close>

lemma world_journal_batch: "keeps (world_ok J (cx_env X) H f0 A) (journal_batch X items)"
  by (intro keeps_journal_batch world)

text \<open>The records of the items of a batch, and the writes of the batch once they are durable.\<close>

lemma world_journal_batch_durable:
  assumes "world_ok J (cx_env X) H f0 {} w" and "journal_batch X items w = (Inr n, w')"
  shows "world_ok J (cx_env X) H f0 (\<Union>(set_option ` pi_event ` set items)) w'"
proof -
  have "world_ok J (cx_env X) H f0 {} w'" using assms by (rule keepsD [OF world_journal_batch])
  moreover have "ev \<in> set (durable_events (w_man w'))" if "item \<in> set items" "pi_event item = Some ev" for item ev
    using journal_batch_durable [OF _ assms(2) that] assms(1) by (simp add: world_ok_def)
  ultimately show ?thesis by (auto simp: world_ok_def)
qed

lemma run_store_record:
  assumes "item_ok item" and "set_option (pi_event item) \<subseteq> A"
  shows "keeps (run_ok J E H f0 A) (store_record X n item)"
proof (cases "pi_record item")
  case (Some a)
  have "pair_recorded (set evs) a" if "A \<subseteq> set evs" for evs
    using assms that Some by (fastforce simp: item_ok_def pair_recorded_def)
  then have add: "keeps (run_ok J E H f0 A) (sync_db (add_message (cx_norm X) a (pi_contents item)))"
    by (intro keeps_on_world) (auto simp: keeps_def world_ok_def on_db_def committed_def case_prod_unfold intro: store split: option.splits)
  have "keeps (run_ok J E H f0 A) (modify (\<lambda>s. s\<lparr>sy_known := k # sy_known s\<rparr>))" for k
    by (rule keeps_modify) (simp add: run_ok_def)
  then show ?thesis using Some
    by (auto simp: store_record_def intro!: keeps_bind [OF add] keeps_then keeps_forp keeps_when
        keeps_on_world keeps_world_db ops)
qed (simp add: store_record_def)

lemma run_store_failure: "keeps (run_ok J E H f0 A) (store_failure X item)"
  unfolding store_failure_def
  by (auto split: option.split intro!: keeps_when keeps_on_world keeps_world_db ops)

lemma run_commit_pending: "keeps (run_ok J (cx_env X) H f0 {}) (commit_pending X cursor)"
proof (rule keepsI)
  fix s :: "'a sync"
  assume s: "run_ok J (cx_env X) H f0 {} s"
  let ?items = "sy_pending s" and ?A = "\<Union>(set_option ` pi_event ` set (sy_pending s))"
  define rest where "rest n = thenp (on_world begin_batch)
      (thenp (forp (store_item X n) ?items)
      (thenp (case cursor of
          None \<Rightarrow> ret ()
        | Some (f, last_seen, backfill, initial) \<Rightarrow> sync_db (update_sync_cursors f last_seen backfill initial))
      (thenp (on_world commit_batch)
      (thenp (modify (\<lambda>s. s\<lparr>sy_pending := [], sy_checkpoint := sy_checkpoint s + 1\<rparr>))
        (bindp (gets sy_checkpoint) (\<lambda>k. on_world (sync_checkpoint X k)))))))" for n
  have run: "commit_pending X cursor s =
      (if ?items = [] \<and> cursor = None then (Inr (), s) else bindp (on_world (journal_batch X ?items)) rest s)"
    unfolding commit_pending_def rest_def by (simp add: run_bind)
  have keep: "keeps (run_ok J (cx_env X) H f0 ?A) (rest n)" for n
    unfolding rest_def store_item_def
  proof (intro keeps_then keeps_bind keeps_forp keeps_on_world world keeps_gets run_store_failure run_store_record)
    show "keeps (run_ok J (cx_env X) H f0 ?A) (case cursor of
          None \<Rightarrow> ret ()
        | Some (f, last_seen, backfill, initial) \<Rightarrow> sync_db (update_sync_cursors f last_seen backfill initial))"
      by (auto split: option.split prod.split intro!: keeps_on_world keeps_world_db ops)
  qed (use s in \<open>auto simp: run_ok_def intro: keeps_modify\<close>)
  show "run_ok J (cx_env X) H f0 {} (snd (commit_pending X cursor s))"
  proof (cases "journal_batch X ?items (sy_world s)")
    case (Pair r w)
    show ?thesis
    proof (cases r)
      case (Inl e)
      have "world_ok J (cx_env X) H f0 {} w"
        using s Pair by (auto simp: run_ok_def intro: keepsD [OF world_journal_batch])
      with Pair Inl s show ?thesis by (simp add: run run_ok_def run_bind on_world_def)
    next
      case (Inr n)
      with Pair s have "run_ok J (cx_env X) H f0 ?A (s\<lparr>sy_world := w\<rparr>)"
        using world_journal_batch_durable [of X H f0 "sy_world s" ?items n w] by (simp add: run_ok_def)
      with keep have "run_ok J (cx_env X) H f0 ?A (snd (rest n (s\<lparr>sy_world := w\<rparr>)))"
        by (simp add: keeps_def)
      with Pair Inr s show ?thesis
        by (auto simp: run run_ok_def world_ok_def run_bind on_world_def)
    qed
  qed
qed

subsection \<open>Fetching\<close>

lemma run_counters:
  "(\<And>s. sy_world (f s) = sy_world s \<and> sy_pending (f s) = sy_pending s) \<Longrightarrow> keeps (run_ok J E H f0 A) (modify f)"
  by (rule keeps_modify) (simp add: run_ok_def)

lemma run_check_cancelled: "keeps (run_ok J E H f0 A) (check_cancelled X)"
  unfolding check_cancelled_def by (intro keeps_on_world world)

lemma run_download: "keeps (run_ok J E H f0 A) (download_with_retry X m)"
  unfolding download_with_retry_def by (intro keeps_on_world world)

lemma run_make_item:
  assumes "names_identify (cx_env X)"
  shows "keeps (run_ok J (cx_env X) H f0 A) (make_item X f raw v ref)"
proof -
  have "keeps (run_ok J (cx_env X) H f0 A) (oversize_item X f raw v ref b n)" for b n
    unfolding oversize_item_def by (intro keeps_bind keeps_then run_counters keeps_lift_sum keeps_ret) simp
  moreover have "keeps (run_ok J (cx_env X) H f0 A) (fetched_item X f raw v ref b)" for b
    unfolding fetched_item_def Let_def
    by (intro keeps_bind keeps_then run_counters keeps_lift_sum keeps_ret keeps_on_world keeps_world_place assms) simp
  ultimately show ?thesis
    unfolding make_item_def Let_def
    by (intro keeps_then keeps_if keeps_bind run_download keeps_ret run_counters) auto
qed

lemma run_process_ref:
  assumes "names_identify (cx_env X)"
  shows "keeps (run_ok J (cx_env X) H f0 {}) (process_ref X f raw v ref)"
  unfolding process_ref_def
proof (intro keeps_then run_check_cancelled)
  let ?m = "catchp
        (bindp (make_item X f raw v ref) (\<lambda>item.
           ret (if pi_failure item \<noteq> None then item\<lparr>pi_failure_folder := Some f\<rparr> else item)))
        (\<lambda>e. if is_authentication_error e then raise e
             else if is_fetch_error e \<or> is_storage_error e
             then thenp (modify (\<lambda>s. s\<lparr>sy_failed := sy_failed s + 1\<rparr>))
               (ret ((fetch_failure (ref_uid ref) v e)\<lparr>pi_failure_folder := Some f\<rparr>))
             else raise e)"
  have m: "keeps (run_ok J (cx_env X) H f0 {}) ?m"
    by (intro keeps_catch keeps_bind keeps_if keeps_then run_make_item assms keeps_ret keeps_raise run_counters) simp
  have "item_ok item" if "?m s = (Inr item, t)" for s item t
    using that
    by (auto simp: run_catch run_bind run_then item_ok_def fetch_failure_def split: prod.splits sum.splits if_splits
        dest!: make_item_ok)
  then show "keeps (run_ok J (cx_env X) H f0 {}) (bindp ?m (\<lambda>item. modify (\<lambda>s. s\<lparr>sy_pending := sy_pending s @ [item]\<rparr>)))"
    by (intro keeps_bind_post [OF m] keeps_modify) (auto simp: run_ok_def)
qed

subsection \<open>One folder\<close>

lemma run_mark: "keeps (run_ok J E H f0 A) (mark_attempted u)"
  unfolding mark_attempted_def by (rule run_counters) simp

lemma run_retry_pending_failures:
  assumes "names_identify (cx_env X)"
  shows "keeps (run_ok J (cx_env X) H f0 {}) (retry_pending_failures X f raw v)"
proof -
  have nxt: "keeps (run_ok J (cx_env X) H f0 {}) (next_ref m)" for m
    unfolding next_ref_def
    by (auto split: list.split option.split intro!: keeps_bind keeps_on_world world)
  have "keeps (run_ok J (cx_env X) H f0 {}) (retry_failure X f raw v fl)" for fl
    unfolding retry_failure_def
    by (intro keeps_bind nxt)
      (auto split: option.split intro!: keeps_then keeps_bind keeps_when run_mark run_process_ref assms run_commit_pending)
  moreover have "keeps (run_ok J (cx_env X) H f0 {}) (sync_db (pending_failures a f v))" for a
    by (intro keeps_on_world keeps_world_db) (simp add: pending_failures_def)
  ultimately show ?thesis
    unfolding retry_pending_failures_def by (intro keeps_bind keeps_forp)
qed

lemma run_process_range:
  assumes "names_identify (cx_env X)"
  shows "keeps (run_ok J (cx_env X) H f0 {}) (process_range X f raw v lo hi history)"
proof -
  have "keeps (run_ok J (cx_env X) H f0 {}) (range_step X f raw v history l r)" for l r
    unfolding range_step_def Let_def
    by (intro keeps_bind keeps_if keeps_then run_mark run_process_ref assms run_commit_pending keeps_gets keeps_ret)
  then show ?thesis
    unfolding process_range_def
    by (auto split: option.split intro!: keeps_bind keeps_foldp keeps_on_world world)
qed

lemma run_max_uid: "keeps (run_ok J E H f0 A) (sync_remote m)"
  by (intro keeps_on_world world)

lemma run_open_cursors: "keeps (run_ok J (cx_env X) H f0 {}) (open_cursors X folder v)"
  unfolding open_cursors_def
  by (auto split: option.split intro!: keeps_bind keeps_then run_max_uid keeps_on_world world keeps_world_db ops)

lemma run_commit_leftover: "keeps (run_ok J (cx_env X) H f0 {}) (commit_leftover X)"
  unfolding commit_leftover_def by (intro keeps_bind keeps_when run_commit_pending keeps_gets)

lemma world_flush_flags: "keeps (world_ok J (cx_env X) H f0 A) (flush_flag_updates X P q)"
proof -
  have journal: "keeps (world_ok J (cx_env X) H f0 A) (journal_labels X P q)"
    unfolding journal_labels_def label_snapshot_def
    by (intro keeps_bind keeps_then keeps_foldp keeps_forp keeps_when world keeps_lift_sum)
      (auto simp: list_folders_def split: list.split prod.split intro!: keeps_bind keeps_snapshot_event world)
  have put: "keeps (world_ok J (cx_env X) H f0 A) (write_queue X P q)"
    unfolding write_queue_def
    by (intro keeps_then keeps_forp keeps_when world)
      (auto split: prod.split option.split intro!: keeps_world_db ops)
  show ?thesis
    unfolding flush_flag_updates_def by (intro keeps_if keeps_then keeps_when journal put keeps_ret)
qed

lemma world_queue: "keeps (world_ok J (cx_env X) H f0 A) (queue_update X P u fl ls q)"
  "keeps (world_ok J (cx_env X) H f0 A) (queue_touch X P u q)"
  unfolding queue_update_def queue_touch_def flush_if_large_def
  by (intro keeps_if world_flush_flags keeps_ret)+

lemma run_collect_flags: "keeps (run_ok J (cx_env X) H f0 {}) (collect_flags X P cmp m)"
proof -
  have "keeps (run_ok J (cx_env X) H f0 {}) (flag_step X P cmp acc r)" for acc r
    unfolding flag_step_def Let_def
    by (auto split: prod.split option.split intro!: keeps_then keeps_bind run_check_cancelled keeps_on_world world_queue)
  then show ?thesis
    unfolding collect_flags_def
    by (auto split: option.split intro!: keeps_bind keeps_then keeps_foldp run_check_cancelled keeps_on_world world)
qed

lemma world_set_modseq: "keeps (world_ok J E H f0 A) (set_modseq_batch f q)"
  unfolding set_modseq_batch_def by (intro keeps_then world keeps_world_db ops)

lemma run_refresh_flags: "keeps (run_ok J (cx_env X) H f0 {}) (refresh_flags X folder v initial)"
proof -
  have base: "keeps (run_ok J (cx_env X) H f0 {}) (refresh_baseline X P raw c)" for P raw c
    unfolding refresh_baseline_def
    by (auto intro!: keeps_bind keeps_then keeps_when run_collect_flags keeps_on_world world_flush_flags world_set_modseq)
  have changed: "keeps (run_ok J (cx_env X) H f0 {}) (refresh_changed X P raw b c d)" for P raw b c d
    unfolding refresh_changed_def
    by (auto intro!: keeps_bind keeps_then keeps_when keeps_foldp run_collect_flags keeps_on_world world_flush_flags
        world_queue world_set_modseq)
  have expired: "keeps (run_ok J (cx_env X) H f0 {}) (refresh_expired X P raw b c d)" for P raw b c d
    unfolding refresh_expired_def
    by (auto intro!: keeps_bind keeps_then keeps_when run_collect_flags keeps_on_world world_flush_flags world_set_modseq)
  have items: "keeps (run_ok J (cx_env X) H f0 {}) (sync_db (list_flag_refresh_items a b c d))" for a b c d
    by (intro keeps_on_world keeps_world_db) (simp add: list_flag_refresh_items_def)
  show ?thesis
    unfolding refresh_flags_def Let_def
    by (auto split: option.split intro!: keeps_bind items run_max_uid keeps_when keeps_on_world world_set_modseq
        base changed expired)
qed

lemma run_sync_folder:
  assumes "names_identify (cx_env X)"
  shows "keeps (run_ok J (cx_env X) H f0 {}) (sync_folder X folder)"
proof -
  have start: "keeps (run_ok J (cx_env X) H f0 {}) start_folder"
    unfolding start_folder_def by (rule keeps_modify) (simp add: run_ok_def)
  have new: "keeps (run_ok J (cx_env X) H f0 {}) (sync_new X folder v n)" for v n
    unfolding sync_new_def
    by (intro keeps_bind keeps_if keeps_then run_max_uid run_process_range assms run_commit_pending keeps_ret)
  have history: "keeps (run_ok J (cx_env X) H f0 {}) (sync_history X folder v b i)" for v b i
    unfolding sync_history_def Let_def
    by (intro keeps_if keeps_bind keeps_then keeps_when run_process_range assms run_commit_pending keeps_gets keeps_ret
        keeps_on_world world keeps_world_db ops)
  have catchup: "keeps (run_ok J (cx_env X) H f0 {}) (sync_catchup X folder v n)" for v n
    unfolding sync_catchup_def
    by (intro keeps_bind keeps_if keeps_then run_max_uid run_process_range assms run_commit_pending run_commit_leftover)
  have flags: "keeps (run_ok J (cx_env X) H f0 {}) (refresh_flags_quietly X folder v i)" for v i
    unfolding refresh_flags_quietly_def by (intro keeps_catch keeps_if run_refresh_flags keeps_ret keeps_raise)
  have "keeps (run_ok J (cx_env X) H f0 {}) (sync_contents_of X folder v c)" for v c
    unfolding sync_contents_of_def
    by (auto split: prod.split intro!: keeps_bind keeps_then run_retry_pending_failures assms new history catchup flags)
  then show ?thesis
    unfolding sync_folder_def
    by (intro keeps_bind keeps_then keeps_catch keeps_if run_max_uid run_open_cursors start run_commit_leftover
        keeps_ret keeps_raise run_counters) auto
qed

subsection \<open>Detection and the account\<close>

lemma world_commit_states: "keeps (world_ok J (cx_env X) H f0 A) (commit_states X ts)"
proof -
  have detail: "keeps (world_ok J (cx_env X) H f0 A) (journal_detail X t)" for t
    unfolding journal_detail_def Let_def
    by (auto split: option.split intro!: keeps_bind keeps_then keeps_snapshot_event world)
  have state: "keeps (J evs) (apply_state X t)" for evs t
    unfolding apply_state_def
    by (auto simp: list_message_memberships_def split: option.split json.split intro!: keeps_bind keeps_then ops)
  show ?thesis
    unfolding commit_states_def
    by (intro keeps_if keeps_then keeps_forp detail world keeps_world_db state keeps_ret)
qed

lemma run_detect_uid: "keeps (run_ok J E H f0 A) (detect_uid X targets scanned folder v found u)"
proof -
  have local: "keeps (run_ok J E H f0 A) (get_local_message X f v u)" for f
    unfolding get_local_message_def get_message_by_uid_def
    by (auto split: option.split intro!: keeps_bind keeps_on_world keeps_world_db)
  have candidates: "keeps (run_ok J E H f0 A) (sync_db (move_candidates X m f))" for m f
    unfolding move_candidates_def find_move_candidates_def
    by (auto split: option.split intro!: keeps_bind keeps_on_world keeps_world_db)
  show ?thesis
    unfolding detect_uid_def Let_def
    by (intro keeps_bind keeps_option keeps_if local candidates keeps_gets keeps_ret keeps_lift_sum)
qed

lemma run_detect_folder: "keeps (run_ok J (cx_env X) H f0 {}) (detect_folder X targets scanned folder)"
proof -
  have uids: "keeps (run_ok J (cx_env X) H f0 {}) (sync_db (local_uids a f v))" for a f v
    by (intro keeps_on_world keeps_world_db) (simp add: local_uids_def)
  show ?thesis
    unfolding detect_folder_def
    by (intro keeps_bind keeps_option keeps_catch keeps_if keeps_foldp run_max_uid run_detect_uid uids keeps_gets
        keeps_ret keeps_raise keeps_on_world [OF world_commit_states])
qed

lemma run_sync_targets:
  assumes "names_identify (cx_env X)"
  shows "keeps (run_ok J (cx_env X) H f0 {}) (sync_targets X targets)"
proof -
  have "keeps (run_ok J (cx_env X) H f0 {}) (scan_step X b f)" for b f
    unfolding scan_step_def
    by (auto split: option.split intro!: keeps_catch keeps_bind run_sync_folder assms)
  then show ?thesis
    unfolding sync_targets_def
    by (auto split: option.split intro!: keeps_bind keeps_then keeps_foldp keeps_forp run_detect_folder)
qed

lemma world_sync_account:
  assumes "names_identify (cx_env X)"
  shows "keeps (world_ok J (cx_env X) H f0 {}) (sync_account X)"
proof -
  have run: "keeps (world_ok J (cx_env X) H f0 {})
      (\<lambda>w. case sync_targets (X\<lparr>cx_google := g\<rparr>) targets (fresh_sync w n) of (r, s) \<Rightarrow> (r, sy_world s))" for g targets n
  proof (rule keepsI)
    fix w :: "'a world"
    assume "world_ok J (cx_env X) H f0 {} w"
    then have "run_ok J (cx_env X) H f0 {} (fresh_sync w n)" by (simp add: run_ok_def fresh_sync_def)
    with run_sync_targets [of "X\<lparr>cx_google := g\<rparr>" H f0 targets] assms
    have "run_ok J (cx_env X) H f0 {} (snd (sync_targets (X\<lparr>cx_google := g\<rparr>) targets (fresh_sync w n)))"
      by (simp add: keeps_def)
    then show "world_ok J (cx_env X) H f0 {}
        (snd (case sync_targets (X\<lparr>cx_google := g\<rparr>) targets (fresh_sync w n) of (r, s) \<Rightarrow> (r, sy_world s)))"
      by (simp add: run_ok_def case_prod_unfold)
  qed
  show ?thesis
    unfolding sync_account_def ensure_imap_account_def list_accounts_def list_sync_targets_def
    by (intro keeps_then keeps_bind run keeps_gets keeps_lift_sum keeps_world_db keeps_option keeps_if keeps_ret keeps_raise)
qed

lemma world_journal_then:
  assumes "keeps (world_ok J E H f0 {ev}) k"
  shows "keeps (world_ok J E H f0 {}) (thenp (man_append E ev) (thenp man_sync k))"
proof (rule keepsI)
  fix w :: "'a world"
  assume w: "world_ok J E H f0 {} w"
  have run: "thenp (man_append E ev) (thenp man_sync k) w = thenp (journal E ev) k w"
    by (simp add: journal_def run_then run_man_sync split: prod.split sum.split)
  show "world_ok J E H f0 {} (snd (thenp (man_append E ev) (thenp man_sync k) w))"
  proof (cases "journal E ev w")
    case (Pair r w1)
    have w1: "world_ok J E H f0 {} w1"
      using w Pair by (rule keepsD [rotated]) (auto simp: journal_def intro!: keeps_then world)
    show ?thesis
    proof (cases r)
      case (Inr u)
      with Pair w have "ev \<in> set (durable_events (w_man w1))"
        using journal_ok [of E ev w u w1] by (auto simp: world_ok_def)
      with w1 assms have "world_ok J E H f0 {ev} (snd (k w1))" by (auto simp: keeps_def world_ok_def)
      with Pair Inr show ?thesis by (simp add: run world_ok_def)
    qed (use Pair w1 in \<open>simp add: run\<close>)
  qed
qed

lemma world_store_forced:
  assumes "pair_recorded {ev} a"
  shows "keeps (world_ok J E H f0 {ev}) (store_forced X f v u p a)"
proof -
  have "pair_recorded (set evs) a" if "ev \<in> set evs" for evs
    using assms that by (auto simp: pair_recorded_def)
  then have add: "keeps (world_ok J E H f0 {ev}) (on_db (add_message (cx_norm X) a c))" for c
    by (auto simp: keeps_def world_ok_def on_db_def committed_def case_prod_unfold intro: store split: option.splits)
  show ?thesis
    unfolding store_forced_def
    by (intro keeps_then keeps_option world add) (auto intro: keeps_world_db ops)
qed

lemma world_force_fetch_message:
  assumes "names_identify (cx_env X)"
  shows "keeps (world_ok J (cx_env X) H f0 {}) (force_fetch_message X raw f v u)"
proof -
  let ?W = "world_ok J (cx_env X) H f0 {}"
  have core: "keeps ?W (bindp (lift_sum (record_for_message X f raw v ref p (Some stored) n)) (\<lambda>a.
       bindp (lift_sum (fetch_event X raw f v ref p stored None None None)) (\<lambda>ev.
         thenp (man_append (cx_env X) ev) (thenp man_sync (thenp (store_forced X f v u p a) (k a ev))))))"
    if k: "\<And>A a ev. keeps (world_ok J (cx_env X) H f0 A) (k a ev)"
    for ref p stored n and k :: "message_arg \<Rightarrow> event \<Rightarrow> ('a world, sync_result) prog"
  proof (rule keeps_bind_post [OF keeps_lift_sum], rule keeps_bind_post [OF keeps_lift_sum])
    fix s a t s' ev t'
    assume "lift_sum (record_for_message X f raw v ref p (Some stored) n) (s :: 'a world) = (Inr a, t)"
      and "lift_sum (fetch_event X raw f v ref p stored None None None) (s' :: 'a world) = (Inr ev, t')"
    then have "pair_recorded {ev} a"
      using record_for_message_pair [of X f raw v ref p "Some stored" n a] fetch_event_pair [of X raw f v ref p stored]
      by (auto simp: pair_recorded_def)
    then show "keeps ?W (thenp (man_append (cx_env X) ev) (thenp man_sync (thenp (store_forced X f v u p a) (k a ev))))"
      by (intro world_journal_then keeps_then world_store_forced k)
  qed
  have refs: "keeps ?W (case x of (rs, problem) \<Rightarrow> (case rs of [] \<Rightarrow> raise (e problem) | r # _ \<Rightarrow> m r))"
    if "\<And>r. keeps ?W (m r)" for x e and m :: "message_ref \<Rightarrow> ('a world, sync_result) prog"
    using that by (auto split: prod.split list.split)
  show ?thesis
    unfolding force_fetch_message_def Let_def
    by (intro keeps_then keeps_bind keeps_if refs core world keeps_raise keeps_gets keeps_lift_sum keeps_ret
        keeps_world_place assms)
qed

end

end
