(* ===== verification/Sync_Samples.thy ===== *)
theory Sync_Samples
  imports Sync_Run Repository_Props
begin

text \<open>
  A mailbox that never fails, given by its folders with their generation and their messages, and the
  context of a run on it. The witnesses of the synchronization run on such mailboxes.
\<close>

type_synonym box = "(string \<times> int \<times> (int \<times> string) list) list"

definition box_folder :: "box \<Rightarrow> string \<Rightarrow> (unit, int \<times> (int \<times> string) list) prog" where
  "box_folder b raw = (case map_of b raw of
     None \<Rightarrow> raise (PermanentError ''no such folder'') | Some x \<Rightarrow> ret x)"

definition box_ref :: "int \<times> string \<Rightarrow> message_ref" where
  "box_ref m = \<lparr>ref_uid = fst m, ref_message_id = None, ref_internal_date = None,
     ref_size_bytes = Some (int (length (snd m))), ref_flags = [], ref_gmail_msgid = None, ref_gmail_thrid = None,
     ref_gmail_labels = None\<rparr>"

definition box_refs :: "box \<Rightarrow> string \<Rightarrow> (int \<Rightarrow> bool) \<Rightarrow> (unit, refs) prog" where
  "box_refs b raw p = bindp (box_folder b raw) (\<lambda>(_, ms).
     ret (map box_ref (rev (sort_key fst (filter (\<lambda>m. p (fst m)) ms))), None))"

definition box_mailbox :: "box \<Rightarrow> unit mailbox" where
  "box_mailbox b =
    \<lparr>mb_select_folder = (\<lambda>raw. bindp (box_folder b raw) (\<lambda>(v, _). ret v)),
     mb_get_max_uid = (\<lambda>raw. bindp (box_folder b raw) (\<lambda>(_, ms). ret (foldr max (map fst ms) 0))),
     mb_iter_message_refs = (\<lambda>raw lo hi. box_refs b raw (\<lambda>u. lo \<le> u \<and> u \<le> hi)),
     mb_iter_flags = (\<lambda>raw uids. box_refs b raw (\<lambda>u. u \<in> set uids)),
     mb_iter_flags_since = (\<lambda>raw _. ret ([], None)), mb_highest_modseq = ret None, mb_condstore = False,
     mb_list_existing_uids = (\<lambda>raw. bindp (box_folder b raw) (\<lambda>(_, ms). ret (map fst ms))),
     mb_download = (\<lambda>raw u. bindp (box_folder b raw) (\<lambda>(_, ms). case map_of ms u of
        None \<Rightarrow> raise (PermanentError ''no such message'') | Some bytes \<Rightarrow> ret bytes)),
     mb_download_headers = (\<lambda>_ _. ret ''''), mb_cancelled = ret False, mb_wait = (\<lambda>_. ret False)\<rparr>"

definition box_parse :: "string \<Rightarrow> utc_time option \<Rightarrow> parsed_message" where
  "box_parse raw date = \<lparr>ps_subject = '''', ps_sender = '''', ps_recipient = '''', ps_cc = '''', ps_date_sent = date,
     ps_message_id = None, ps_in_reply_to = None, ps_references_ids = None, ps_thread_key = None, ps_content_key = None,
     ps_body_text = raw, ps_attachments = [], ps_has_attachment = False, ps_parse_error = None\<rparr>"

definition box_ctx :: "box \<Rightarrow> unit sync_ctx" where
  "box_ctx b = \<lparr>cx_env = hash_env, cx_mailbox = box_mailbox b, cx_account = ''acc'', cx_google = False,
     cx_max_message_bytes = 100, cx_flag_refresh = True, cx_flags_since = '''', cx_flags_expired = (\<lambda>_. True),
     cx_parse = box_parse, cx_norm = id, cx_dumps = (\<lambda>_. ''[]''), cx_loads = (\<lambda>_. None), cx_uuid = ''t''\<rparr>"

definition box_run :: "box \<Rightarrow> unit world \<Rightarrow> (error + sync_result) \<times> unit world" where
  "box_run b = sync_account (box_ctx b)"

text \<open>An empty store of an account with two folders.\<close>

definition fresh_store :: "unit world" where
  "fresh_store = \<lparr>w_db = sample_db\<lparr>messages := [], message_folders := [], message_contents := [], aliases := [],
       next_message_id := 1\<rparr>, w_batch = None, w_fs = empty_fs, w_man = empty_manifest ''acc'', w_remote = (),
     w_history = []\<rparr>"

end
