(* ===== verification/Sync_Complete.thy ===== *)
theory Sync_Complete
  imports Sync_Inv Sync_Samples
begin

text \<open>
  Completeness of a range: every message the server lists in a range of UIDs is, once the batch is
  committed, a membership of the folder or a recorded failure, so that the cursors of the folder never
  pass a message that nothing remembers.
\<close>

section \<open>Accounted messages\<close>

definition stored_at :: "int \<Rightarrow> int \<Rightarrow> int \<Rightarrow> db \<Rightarrow> bool" where
  "stored_at f v u d \<longleftrightarrow> (\<exists>x\<in>set (message_folders d). mf_folder_id x = f \<and> mf_uidvalidity x = Some v \<and> mf_uid x = Some u)"

definition failed_at :: "string \<Rightarrow> int \<Rightarrow> int \<Rightarrow> int \<Rightarrow> db \<Rightarrow> bool" where
  "failed_at acc f v u d \<longleftrightarrow> (acc, f, v, u) \<in> failure_key ` set (sync_failures d)"

definition uid_accounted :: "string \<Rightarrow> int \<Rightarrow> int \<Rightarrow> int \<Rightarrow> db \<Rightarrow> bool" where
  "uid_accounted acc f v u d \<longleftrightarrow> stored_at f v u d \<or> failed_at acc f v u d"

text \<open>A message whose key names a UID of a folder is a member of that folder under that UID only.\<close>

definition own_uid :: "string \<Rightarrow> int \<Rightarrow> string \<Rightarrow> int \<Rightarrow> db \<Rightarrow> bool" where
  "own_uid acc f raw v d \<longleftrightarrow> db_inv d \<and>
     (\<forall>m\<in>set (messages d). \<forall>x\<in>set (message_folders d). \<forall>u. mf_message_id x = msg_id m \<longrightarrow> mf_folder_id x = f \<longrightarrow>
        msg_account_id m = acc \<longrightarrow> imap_source_item_key raw v u = Inr (msg_source_item_key m) \<longrightarrow>
        mf_uid x = Some u \<and> mf_uidvalidity x = Some v)"

definition arg_at :: "string \<Rightarrow> int \<Rightarrow> string \<Rightarrow> int \<Rightarrow> int \<Rightarrow> message_arg \<Rightarrow> bool" where
  "arg_at acc f raw v u a \<longleftrightarrow> ma_account_id a = acc \<and> ma_folder_id a = f \<and> ma_uid a = Some u \<and>
     ma_uidvalidity a = Some v \<and> imap_source_item_key raw v u = Inr (ma_source_item_key a)"

section \<open>Storing a message\<close>

lemma upsert_message_row_tables:
  assumes "upsert_message_row a d = (r, d1)"
  shows "message_folders d1 = message_folders d" "sync_failures d1 = sync_failures d"
  using assms by (auto simp: upsert_message_row_def constrained_def Let_def split: if_splits)

lemma upsert_message_row_rows:
  assumes "upsert_message_row a d = (r, d1)" and "m \<in> set (messages d1)" and "msg_id m \<noteq> next_message_id d"
  shows "\<exists>m0\<in>set (messages d). msg_id m0 = msg_id m \<and> message_key m0 = message_key m"
  using assms
  by (auto simp: upsert_message_row_def constrained_def Let_def upsert_row_def set_update_where image_iff
      split: if_splits; blast)

text \<open>What storing leaves: an error before the membership is written, or the membership of the row
  that has the key.\<close>

lemma add_message_tables:
  assumes "add_message norm a cnt d = (r, d')"
  obtains d1 where "snd (upsert_message_row a d) = d1" "messages d' = messages d1" "sync_failures d' = sync_failures d"
    "message_folders d' = message_folders d1" "\<forall>i. r \<noteq> Inr i"
  | d1 m where "snd (upsert_message_row a d) = d1" "messages d' = messages d1" "sync_failures d' = sync_failures d"
    "m \<in> set (messages d1)" "message_key m = (ma_account_id a, ma_source_item_key a)"
    "message_folders d' = upsert_row membership_key (msg_id m, ma_folder_id a) (\<lambda>_. arg_membership a (msg_id m))
       (arg_membership a (msg_id m)) (message_folders d1)"
proof -
  obtain r1 d1 where d1: "upsert_message_row a d = (r1, d1)" by fastforce
  note t = upsert_message_row_tables [OF d1]
  show ?thesis
  proof (cases r1)
    case (Inl e)
    with assms d1 have "r = Inl e" "d' = d1" by (simp_all add: add_message_def)
    with d1 t show ?thesis using that(1) [of d1] by simp
  next
    case (Inr u)
    show ?thesis
    proof (cases "List.find (\<lambda>m. message_key m = (ma_account_id a, ma_source_item_key a)) (messages d1)")
      case None
      with assms d1 Inr have "\<exists>e. r = Inl e" "d' = d1"
        by (auto simp: add_message_def find_message_id_by_source_item_key_def)
      with d1 t show ?thesis using that(1) [of d1] by auto
    next
      case (Some m)
      let ?x = "arg_membership a (msg_id m)"
      have m: "m \<in> set (messages d1)" "message_key m = (ma_account_id a, ma_source_item_key a)"
        using find_Some_in_set [OF Some] by auto
      show ?thesis
      proof (cases "membership_ok d1 ?x")
        case False
        with assms d1 Inr Some have "\<exists>e. r = Inl e" "d' = d1"
          by (auto simp: add_message_def find_message_id_by_source_item_key_def upsert_membership_def constrained_def)
        with d1 t show ?thesis using that(1) [of d1] by auto
      next
        case True
        let ?d2 = "d1\<lparr>message_folders := upsert_row membership_key (membership_key ?x) (\<lambda>_. ?x) ?x (message_folders d1)\<rparr>"
        have "messages d' = messages ?d2 \<and> message_folders d' = message_folders ?d2 \<and> sync_failures d' = sync_failures ?d2"
          using assms d1 Inr Some True
          by (auto simp: add_message_def find_message_id_by_source_item_key_def upsert_membership_def constrained_def
              update_message_contents_def run_then split: option.splits sum.splits prod.splits if_splits)
        with d1 t m show ?thesis using that(2) [of d1 m] by (simp add: arg_membership_def)
      qed
    qed
  qed
qed

text \<open>The new membership among the old ones.\<close>

lemma own_uid_upsert:
  assumes "own_uid acc f raw v d1" and "arg_at acc f raw v u a" and "db_inv d'"
    and "m \<in> set (messages d1)" and "message_key m = (ma_account_id a, ma_source_item_key a)"
    and "messages d' = messages d1" and rows: "message_folders d' = upsert_row membership_key (msg_id m, ma_folder_id a)
       (\<lambda>_. arg_membership a (msg_id m)) (arg_membership a (msg_id m)) (message_folders d1)"
  shows "own_uid acc f raw v d'" "stored_at f v u d'" "stored_at f v w d1 \<Longrightarrow> stored_at f v w d'"
proof -
  let ?x = "arg_membership a (msg_id m)"
  have x: "membership_key ?x = (msg_id m, f)" "mf_uid ?x = Some u" "mf_uidvalidity ?x = Some v" "mf_folder_id ?x = f"
    using assms(2) by (auto simp: arg_at_def arg_membership_def)
  have key: "imap_source_item_key raw v w = Inr (msg_source_item_key m) \<Longrightarrow> w = u" for w
    using imap_key_inject [of raw v w _ raw v u] assms(2,5) by (auto simp: arg_at_def)
  have uniq: "uniq msg_id (messages d1)" using assms(1) by (simp add: own_uid_def db_inv_def messages_inv_def)
  have other: "membership_key y \<noteq> (msg_id m, f) \<Longrightarrow> y \<in> set (message_folders d') \<longleftrightarrow> y \<in> set (message_folders d1)" for y
    using rows x(1) assms(2) by (subst rows) (rule upsert_row_other; auto simp: arg_at_def)
  have "(msg_id m, f) \<in> membership_key ` set (message_folders d')"
    using upsert_row_in [of membership_key ?x "(msg_id m, f)" "\<lambda>_. ?x" "message_folders d1"] x(1) rows assms(2)
    by (simp add: arg_at_def)
  moreover have same: "y = ?x" if "y \<in> set (message_folders d')" "membership_key y = (msg_id m, f)" for y
    using that rows assms(2) by (auto simp: upsert_row_def set_update_where arg_at_def image_iff split: if_splits)
  ultimately have mem: "?x \<in> set (message_folders d')" by fastforce
  then show st: "stored_at f v u d'" using x by (auto simp: stored_at_def)
  show "own_uid acc f raw v d'"
    unfolding own_uid_def
  proof (intro conjI ballI allI impI assms(3))
    fix m' y w
    assume m': "m' \<in> set (messages d')" and y: "y \<in> set (message_folders d')" "mf_message_id y = msg_id m'"
      "mf_folder_id y = f" and k: "msg_account_id m' = acc" "imap_source_item_key raw v w = Inr (msg_source_item_key m')"
    have "mf_uid y = Some w \<and> mf_uidvalidity y = Some v"
    proof (cases "msg_id m' = msg_id m")
      case True
      with m' assms(4,6) uniq have "m' = m" by (auto dest: uniq_inj)
      with y same [of y] x key k show ?thesis by auto
    next
      case False
      with y other [of y] have "y \<in> set (message_folders d1)" by auto
      with assms(1,6) m' y k show ?thesis by (auto simp: own_uid_def)
    qed
    then show "mf_uid y = Some w" "mf_uidvalidity y = Some v" by auto
  qed
  show "stored_at f v w d'" if "stored_at f v w d1"
  proof -
    from that obtain y where y: "y \<in> set (message_folders d1)" "mf_folder_id y = f" "mf_uidvalidity y = Some v"
      "mf_uid y = Some w" by (auto simp: stored_at_def)
    show ?thesis
    proof (cases "mf_message_id y = msg_id m")
      case True
      then have "mf_uid y = Some u" using assms(1,2,4,5) y by (auto simp: own_uid_def arg_at_def)
      with y st show ?thesis by simp
    next
      case False
      with y other [of y] show ?thesis by (auto simp: stored_at_def)
    qed
  qed
qed

lemma own_uid_row:
  assumes "own_uid acc f raw v d" and "upsert_message_row a d = (r, d1)"
  shows "own_uid acc f raw v d1"
  unfolding own_uid_def
proof (intro conjI ballI allI impI)
  show "db_inv d1" using assms keepsD [OF keeps_upsert_message_row _ assms(2)] by (simp add: own_uid_def)
  note t = upsert_message_row_tables [OF assms(2)]
  fix m x w
  assume m: "m \<in> set (messages d1)" and x: "x \<in> set (message_folders d1)" "mf_message_id x = msg_id m"
    "mf_folder_id x = f" and k: "msg_account_id m = acc" "imap_source_item_key raw v w = Inr (msg_source_item_key m)"
  have "message_exists d (mf_message_id x)"
    using assms(1) x(1) t(1) by (simp add: own_uid_def db_inv_def memberships_inv_def membership_fk_def)
  then have "msg_id m \<noteq> next_message_id d"
    using assms(1) x(2) by (auto simp: own_uid_def db_inv_def messages_inv_def message_exists_def)
  from upsert_message_row_rows [OF assms(2) m this] obtain m0 where
    "m0 \<in> set (messages d)" "msg_id m0 = msg_id m" "message_key m0 = message_key m" by auto
  with assms(1) x k t(1) show "mf_uid x = Some w" "mf_uidvalidity x = Some v" by (auto simp: own_uid_def)
qed

lemma add_message_accounts:
  assumes "own_uid acc f raw v d" and "arg_at acc f raw v u a" and "add_message norm a cnt d = (r, d')"
  shows "own_uid acc f raw v d'" "stored_at f v w d \<Longrightarrow> stored_at f v w d'" "r = Inr i \<Longrightarrow> stored_at f v u d'"
    "sync_failures d' = sync_failures d"
proof -
  obtain r1 d1 where d1: "upsert_message_row a d = (r1, d1)" by fastforce
  note t = upsert_message_row_tables [OF d1] and own = own_uid_row [OF assms(1) d1]
  have inv: "db_inv d'" using assms keepsD [OF keeps_add_message _ assms(3)] by (simp add: own_uid_def)
  have all: "own_uid acc f raw v d' \<and> (stored_at f v w d \<longrightarrow> stored_at f v w d') \<and> (r = Inr i \<longrightarrow> stored_at f v u d') \<and>
    sync_failures d' = sync_failures d"
    using assms(3)
  proof (cases rule: add_message_tables)
    case (1 d2)
    with d1 t own inv show ?thesis by (auto simp: own_uid_def stored_at_def)
  next
    case (2 d2 m)
    with d1 have "d2 = d1" by simp
    with own_uid_upsert [OF own assms(2) inv, of m] 2 t show ?thesis by (auto simp: stored_at_def)
  qed
  then show "own_uid acc f raw v d'" "stored_at f v w d \<Longrightarrow> stored_at f v w d'" "r = Inr i \<Longrightarrow> stored_at f v u d'"
    "sync_failures d' = sync_failures d" by auto
qed

section \<open>Committing a batch\<close>

abbreviation run_db :: "'r sync \<Rightarrow> db" where
  "run_db s \<equiv> w_db (sy_world s)"

definition good_item :: "'r sync_ctx \<Rightarrow> int \<Rightarrow> string \<Rightarrow> int \<Rightarrow> pending_item \<Rightarrow> bool" where
  "good_item X f raw v item \<longleftrightarrow>
     (case pi_record item of Some a \<Rightarrow> arg_at (cx_account X) f raw v (pi_uid item) a | None \<Rightarrow> pi_failure item \<noteq> None) \<and>
     (\<forall>g c t. pi_failure item = Some (g, c, t) \<longrightarrow> g = v \<and> pi_failure_folder item = Some f)"

definition same_messages_of :: "db \<Rightarrow> db \<Rightarrow> bool" where
  "same_messages_of d d' \<longleftrightarrow> db_inv d' \<and> messages d' = messages d \<and> message_folders d' = message_folders d \<and>
     sync_failures d' = sync_failures d"

lemma same_messages_own_uid:
  "own_uid acc f raw v d \<Longrightarrow> same_messages_of d d' \<Longrightarrow> own_uid acc f raw v d'"
  "same_messages_of d d' \<Longrightarrow> stored_at f v u d' \<longleftrightarrow> stored_at f v u d"
  by (auto simp: own_uid_def same_messages_of_def stored_at_def)

lemma keeps_same_messages_alias: "keeps (same_messages_of d) (add_message_identity_alias acc k i e)"
proof -
  have "keeps (\<lambda>d'. messages d' = messages d \<and> message_folders d' = message_folders d \<and> sync_failures d' = sync_failures d)
      (add_message_identity_alias acc k i e)"
    unfolding add_message_identity_alias_def insert_alias_def
    by (intro keeps_then keeps_bind keeps_option keeps_if keeps_gets keeps_raise keeps_ret) (auto simp: keeps_def)
  from keeps_conj [OF keeps_add_message_identity_alias this] show ?thesis
    by (simp add: same_messages_of_def [abs_def])
qed

lemma keeps_run_db: "keeps I m \<Longrightarrow> keeps (\<lambda>s. I (run_db s)) (sync_db m)"
  by (auto simp: keeps_def on_world_def on_db_def case_prod_unfold)

lemma store_record_accounts:
  assumes "own_uid (cx_account X) f raw v (run_db s)" and "good_item X f raw v item"
    and "store_record X n item s = (r, t)"
  shows "own_uid (cx_account X) f raw v (run_db t)" "stored_at f v w (run_db s) \<Longrightarrow> stored_at f v w (run_db t)"
    "sync_failures (run_db t) = sync_failures (run_db s)"
    "r = Inr u \<Longrightarrow> pi_record item \<noteq> None \<Longrightarrow> stored_at f v (pi_uid item) (run_db t)"
proof -
  have "own_uid (cx_account X) f raw v (run_db t) \<and> (stored_at f v w (run_db s) \<longrightarrow> stored_at f v w (run_db t)) \<and>
    sync_failures (run_db t) = sync_failures (run_db s) \<and>
    (r = Inr u \<longrightarrow> pi_record item \<noteq> None \<longrightarrow> stored_at f v (pi_uid item) (run_db t))"
  proof (cases "pi_record item")
    case None
    with assms(1,3) show ?thesis by (simp add: store_record_def)
  next
    case (Some a)
    let ?add = "add_message (cx_norm X) a (pi_contents item)"
    have a: "arg_at (cx_account X) f raw v (pi_uid item) a" using assms(2) Some by (simp add: good_item_def)
    obtain r1 d1 where d1: "?add (run_db s) = (r1, d1)" by fastforce
    note acc = add_message_accounts [OF assms(1) a d1]
    show ?thesis
    proof (cases r1)
      case (Inl e)
      with assms(3) Some d1 acc show ?thesis by (auto simp: store_record_def run_bind on_world_def on_db_def)
    next
      case (Inr i)
      let ?rest = "thenp (modify (\<lambda>s. s\<lparr>sy_known :=
           ((ma_folder_id a, get_default (ma_uidvalidity a) 0, get_default (ma_uid a) 0), record_of_arg a i) # sy_known s\<rparr>))
         (forp (\<lambda>(canonical, alias). whenp (canonical = ma_source_item_key a)
             (sync_db (add_message_identity_alias (cx_account X) alias i ''gmail_msgid''))) (bn_aliases n))"
      let ?s1 = "s\<lparr>sy_world := (sy_world s)\<lparr>w_db := d1\<rparr>\<rparr>"
      have rest: "?rest ?s1 = (r, t)"
        using assms(3) Some d1 Inr by (simp add: store_record_def run_bind on_world_def on_db_def)
      have "keeps (\<lambda>s. same_messages_of d1 (run_db s)) ?rest"
        by (intro keeps_then keeps_forp)
          (auto intro!: keeps_when keeps_run_db keeps_same_messages_alias keeps_modify)
      moreover have "same_messages_of d1 (run_db ?s1)" using acc(1) by (simp add: same_messages_of_def own_uid_def)
      ultimately have same: "same_messages_of d1 (run_db t)" using rest by (rule keepsD)
      then have "sync_failures (run_db t) = sync_failures d1" by (simp add: same_messages_of_def)
      with acc Inr same_messages_own_uid(1) [OF acc(1) same] show ?thesis
        by (simp add: same_messages_own_uid(2) [OF same])
    qed
  qed
  then show "own_uid (cx_account X) f raw v (run_db t)" "stored_at f v w (run_db s) \<Longrightarrow> stored_at f v w (run_db t)"
    "sync_failures (run_db t) = sync_failures (run_db s)"
    "r = Inr u \<Longrightarrow> pi_record item \<noteq> None \<Longrightarrow> stored_at f v (pi_uid item) (run_db t)" by auto
qed

lemma own_uid_failures: "own_uid acc f raw v d \<Longrightarrow> db_inv (d\<lparr>sync_failures := x\<rparr>) \<Longrightarrow> own_uid acc f raw v (d\<lparr>sync_failures := x\<rparr>)"
  by (auto simp: own_uid_def)

lemma store_failure_accounts:
  assumes "own_uid (cx_account X) f raw v (run_db s)" and "good_item X f raw v item"
    and "store_failure X item s = (r, t)"
    and "pi_record item \<noteq> None \<Longrightarrow> stored_at f v (pi_uid item) (run_db s)"
  shows "own_uid (cx_account X) f raw v (run_db t)"
    "uid_accounted (cx_account X) f v w (run_db s) \<Longrightarrow> uid_accounted (cx_account X) f v w (run_db t)"
    "uid_accounted (cx_account X) f v (pi_uid item) (run_db t)"
proof -
  let ?acc = "uid_accounted (cx_account X) f v"
  have "own_uid (cx_account X) f raw v (run_db t) \<and> (?acc w (run_db s) \<longrightarrow> ?acc w (run_db t)) \<and> ?acc (pi_uid item) (run_db t)"
  proof (cases "pi_failure item")
    case (Some x)
    then obtain c m where x: "pi_failure item = Some (v, c, m)" "pi_failure_folder item = Some f"
      using assms(2) by (cases x) (auto simp: good_item_def)
    let ?d = "snd (record_failure (cx_account X) f v (pi_uid item) c m (run_db s))"
    have t: "run_db t = ?d"
      using assms(3) x by (auto simp: store_failure_def on_world_def on_db_def record_failure_def)
    have tables: "messages ?d = messages (run_db s)" "message_folders ?d = message_folders (run_db s)"
      by (simp_all add: record_failure_def)
    have "db_inv ?d" using assms(1) keeps_other_ops(3) by (simp add: own_uid_def keeps_def)
    then have own: "own_uid (cx_account X) f raw v ?d" using assms(1) tables by (simp add: own_uid_def)
    have this_one: "failed_at (cx_account X) f v (pi_uid item) ?d"
      unfolding failed_at_def record_failure_def by simp (rule upsert_row_in [where key = failure_key, simplified]; simp)
    have "failure_key ` set (sync_failures (run_db s)) \<subseteq> failure_key ` set (sync_failures ?d)"
      unfolding record_failure_def by simp (rule image_upsert_subset [where key = failure_key, simplified]; simp)
    then have "failed_at (cx_account X) f v w (run_db s) \<Longrightarrow> failed_at (cx_account X) f v w ?d"
      unfolding failed_at_def by (rule subsetD)
    moreover have "stored_at f v w ?d = stored_at f v w (run_db s)" using tables by (simp add: stored_at_def)
    ultimately show ?thesis using own this_one unfolding t uid_accounted_def by blast
  next
    case None
    then obtain a where a: "pi_record item = Some a" and at: "arg_at (cx_account X) f raw v (pi_uid item) a"
      using assms(2) by (auto simp: good_item_def split: option.splits)
    let ?d = "snd (clear_failure (cx_account X) f v (pi_uid item) (run_db s))"
    have t: "run_db t = (if pi_clear_failure item then ?d else run_db s)"
      using assms(3) None a at
      by (auto simp: store_failure_def on_world_def on_db_def clear_failure_def run_when arg_at_def get_default_def)
    have tables: "messages ?d = messages (run_db s)" "message_folders ?d = message_folders (run_db s)"
      by (simp_all add: clear_failure_def)
    have "db_inv ?d" using assms(1) keeps_other_ops(4) by (simp add: own_uid_def keeps_def)
    then have own: "own_uid (cx_account X) f raw v ?d" using assms(1) tables by (simp add: own_uid_def)
    have st: "stored_at f v (pi_uid item) (run_db s)" using assms(4) a by simp
    have same: "stored_at f v u ?d = stored_at f v u (run_db s)" for u using tables by (simp add: stored_at_def)
    have "w \<noteq> pi_uid item \<Longrightarrow> failed_at (cx_account X) f v w (run_db s) \<Longrightarrow> failed_at (cx_account X) f v w ?d"
      by (force simp: failed_at_def clear_failure_def)
    with own st same [of w] same [of "pi_uid item"] assms(1) show ?thesis
      by (cases "w = pi_uid item") (simp_all add: t uid_accounted_def)
  qed
  then show "own_uid (cx_account X) f raw v (run_db t)"
    "uid_accounted (cx_account X) f v w (run_db s) \<Longrightarrow> uid_accounted (cx_account X) f v w (run_db t)"
    "uid_accounted (cx_account X) f v (pi_uid item) (run_db t)" by auto
qed

lemma store_item_accounts:
  assumes "own_uid (cx_account X) f raw v (run_db s)" and "good_item X f raw v item"
    and "store_item X n item s = (r, t)"
  shows "own_uid (cx_account X) f raw v (run_db t)"
    "uid_accounted (cx_account X) f v w (run_db s) \<Longrightarrow> uid_accounted (cx_account X) f v w (run_db t)"
    "r = Inr u \<Longrightarrow> uid_accounted (cx_account X) f v (pi_uid item) (run_db t)"
proof -
  obtain r1 s1 where s1: "store_record X n item s = (r1, s1)" by fastforce
  note rec = store_record_accounts [OF assms(1,2) s1]
  have w: "uid_accounted (cx_account X) f v w (run_db s1)" if "uid_accounted (cx_account X) f v w (run_db s)"
    using that rec(2,3) by (auto simp: uid_accounted_def failed_at_def)
  have "own_uid (cx_account X) f raw v (run_db t) \<and>
    (uid_accounted (cx_account X) f v w (run_db s) \<longrightarrow> uid_accounted (cx_account X) f v w (run_db t)) \<and>
    (r = Inr u \<longrightarrow> uid_accounted (cx_account X) f v (pi_uid item) (run_db t))"
  proof (cases r1)
    case (Inl e)
    with s1 assms(3) rec(1) w show ?thesis by (auto simp: store_item_def)
  next
    case (Inr x)
    with s1 assms(3) have "store_failure X item s1 = (r, t)" by (simp add: store_item_def)
    from store_failure_accounts [OF rec(1) assms(2) this] rec(4) w Inr show ?thesis by auto
  qed
  then show "own_uid (cx_account X) f raw v (run_db t)"
    "uid_accounted (cx_account X) f v w (run_db s) \<Longrightarrow> uid_accounted (cx_account X) f v w (run_db t)"
    "r = Inr u \<Longrightarrow> uid_accounted (cx_account X) f v (pi_uid item) (run_db t)" by auto
qed

lemma forp_store_item_accounts:
  assumes "own_uid (cx_account X) f raw v (run_db s)" and "\<And>item. item \<in> set items \<Longrightarrow> good_item X f raw v item"
    and "forp (store_item X n) items s = (Inr u, t)"
  shows "own_uid (cx_account X) f raw v (run_db t)"
    "uid_accounted (cx_account X) f v w (run_db s) \<or> w \<in> pi_uid ` set items \<Longrightarrow> uid_accounted (cx_account X) f v w (run_db t)"
proof -
  let ?own = "\<lambda>s. own_uid (cx_account X) f raw v (run_db s)"
  let ?both = "\<lambda>w s. ?own s \<and> uid_accounted (cx_account X) f v w (run_db s)"
  have own: "keeps ?own (store_item X n item)" if "item \<in> set items" for item
    using store_item_accounts(1) [OF _ assms(2) [OF that]] by (auto intro!: keepsI) (metis prod.collapse)
  have both: "keeps (?both w) (store_item X n item)" if "item \<in> set items" for item w
    using store_item_accounts(1,2) [OF _ assms(2) [OF that]] by (auto intro!: keepsI) (metis prod.collapse)+
  show "?own t" using keepsD [OF keeps_forp [OF own] assms(1,3)] .
  assume "uid_accounted (cx_account X) f v w (run_db s) \<or> w \<in> pi_uid ` set items"
  then show "uid_accounted (cx_account X) f v w (run_db t)"
  proof
    assume "uid_accounted (cx_account X) f v w (run_db s)"
    with assms(1) keepsD [OF keeps_forp [OF both] _ assms(3)] show ?thesis by blast
  next
    assume "w \<in> pi_uid ` set items"
    then obtain item where item: "item \<in> set items" "w = pi_uid item" by auto
    have "?both w t"
      by (rule forp_establishes [where J = ?own, OF assms(3) item(1) assms(1) own both])
        (use item store_item_accounts(1,3) [OF _ assms(2) [OF item(1)]] in auto)
    then show ?thesis ..
  qed
qed

section \<open>Tracking a range\<close>

text \<open>The UIDs of \<open>U\<close> are in the batch or accounted for; \<open>A\<close> are the UIDs attempted so far.\<close>

definition tracked :: "'r sync_ctx \<Rightarrow> int \<Rightarrow> string \<Rightarrow> int \<Rightarrow> int set \<Rightarrow> int set \<Rightarrow> 'r sync \<Rightarrow> bool" where
  "tracked X f raw v A U s \<longleftrightarrow> own_uid (cx_account X) f raw v (run_db s) \<and>
     (\<forall>item\<in>set (sy_pending s). good_item X f raw v item) \<and> set (sy_attempted s) = A \<and>
     (\<forall>u\<in>U. u \<in> pi_uid ` set (sy_pending s) \<or> uid_accounted (cx_account X) f v u (run_db s))"

lemma on_world_run: "on_world m s = (r, t) \<Longrightarrow> \<exists>w. m (sy_world s) = (r, w) \<and> t = s\<lparr>sy_world := w\<rparr>"
  by (auto simp: on_world_def split: prod.splits)

lemma keeps_db_append: "keeps (\<lambda>w. w_db w = d) (man_append E ev)"
  by (auto simp: keeps_def man_append_def split: prod.split)

lemma keeps_db_sync: "keeps (\<lambda>w. w_db w = d) man_sync"
  by (simp add: keeps_def run_man_sync)

lemma journal_batch_db: "journal_batch X items w = (r, w') \<Longrightarrow> w_db w' = w_db w"
  using keepsD [OF keeps_journal_batch [where I = "\<lambda>w'. w_db w' = w_db w", OF keeps_db_append keeps_db_sync] refl] .

lemma keeps_run_frame: "keeps (\<lambda>s. sy_pending s = p \<and> sy_attempted s = a) (on_world m)"
  by (auto simp: keeps_def on_world_def split: prod.split)

lemma keeps_store_item_frame: "keeps (\<lambda>s. sy_pending s = p \<and> sy_attempted s = a) (store_item X n item)"
  unfolding store_item_def store_record_def store_failure_def
  by (auto split: option.split intro!: keeps_then keeps_bind keeps_forp keeps_when keeps_run_frame keeps_modify)

lemma own_uid_cursor:
  assumes "own_uid acc f raw v d" and "update_sync_cursors g x y z d = (r, d')"
  shows "own_uid acc f raw v d'" "uid_accounted acc h v u d' = uid_accounted acc h v u d"
proof -
  have "db_inv d'" using keepsD [OF keeps_folder_ops(3) _ assms(2)] assms(1) by (simp add: own_uid_def)
  with assms show "own_uid acc f raw v d'" "uid_accounted acc h v u d' = uid_accounted acc h v u d"
    by (auto simp: update_sync_cursors_def update_folder_columns_def own_uid_def uid_accounted_def stored_at_def failed_at_def
        split: if_splits)
qed

lemma commit_pending_tracked:
  assumes "tracked X f raw v A U s" and "commit_pending X cursor s = (Inr u, t)"
  shows "tracked X f raw v A U t" "sy_pending t = []" "cursor \<noteq> None \<Longrightarrow> w_batch (sy_world t) = None"
proof -
  let ?items = "sy_pending s"
  have "tracked X f raw v A U t \<and> sy_pending t = [] \<and> (cursor \<noteq> None \<longrightarrow> w_batch (sy_world t) = None)"
  proof (cases "?items = [] \<and> cursor = None")
    case True
    with assms show ?thesis by (simp add: commit_pending_def run_bind)
  next
    case False
    with assms(2) obtain n s1 s2 u3 s3 s4 s5 u5 where
      s1: "on_world (journal_batch X ?items) s = (Inr n, s1)" and s2: "on_world begin_batch s1 = (Inr (), s2)" and
      s3: "forp (store_item X n) ?items s2 = (Inr u3, s3)" and
      s4: "(case cursor of None \<Rightarrow> ret ()
        | Some (g, last_seen, backfill, initial) \<Rightarrow> sync_db (update_sync_cursors g last_seen backfill initial)) s3 = (Inr (), s4)" and
      s5: "on_world commit_batch s4 = (Inr u5, s5)" and
      t: "on_world (sync_checkpoint X (sy_checkpoint s5 + 1))
        (s5\<lparr>sy_pending := [], sy_checkpoint := sy_checkpoint s5 + 1\<rparr>) = (Inr u, t)"
      unfolding commit_pending_def by (auto elim!: bind_okE then_okE split: if_splits)
    have db1: "run_db s1 = run_db s"
      using on_world_run [OF s1] by (auto dest: journal_batch_db)
    have db2: "run_db s2 = run_db s1" using on_world_run [OF s2] by (auto simp: begin_batch_def split: if_splits)
    have fr: "sy_attempted s3 = sy_attempted s"
      using keepsD [OF keeps_forp [OF keeps_store_item_frame [of "sy_pending s2" "sy_attempted s2"]] _ s3]
        on_world_run [OF s1] on_world_run [OF s2] by auto
    have own2: "own_uid (cx_account X) f raw v (run_db s2)" using assms(1) db1 db2 by (simp add: tracked_def)
    have good: "\<And>item. item \<in> set ?items \<Longrightarrow> good_item X f raw v item" using assms(1) by (simp add: tracked_def)
    note st = forp_store_item_accounts [OF own2 good s3]
    have all3: "uid_accounted (cx_account X) f v w (run_db s3)" if "w \<in> U" for w
      using assms(1) that st(2) [of w] db1 db2 by (auto simp: tracked_def)
    have s4': "own_uid (cx_account X) f raw v (run_db s4)" "\<And>w. uid_accounted (cx_account X) f v w (run_db s4) =
        uid_accounted (cx_account X) f v w (run_db s3)" "sy_attempted s4 = sy_attempted s3"
      using s4 st(1) own_uid_cursor [OF st(1)]
      by (auto split: option.splits dest!: on_world_run simp: on_db_def split: prod.splits)
    have s5': "run_db s5 = run_db s4" "sy_attempted s5 = sy_attempted s4" "w_batch (sy_world s5) = None"
      using on_world_run [OF s5] by (auto simp: commit_batch_def)
    have "run_db t = run_db s5" "sy_attempted t = sy_attempted s5" "sy_pending t = []" "w_batch (sy_world t) = None"
      using on_world_run [OF t] s5'(3) by (auto simp: sync_checkpoint_def split: prod.splits)
    with s5' s4' all3 fr assms(1) show ?thesis by (auto simp: tracked_def)
  qed
  then show "tracked X f raw v A U t" "sy_pending t = []" "cursor \<noteq> None \<Longrightarrow> w_batch (sy_world t) = None" by auto
qed

subsection \<open>One message\<close>

definition same_batch :: "'r sync \<Rightarrow> 'r sync \<Rightarrow> bool" where
  "same_batch s t \<longleftrightarrow> run_db t = run_db s \<and> sy_pending t = sy_pending s \<and> sy_attempted t = sy_attempted s"

lemma keeps_same_batch_world: "keeps (\<lambda>w. w_db w = run_db s) m \<Longrightarrow> keeps (same_batch s) (on_world m)"
  by (auto simp: keeps_def same_batch_def on_world_def case_prod_unfold)

lemma keeps_db_remote: "keeps (\<lambda>w. w_db w = d) (on_remote m)"
  by (auto simp: keeps_def on_remote_def split: prod.split)

lemma keeps_same_batch_remote: "keeps (same_batch s) (sync_remote m)"
  by (intro keeps_same_batch_world keeps_db_remote)

lemma keeps_same_batch_counters:
  "(\<And>t. sy_world (g t) = sy_world t \<and> sy_pending (g t) = sy_pending t \<and> sy_attempted (g t) = sy_attempted t) \<Longrightarrow>
   keeps (same_batch s) (modify g)"
  by (rule keeps_modify) (simp add: same_batch_def)

lemma keeps_same_batch_place: "keeps (same_batch s) (on_world (place_eml X ref bytes))"
proof (rule keeps_same_batch_world)
  have "keeps (\<lambda>w. w_db w = run_db s) (on_fs m)" for m :: "(fs, stored_eml) prog"
    by (auto simp: keeps_def on_fs_def split: prod.split)
  then show "keeps (\<lambda>w. w_db w = run_db s) (place_eml X ref bytes)"
    unfolding place_eml_def Let_def find_stored_eml_def
    by (intro keeps_bind keeps_option keeps_on_db_read keeps_gets keeps_ret keeps_lift_sum) simp_all
qed

lemma keeps_same_batch_make_item: "keeps (same_batch s) (make_item X f raw v ref)"
proof -
  have over: "keeps (same_batch s) (oversize_item X f raw v ref b n)" for b n
    unfolding oversize_item_def
    by (intro keeps_bind keeps_then keeps_same_batch_counters keeps_lift_sum keeps_ret) simp
  have fetched: "keeps (same_batch s) (fetched_item X f raw v ref b)" for b
    unfolding fetched_item_def Let_def
    by (intro keeps_bind keeps_then keeps_same_batch_counters keeps_lift_sum keeps_ret keeps_same_batch_place) simp
  show ?thesis
    unfolding make_item_def Let_def download_with_retry_def
    by (intro keeps_then keeps_if keeps_bind keeps_same_batch_remote keeps_ret keeps_same_batch_counters over fetched) simp_all
qed

lemma record_for_message_at:
  assumes "record_for_message X f raw v ref p stored n = Inr a" and "ref_gmail_msgid ref = None"
  shows "arg_at (cx_account X) f raw v (ref_uid ref) a"
  using assms
  by (auto simp: record_for_message_def remote_source_item_key_def Let_def arg_at_def split: sum.splits)

definition item_at :: "'r sync_ctx \<Rightarrow> int \<Rightarrow> string \<Rightarrow> int \<Rightarrow> int \<Rightarrow> pending_item \<Rightarrow> bool" where
  "item_at X f raw v u item \<longleftrightarrow> pi_uid item = u \<and> (\<exists>a. pi_record item = Some a \<and> arg_at (cx_account X) f raw v u a) \<and>
     (\<forall>g c t. pi_failure item = Some (g, c, t) \<longrightarrow> g = v)"

lemma oversize_item_at:
  assumes "ref_gmail_msgid ref = None" and "oversize_item X f raw v ref b n s = (Inr item, t)"
  shows "item_at X f raw v (ref_uid ref) item"
proof -
  obtain a where "record_for_message X f raw v ref (cx_parse X b (ref_internal_date ref)) None n = Inr a"
    "pi_record item = Some a" "pi_uid item = ref_uid ref" "pi_failure item = Some (v, ''oversize'', ''message exceeds configured size limit'')"
    using assms(2) by (auto simp: oversize_item_def elim!: bind_okE then_okE)
  with record_for_message_at [OF this(1) assms(1)] show ?thesis by (simp add: item_at_def)
qed

lemma fetched_item_at:
  assumes "ref_gmail_msgid ref = None" and "fetched_item X f raw v ref b s = (Inr item, t)"
  shows "item_at X f raw v (ref_uid ref) item"
proof -
  obtain a p st n where "record_for_message X f raw v ref p st n = Inr a"
    "pi_record item = Some a" "pi_uid item = ref_uid ref" "\<forall>g c t. pi_failure item = Some (g, c, t) \<longrightarrow> g = v"
    using assms(2) by (auto simp: fetched_item_def Let_def elim!: bind_okE then_okE)
  with record_for_message_at [OF this(1) assms(1)] show ?thesis by (simp add: item_at_def)
qed

lemma make_item_at:
  assumes "ref_gmail_msgid ref = None" and "make_item X f raw v ref s = (Inr item, t)"
  shows "item_at X f raw v (ref_uid ref) item"
  using assms(2) oversize_item_at [OF assms(1)] fetched_item_at [OF assms(1)]
  by (auto simp: make_item_def Let_def elim!: bind_okE then_okE split: if_splits)

lemma process_ref_tracked:
  assumes "tracked X f raw v A U s" and "ref_gmail_msgid ref = None"
    and "process_ref X f raw v ref s = (Inr u, t)"
  shows "tracked X f raw v A (insert (ref_uid ref) U) t"
proof -
  let ?m = "catchp
        (bindp (make_item X f raw v ref) (\<lambda>item.
           ret (if pi_failure item \<noteq> None then item\<lparr>pi_failure_folder := Some f\<rparr> else item)))
        (\<lambda>e. if is_authentication_error e then raise e
             else if is_fetch_error e \<or> is_storage_error e
             then thenp (modify (\<lambda>s. s\<lparr>sy_failed := sy_failed s + 1\<rparr>))
               (ret ((fetch_failure (ref_uid ref) v e)\<lparr>pi_failure_folder := Some f\<rparr>))
             else raise e)"
  have check: "keeps (same_batch s) (check_cancelled X)"
    unfolding check_cancelled_def by (rule keeps_same_batch_remote)
  have m: "keeps (same_batch s) ?m"
    by (intro keeps_catch keeps_bind keeps_if keeps_then keeps_same_batch_make_item keeps_ret keeps_raise
        keeps_same_batch_counters) simp
  obtain s1 item s2 where s1: "check_cancelled X s = (Inr (), s1)" and s2: "?m s1 = (Inr item, s2)"
    and t: "t = s2\<lparr>sy_pending := sy_pending s2 @ [item]\<rparr>"
    using assms(3) unfolding process_ref_def by (elim bind_okE then_okE) simp
  have "same_batch s s1" by (rule keepsD [OF check _ s1]) (simp add: same_batch_def)
  from keepsD [OF m this s2] have same: "same_batch s s2" .
  from s2 consider (made) item0 where "make_item X f raw v ref s1 = (Inr item0, s2)"
      "item = (if pi_failure item0 \<noteq> None then item0\<lparr>pi_failure_folder := Some f\<rparr> else item0)"
    | (failed) e where "item = (fetch_failure (ref_uid ref) v e)\<lparr>pi_failure_folder := Some f\<rparr>"
    by (cases "make_item X f raw v ref s1"; cases "fst (make_item X f raw v ref s1)")
      (auto simp: run_catch run_bind run_then split: if_splits)
  then have "good_item X f raw v item \<and> pi_uid item = ref_uid ref"
  proof cases
    case made
    with make_item_at [OF assms(2) made(1)] show ?thesis by (auto simp: good_item_def item_at_def)
  next
    case failed
    then show ?thesis by (simp add: good_item_def fetch_failure_def)
  qed
  with same t assms(1) show ?thesis by (auto simp: tracked_def same_batch_def)
qed

subsection \<open>A range\<close>

lemma range_step_tracked:
  assumes "tracked X f raw v A U s" and "ref_gmail_msgid ref = None"
    and "range_step X f raw v history low ref s = (Inr low', t)"
  shows "\<exists>B. tracked X f raw v B (if ref_uid ref \<in> A then U else insert (ref_uid ref) U) t \<and> B = insert (ref_uid ref) A"
proof (cases "ref_uid ref \<in> A")
  case True
  with assms show ?thesis by (auto simp: range_step_def run_bind tracked_def)
next
  case False
  let ?s1 = "s\<lparr>sy_attempted := ref_uid ref # sy_attempted s\<rparr>" and ?U = "insert (ref_uid ref) U" and ?A = "insert (ref_uid ref) A"
  from False assms(1,3) obtain u s2 where s2: "process_ref X f raw v ref ?s1 = (Inr u, s2)"
    and t: "t = s2 \<or> (\<exists>c x. commit_pending X c s2 = (Inr x, t))"
    by (auto simp: range_step_def Let_def mark_attempted_def run_bind tracked_def elim!: then_okE split: if_splits option.splits;
        blast)
  have "tracked X f raw v ?A U ?s1" using assms(1) by (auto simp: tracked_def)
  from process_ref_tracked [OF this assms(2) s2] t have "tracked X f raw v ?A ?U t"
    by (auto dest: commit_pending_tracked(1))
  with False show ?thesis by auto
qed

lemma range_tracked:
  assumes "tracked X f raw v A U s" and "\<And>r. r \<in> set rs \<Longrightarrow> ref_gmail_msgid r = None"
    and "foldp (range_step X f raw v history) low rs s = (Inr low', t)" and "A \<subseteq> A0 \<union> U"
  shows "\<exists>B. tracked X f raw v B (U \<union> (ref_uid ` set rs - A0)) t"
  using assms
proof (induction rs arbitrary: low A U s)
  case Nil
  then show ?case by auto
next
  case (Cons r rs)
  then obtain l s1 where s1: "range_step X f raw v history low r s = (Inr l, s1)"
    and rest: "foldp (range_step X f raw v history) l rs s1 = (Inr low', t)"
    by (auto elim: bind_okE)
  let ?U = "if ref_uid r \<in> A then U else insert (ref_uid r) U"
  from range_step_tracked [OF Cons.prems(1) _ s1] Cons.prems(2)
  have step: "tracked X f raw v (insert (ref_uid r) A) ?U s1" by auto
  have "\<exists>B. tracked X f raw v B (?U \<union> (ref_uid ` set rs - A0)) t"
    by (rule Cons.IH [OF step _ rest]) (use Cons.prems(2,4) in \<open>auto split: if_splits\<close>)
  then obtain B where "tracked X f raw v B (?U \<union> (ref_uid ` set rs - A0)) t" ..
  with Cons.prems(4) show ?case by (intro exI [of _ B]) (auto simp: tracked_def split: if_splits)
qed

section \<open>Property\<close>


definition sample_box :: box where
  "sample_box = [(''INBOX'', 7, [(3, ''raw''), (4, ''two'')]), (''Trash'', 9, [])]"

definition sample_new :: "(error + int) \<times> unit sync" where
  "sample_new = sync_new (box_ctx sample_box) (sample_folder 1 ''INBOX'') 7 0 (fresh_sync fresh_store 0)"

lemma fresh_store_inv: "db_inv (w_db fresh_store)"
  by (simp add: db_inv_def table_inv_defs exists_defs uniq_def uniq_some_def differ_def uid_key_def
      fresh_store_def sample_db_defs)


end
