(* ===== verification/Sync_Props.thy ===== *)
theory Sync_Props
  imports Sync_Complete
begin

text \<open>
  Properties of the synchronization: what it never destroys, and that a message is in the database only
  after its record is durable in the manifest.
\<close>

section \<open>The schema\<close>

interpretation consistent: sync_keeper "\<lambda>_ d. db_inv d"
  by unfold_locales
    (auto intro: keeps_folder_ops keeps_other_ops keeps_update_flags keeps_touch_flags_seen_at keeps_message_ops
      keeps_add_message_identity_alias keeps_merge_duplicate_message keeps_update_remote_state
      keeps_replace_message_memberships keeps_add_message [unfolded keeps_def, rule_format])

section \<open>Paths and hashes\<close>

definition pair_of :: "message_row \<Rightarrow> string option \<times> string option" where
  "pair_of m = (msg_relative_path m, msg_file_hash m)"

definition all_pairs :: "(string option \<times> string option \<Rightarrow> bool) \<Rightarrow> db \<Rightarrow> bool" where
  "all_pairs P d \<longleftrightarrow> (\<forall>m\<in>set (messages d). P (pair_of m))"

lemma all_pairs_frame: "(\<And>d. messages (f d) = messages d) \<Longrightarrow> keeps (all_pairs P) (modify f)"
  by (simp add: all_pairs_def keeps_def)

lemma all_pairs_constrained: "(\<And>d. messages (f d) = messages d) \<Longrightarrow> keeps (all_pairs P) (constrained ok n f)"
  by (simp add: all_pairs_def keeps_def constrained_def)

lemma all_pairs_set_message:
  assumes "all_pairs P d" and "\<And>m. m \<in> set (messages d) \<Longrightarrow> P (pair_of m) \<Longrightarrow> P (pair_of (f m))"
  shows "all_pairs P (set_message i f d)"
  using assms by (auto simp: all_pairs_def set_message_def update_where_def)

lemma keeps_pairs_insert_alias: "keeps (all_pairs P) (insert_alias a)"
  by (auto simp: keeps_def insert_alias_def all_pairs_def)

lemma keeps_pairs_merge_membership: "keeps (all_pairs P) (merge_membership c p x)"
  by (auto simp: keeps_def merge_membership_def all_pairs_def split: option.split)

lemma keeps_pairs_modify:
  assumes "\<And>m. P (pair_of m) \<Longrightarrow> P (pair_of (f m))"
  shows "keeps (all_pairs P) (modify (set_message i f))"
  by (rule keeps_modify) (rule all_pairs_set_message, use assms in auto)

lemma keeps_pairs_merge_aliases: "keeps (all_pairs P) (merge_aliases acc c p)"
  unfolding merge_aliases_def
  by (intro keeps_bind keeps_then keeps_forp keeps_option keeps_gets keeps_ret keeps_pairs_insert_alias
      all_pairs_frame) simp

lemma keeps_pairs_delete: "keeps (all_pairs P) (modify (\<lambda>d. delete_message i (d\<lparr>pst_items := g (pst_items d)\<rparr>)))"
  by (rule keeps_modify) (auto simp: all_pairs_def delete_message_def delete_where_def)

lemma keeps_pairs_move_contents: "keeps (all_pairs P) (move_contents c p)"
  unfolding move_contents_def by (rule all_pairs_frame) simp

lemma found_pair: "all_pairs P d \<Longrightarrow> List.find q (messages d) = Some m \<Longrightarrow> P (pair_of m)"
  by (auto simp: all_pairs_def dest: find_Some_in_set)

lemma keeps_pairs_merge: "keeps (all_pairs P) (merge_duplicate_message acc c p)"
  unfolding merge_duplicate_message_def
  by (intro keeps_if keeps_ret keeps_gets_bind)
    (auto split: option.split simp: pair_of_def dest: found_pair intro!: keeps_then keeps_when keeps_bind keeps_forp
      keeps_pairs_modify keeps_pairs_move_contents keeps_pairs_merge_aliases keeps_pairs_merge_membership
      keeps_pairs_delete)

lemma add_message_pairs:
  assumes "all_pairs P d" and "sets_pair a" and "P (stored_pair a)"
  shows "all_pairs P (snd (add_message norm a cnt d))"
proof -
  let ?f = "set_columns (ma_columns a)"
  have "P (pair_of (?f m))" for m
    using assms(2,3) by (cases "stored_pair a") (simp add: sets_pair_def pair_of_def)
  with assms(1) have "all_pairs P (snd (upsert_message_row a d))"
    by (auto simp: all_pairs_def upsert_message_row_def constrained_def Let_def upsert_row_def update_where_def)
  moreover have "keeps (all_pairs P) (upsert_membership x)" for x
    unfolding upsert_membership_def by (intro all_pairs_constrained) simp
  moreover have "keeps (all_pairs P) (update_message_contents i c)" for i c
    unfolding update_message_contents_def by (intro keeps_then all_pairs_frame all_pairs_constrained) simp_all
  ultimately show ?thesis
    unfolding add_message_def find_message_id_by_source_item_key_def
    by (intro snd_thenp_keeps [where I = "all_pairs P"] keeps_bind keeps_then keeps_option keeps_gets keeps_raise keeps_ret)
qed

text \<open>The pairs of a database at the start of a run, and those that a durable fetch record names.\<close>

definition pairs_recorded :: "db \<Rightarrow> event list \<Rightarrow> db \<Rightarrow> bool" where
  "pairs_recorded d0 evs = all_pairs (\<lambda>ph. fst ph = None \<or> ph \<in> pair_of ` set (messages d0) \<or>
     (\<exists>ev\<in>set evs. names_pair ev ph))"

interpretation recorded: sync_keeper "pairs_recorded d0" for d0
proof
  fix evs
  show "pairs_recorded d0 evs (snd (add_message norm a cnt d))"
    if "pairs_recorded d0 evs d" "pair_recorded (set evs) a" for norm a cnt d
    using that unfolding pairs_recorded_def pair_recorded_def by (intro add_message_pairs) auto
  show "pairs_recorded d0 (evs @ evs2) d" if "pairs_recorded d0 evs d" for evs2 d
    using that by (auto simp: pairs_recorded_def all_pairs_def)
  show "keeps (pairs_recorded d0 evs) (replace_message_memberships i ms)" for i ms
    unfolding pairs_recorded_def replace_message_memberships_def insert_membership_def
    by (intro keeps_then keeps_forp all_pairs_frame all_pairs_constrained) simp_all
  show "keeps (pairs_recorded d0 evs) (touch_flags_seen_at a f v us t)" for a f v us t
    unfolding pairs_recorded_def touch_flags_seen_at_def
    by (intro keeps_if keeps_ret keeps_forp all_pairs_frame) (simp add: touch_chunk_def)
  show "keeps (pairs_recorded d0 evs) (add_message_identity_alias a k i e)" for a k i e
    unfolding pairs_recorded_def add_message_identity_alias_def
    by (intro keeps_then keeps_bind keeps_option keeps_if keeps_pairs_insert_alias keeps_gets keeps_raise keeps_ret)
  show "keeps (pairs_recorded d0 evs) (merge_duplicate_message a c p)" for a c p
    unfolding pairs_recorded_def by (rule keeps_pairs_merge)
  show "keeps (pairs_recorded d0 evs) (update_gmail_labels i l)" for i l
    unfolding pairs_recorded_def update_gmail_labels_def set_message_def [symmetric]
    by (rule keeps_pairs_modify) (simp add: pair_of_def)
qed (auto simp: pairs_recorded_def all_pairs_def keeps_def initialize_sync_cursors_def update_sync_cursors_def
      set_highest_modseq_def update_folder_columns_def record_failure_def clear_failure_def update_flags_def
      update_remote_state_def constrained_def Let_def)

section \<open>Properties\<close>

lemma sync_world_ok:
  assumes "names_identify (cx_env X)" and "manifest_inv (cx_env X) (w_man w)" and "w_batch w = None" and "db_inv (w_db w)"
  shows "world_ok (\<lambda>_ d. db_inv d) (cx_env X) (w_history w) (w_fs w) {} (snd (sync_account X w))"
    "world_ok (pairs_recorded (w_db w)) (cx_env X) (w_history w) (w_fs w) {} (snd (sync_account X w))"
    "world_ok (\<lambda>_ d. db_inv d) (cx_env X) (w_history w) (w_fs w) {} (snd (force_fetch_message X raw f v u w))"
    "world_ok (pairs_recorded (w_db w)) (cx_env X) (w_history w) (w_fs w) {} (snd (force_fetch_message X raw f v u w))"
proof -
  have kept: "files_kept (cx_env X) (w_fs w) (w_fs w)" by (simp add: files_kept_def intact_file_def)
  with assms have c: "world_ok (\<lambda>_ d. db_inv d) (cx_env X) (w_history w) (w_fs w) {} w"
    by (simp add: world_ok_def committed_def)
  from kept assms have r: "world_ok (pairs_recorded (w_db w)) (cx_env X) (w_history w) (w_fs w) {} w"
    by (simp add: world_ok_def committed_def pairs_recorded_def all_pairs_def)
  show "world_ok (\<lambda>_ d. db_inv d) (cx_env X) (w_history w) (w_fs w) {} (snd (sync_account X w))"
    "world_ok (\<lambda>_ d. db_inv d) (cx_env X) (w_history w) (w_fs w) {} (snd (force_fetch_message X raw f v u w))"
    using c consistent.world_sync_account [OF assms(1)] consistent.world_force_fetch_message [OF assms(1)]
    by (simp_all add: keeps_def)
  show "world_ok (pairs_recorded (w_db w)) (cx_env X) (w_history w) (w_fs w) {} (snd (sync_account X w))"
    "world_ok (pairs_recorded (w_db w)) (cx_env X) (w_history w) (w_fs w) {} (snd (force_fetch_message X raw f v u w))"
    using r recorded.world_sync_account [OF assms(1)] recorded.world_force_fetch_message [OF assms(1)]
    by (simp_all add: keeps_def)
qed


lemma names_identify_hash_env: "names_identify hash_env"
  by (simp add: names_identify_def hash_env_def)

definition stored_store :: "unit world" where
  "stored_store = fresh_store\<lparr>w_fs := \<lparr>fs_root = [''data''],
     fs_files = [([''eml'', ''acc'', eml_name (replicate 64 (CHR ''b''))], ''old'')]\<rparr>\<rparr>"

lemma stored_store_start: "names_identify (cx_env (box_ctx b))" "manifest_inv (cx_env (box_ctx b)) (w_man stored_store)"
  "w_batch stored_store = None" "db_inv (w_db stored_store)"
  using fresh_store_inv names_identify_hash_env by (simp_all add: box_ctx_def stored_store_def fresh_store_def)




end
