(* ===== verification/Sync_Moves.thy ===== *)
theory Sync_Moves
  imports Sync_Props Delete_Plan
begin

text \<open>
  The detection of deletions and moves: what it may conclude from a UID that the server no longer has,
  and what later runs make of its conclusions.
\<close>

section \<open>One missing UID\<close>

lemma on_world_gets [simp]: "on_world (gets f) = gets (\<lambda>s. f (sy_world s))"
  by (simp add: fun_eq_iff on_world_def)

definition local_record :: "'r sync_ctx \<Rightarrow> int \<Rightarrow> int \<Rightarrow> int \<Rightarrow> 'r sync \<Rightarrow> message_record option" where
  "local_record X f v u s = (case map_of (sy_known s) (f, v, u) of
     Some r \<Rightarrow> Some r
   | None \<Rightarrow> (case fst (get_message_by_uid (cx_account X) f v u (run_db s)) of Inr x \<Rightarrow> x | Inl _ \<Rightarrow> None))"

lemma get_local_message_run: "get_local_message X f v u s = (Inr (local_record X f v u s), s)"
  by (auto simp: get_local_message_def local_record_def run_bind get_message_by_uid_def split: option.split)

text \<open>The present copies of the contents of a message in other folders.\<close>

definition copies :: "'r sync_ctx \<Rightarrow> message_row \<Rightarrow> int \<Rightarrow> db \<Rightarrow> message_record list" where
  "copies X m f d = (case fst (move_candidates X m f d) of Inr rs \<Rightarrow> rs | Inl _ \<Rightarrow> [])"

lemma move_candidates_run: "move_candidates X m f d = (Inr (copies X m f d), d)"
  by (auto simp: move_candidates_def copies_def find_move_candidates_def run_bind split: option.split)

lemma in_copies:
  "r \<in> set (copies X m f d) \<longleftrightarrow> (\<exists>h x. msg_file_hash m = Some h \<and> rec_row r \<in> set (messages d) \<and> rec_membership r = Some x \<and>
     r = \<lparr>rec_row = rec_row r, rec_membership = Some x\<rparr> \<and>
     msg_account_id (rec_row r) = cx_account X \<and> msg_content_key (rec_row r) = msg_content_key m \<and>
     msg_file_hash (rec_row r) = Some h \<and> x \<in> set (message_folders d) \<and> mf_message_id x = msg_id (rec_row r) \<and>
     mf_folder_id x \<noteq> f \<and> mf_remote_state x = RemotePresent)"
  by (cases r) (auto simp: copies_def move_candidates_def find_move_candidates_def run_bind message_memberships_def
      split: option.splits)

lemma detect_uid_run:
  assumes "local_record X (fld_id folder) v u s = Some r" and "msg_source_item_key (rec_row r) \<noteq> []"
  shows "\<exists>t. detect_uid X targets scanned folder v found u s = (Inr (found @ [t]), s) \<and>
    mv_message_id t = msg_id (rec_row r) \<and> mv_folder_id t = fld_id folder \<and> mv_record t = r \<and>
    mv_remove_membership t = cx_google X \<and>
    mv_merge_candidate t = merge_candidate X scanned (sy_known s) (fld_id folder) (msg_file_hash (rec_row r))
      (copies X (rec_row r) (fld_id folder) (run_db s)) \<and>
    mv_moved_to t = Option.bind (mv_merge_candidate t) (\<lambda>c. map_option mf_folder_id (rec_membership c)) \<and>
    jget (mv_event t) ''event'' = JStr (detection_name X (mv_merge_candidate t) (msg_file_hash (rec_row r))
      (copies X (rec_row r) (fld_id folder) (run_db s)))"
  using assms
  by (simp add: detect_uid_def Let_def run_bind get_local_message_run on_world_def on_db_def move_candidates_run
      detection_event_def jget_def)

section \<open>What the detection may conclude\<close>

lemma merge_candidate_Some:
  assumes "merge_candidate X scanned known f hash cs = Some c"
  shows "\<not> cx_google X" "hash \<noteq> None" "f \<in> set scanned" "c \<in> set cs" "fresh_candidate scanned known c"
    "\<And>c'. c' \<in> set cs \<Longrightarrow> fresh_candidate scanned known c' \<Longrightarrow> c' = c"
proof -
  have one: "filter (fresh_candidate scanned known) cs = [c]"
    using assms by (auto simp: merge_candidate_def split: if_splits list.splits)
  then have sets: "{x \<in> set cs. fresh_candidate scanned known x} = {c}" by (metis list.set(1,2) set_filter)
  show "\<not> cx_google X" "hash \<noteq> None" "f \<in> set scanned" using assms by (auto simp: merge_candidate_def split: if_splits)
  show "c \<in> set cs" "fresh_candidate scanned known c"
    "\<And>c'. c' \<in> set cs \<Longrightarrow> fresh_candidate scanned known c' \<Longrightarrow> c' = c" using sets by auto
qed


text \<open>A store with one message, in the first folder under UID 5 or moved from there to the second folder.\<close>

definition inbox :: folder_row where
  "inbox = sample_folder 1 ''INBOX''"

definition moved_world :: "bool \<Rightarrow> unit world" where
  "moved_world moved = sample_delete_world\<lparr>w_db := sample_delete_db\<lparr>message_folders := (if moved
     then [(sample_membership 1 1 5)\<lparr>mf_remote_state := RemoteMoved, mf_moved_to := Some 2\<rparr>, sample_membership 1 2 6]
     else [sample_membership 1 1 5])\<rparr>\<rparr>"

definition moved_record :: "bool \<Rightarrow> message_record" where
  "moved_record moved = \<lparr>rec_row = hd (messages sample_delete_db),
     rec_membership = Some (hd (message_folders (w_db (moved_world moved))))\<rparr>"

lemmas moved_defs = moved_world_def moved_record_def sample_delete_world_def sample_delete_db_def sample_db_defs

lemma moved_local_record:
  "local_record (box_ctx []) (fld_id inbox) 7 5 (fresh_sync (moved_world moved) 0) = Some (moved_record moved)"
  by (simp add: local_record_def get_message_by_uid_def fresh_sync_def box_ctx_def inbox_def moved_defs)

lemma moved_record_facts:
  "msg_source_item_key (rec_row (moved_record moved)) \<noteq> []"
  "rec_row (moved_record moved) \<in> set (messages (run_db (fresh_sync (moved_world moved) 0)))"
  "msg_account_id (rec_row (moved_record moved)) = cx_account (box_ctx [])"
  "msg_file_hash (rec_row (moved_record moved)) \<noteq> None" "\<not> cx_google (box_ctx [])" "fld_id inbox = 1"
  by (simp_all add: fresh_sync_def box_ctx_def inbox_def moved_defs)


section \<open>What becomes of a settled move\<close>

text \<open>
  A settled move does not stay settled. For a message of a plain IMAP account that a run recorded as
  moved, still present in its new folder, the detection of every later run that fetches nothing finds
  the missing UID again and overwrites the record: the old membership is marked as unknown and forgets
  the folder it was moved to.
\<close>

lemma settled_moves_become_unknown:
  assumes "\<not> cx_google X" and "sy_known s = []"
    and "local_record X (fld_id folder) v u s = Some r" and "msg_source_item_key (rec_row r) \<noteq> []"
    and "rec_row r \<in> set (messages (run_db s))" and "msg_account_id (rec_row r) = cx_account X"
    and "msg_file_hash (rec_row r) \<noteq> None"
    and "y \<in> set (message_folders (run_db s))" and "mf_message_id y = msg_id (rec_row r)"
    and "mf_folder_id y \<noteq> fld_id folder" and "mf_remote_state y = RemotePresent"
  shows "\<exists>t d'. detect_uid X targets scanned folder v found u s = (Inr (found @ [t]), s) \<and>
    apply_state X t (run_db s) = (Inr (), d') \<and>
    (\<forall>x\<in>set (message_folders d'). mf_message_id x = msg_id (rec_row r) \<longrightarrow> mf_folder_id x = fld_id folder \<longrightarrow>
       mf_remote_state x = RemoteUnknown \<and> mf_moved_to x = None)"
proof -
  let ?cs = "copies X (rec_row r) (fld_id folder) (run_db s)"
  from detect_uid_run [OF assms(3,4), of targets scanned found] obtain t where
    t: "detect_uid X targets scanned folder v found u s = (Inr (found @ [t]), s)" "mv_message_id t = msg_id (rec_row r)"
      "mv_folder_id t = fld_id folder" "mv_remove_membership t = cx_google X"
      "mv_merge_candidate t = merge_candidate X scanned (sy_known s) (fld_id folder) (msg_file_hash (rec_row r)) ?cs"
      "mv_moved_to t = Option.bind (mv_merge_candidate t) (\<lambda>c. map_option mf_folder_id (rec_membership c))"
      "jget (mv_event t) ''event'' = JStr (detection_name X (mv_merge_candidate t) (msg_file_hash (rec_row r)) ?cs)"
    by blast
  have "\<lparr>rec_row = rec_row r, rec_membership = Some y\<rparr> \<in> set ?cs" using assms by (auto simp: in_copies)
  then have cs: "?cs \<noteq> []" by auto
  have merge: "mv_merge_candidate t = None"
    using assms(2) t(5) by (auto simp: merge_candidate_def fresh_candidate_def split: option.splits)
  with t cs assms(1) have "apply_state X t (run_db s) =
      update_remote_state (msg_id (rec_row r)) RemoteUnknown None (Some (fld_id folder)) (run_db s)"
    by (simp add: apply_state_def detection_name_def detection_state_def)
  then have "apply_state X t (run_db s) = (Inr (), (run_db s)\<lparr>message_folders := update_where
      (\<lambda>x. mf_message_id x = msg_id (rec_row r) \<and> opt_all ((=) (mf_folder_id x)) (Some (fld_id folder)))
      (\<lambda>x. x\<lparr>mf_remote_state := RemoteUnknown, mf_moved_to := None\<rparr>) (message_folders (run_db s))\<rparr>)"
    by (simp add: update_remote_state_def constrained_def Let_def)
  with t(1) show ?thesis by (auto simp: set_update_where)
qed

abbreviation membership_states :: "db \<Rightarrow> (int \<times> int \<times> remote_state \<times> int option) list" where
  "membership_states d \<equiv> map (\<lambda>x. (mf_message_id x, mf_folder_id x, mf_remote_state x, mf_moved_to x)) (message_folders d)"

lemma settled_moves_become_unknown_witness:
  "(1, 1, RemoteMoved, Some 2) \<in> set (membership_states (w_db (moved_world True))) \<and>
   (\<exists>t d'. detect_uid (box_ctx []) [inbox] [1] inbox 7 [] 5 (fresh_sync (moved_world True) 0) =
        (Inr [t], fresh_sync (moved_world True) 0) \<and>
      apply_state (box_ctx []) t (w_db (moved_world True)) = (Inr (), d') \<and>
      (\<forall>x\<in>set (message_folders d'). mf_message_id x = 1 \<longrightarrow> mf_folder_id x = 1 \<longrightarrow>
         mf_remote_state x = RemoteUnknown \<and> mf_moved_to x = None))"
proof -
  let ?s = "fresh_sync (moved_world True) 0"
  have "sample_membership 1 2 6 \<in> set (message_folders (run_db ?s))"
    "mf_message_id (sample_membership 1 2 6) = msg_id (rec_row (moved_record True))"
    "mf_folder_id (sample_membership 1 2 6) \<noteq> fld_id inbox" "mf_remote_state (sample_membership 1 2 6) = RemotePresent"
    by (simp_all add: fresh_sync_def inbox_def moved_defs)
  from settled_moves_become_unknown [OF moved_record_facts(5) _ moved_local_record moved_record_facts(1-4) this,
      of "[inbox]" "[1]" "[]"]
  show ?thesis by (simp add: fresh_sync_def inbox_def) (simp add: moved_defs)
qed

section \<open>Moves the repository refuses\<close>

text \<open>A merge fails at a folder where both messages have a membership under different UIDs.\<close>

lemma merge_membership_conflict:
  assumes "\<And>z. z \<in> set (message_folders d) \<Longrightarrow> membership_key z = (i, mf_folder_id x) \<Longrightarrow> z = y"
    and "y \<in> set (message_folders d)" and "membership_key y = (i, mf_folder_id x)"
    and "(mf_uid y, mf_uidvalidity y) \<noteq> (mf_uid x, mf_uidvalidity x)"
  shows "fst (merge_membership i j x d) \<noteq> Inr u"
proof (cases "List.find (\<lambda>z. membership_key z = (i, mf_folder_id x)) (message_folders d)")
  case None
  with assms(2,3) show ?thesis by (auto simp: find_None_iff_ball)
next
  case (Some z)
  with assms(1) have "z = y" using find_Some_in_set [OF Some] by auto
  with Some assms(4) show ?thesis by (auto simp: merge_membership_def)
qed

definition only_at :: "membership \<Rightarrow> db \<Rightarrow> bool" where
  "only_at y d \<longleftrightarrow> y \<in> set (message_folders d) \<and>
     (\<forall>z\<in>set (message_folders d). membership_key z = membership_key y \<longrightarrow> z = y)"

lemma keeps_only_at:
  assumes "mf_message_id y = i" and "i \<noteq> j"
  shows "keeps (only_at y) (merge_membership i j x)"
proof (rule keepsI)
  fix d
  assume y: "only_at y d"
  show "only_at y (snd (merge_membership i j x d))"
  proof (cases "List.find (\<lambda>z. membership_key z = (i, mf_folder_id x)) (message_folders d)")
    case (Some z)
    with y assms show ?thesis by (auto simp: merge_membership_def only_at_def)
  next
    case None
    with y assms have "mf_folder_id x \<noteq> mf_folder_id y" by (auto simp: find_None_iff_ball only_at_def)
    with None y assms show ?thesis
      by (auto simp: merge_membership_def only_at_def set_update_where image_iff)
  qed
qed

lemma merge_duplicate_conflict:
  assumes "db_inv d" and "y \<in> set (message_folders d)" and "membership_key y = (i, g)"
    and "x \<in> set (message_folders d)" and "membership_key x = (j, g)" and "i \<noteq> j"
    and "(mf_uid y, mf_uidvalidity y) \<noteq> (mf_uid x, mf_uidvalidity x)"
  shows "\<exists>e. fst (merge_duplicate_message acc i j d) = Inl e"
proof (cases "merge_duplicate_message acc i j d")
  case (Pair r d')
  have False if r: "r = Inr u" for u
  proof -
    from Pair r obtain d2 d4 d5 where d4: "merge_aliases acc i j (snd (move_contents i j d2)) = (Inr (), d4)"
      and d2: "message_folders d2 = message_folders d"
      and run: "forp (merge_membership i j) (filter (\<lambda>x. mf_message_id x = j) (message_folders d4)) d4 = (Inr (), d5)"
      using assms(6) by (auto elim!: merge_duplicate_ok simp: set_message_def)
    have rows: "message_folders d4 = message_folders d"
      using merge_aliases_frame [OF d4] d2 by (simp add: move_contents_run)
    have "only_at y d4"
      using assms(1,2) rows by (auto simp: only_at_def db_inv_def memberships_inv_def dest: uniq_inj)
    moreover have "fst (merge_membership i j x s) \<noteq> Inr v" if "only_at y s" for s v
      using that assms(3,5,7) by (intro merge_membership_conflict [of _ i x y]) (auto simp: only_at_def)
    ultimately show False
      using forp_establishes [OF run, of x "only_at y" "\<lambda>_. False"] assms(3-6) rows
      by (fastforce intro: keeps_only_at simp: keeps_def)
  qed
  with Pair show ?thesis by (cases r) auto
qed

text \<open>
  A message that moves back is refused. When the detection folds a message into a copy in a folder
  where the message itself still has a membership, under another UID from before it moved away, the
  repository raises an error instead of merging, which no handler of the synchronization catches.
\<close>

lemma moving_back_is_refused:
  assumes "db_inv d" and "\<not> mv_remove_membership t" and "mv_merge_candidate t = Some c"
    and "y \<in> set (message_folders d)" and "mf_message_id y = mv_message_id t"
    and "x \<in> set (message_folders d)" and "mf_message_id x = msg_id (rec_row c)" and "mf_folder_id x = mf_folder_id y"
    and "mv_message_id t \<noteq> msg_id (rec_row c)" and "(mf_uid y, mf_uidvalidity y) \<noteq> (mf_uid x, mf_uidvalidity x)"
  shows "\<exists>e. fst (apply_state X t d) = Inl e"
proof -
  obtain e where "fst (merge_duplicate_message (cx_account X) (mv_message_id t) (msg_id (rec_row c)) d) = Inl e"
    using merge_duplicate_conflict [OF assms(1,4) _ assms(6) _ assms(9,10), of "mf_folder_id y"] assms by auto
  then show ?thesis
    using assms(2,3) by (cases "merge_duplicate_message (cx_account X) (mv_message_id t) (msg_id (rec_row c)) d")
      (auto simp: apply_state_def)
qed

text \<open>The message that moved to the second folder is back in the first one, under UID 9.\<close>

definition back_message :: "int \<Rightarrow> string \<Rightarrow> message_row" where
  "back_message i key = (sample_message i key Active)\<lparr>msg_file_hash := Some (replicate 64 (CHR ''a'')),
     msg_content_key := ''sha256:'' @ replicate 32 (CHR ''a'')\<rparr>"

definition back_box :: box where
  "back_box = [(''INBOX'', 7, [(9, ''raw'')]), (''Trash'', 7, [])]"

definition back_db :: db where
  "back_db = (w_db (moved_world True))\<lparr>messages := [back_message 1 ''k1'', back_message 2 ''k2''], next_message_id := 3,
     message_contents := [], message_folders := message_folders (w_db (moved_world True)) @ [sample_membership 2 1 9]\<rparr>"

definition back_copy :: message_record where
  "back_copy = \<lparr>rec_row = back_message 2 ''k2'', rec_membership = Some (sample_membership 2 1 9)\<rparr>"

text \<open>The run after it has scanned both folders and fetched UID 9: the detection of UID 6 of the second
  folder.\<close>

definition back_detection :: "(error + move_state list) \<times> unit sync" where
  "back_detection = detect_uid (box_ctx back_box) [inbox, sample_folder 2 ''Trash''] [2, 1] (sample_folder 2 ''Trash'') 7 [] 6
     ((fresh_sync ((moved_world True)\<lparr>w_db := back_db\<rparr>) 0)\<lparr>sy_known := [((1, 7, 9), back_copy)]\<rparr>)"

lemma moving_back_is_refused_witness:
  "\<exists>t e. fst back_detection = Inr [t] \<and> fst (apply_state (box_ctx back_box) t back_db) = Inl e"
proof -
  let ?y = "(sample_membership 1 1 5)\<lparr>mf_remote_state := RemoteMoved, mf_moved_to := Some 2\<rparr>" and ?x = "sample_membership 2 1 9"
  have inv: "db_inv back_db"
    by (simp add: db_inv_def table_inv_defs exists_defs uniq_def uniq_some_def differ_def uid_key_def
        back_db_def back_message_def moved_defs)
  have rows: "?y \<in> set (message_folders back_db)" "?x \<in> set (message_folders back_db)"
    by (simp_all add: back_db_def moved_defs)
  have "map_sum id (map (\<lambda>t. (mv_message_id t, mv_remove_membership t, map_option (msg_id \<circ> rec_row) (mv_merge_candidate t))))
      (fst back_detection) = Inr [(1, False, Some 2)]" by code_simp
  then obtain t c where t: "fst back_detection = Inr [t]" "mv_message_id t = 1" "\<not> mv_remove_membership t"
    "mv_merge_candidate t = Some c" "msg_id (rec_row c) = 2"
    by (cases "fst back_detection") auto
  have "\<exists>e. fst (apply_state (box_ctx back_box) t back_db) = Inl e"
    by (rule moving_back_is_refused [OF inv t(3,4) rows(1) _ rows(2)]) (simp_all add: t sample_membership_def)
  with t(1) show ?thesis by blast
qed

section \<open>A UID that another message owns\<close>

text \<open>
  A folder UID is stored once. Storing a fetched message under a UID of a folder that is recorded as
  the place of another message is refused. The state arises from the program itself: a deletion that the
  server confirmed as a move to the trash folder records the new UID there as a membership of the
  deleted message, under its old key, and the next synchronization of the trash folder fetches that UID
  as a new message and fails with the transaction still open.
\<close>

lemma owned_uid_is_refused:
  assumes "db_inv d" and "arg_at acc f raw v u a" and "x \<in> set (message_folders d)" and "uid_key x = Some (f, v, u)"
    and "\<forall>m\<in>set (messages d). message_key m = (acc, ma_source_item_key a) \<longrightarrow> msg_id m \<noteq> mf_message_id x"
  shows "\<exists>e. fst (add_message norm a cnt d) = Inl e"
proof (cases "add_message norm a cnt d")
  case (Pair r d')
  have inv: "db_inv d'" using keepsD [OF keeps_add_message assms(1) Pair] .
  obtain r1 d1 where d1: "upsert_message_row a d = (r1, d1)" by fastforce
  have fk: "message_exists d (mf_message_id x)"
    using assms(1,3) by (simp add: db_inv_def memberships_inv_def membership_fk_def)
  have other: "msg_id m \<noteq> mf_message_id x" if m: "m \<in> set (messages d1)" "message_key m = (acc, ma_source_item_key a)" for m
  proof (cases "msg_id m = next_message_id d")
    case True
    with fk assms(1) show ?thesis by (auto simp: message_exists_def db_inv_def messages_inv_def)
  next
    case False
    from upsert_message_row_rows [OF d1 m(1) this] m(2) assms(5) show ?thesis by auto
  qed
  from Pair show ?thesis
  proof (cases rule: add_message_tables)
    case (1 d2)
    with Pair show ?thesis by (cases r) auto
  next
    case (2 d2 m)
    let ?y = "arg_membership a (msg_id m)"
    have d2: "d2 = d1" using 2(1) d1 by simp
    have acc: "ma_account_id a = acc" "ma_folder_id a = f" "uid_key ?y = Some (f, v, u)"
      using assms(2) by (auto simp: arg_at_def arg_membership_def uid_key_def)
    have ne: "mf_message_id x \<noteq> msg_id m" using other [of m] 2(4,5) acc d2 by auto
    have "x \<in> set (message_folders d')"
      using ne assms(3) upsert_message_row_tables(1) [OF d1] d2
      by (subst 2(6)) (subst upsert_row_other; auto simp: arg_membership_def)
    moreover have "\<exists>z\<in>set (message_folders d'). uid_key z = Some (f, v, u) \<and> mf_message_id z = msg_id m"
    proof -
      have "(msg_id m, f) \<in> membership_key ` set (message_folders d')"
        unfolding 2(6) acc(2) by (rule upsert_row_in) (simp_all add: arg_membership_def acc(2))
      moreover have "z = ?y" if "z \<in> set (message_folders d')" "membership_key z = (msg_id m, f)" for z
        using that 2(6) acc(2) by (auto simp: upsert_row_def set_update_where image_iff split: if_splits)
      ultimately show ?thesis using acc(3) by force
    qed
    ultimately show ?thesis
      using inv ne assms(4) by (auto simp: db_inv_def memberships_inv_def dest: uniq_some_inj)
  qed
qed

text \<open>The store after the deletion of the sample message, moved by the server to UID 50 of the trash
  folder, and the synchronization of the trash folder that follows.\<close>

definition deleted_db :: db where
  "deleted_db = sample_delete_db\<lparr>message_folders := [(sample_membership 1 1 5)\<lparr>mf_remote_state := RemoteMoved,
     mf_moved_to := Some 2\<rparr>, sample_membership 1 2 50]\<rparr>"

lemma deleted_db_arises:
  "map (\<lambda>x. (membership_key x, uid_key x, mf_remote_state x)) (message_folders (w_db (snd (sample_execute ''trash'' True)))) =
   map (\<lambda>x. (membership_key x, uid_key x, mf_remote_state x)) (message_folders deleted_db)"
  by code_simp

definition trash_run :: "(error + int) \<times> unit sync" where
  "trash_run = sync_new (box_ctx [(''Trash'', 7, [(50, ''raw'')])]) (sample_folder 2 ''Trash'') 7 0
     (fresh_sync (sample_delete_world\<lparr>w_db := deleted_db\<rparr>) 0)"

definition trash_arg :: message_arg where
  "trash_arg = sample_arg\<lparr>ma_folder_id := 2, ma_source_item_key := ''imap:VHJhc2g:7:50'', ma_uid := Some 50\<rparr>"

lemma trash_arg_at: "arg_at ''acc'' 2 ''Trash'' 7 50 trash_arg"
proof -
  have "imap_source_item_key ''Trash'' 7 50 = Inr ''imap:VHJhc2g:7:50''" by code_simp
  then show ?thesis by (simp add: arg_at_def trash_arg_def sample_arg_def)
qed

lemma owned_uid_is_refused_witness:
  "(\<exists>e. fst (add_message id trash_arg None deleted_db) = Inl e) \<and>
   (fst trash_run, w_batch (sy_world (snd trash_run)) = None) = (Inl (sql_error ''add message''), False)"
proof
  have inv: "db_inv deleted_db"
    by (simp add: db_inv_def table_inv_defs exists_defs uniq_def uniq_some_def differ_def uid_key_def
        deleted_db_def moved_defs)
  have x: "sample_membership 1 2 50 \<in> set (message_folders deleted_db)" "uid_key (sample_membership 1 2 50) = Some (2, 7, 50)"
    by (simp_all add: deleted_db_def uid_key_def sample_membership_def)
  show "\<exists>e. fst (add_message id trash_arg None deleted_db) = Inl e"
    by (rule owned_uid_is_refused [OF inv trash_arg_at x]) (simp add: deleted_db_def moved_defs trash_arg_def)
qed code_simp

end
