(* ===== verification/Reindex.thy ===== *)
theory Reindex
  imports Sync_Mail
begin

text \<open>
  Rebuilding the database from the manifest and the stored files (\<^verbatim>\<open>usecases/reindex.py\<close>): one pass over
  the events of an account, the resolution of identity links, the preparation of the messages from the
  verified files, and one transaction that writes the replacement database. Dictionaries are association
  lists in insertion order. The progress callback and the log are left out. Columns hold the values the
  program writes: a membership state outside the known ones, or a JSON value that is neither text nor
  number in an audit column, is taken as a database error.
\<close>

section \<open>Reading events\<close>

definition dict_set :: "'k \<Rightarrow> 'v \<Rightarrow> ('k \<times> 'v) list \<Rightarrow> ('k \<times> 'v) list" where
  "dict_set k v d = upsert_row fst k (\<lambda>_. (k, v)) (k, v) d"

type_synonym message_place = "string \<times> string \<times> int \<times> int"

type_synonym links = "((string \<times> string) \<times> string \<times> string \<times> string) list"

type_synonym purge_key = "string \<times> string \<times> string \<times> string"

definition event_text :: "event \<Rightarrow> string \<Rightarrow> string option" where
  "event_text ev f = (case jget ev f of JStr s \<Rightarrow> if s = [] then None else Some s | _ \<Rightarrow> None)"

definition event_integer :: "event \<Rightarrow> string \<Rightarrow> int option" where
  "event_integer ev f = (case jget ev f of JInt i \<Rightarrow> Some i | _ \<Rightarrow> None)"

definition event_place :: "event \<Rightarrow> message_place option" where
  "event_place ev =
    (case (event_text ev ''account_id'', event_text ev ''folder_raw_name'', event_integer ev ''uidvalidity'',
           event_integer ev ''uid'') of
       (Some account, Some raw, Some uidvalidity, Some uid) \<Rightarrow> Some (account, raw, uidvalidity, uid)
     | _ \<Rightarrow> None)"

definition remote_key_text :: "string \<Rightarrow> bool" where
  "remote_key_text s \<longleftrightarrow> take 5 s = ''imap:'' \<or> take 6 s = ''gmail:''"

definition fetch_source_key :: "event \<Rightarrow> message_place \<Rightarrow> error + string" where
  "fetch_source_key ev place = (case place of (account, raw, uidvalidity, uid) \<Rightarrow>
     (case (event_text ev ''gmail_msgid'', event_text ev ''source_item_key'') of
        (Some g, _) \<Rightarrow> gmail_source_item_key g
      | (None, Some k) \<Rightarrow> if remote_key_text k then Inr k else imap_source_item_key raw uidvalidity uid
      | (None, None) \<Rightarrow> imap_source_item_key raw uidvalidity uid))"

fun truthy :: "json \<Rightarrow> bool" where
  "truthy JNull = False"
| "truthy (JBool b) = b"
| "truthy (JInt i) = (i \<noteq> 0)"
| "truthy (JFloat s) = (\<not> list_all (\<lambda>c. c \<in> set ''-0.'') (takeWhile (\<lambda>c. c \<notin> set ''eE'') s))"
| "truthy (JStr s) = (s \<noteq> [])"
| "truthy (JList l) = (l \<noteq> [])"
| "truthy (JObj l) = (l \<noteq> [])"

definition jget_or :: "event \<Rightarrow> string \<Rightarrow> json \<Rightarrow> json" where
  "jget_or ev f v = (if has_key ev f then jget ev f else v)"

text \<open>A text that may be null; \<open>None\<close> for any other value.\<close>

definition null_text :: "json \<Rightarrow> string option option" where
  "null_text v = (case v of JNull \<Rightarrow> Some None | JStr s \<Rightarrow> Some (Some s) | _ \<Rightarrow> None)"

definition account_record :: "event \<Rightarrow> account_arg option" where
  "account_record ev =
    (case (event_text ev ''account_id'', event_text ev ''provider_type'', event_text ev ''host'',
           event_text ev ''username'', event_integer ev ''port'') of
       (Some account, Some provider, Some host, Some username, Some port) \<Rightarrow>
         (case (jget_or ev ''tls_mode'' (JStr ''implicit''), null_text (jget ev ''ca_cert_path''),
                jget_or ev ''auth_type'' (JStr ''password''), null_text (jget ev ''oauth_provider''),
                null_text (jget ev ''oauth_client_id''), null_text (jget ev ''oauth_tenant'')) of
            (JStr tls, Some ca, JStr auth, Some oauth, Some client, Some tenant) \<Rightarrow> Some
              \<lparr>aa_id = account, aa_provider_type = Some provider,
               aa_display_name = (case jget ev ''display_name'' of JStr s \<Rightarrow> Some s | _ \<Rightarrow> None),
               aa_host = Some host, aa_port = Some (Some port), aa_username = Some username,
               aa_is_enabled = Some (if truthy (jget_or ev ''is_enabled'' (JBool True)) then 1 else 0),
               aa_tls_mode = Some tls, aa_ca_cert_path = ca, aa_auth_type = Some auth,
               aa_oauth_provider = oauth, aa_oauth_client_id = client, aa_oauth_tenant = tenant\<rparr>
          | _ \<Rightarrow> None)
     | _ \<Rightarrow> None)"

definition string_list :: "event \<Rightarrow> string \<Rightarrow> string list option" where
  "string_list ev f = (case jget ev f of
     JList ls \<Rightarrow> if list_all is_str ls then Some (map (\<lambda>l. case l of JStr s \<Rightarrow> s | _ \<Rightarrow> []) ls) else None
   | _ \<Rightarrow> None)"

definition bare_folder :: "string \<Rightarrow> string \<Rightarrow> folder_arg" where
  "bare_folder account raw =
    \<lparr>fa_account_id = account, fa_raw_name = raw, fa_display_name = Some raw, fa_uidvalidity = None,
     fa_last_seen_uid = None, fa_is_sync_target = Some False, fa_last_synced_at = None,
     fa_backfill_next_uid = None, fa_initial_sync_completed = None, fa_highest_modseq = None\<rparr>"

definition folder_record :: "event \<Rightarrow> folder_arg option" where
  "folder_record ev =
    (case (event_text ev ''account_id'', event_text ev ''folder_raw_name'', event_text ev ''display_name'') of
       (Some account, Some raw, Some name) \<Rightarrow>
         Some ((bare_folder account raw)\<lparr>fa_display_name := Some name,
           fa_uidvalidity := Some (event_integer ev ''uidvalidity'')\<rparr>)
     | _ \<Rightarrow> None)"

definition reindex_purge_key :: "event \<Rightarrow> purge_key option" where
  "reindex_purge_key ev =
    (case (event_text ev ''account_id'', event_text ev ''source_item_key'', event_text ev ''relative_path'',
           event_text ev ''file_hash'') of
       (Some account, Some k, Some path, Some hash) \<Rightarrow> Some (account, k, path, hash)
     | _ \<Rightarrow> None)"

section \<open>Identity links\<close>

text \<open>The loop of \<open>_resolve_identity_key\<close>: it follows the links of the account and raises an error when
  it meets a key again.\<close>

function resolve_loop :: "string \<Rightarrow> links \<Rightarrow> string set \<Rightarrow> string \<Rightarrow> error + string" where
  "resolve_loop account ls seen k = (case map_of ls (account, k) of
     None \<Rightarrow> Inr k
   | Some (canonical, _) \<Rightarrow>
       if k \<in> seen then Inl (StorageError ''Manifest identity links contain a cycle'')
       else resolve_loop account ls (insert k seen) canonical)"
  by pat_completeness auto

termination
proof (relation "measure (\<lambda>(account, ls, seen, k). card (snd ` fst ` set ls - seen))", goal_cases)
  case (2 account ls seen k link canonical rest)
  from 2(1,2) have "k \<in> snd ` fst ` set ls" by (force dest: map_of_SomeD)
  with 2(3) have "snd ` fst ` set ls - insert k seen \<subset> snd ` fst ` set ls - seen" by blast
  then show ?case by (simp add: psubset_card_mono)
qed simp

declare resolve_loop.simps [simp del]

definition resolve_identity_key :: "string \<Rightarrow> string \<Rightarrow> links \<Rightarrow> error + string" where
  "resolve_identity_key account k ls = resolve_loop account ls {} k"

text \<open>The key under which a fetched message is rebuilt.\<close>

definition fetch_canonical :: "links \<Rightarrow> event \<Rightarrow> message_place \<Rightarrow> error + string" where
  "fetch_canonical ls ev place = (case fetch_source_key ev place of
     Inl e \<Rightarrow> Inl e
   | Inr k \<Rightarrow> resolve_identity_key (fst place) k ls)"

definition normalize_purge_key ::
  "purge_key \<Rightarrow> (message_place \<times> event) list \<Rightarrow> links \<Rightarrow> error + purge_key" where
  "normalize_purge_key key fetches ls = (case key of (account, k, path, hash) \<Rightarrow>
     if remote_key_text k then Inr key
     else (case filter (\<lambda>(place, ev). jget ev ''account_id'' = JStr account \<and> jget ev ''source_item_key'' = JStr k \<and>
              jget ev ''relative_path'' = JStr path \<and> jget ev ''file_hash'' = JStr hash) fetches of
         [(place, ev)] \<Rightarrow> (case fetch_source_key ev place of
             Inl e \<Rightarrow> Inl e
           | Inr normalized \<Rightarrow> map_sum id (\<lambda>r. (account, r, path, hash)) (resolve_identity_key account normalized ls))
       | _ \<Rightarrow> Inr key))"

section \<open>One pass over the manifest\<close>

record message_state =
  ms_remote_state :: remote_state
  ms_moved_to :: "string option"

record reindex_scan =
  sc_accounts :: "(string \<times> event) list"
  sc_folders :: "((string \<times> string) \<times> event) list"
  sc_fetches :: "(message_place \<times> event) list"
  sc_links :: links
  sc_snapshots :: "(string \<times> string \<times> event) list"
  sc_states :: "(message_place \<times> message_state) list"
  sc_purges :: "(purge_key \<times> event) list"
  sc_completed :: "purge_key list"
  sc_audits :: "(event \<times> string \<times> event option) list"

definition empty_scan :: reindex_scan where
  "empty_scan = \<lparr>sc_accounts = [], sc_folders = [], sc_fetches = [], sc_links = [], sc_snapshots = [],
     sc_states = [], sc_purges = [], sc_completed = [], sc_audits = []\<rparr>"

definition state_for_event ::
  "string \<Rightarrow> event \<Rightarrow> message_place \<Rightarrow> (message_place \<times> message_state) list \<Rightarrow> (message_place \<times> message_state) list" where
  "state_for_event name ev place states =
    (if name \<in> {''delete_detected'', ''remote_delete_completed''}
     then dict_set place \<lparr>ms_remote_state = RemoteDeleted, ms_moved_to = None\<rparr> states
     else if name = ''remote_state_unknown''
     then dict_set place \<lparr>ms_remote_state = RemoteUnknown, ms_moved_to = None\<rparr> states
     else if name = ''moved'' then (case event_text ev ''moved_to_folder_raw_name'' of
         None \<Rightarrow> states
       | Some destination \<Rightarrow> dict_set place \<lparr>ms_remote_state = RemoteMoved, ms_moved_to = Some destination\<rparr> states)
     else if name \<in> {''remote_delete_uncertain'', ''remote_delete_intent''}
     then dict_set place \<lparr>ms_remote_state = RemoteUncertain, ms_moved_to = None\<rparr> states
     else states)"

definition scan_link :: "event \<Rightarrow> reindex_scan \<Rightarrow> error + reindex_scan" where
  "scan_link ev S =
    (case (event_text ev ''account_id'', event_text ev ''canonical_source_item_key'',
           event_text ev ''alias_source_item_key'', event_text ev ''evidence_kind'', event_text ev ''file_hash'') of
       (Some account, Some canonical, Some alias, Some evidence, Some hash) \<Rightarrow>
         if map_of (sc_links S) (account, alias) \<notin> {None, Some (canonical, evidence, hash)}
         then Inl (StorageError ''Manifest alias maps to multiple canonical messages'')
         else Inr (S\<lparr>sc_links := dict_set (account, alias) (canonical, evidence, hash) (sc_links S)\<rparr>)
     | _ \<Rightarrow> Inl (StorageError ''Manifest identity link is missing required fields''))"

definition scan_state :: "string \<Rightarrow> event \<Rightarrow> reindex_scan \<Rightarrow> reindex_scan" where
  "scan_state name ev S =
    (let states = (case event_place ev of None \<Rightarrow> sc_states S | Some p \<Rightarrow> state_for_event name ev p (sc_states S));
         related = Option.bind (event_place ev) (map_of (sc_fetches S));
         operation = (if name = ''remote_delete_completed'' then ''remote_delete'' else name)
     in S\<lparr>sc_states := states, sc_audits := sc_audits S @
          (if name \<in> {''delete_detected'', ''moved'', ''remote_delete_completed''} then [(ev, operation, related)] else [])\<rparr>)"

text \<open>\<open>next\<close> over the fetches that a completed purge belongs to; the keys of the fetches before it are
  resolved too.\<close>

fun purged_fetch :: "links \<Rightarrow> purge_key \<Rightarrow> (message_place \<times> event) list \<Rightarrow> error + event option" where
  "purged_fetch ls key [] = Inr None"
| "purged_fetch ls (account, k, path, hash) ((place, ev) # rest) =
    (if jget ev ''account_id'' \<noteq> JStr account then purged_fetch ls (account, k, path, hash) rest
     else case fetch_canonical ls ev place of
       Inl e \<Rightarrow> Inl e
     | Inr canonical \<Rightarrow>
         if canonical = k \<and> jget ev ''relative_path'' = JStr path \<and> jget ev ''file_hash'' = JStr hash
         then Inr (Some ev) else purged_fetch ls (account, k, path, hash) rest)"

definition scan_purge :: "string \<Rightarrow> event \<Rightarrow> reindex_scan \<Rightarrow> error + reindex_scan" where
  "scan_purge name ev S = (case reindex_purge_key ev of
     None \<Rightarrow> Inr S
   | Some raw_key \<Rightarrow> (case normalize_purge_key raw_key (sc_fetches S) (sc_links S) of
       Inl e \<Rightarrow> Inl e
     | Inr key \<Rightarrow>
         if name = ''purge_intent'' then Inr (S\<lparr>sc_purges := dict_set key ev (sc_purges S)\<rparr>)
         else (case purged_fetch (sc_links S) key (sc_fetches S) of
             Inl e \<Rightarrow> Inl e
           | Inr related \<Rightarrow> Inr (S\<lparr>sc_completed := key # sc_completed S,
               sc_audits := sc_audits S @ [(ev, ''local_purge'', related)]\<rparr>))))"

definition scan_event :: "reindex_scan \<Rightarrow> event \<Rightarrow> error + reindex_scan" where
  "scan_event S ev = (case jget ev ''event'' of
     JStr name \<Rightarrow>
       if name = ''account_snapshot'' then Inr (case event_text ev ''account_id'' of
           None \<Rightarrow> S
         | Some account \<Rightarrow> S\<lparr>sc_accounts := dict_set account ev (sc_accounts S)\<rparr>)
       else if name = ''folder_snapshot'' then Inr (case (event_text ev ''account_id'', event_text ev ''folder_raw_name'') of
           (Some account, Some raw) \<Rightarrow> S\<lparr>sc_folders := dict_set (account, raw) ev (sc_folders S)\<rparr>
         | _ \<Rightarrow> S)
       else if name = ''message_membership_snapshot'' then Inr (case (event_text ev ''account_id'', event_text ev ''source_item_key'') of
           (Some account, Some k) \<Rightarrow> S\<lparr>sc_snapshots := sc_snapshots S @ [(account, k, ev)]\<rparr>
         | _ \<Rightarrow> S)
       else if name = ''message_identity_linked'' then scan_link ev S
       else if name = ''fetch'' then Inr (case event_place ev of
           None \<Rightarrow> S
         | Some place \<Rightarrow> S\<lparr>sc_fetches := dict_set place ev (sc_fetches S)\<rparr>)
       else if name \<in> {''delete_detected'', ''remote_state_unknown'', ''moved'', ''remote_delete_intent'',
                       ''remote_delete_completed'', ''remote_delete_uncertain''} then Inr (scan_state name ev S)
       else if name \<in> {''purge_intent'', ''purged''} then scan_purge name ev S
       else Inr S
   | _ \<Rightarrow> Inr S)"

section \<open>Consistency of the scan\<close>

text \<open>The parameters of a rebuild: the environment, the cancellation token, the parser, \<open>fromisoformat\<close> on
  the internal date (a date without time zone is taken as UTC), the search normalization and the two
  ways of writing a label list.\<close>

record 'r reindex_ctx =
  rc_env :: env
  rc_cancelled :: "('r, bool) prog"
  rc_parse :: "string \<Rightarrow> utc_time option \<Rightarrow> parsed_message"
  rc_date :: "string \<Rightarrow> utc_time option"
  rc_norm :: "string \<Rightarrow> string"
  rc_dumps :: "string list \<Rightarrow> string"
  rc_dumps_compact :: "string list \<Rightarrow> string"

abbreviation rc_check :: "'r reindex_ctx \<Rightarrow> ('r world, unit) prog" where
  "rc_check C \<equiv> on_remote (raise_if_cancelled (rc_cancelled C))"

record canonical_keys =
  ck_keys :: "(message_place \<times> string) list"
  ck_hashes :: "((string \<times> string) \<times> string) list"

definition canonical_step :: "links \<Rightarrow> canonical_keys \<Rightarrow> message_place \<times> event \<Rightarrow> ('s, canonical_keys) prog" where
  "canonical_step ls K fetch = (case fetch of (place, ev) \<Rightarrow>
     let account = fst place; hash = event_text ev ''file_hash'' in
     bindp (lift_sum (fetch_source_key ev place)) (\<lambda>k.
     bindp (lift_sum (resolve_identity_key account k ls)) (\<lambda>canonical.
       if (case map_of ls (account, k) of None \<Rightarrow> False | Some (_, _, linked) \<Rightarrow> hash \<noteq> Some linked)
       then raise (StorageError ''Manifest identity link EML hash does not match its fetch'')
       else (case hash of
           None \<Rightarrow> ret (K\<lparr>ck_keys := dict_set place canonical (ck_keys K)\<rparr>)
         | Some h \<Rightarrow>
             (case map_of (ck_hashes K) (account, canonical) of
                None \<Rightarrow> ret (K\<lparr>ck_keys := dict_set place canonical (ck_keys K),
                  ck_hashes := dict_set (account, canonical) h (ck_hashes K)\<rparr>)
              | Some previous \<Rightarrow>
                  if previous \<noteq> h then raise (StorageError ''Canonical message has inconsistent EML hashes'')
                  else ret (K\<lparr>ck_keys := dict_set place canonical (ck_keys K)\<rparr>))))))"

definition check_link :: "links \<Rightarrow> canonical_keys \<Rightarrow> (string \<times> string) \<times> string \<times> string \<times> string \<Rightarrow> ('s, unit) prog" where
  "check_link ls K link = (case link of ((account, _), (canonical, _, hash)) \<Rightarrow>
     bindp (lift_sum (resolve_identity_key account canonical ls)) (\<lambda>k.
       if map_of (ck_hashes K) (account, k) \<notin> {None, Some hash}
       then raise (StorageError ''Manifest identity link EML hash does not match its canonical fetch'')
       else ret ()))"

definition canonical_fetches :: "reindex_scan \<Rightarrow> ('s, canonical_keys) prog" where
  "canonical_fetches S =
    thenp (forp (\<lambda>((account, alias), _). thenp (lift_sum (resolve_identity_key account alias (sc_links S))) (ret ())) (sc_links S))
    (bindp (foldp (canonical_step (sc_links S)) \<lparr>ck_keys = [], ck_hashes = []\<rparr> (sc_fetches S)) (\<lambda>K.
      thenp (forp (check_link (sc_links S) K) (sc_links S)) (ret K)))"

definition resolve_purge_key :: "links \<Rightarrow> purge_key \<Rightarrow> error + purge_key" where
  "resolve_purge_key ls key = (case key of (account, k, path, hash) \<Rightarrow>
     map_sum id (\<lambda>r. (account, r, path, hash)) (resolve_identity_key account k ls))"

definition add_completed :: "links \<Rightarrow> purge_key list \<Rightarrow> purge_key \<Rightarrow> ('s, purge_key list) prog" where
  "add_completed ls ks key = bindp (lift_sum (resolve_purge_key ls key)) (\<lambda>k. ret (k # ks))"

definition resolve_purges :: "reindex_scan \<Rightarrow> ('s, (purge_key \<times> event) list \<times> purge_key list) prog" where
  "resolve_purges S =
    bindp (foldp (\<lambda>d (key, ev). bindp (lift_sum (resolve_purge_key (sc_links S) key)) (\<lambda>k. ret (dict_set k ev d)))
      [] (sc_purges S)) (\<lambda>purges.
    bindp (foldp (add_completed (sc_links S)) [] (sc_completed S)) (\<lambda>completed. ret (purges, completed)))"

definition add_snapshot :: "links \<Rightarrow> ((string \<times> string) \<times> event) list \<Rightarrow> string \<times> string \<times> event \<Rightarrow>
   ('s, ((string \<times> string) \<times> event) list) prog" where
  "add_snapshot ls d snap = (case snap of (account, k, ev) \<Rightarrow>
     bindp (lift_sum (resolve_identity_key account k ls)) (\<lambda>c. ret (dict_set (account, c) ev d)))"

definition resolve_snapshots :: "reindex_scan \<Rightarrow> ('s, ((string \<times> string) \<times> event) list) prog" where
  "resolve_snapshots S =
    foldp (add_snapshot (sc_links S)) [] (sc_snapshots S)"

section \<open>Preparing the messages\<close>

definition valid_accounts :: "reindex_scan \<Rightarrow> (string \<times> account_arg) list" where
  "valid_accounts S = List.map_filter (\<lambda>(k, ev). map_option (Pair k) (account_record ev)) (sc_accounts S)"

definition valid_folders :: "reindex_scan \<Rightarrow> ((string \<times> string) \<times> folder_arg) list" where
  "valid_folders S = List.map_filter (\<lambda>(k, ev). if fst k \<in> fst ` set (valid_accounts S)
     then map_option (Pair k) (folder_record ev) else None) (sc_folders S)"

definition snapshot_warnings :: "reindex_scan \<Rightarrow> string list" where
  "snapshot_warnings S =
    map (\<lambda>(k, ev). ''invalid account snapshot: '' @ k) (filter (\<lambda>(k, ev). account_record ev = None) (sc_accounts S)) @
    concat (map (\<lambda>((account, raw, _), _).
      (if account \<in> fst ` set (valid_accounts S) then [] else [''fetch has no account snapshot: '' @ account]) @
      (if (account, raw) \<in> fst ` set (valid_folders S) then []
       else [''fetch has no folder snapshot: '' @ account @ ''/'' @ raw])) (sc_fetches S)) @
    (if valid_folders S = [] \<and> sc_fetches S \<noteq> [] then [''no valid folder snapshots were available''] else [])"

type_synonym prepared = "message_arg \<times> contents_arg option \<times> (string \<times> string) \<times> string option"

record reindex_prep =
  rp_messages :: "prepared list"
  rp_contents :: int
  rp_purged :: int
  rp_skipped :: int
  rp_warnings :: "string list"
  rp_metadata :: "((string \<times> string) \<times> string option \<times> string option \<times> int) list"
  rp_cancelled :: bool

definition internal_date_of :: "'r reindex_ctx \<Rightarrow> event \<Rightarrow> utc_time option" where
  "internal_date_of C ev = (case event_text ev ''internal_date'' of
     None \<Rightarrow> None
   | Some s \<Rightarrow> rc_date C (concat (map (\<lambda>c. if c = CHR ''Z'' then ''+00:00'' else [c]) s)))"

definition blank_parsed :: parsed_message where
  "blank_parsed = \<lparr>ps_subject = [], ps_sender = [], ps_recipient = [], ps_cc = [], ps_date_sent = None,
     ps_message_id = None, ps_in_reply_to = None, ps_references_ids = None, ps_thread_key = None,
     ps_content_key = None, ps_body_text = [], ps_attachments = [], ps_has_attachment = False,
     ps_parse_error = None\<rparr>"

definition reindex_contents :: "parsed_message \<Rightarrow> contents_arg" where
  "reindex_contents p =
    \<lparr>ca_subject_norm = Some (ps_subject p), ca_sender_norm = Some (ps_sender p), ca_subject = None,
     ca_sender = None, ca_body_text = Some (ps_body_text p),
     ca_attachment_names = Some (join_with (CHR 0x0A)
       (map (the \<circ> fst) (filter (\<lambda>(name, inline). name \<noteq> None \<and> \<not> inline) (ps_attachments p))))\<rparr>"

text \<open>The record of a fetch, before the ids of its folder and of the folder it moved to are known.\<close>

definition reindex_arg ::
  "'r reindex_ctx \<Rightarrow> message_place \<Rightarrow> event \<Rightarrow> string \<Rightarrow> string \<Rightarrow> string \<Rightarrow> parsed_message \<Rightarrow> int \<Rightarrow>
   message_state \<Rightarrow> event option \<Rightarrow> bool \<Rightarrow> message_arg" where
  "reindex_arg C place ev key path hash p n state snap purged = (case place of (account, raw, uidvalidity, uid) \<Rightarrow>
     \<lparr>ma_account_id = account, ma_folder_id = 0, ma_source_item_key = key,
      ma_columns = [ColMessageId (or_text (ps_message_id p) (event_text ev ''message_id'')),
        ColContentKey (the (or_text (ps_content_key p) (Some (''sha256:'' @ take 32 hash)))),
        ColLocalState (if purged then Purged else Active),
        ColRelativePath (if purged then None else Some path), ColFileHash (Some hash),
        ColSubject (Some (ps_subject p)), ColSender (Some (ps_sender p)), ColRecipient (Some (ps_recipient p)),
        ColCc (Some (ps_cc p)), ColDateSent (date_iso (ps_date_sent p)),
        ColInternalDate (case jget ev ''internal_date'' of JStr s \<Rightarrow> Some s | _ \<Rightarrow> None), ColSizeBytes (Some n),
        ColHasAttachment (ps_has_attachment p), ColInReplyTo (ps_in_reply_to p),
        ColReferencesIds (ps_references_ids p), ColThreadKey (ps_thread_key p),
        ColGmailMsgid (event_text ev ''gmail_msgid''), ColGmailThrid (event_text ev ''gmail_thrid''),
        ColGmailLabels (case Option.bind snap (\<lambda>s. string_list s ''gmail_labels'') of
           Some ls \<Rightarrow> Some (rc_dumps_compact C ls)
         | None \<Rightarrow> map_option (rc_dumps C) (string_list ev ''gmail_labels''))],
      ma_uid = Some uid, ma_uidvalidity = Some uidvalidity, ma_remote_state = Some (ms_remote_state state),
      ma_moved_to = None, ma_imap_flags = None, ma_flags_seen_at = None, ma_last_seen_at = None\<rparr>)"

record reindex_data =
  rd_scan :: reindex_scan
  rd_keys :: canonical_keys
  rd_purges :: "(purge_key \<times> event) list"
  rd_completed :: "purge_key list"
  rd_snapshots :: "((string \<times> string) \<times> event) list"

text \<open>\<open>read_verified\<close> of the file of a fetch; a missing or damaged file is \<open>None\<close>.\<close>

definition read_fetched :: "'r reindex_ctx \<Rightarrow> string \<Rightarrow> string \<Rightarrow> ('r world, string option) prog" where
  "read_fetched C path hash =
    catchp (bindp (storage_read_verified (rc_env C) path hash) (\<lambda>raw. ret (Some raw)))
      (\<lambda>e. if e = FileNotFoundError \<or> is_storage_error e then ret None else raise e)"

definition prepared_fetch ::
  "'r reindex_ctx \<Rightarrow> reindex_data \<Rightarrow> reindex_prep \<Rightarrow> message_place \<Rightarrow> event \<Rightarrow> string \<Rightarrow> string \<Rightarrow> string \<Rightarrow>
   bool \<Rightarrow> string option \<Rightarrow> reindex_prep" where
  "prepared_fetch C D P place ev key path hash purged raw =
    (let p = (case raw of Some bytes \<Rightarrow> rc_parse C bytes (internal_date_of C ev) | None \<Rightarrow> blank_parsed);
         state = get_default (map_of (sc_states (rd_scan D)) place) \<lparr>ms_remote_state = RemotePresent, ms_moved_to = None\<rparr>;
         n = get_default (event_integer ev ''size_bytes'') (int (length (get_default raw [])));
         k = (fst place, key);
         indexed = (\<not> purged \<and> ps_parse_error p = None) in
     P\<lparr>rp_messages := rp_messages P @ [(reindex_arg C place ev key path hash p n state (map_of (rd_snapshots D) k) purged,
           if indexed then Some (reindex_contents p) else None, (fst place, fst (snd place)), ms_moved_to state)],
       rp_contents := rp_contents P + (if indexed then 1 else 0),
       rp_purged := rp_purged P + (if purged then 1 else 0),
       rp_warnings := rp_warnings P @ (if ps_parse_error p \<noteq> None then [''EML parse failed: '' @ path] else []),
       rp_metadata := dict_set k (ps_message_id p, if ps_subject p = [] then None else Some (ps_subject p), n) (rp_metadata P)\<rparr>)"

text \<open>\<open>token.raise_if_cancelled()\<close> inside the preparation: a cancellation ends it with what it has gathered.\<close>

definition stopped :: "'r reindex_ctx \<Rightarrow> ('r world, bool) prog" where
  "stopped C = catchp (thenp (rc_check C) (ret False))
     (\<lambda>e. if e = OperationCancelledError then ret True else raise e)"

definition prepare_step :: "'r reindex_ctx \<Rightarrow> reindex_data \<Rightarrow> reindex_prep \<Rightarrow> message_place \<times> event \<Rightarrow> ('r world, reindex_prep) prog" where
  "prepare_step C D P fetch = (case fetch of (place, ev) \<Rightarrow>
     if rp_cancelled P then ret P
     else bindp (stopped C) (\<lambda>stop. if stop then ret (P\<lparr>rp_cancelled := True\<rparr>)
     else (case (event_text ev ''relative_path'', event_text ev ''file_hash'') of
        (Some path, Some hash) \<Rightarrow>
          (let key = get_default (map_of (ck_keys (rd_keys D)) place) [];
               purged = ((fst place, key, path, hash) \<in> set (rd_completed D)) in
           bindp (read_fetched C path hash) (\<lambda>raw.
             if raw = None \<and> \<not> purged
             then ret (P\<lparr>rp_skipped := rp_skipped P + 1,
               rp_warnings := rp_warnings P @ [''could not verify EML: '' @ path]\<rparr>)
             else ret (prepared_fetch C D P place ev key path hash purged raw)))
      | _ \<Rightarrow> ret (P\<lparr>rp_skipped := rp_skipped P + 1, rp_warnings := rp_warnings P @
           [''fetch has no stored EML: '' @ fst place @ '':'' @ int_text (snd (snd (snd place)))]\<rparr>))))"

definition prepare_messages :: "'r reindex_ctx \<Rightarrow> reindex_data \<Rightarrow> ('r world, reindex_prep) prog" where
  "prepare_messages C D =
    bindp (stopped C) (\<lambda>stop.
    bindp (foldp (prepare_step C D)
      \<lparr>rp_messages = [], rp_contents = 0, rp_purged = 0, rp_skipped = 0, rp_warnings = snapshot_warnings (rd_scan D),
       rp_metadata = [], rp_cancelled = stop\<rparr>
      (filter (\<lambda>(place, _). (fst place, fst (snd place)) \<in> fst ` set (valid_folders (rd_scan D))) (sc_fetches (rd_scan D))))
    (\<lambda>P. if rp_cancelled P then ret P
      else bindp (stopped C) (\<lambda>last. ret (P\<lparr>rp_cancelled := last\<rparr>))))"

section \<open>Writing the database\<close>

type_synonym folder_ids = "((string \<times> string) \<times> int) list"

text \<open>The id of a folder, which is inserted bare when it has no snapshot.\<close>

definition ensure_folder :: "string \<Rightarrow> string \<Rightarrow> folder_ids \<Rightarrow> (db, folder_ids \<times> int) prog" where
  "ensure_folder account raw ids = (case map_of ids (account, raw) of
     Some i \<Rightarrow> ret (ids, i)
   | None \<Rightarrow> bindp (upsert_folder (bare_folder account raw)) (\<lambda>i. ret (dict_set (account, raw) i ids, i)))"

type_synonym written = "folder_ids \<times> ((string \<times> string) \<times> int) list"

definition write_message :: "'r reindex_ctx \<Rightarrow> written \<Rightarrow> prepared \<Rightarrow> (db, written) prog" where
  "write_message C acc item = (case (acc, item) of ((ids, mids), (a, cnt, place, destination)) \<Rightarrow>
     bindp (case destination of
         None \<Rightarrow> ret (ids, None)
       | Some raw \<Rightarrow> bindp (ensure_folder (ma_account_id a) raw ids) (\<lambda>(ids', i). ret (ids', Some i))) (\<lambda>(ids', moved).
     bindp (add_message (rc_norm C) (a\<lparr>ma_folder_id := get_default (map_of ids place) 0, ma_moved_to := moved\<rparr>) cnt) (\<lambda>i.
       ret (ids', dict_set (ma_account_id a, ma_source_item_key a) i mids))))"

definition write_alias :: "links \<Rightarrow> ((string \<times> string) \<times> int) list \<Rightarrow> (string \<times> string) \<times> string \<times> string \<times> string \<Rightarrow> (db, unit) prog" where
  "write_alias ls mids link = (case link of ((account, alias), (canonical, evidence, _)) \<Rightarrow>
     bindp (lift_sum (resolve_identity_key account canonical ls)) (\<lambda>k. case map_of mids (account, k) of
       None \<Rightarrow> raise (StorageError ''Manifest identity link has no canonical fetch'')
     | Some i \<Rightarrow> add_message_identity_alias account alias i evidence))"

fun remote_state_of :: "json \<Rightarrow> remote_state option" where
  "remote_state_of (JStr s) = List.find (\<lambda>r. remote_state_text r = s)
     [RemotePresent, RemoteDeleted, RemoteMoved, RemoteUnknown, RemoteUncertain, NoRemote]"
| "remote_state_of _ = None"

definition null_str :: "json \<Rightarrow> string option" where
  "null_str v = (case v of JStr s \<Rightarrow> Some s | _ \<Rightarrow> None)"

definition snapshot_entry :: "string \<Rightarrow> folder_ids \<times> membership list \<Rightarrow> json \<Rightarrow> (db, folder_ids \<times> membership list) prog" where
  "snapshot_entry account acc entry = (case acc of (ids, ms) \<Rightarrow> (case entry of
     JObj m \<Rightarrow> (case event_text m ''folder_raw_name'' of
       None \<Rightarrow> raise (StorageError ''Manifest membership snapshot has no folder name'')
     | Some raw \<Rightarrow>
         bindp (ensure_folder account raw ids) (\<lambda>(ids1, f).
         bindp (case jget m ''moved_to_folder_raw_name'' of
             JStr moved \<Rightarrow> bindp (ensure_folder account moved ids1) (\<lambda>(ids', i). ret (ids', Some i))
           | _ \<Rightarrow> ret (ids1, None)) (\<lambda>(ids2, moved_to).
         (case remote_state_of (jget_or m ''remote_state'' (JStr ''present'')) of
            None \<Rightarrow> raise (sql_error ''replace message memberships'')
          | Some state \<Rightarrow> ret (ids2, ms @ [\<lparr>mf_message_id = 0, mf_folder_id = f, mf_uid = event_integer m ''uid'',
                mf_uidvalidity = event_integer m ''uidvalidity'', mf_remote_state = state, mf_moved_to = moved_to,
                mf_imap_flags = null_str (jget m ''imap_flags''), mf_flags_seen_at = null_str (jget m ''flags_seen_at''),
                mf_last_seen_at = null_str (jget m ''last_seen_at'')\<rparr>])))))
   | _ \<Rightarrow> raise (StorageError ''Manifest membership snapshot contains an invalid entry'')))"

definition write_snapshot :: "((string \<times> string) \<times> int) list \<Rightarrow> folder_ids \<Rightarrow> (string \<times> string) \<times> event \<Rightarrow> (db, folder_ids) prog" where
  "write_snapshot mids ids snap = (case snap of ((account, k), ev) \<Rightarrow>
     (case map_of mids (account, k) of
        None \<Rightarrow> raise (StorageError ''Membership snapshot has no canonical fetch'')
      | Some i \<Rightarrow> (case jget ev ''memberships'' of
          JList entries \<Rightarrow> bindp (foldp (snapshot_entry account) (ids, []) entries) (\<lambda>(ids', ms).
            thenp (replace_message_memberships i ms) (ret ids'))
        | _ \<Rightarrow> raise (StorageError ''Manifest membership snapshot is invalid''))))"

definition write_rows :: "'r reindex_ctx \<Rightarrow> reindex_data \<Rightarrow> reindex_prep \<Rightarrow> (db, unit) prog" where
  "write_rows C D P =
    thenp (forp (\<lambda>(_, a). thenp (upsert_account a) (ret ())) (valid_accounts (rd_scan D)))
    (bindp (foldp (\<lambda>ids (k, f). bindp (upsert_folder f) (\<lambda>i. ret (dict_set k i ids))) [] (valid_folders (rd_scan D))) (\<lambda>ids.
     bindp (foldp (write_message C) (ids, []) (rp_messages P)) (\<lambda>(ids', mids).
     thenp (forp (write_alias (sc_links (rd_scan D)) mids) (sc_links (rd_scan D)))
     (thenp (foldp (write_snapshot mids) ids' (rd_snapshots D)) (ret ())))))"

section \<open>The audit log\<close>

definition audit_column :: "json \<Rightarrow> error + string option" where
  "audit_column v = (case v of
     JNull \<Rightarrow> Inr None
   | JStr s \<Rightarrow> Inr (Some s)
   | JInt i \<Rightarrow> Inr (Some (int_text i))
   | _ \<Rightarrow> Inl (sql_error ''record audit log''))"

definition audit_size :: "json \<Rightarrow> error + int option" where
  "audit_size v = (case v of
     JNull \<Rightarrow> Inr None
   | JInt i \<Rightarrow> Inr (Some i)
   | _ \<Rightarrow> Inl (sql_error ''record audit log''))"

definition audit_value :: "event \<Rightarrow> event \<Rightarrow> string \<Rightarrow> json" where
  "audit_value ev related f = (if jget ev f \<noteq> JNull then jget ev f else jget related f)"

definition reindex_audit_entry :: "env \<Rightarrow> event \<Rightarrow> string \<Rightarrow> event \<Rightarrow> (db, audit_row) prog" where
  "reindex_audit_entry E ev operation related =
    bindp (lift_sum (audit_column (audit_value ev related ''account_id''))) (\<lambda>account.
    bindp (lift_sum (audit_column (audit_value ev related ''message_id''))) (\<lambda>message.
    bindp (lift_sum (audit_column (audit_value ev related ''subject''))) (\<lambda>subject.
    bindp (lift_sum (audit_size (audit_value ev related ''size_bytes''))) (\<lambda>n.
      ret \<lparr>aud_occurred_at = (case jget_or ev ''timestamp'' (JStr (now E)) of JStr t \<Rightarrow> t | _ \<Rightarrow> now E),
           aud_operation = operation, aud_account_id = account,
           aud_message_id = (case message of None \<Rightarrow> PyNone | Some s \<Rightarrow> PyStr s), aud_subject = subject,
           aud_size_bytes = n,
           aud_detail = Some (''reconstructed from '' @
             (case jget_or ev ''event'' (JStr ''manifest'') of JStr s \<Rightarrow> s | _ \<Rightarrow> ''None'') @ '' event'')\<rparr>))))"

definition audit_source_key :: "links \<Rightarrow> event \<Rightarrow> event option \<Rightarrow> error + string option" where
  "audit_source_key ls ev related =
    (case (case Option.bind related (\<lambda>r. map_option (Pair r) (event_place r)) of
             Some (r, place) \<Rightarrow> map_sum id Some (fetch_source_key r place)
           | None \<Rightarrow> Inr (event_text ev ''source_item_key'')) of
       Inl e \<Rightarrow> Inl e
     | Inr None \<Rightarrow> (case event_place ev of
         Some (account, _, uidvalidity, uid) \<Rightarrow>
           map_sum id Some (resolve_identity_key account (int_text uidvalidity @ '':'' @ int_text uid) ls)
       | None \<Rightarrow> Inr None)
     | Inr (Some k) \<Rightarrow> (case event_text ev ''account_id'' of
         Some account \<Rightarrow> map_sum id Some (resolve_identity_key account k ls)
       | None \<Rightarrow> Inr (Some k)))"

definition audit_metadata ::
  "((string \<times> string) \<times> string option \<times> string option \<times> int) list \<Rightarrow> event \<Rightarrow> string option \<Rightarrow> event \<Rightarrow> event" where
  "audit_metadata metadata ev key related =
    (case (event_text ev ''account_id'', key) of
       (Some account, Some k) \<Rightarrow> (case map_of metadata (account, k) of
           None \<Rightarrow> related
         | Some (message_id, subject, n) \<Rightarrow>
             dict_set ''size_bytes'' (JInt n)
               ((case subject of None \<Rightarrow> id | Some s \<Rightarrow> dict_set ''subject'' (JStr s))
                 ((case message_id of None \<Rightarrow> id | Some s \<Rightarrow> dict_set ''message_id'' (JStr s)) related)))
     | _ \<Rightarrow> related)"

definition write_audit :: "'r reindex_ctx \<Rightarrow> reindex_data \<Rightarrow> reindex_prep \<Rightarrow> event \<times> string \<times> event option \<Rightarrow> (db, unit) prog" where
  "write_audit C D P audit = (case audit of (ev, operation, related) \<Rightarrow>
     bindp (lift_sum (audit_source_key (sc_links (rd_scan D)) ev related)) (\<lambda>key.
     bindp (reindex_audit_entry (rc_env C) ev operation (audit_metadata (rp_metadata P) ev key (get_default related []))) record_audit))"

section \<open>The rebuild\<close>

record reindex_result =
  rx_accounts :: nat
  rx_folders :: nat
  rx_messages :: nat
  rx_contents :: int
  rx_purged :: int
  rx_skipped :: int
  rx_warnings :: "string list"
  rx_cancelled :: bool

definition cancelled_result :: "string list \<Rightarrow> reindex_result" where
  "cancelled_result ws = \<lparr>rx_accounts = 0, rx_folders = 0, rx_messages = 0, rx_contents = 0, rx_purged = 0,
     rx_skipped = 0, rx_warnings = ws, rx_cancelled = True\<rparr>"

definition reindex_step :: "'r reindex_ctx \<Rightarrow> reindex_scan \<Rightarrow> event \<Rightarrow> ('r world, reindex_scan) prog" where
  "reindex_step C S ev = thenp (rc_check C) (lift_sum (scan_event S ev))"

definition scan_events :: "'r reindex_ctx \<Rightarrow> event list \<Rightarrow> ('r world, reindex_scan) prog" where
  "scan_events C evs = foldp (reindex_step C) empty_scan evs"

definition reindex_resolve :: "reindex_scan \<Rightarrow> ('s, reindex_data) prog" where
  "reindex_resolve S =
    bindp (canonical_fetches S) (\<lambda>K.
    bindp (resolve_purges S) (\<lambda>(purges, completed).
    bindp (resolve_snapshots S) (\<lambda>snaps.
      ret \<lparr>rd_scan = S, rd_keys = K, rd_purges = purges, rd_completed = completed, rd_snapshots = snaps\<rparr>)))"

definition reindex_write :: "'r reindex_ctx \<Rightarrow> reindex_data \<Rightarrow> reindex_prep \<Rightarrow> ('r world, reindex_result) prog" where
  "reindex_write C D P =
    thenp begin_batch
    (thenp (on_db (write_rows C D P))
    (thenp commit_batch
    (thenp (on_db (forp (write_audit C D P) (sc_audits (rd_scan D))))
    (ret \<lparr>rx_accounts = length (valid_accounts (rd_scan D)), rx_folders = length (valid_folders (rd_scan D)),
         rx_messages = length (rp_messages P), rx_contents = rp_contents P, rx_purged = rp_purged P,
         rx_skipped = rp_skipped P,
         rx_warnings = rp_warnings P @ map (\<lambda>((_, k, _), _). ''incomplete purge intent: '' @ k)
           (filter (\<lambda>(key, _). key \<notin> set (rd_completed D)) (rd_purges D)),
         rx_cancelled = False\<rparr>))))"

definition reindex :: "'r reindex_ctx \<Rightarrow> ('r world, reindex_result) prog" where
  "reindex C = bindp (gets (\<lambda>w. read_all_events (w_man w))) (\<lambda>r. bindp (lift_sum r) (\<lambda>evs.
    bindp (catchp (bindp (scan_events C evs) (\<lambda>S. ret (Some S)))
        (\<lambda>e. if e = OperationCancelledError then ret None else raise e)) (\<lambda>scan.
      case scan of
        None \<Rightarrow> ret (cancelled_result [])
      | Some S \<Rightarrow> bindp (reindex_resolve S) (\<lambda>D.
          bindp (prepare_messages C D) (\<lambda>P.
            if rp_cancelled P then ret (cancelled_result (rp_warnings P)) else reindex_write C D P)))))"

end
