(* ===== verification/Verify.thy ===== *)
theory Verify
  imports Reindex
begin

text \<open>
  Verification of the stored files (\<^verbatim>\<open>usecases/verify.py\<close>): the quick check of paths and sizes, the check
  of the messages since the last checkpoint with its repair, the full check of all files, and the scan
  for files that no message names. The check of the manifest files is in \<open>Verify_Manifest\<close>. A file is hashed in chunks of one megabyte with a look at the cancellation token before
  each. Progress callbacks are left out.
\<close>

section \<open>Files\<close>

text \<open>The files below \<^verbatim>\<open>eml/\<close>, or below the directory of one account, whose name ends in
  \<^verbatim>\<open>.eml\<close>, in the order of their paths.\<close>

definition eml_file :: "string list \<Rightarrow> string list \<Rightarrow> bool" where
  "eml_file search_root p \<longleftrightarrow> length p > length search_root \<and> take (length search_root) p = search_root \<and>
     length (last p) \<ge> 4 \<and> drop (length (last p) - 4) (last p) = ''.eml''"

definition iter_eml_paths :: "string option \<Rightarrow> fs \<Rightarrow> error + string list" where
  "iter_eml_paths account f =
    (let search_root = ''eml'' # (case account of None \<Rightarrow> [] | Some a \<Rightarrow> [a]) in
     case (case account of None \<Rightarrow> Inr () | Some a \<Rightarrow> validate_account_id a) of
       Inl e \<Rightarrow> Inl e
     | Inr _ \<Rightarrow> Inr (map path_text (sort (filter (eml_file search_root) (map fst (fs_files f))))))"

definition catch_cancel :: "('s, 'a) prog \<Rightarrow> ('s, 'a option) prog" where
  "catch_cancel m = catchp (bindp m (\<lambda>x. ret (Some x))) (\<lambda>e. if e = OperationCancelledError then ret None else raise e)"

definition token_stopped :: "('r, bool) prog \<Rightarrow> ('r world, bool) prog" where
  "token_stopped cancelled =
     bindp (catch_cancel (on_remote (raise_if_cancelled cancelled))) (\<lambda>r. ret (r = None))"

definition hash_chunks :: "env \<Rightarrow> ('r, bool) prog \<Rightarrow> string \<Rightarrow> ('r world, string \<times> int) prog" where
  "hash_chunks E cancelled path =
    bindp (gets (\<lambda>w. read_eml path (w_fs w))) (\<lambda>r. bindp (lift_sum r) (\<lambda>bytes.
      thenp (forp (\<lambda>_. on_remote (raise_if_cancelled cancelled))
          [0..<nat ((int (length bytes) + 1048575) div 1048576)])
        (ret (sha256 E bytes, int (length bytes)))))"

definition record_path :: "message_record \<Rightarrow> string option" where
  "record_path r = (case msg_relative_path (rec_row r) of Some p \<Rightarrow> if p = [] then None else Some p | None \<Rightarrow> None)"

definition record_hash :: "message_record \<Rightarrow> string option" where
  "record_hash r = (case msg_file_hash (rec_row r) of Some h \<Rightarrow> if h = [] then None else Some h | None \<Rightarrow> None)"

text \<open>A dictionary of the items that have a key; a later item replaces an earlier one.\<close>

definition dict_by :: "('a \<Rightarrow> 'k option) \<Rightarrow> 'a list \<Rightarrow> ('k \<times> 'a) list" where
  "dict_by key xs = foldl (\<lambda>d x. case key x of None \<Rightarrow> d | Some k \<Rightarrow> dict_set k x d) [] xs"

record verification_issue =
  vi_relative_path :: string
  vi_reason :: string
  vi_message_id :: "int option"
  vi_expected_size :: "int option"
  vi_actual_size :: "int option"
  vi_expected_hash :: "string option"
  vi_actual_hash :: "string option"

section \<open>Quick check\<close>

record quick_result =
  qv_checked :: int
  qv_missing :: "string list"
  qv_size_mismatch :: "string list"
  qv_cancelled :: bool

definition quick_step :: "('r, bool) prog \<Rightarrow> quick_result \<Rightarrow> message_record \<Rightarrow> ('r world, quick_result) prog" where
  "quick_step cancelled Q r =
    (if qv_cancelled Q then ret Q
     else bindp (token_stopped cancelled) (\<lambda>stop.
       if stop then ret (Q\<lparr>qv_cancelled := True\<rparr>)
       else (case record_path r of
           None \<Rightarrow> ret Q
         | Some path \<Rightarrow>
             (let Q1 = Q\<lparr>qv_checked := qv_checked Q + 1\<rparr> in
              bindp (gets (\<lambda>w. read_eml path (w_fs w))) (\<lambda>s. case s of
                Inl e \<Rightarrow> if e = FileNotFoundError then ret (Q1\<lparr>qv_missing := qv_missing Q1 @ [path]\<rparr>) else raise e
              | Inr bytes \<Rightarrow> ret (if msg_size_bytes (rec_row r) \<notin> {None, Some (int (length bytes))}
                  then Q1\<lparr>qv_size_mismatch := qv_size_mismatch Q1 @ [path]\<rparr> else Q1))))))"

definition quick_verify :: "('r, bool) prog \<Rightarrow> ('r world, quick_result) prog" where
  "quick_verify cancelled = bindp (on_db (list_stored_messages None)) (\<lambda>rs.
     foldp (quick_step cancelled)
       \<lparr>qv_checked = 0, qv_missing = [], qv_size_mismatch = [], qv_cancelled = False\<rparr> rs)"

section \<open>Messages since the last checkpoint\<close>

record range_result =
  rv_checked :: int
  rv_issues :: "verification_issue list"
  rv_repaired :: int
  rv_quarantined :: int
  rv_cancelled :: bool

definition records_by_source_key :: "message_record list \<Rightarrow> ((string \<times> string) \<times> message_record) list" where
  "records_by_source_key rs = dict_by (\<lambda>r. Some (message_key (rec_row r))) rs"

definition record_integrity_failure :: "message_record \<Rightarrow> string \<Rightarrow> (db, unit) prog" where
  "record_integrity_failure r reason = (case rec_membership r of
     None \<Rightarrow> ret ()
   | Some x \<Rightarrow> (case (mf_uidvalidity x, mf_uid x) of
       (Some uidvalidity, Some uid) \<Rightarrow>
         record_failure (msg_account_id (rec_row r)) (mf_folder_id x) uidvalidity uid ''integrity'' reason
     | _ \<Rightarrow> ret ()))"

text \<open>\<open>unique\<close> gives the random part of a quarantine name.\<close>

definition repair_integrity_issue :: "(string \<Rightarrow> string) \<Rightarrow> message_record \<Rightarrow> verification_issue \<Rightarrow> ('r world, int) prog" where
  "repair_integrity_issue unique r issue =
    thenp (on_db (record_integrity_failure r (vi_reason issue)))
    (thenp (whenp (vi_reason issue = ''hash_mismatch'')
        (on_fs (quarantine (unique (vi_relative_path issue)) (vi_relative_path issue))))
    (thenp (on_db (update_message_storage (msg_id (rec_row r)) None None)) (ret 1)))"

definition range_issue :: "string \<Rightarrow> string \<Rightarrow> message_record option \<Rightarrow> string option \<Rightarrow> verification_issue" where
  "range_issue path expected r actual =
    \<lparr>vi_relative_path = path, vi_reason = (if actual = None then ''missing'' else ''hash_mismatch''),
     vi_message_id = map_option (msg_id \<circ> rec_row) r, vi_expected_size = None, vi_actual_size = None,
     vi_expected_hash = Some expected, vi_actual_hash = actual\<rparr>"

text \<open>The digest of a fetched file: cancelled, missing or computed.\<close>

definition range_hash :: "env \<Rightarrow> ('r, bool) prog \<Rightarrow> string \<Rightarrow> ('r world, string option option) prog" where
  "range_hash E cancelled path =
    catchp (catch_cancel (bindp (hash_chunks E cancelled path) (\<lambda>(h, _). ret (Some h))))
      (\<lambda>e. if e = FileNotFoundError then ret (Some None) else raise e)"

definition range_repair ::
  "(string \<Rightarrow> string) \<Rightarrow> range_result \<Rightarrow> message_record option \<Rightarrow> verification_issue \<Rightarrow> ('r world, range_result) prog" where
  "range_repair unique R record issue =
    (let mismatch = (vi_reason issue = ''hash_mismatch'') in
     thenp (whenp (mismatch \<and> record = None)
       (on_fs (quarantine (unique (vi_relative_path issue)) (vi_relative_path issue))))
     (bindp (case record of None \<Rightarrow> ret 0 | Some r \<Rightarrow> repair_integrity_issue unique r issue) (\<lambda>n.
       ret (R\<lparr>rv_issues := rv_issues R @ [issue], rv_repaired := rv_repaired R + n,
         rv_quarantined := rv_quarantined R + (if mismatch then 1 else 0)\<rparr>))))"

definition range_verify_step ::
  "env \<Rightarrow> ('r, bool) prog \<Rightarrow> (string \<Rightarrow> string) \<Rightarrow> ((string \<times> string) \<times> message_record) list \<Rightarrow> range_result \<Rightarrow> event \<Rightarrow>
   ('r world, range_result) prog" where
  "range_verify_step E cancelled unique records R ev =
    (if rv_cancelled R \<or> jget ev ''event'' \<noteq> JStr ''fetch'' then ret R
     else bindp (token_stopped cancelled) (\<lambda>stop.
       if stop then ret (R\<lparr>rv_cancelled := True\<rparr>)
       else (case (jget ev ''account_id'', jget ev ''source_item_key'', jget ev ''relative_path'', jget ev ''file_hash'') of
           (JStr account, JStr key, JStr path, JStr expected) \<Rightarrow>
             (let R1 = R\<lparr>rv_checked := rv_checked R + 1\<rparr>; record = map_of records (account, key) in
              bindp (range_hash E cancelled path) (\<lambda>h. case h of
                None \<Rightarrow> ret (R1\<lparr>rv_cancelled := True\<rparr>)
              | Some actual \<Rightarrow>
                  if actual = Some (casefold expected) then ret R1
                  else range_repair unique R1 record (range_issue path expected record actual)))
         | _ \<Rightarrow> ret R)))"

definition range_verify :: "env \<Rightarrow> ('r, bool) prog \<Rightarrow> (string \<Rightarrow> string) \<Rightarrow> ('r world, range_result) prog" where
  "range_verify E cancelled unique =
    bindp (on_db (list_stored_messages None)) (\<lambda>rs.
    bindp (gets (\<lambda>w. read_events_since_checkpoint (w_man w))) (\<lambda>r. bindp (lift_sum r) (\<lambda>evs.
      foldp (range_verify_step E cancelled unique (records_by_source_key rs))
        \<lparr>rv_checked = 0, rv_issues = [], rv_repaired = 0, rv_quarantined = 0, rv_cancelled = False\<rparr> evs)))"

section \<open>Full check\<close>

record full_result =
  fv_checked :: int
  fv_issues :: "verification_issue list"
  fv_cancelled :: bool

definition records_by_path :: "message_record list \<Rightarrow> (string \<times> message_record) list" where
  "records_by_path rs = dict_by record_path rs"

text \<open>The name without its last extension (\<open>rsplit\<close> at a dot).\<close>

definition name_stem :: "string \<Rightarrow> string" where
  "name_stem s = (if CHR ''.'' \<in> set s then rev (tl (dropWhile (\<lambda>c. c \<noteq> CHR ''.'') (rev s))) else s)"

definition full_issue :: "(string \<times> message_record) list \<Rightarrow> string \<Rightarrow> string \<Rightarrow> int \<Rightarrow> verification_issue list" where
  "full_issue records path actual_hash actual_size = (case map_of records path of
     None \<Rightarrow>
       (let filename = last (path_parts path) in
        if casefold filename \<noteq> casefold (take 32 actual_hash @ ''.eml'')
        then [\<lparr>vi_relative_path = path, vi_reason = ''orphan_hash_mismatch'', vi_message_id = None, vi_expected_size = None,
               vi_actual_size = Some actual_size, vi_expected_hash = Some (name_stem filename), vi_actual_hash = Some actual_hash\<rparr>]
        else [])
   | Some r \<Rightarrow>
       (let issue = \<lparr>vi_relative_path = path, vi_reason = ''hash_mismatch'', vi_message_id = Some (msg_id (rec_row r)),
              vi_expected_size = msg_size_bytes (rec_row r), vi_actual_size = Some actual_size,
              vi_expected_hash = record_hash r, vi_actual_hash = Some actual_hash\<rparr> in
        if record_hash r \<noteq> None \<and> actual_hash \<noteq> casefold (the (record_hash r)) then [issue]
        else if msg_size_bytes (rec_row r) \<notin> {None, Some actual_size} then [issue\<lparr>vi_reason := ''size_mismatch''\<rparr>]
        else []))"

definition full_step ::
  "env \<Rightarrow> ('r, bool) prog \<Rightarrow> (string \<times> message_record) list \<Rightarrow> full_result \<Rightarrow> string \<Rightarrow> ('r world, full_result) prog" where
  "full_step E cancelled records V path =
    (if fv_cancelled V then ret V
     else bindp (token_stopped cancelled) (\<lambda>stop.
       if stop then ret (V\<lparr>fv_cancelled := True\<rparr>)
       else (let V1 = V\<lparr>fv_checked := fv_checked V + 1\<rparr> in
         bindp (catch_cancel (hash_chunks E cancelled path)) (\<lambda>r. case r of
           None \<Rightarrow> ret (V1\<lparr>fv_cancelled := True\<rparr>)
         | Some (h, n) \<Rightarrow> ret (V1\<lparr>fv_issues := fv_issues V1 @ full_issue records path h n\<rparr>)))))"

definition full_verify :: "env \<Rightarrow> ('r, bool) prog \<Rightarrow> ('r world, full_result) prog" where
  "full_verify E cancelled =
    bindp (bindp (gets (\<lambda>w. iter_eml_paths None (w_fs w))) lift_sum) (\<lambda>paths.
    bindp (on_db (list_stored_messages None)) (\<lambda>rs.
      foldp (full_step E cancelled (records_by_path rs)) \<lparr>fv_checked = 0, fv_issues = [], fv_cancelled = False\<rparr> paths))"

section \<open>Orphans\<close>

record orphan_result =
  os_checked :: int
  os_registerable :: "(string \<times> string \<times> string) list"
  os_quarantined :: "string list"
  os_cancelled :: bool

definition provenance_path :: "event \<Rightarrow> string option" where
  "provenance_path ev =
    (if jget ev ''event'' \<in> {JStr ''fetch'', JStr ''item_saved''}
     then (case jget_or ev ''relative_path'' (jget ev ''final_relative_path'') of JStr p \<Rightarrow> Some p | _ \<Rightarrow> None)
     else None)"

definition provenance :: "event list \<Rightarrow> (string \<times> event) list" where
  "provenance evs = dict_by provenance_path evs"

text \<open>The key under which a file with a given digest can be registered again.\<close>

definition registerable :: "string list \<Rightarrow> (string \<times> event) list \<Rightarrow> string \<Rightarrow> string \<Rightarrow> string option" where
  "registerable known_hashes events path h = (case map_of events path of
     None \<Rightarrow> None
   | Some ev \<Rightarrow> (case jget ev ''source_item_key'' of
       JStr k \<Rightarrow> if jget ev ''file_hash'' = JStr h \<and> h \<notin> set known_hashes then Some k else None
     | _ \<Rightarrow> None))"

definition orphan_audit :: "env \<Rightarrow> string \<Rightarrow> audit_row" where
  "orphan_audit E path = \<lparr>aud_occurred_at = now E, aud_operation = ''orphan_quarantine'', aud_account_id = None,
     aud_message_id = PyNone, aud_subject = None, aud_size_bytes = None, aud_detail = Some path\<rparr>"

definition orphan_step ::
  "env \<Rightarrow> ('r, bool) prog \<Rightarrow> (string \<Rightarrow> string) \<Rightarrow> string list \<Rightarrow> string list \<Rightarrow> (string \<times> event) list \<Rightarrow> orphan_result \<Rightarrow>
   string \<Rightarrow> ('r world, orphan_result) prog" where
  "orphan_step E cancelled unique known_paths known_hashes events R path =
    (if os_cancelled R then ret R
     else bindp (token_stopped cancelled) (\<lambda>stop.
       if stop then ret (R\<lparr>os_cancelled := True\<rparr>)
       else (let R1 = R\<lparr>os_checked := os_checked R + 1\<rparr> in
         if path \<in> set known_paths then ret R1
         else bindp (catch_cancel (hash_chunks E cancelled path)) (\<lambda>r. case r of
           None \<Rightarrow> ret (R1\<lparr>os_cancelled := True\<rparr>)
         | Some (h, _) \<Rightarrow> (case registerable known_hashes events path h of
             Some k \<Rightarrow> ret (R1\<lparr>os_registerable := os_registerable R1 @ [(path, h, k)]\<rparr>)
           | None \<Rightarrow>
               thenp (on_fs (quarantine (unique path) path))
               (thenp (on_db (record_audit (orphan_audit E path)))
                 (ret (R1\<lparr>os_quarantined := os_quarantined R1 @ [path]\<rparr>))))))))"

definition orphan_scan :: "env \<Rightarrow> ('r, bool) prog \<Rightarrow> (string \<Rightarrow> string) \<Rightarrow> bool \<Rightarrow> ('r world, orphan_result) prog" where
  "orphan_scan E cancelled unique with_manifest =
    bindp (bindp (gets (\<lambda>w. iter_eml_paths None (w_fs w))) lift_sum) (\<lambda>paths.
    bindp (on_db (list_stored_messages None)) (\<lambda>rs.
    bindp (gets (\<lambda>w. if with_manifest then read_all_events (w_man w) else Inr [])) (\<lambda>m. bindp (lift_sum m) (\<lambda>evs.
      foldp (orphan_step E cancelled unique (List.map_filter record_path rs) (List.map_filter record_hash rs) (provenance evs))
        \<lparr>os_checked = 0, os_registerable = [], os_quarantined = [], os_cancelled = False\<rparr> paths))))"

end
