(* ===== verification/Verify_Manifest.thy ===== *)
theory Verify_Manifest
  imports Verify "HOL-Library.Sublist"
begin

text \<open>
  Verification of the manifest files (\<open>verify_manifest\<close> of \<^verbatim>\<open>usecases/verify.py\<close>): its own reading of a
  record, which takes the checksum by \<open>int(_, 16)\<close> and asks only for an event name, the check of one
  file with removal of a malformed last record, and the pass over all files. The reader of a PST
  manifest is a parameter. The manifest files are taken at byte level, from the tree of files.
\<close>

section \<open>One record\<close>

text \<open>\<open>bytes.rpartition\<close>: what stands before and after the last occurrence of a separator.\<close>

definition rpartition :: "string \<Rightarrow> string \<Rightarrow> (string \<times> string) option" where
  "rpartition sep s = map_option (\<lambda>n. (take n s, drop (n + length sep) s))
     (List.find (\<lambda>n. take (length sep) (drop n s) = sep) (rev [0..<Suc (length s)]))"

text \<open>\<open>int(_, 16)\<close>, with the white space of bytes or of text: surrounding white space, a sign, a prefix \<^verbatim>\<open>0x\<close> and single underscores
  between digits are accepted.\<close>

definition byte_space :: "char \<Rightarrow> bool" where
  "byte_space c \<longleftrightarrow> c = CHR '' '' \<or> (9 \<le> (of_char c :: nat) \<and> (of_char c :: nat) \<le> 13)"

fun single_underscores :: "string \<Rightarrow> bool" where
  "single_underscores [] = False"
| "single_underscores [c] = (hex_digit c \<noteq> None)"
| "single_underscores (c # d # s) = (hex_digit c \<noteq> None \<and> single_underscores (if d = CHR ''_'' then s else d # s))"

definition hex_int :: "(char \<Rightarrow> bool) \<Rightarrow> string \<Rightarrow> int option" where
  "hex_int space s =
    (let t = rstrip space (dropWhile space s);
         u = (if t \<noteq> [] \<and> hd t \<in> {CHR ''+'', CHR ''-''} then tl t else t);
         v = (if take 2 u \<in> {''0x'', ''0X''} then (if take 1 (drop 2 u) = ''_'' then drop 3 u else drop 2 u) else u);
         n = int (hex_value (filter (\<lambda>c. c \<noteq> CHR ''_'') v))
     in if \<not> single_underscores v then None
        else Some (if t \<noteq> [] \<and> hd t = CHR ''-'' then - n else n))"

definition manifest_line_is_valid :: "codec \<Rightarrow> string \<Rightarrow> error + event" where
  "manifest_line_is_valid C line =
    (if line = [] \<or> last line \<noteq> newline
     then Inl (ManifestCorruptError ''manifest record is missing its trailing newline'')
     else case rpartition ''|CRC32:'' (butlast line) of
       None \<Rightarrow> Inl (ManifestCorruptError ''manifest record has no valid CRC32 suffix'')
     | Some (payload, checksum) \<Rightarrow>
         if length checksum \<noteq> 8
         then Inl (ManifestCorruptError ''manifest record has no valid CRC32 suffix'')
         else (case hex_int byte_space checksum of
           None \<Rightarrow> Inl (ManifestCorruptError ''manifest record has an invalid CRC32 suffix'')
         | Some expected_checksum \<Rightarrow>
             if int (unat (crc32 payload)) \<noteq> expected_checksum
             then Inl (ManifestCorruptError ''manifest record CRC32 does not match its payload'')
             else (case loads C payload of
               None \<Rightarrow> Inl (ManifestCorruptError ''manifest record contains invalid JSON'')
             | Some (JObj decoded) \<Rightarrow>
                 if is_str (jget decoded ''event'') then Inr decoded
                 else Inl (ManifestCorruptError ''manifest record is not a JSON event object'')
             | Some _ \<Rightarrow> Inl (ManifestCorruptError ''manifest record is not a JSON event object''))))"

section \<open>One file\<close>

text \<open>The loop: the number of records, and the offset of a malformed last record.\<close>

fun verify_loop :: "codec \<Rightarrow> nat \<Rightarrow> nat \<Rightarrow> string list \<Rightarrow> error + (nat \<times> nat option)" where
  "verify_loop C offset records_checked [] = Inr (records_checked, None)"
| "verify_loop C offset records_checked (line # rest) =
    (case manifest_line_is_valid C line of
       Inl e \<Rightarrow> if rest \<noteq> [] then Inl e else Inr (records_checked, Some offset)
     | Inr _ \<Rightarrow> verify_loop C (offset + length line) (records_checked + 1) rest)"

text \<open>The records checked, the bytes removed and the bytes the file holds afterwards.\<close>

definition verify_manifest_file :: "codec \<Rightarrow> string \<Rightarrow> error + (nat \<times> nat \<times> string)" where
  "verify_manifest_file C bytes = (case verify_loop C 0 0 (readlines bytes) of
     Inl e \<Rightarrow> Inl e
   | Inr (n, None) \<Rightarrow> Inr (n, 0, bytes)
   | Inr (n, Some truncate_at) \<Rightarrow> Inr (n, length bytes - truncate_at, take truncate_at bytes))"

section \<open>All files\<close>

record manifest_verify_result =
  mv_files_checked :: nat
  mv_records_checked :: nat
  mv_repaired_bytes :: nat
  mv_cancelled :: bool
  mv_damaged_paths :: "string list"

definition manifest_file :: "string list \<Rightarrow> bool" where
  "manifest_file p \<longleftrightarrow> length p = 4 \<and> p ! 0 = ''manifests'' \<and>
     (p ! 1 = ''imap'' \<and> length (p ! 3) \<ge> 13 \<and> take 7 (p ! 3) = ''events-'' \<and> drop (length (p ! 3) - 6) (p ! 3) = ''.jsonl'' \<or>
      p ! 1 = ''pst'' \<and> p ! 3 = ''items.jsonl'')"

definition full_path :: "fs \<Rightarrow> string list \<Rightarrow> string" where
  "full_path f p = ''/'' @ path_text (fs_root f @ p)"

definition verify_file_at :: "codec \<Rightarrow> string list \<Rightarrow> (fs, nat \<times> nat) prog" where
  "verify_file_at C p = (\<lambda>f. case fs_lookup f p of
     None \<Rightarrow> (Inl FileNotFoundError, f)
   | Some bytes \<Rightarrow> (case verify_manifest_file C bytes of
       Inl e \<Rightarrow> (Inl e, f)
     | Inr (n, removed, bytes') \<Rightarrow> (Inr (n, removed), if bytes' = bytes then f else fs_write p bytes' f)))"

text \<open>\<open>pst_reader\<close> reads all events of the PST manifest of one import.\<close>

definition verify_manifest_step ::
  "codec \<Rightarrow> (string \<Rightarrow> (fs, unit) prog) \<Rightarrow> ('r, bool) prog \<Rightarrow> manifest_verify_result \<Rightarrow> string list \<Rightarrow>
   ('r world, manifest_verify_result) prog" where
  "verify_manifest_step C pst_reader cancelled R p =
    (if mv_cancelled R then ret R
     else bindp (token_stopped cancelled) (\<lambda>stop.
       if stop then ret (R\<lparr>mv_cancelled := True\<rparr>)
       else bindp (on_fs (verify_file_at C p)) (\<lambda>(n, removed).
         thenp (whenp (p ! 1 = ''pst'') (on_fs (pst_reader (p ! 2))))
         (bindp (gets (\<lambda>w. full_path (w_fs w) p)) (\<lambda>path.
           ret (R\<lparr>mv_files_checked := mv_files_checked R + 1,
             mv_records_checked := mv_records_checked R + n,
             mv_repaired_bytes := mv_repaired_bytes R + removed,
             mv_damaged_paths := mv_damaged_paths R @ (if removed \<noteq> 0 then [path] else [])\<rparr>))))))"

definition verify_manifest ::
  "codec \<Rightarrow> (string \<Rightarrow> (fs, unit) prog) \<Rightarrow> ('r, bool) prog \<Rightarrow> ('r world, manifest_verify_result) prog" where
  "verify_manifest C pst_reader cancelled =
    bindp (gets (\<lambda>w. sort_key (full_path (w_fs w)) (filter manifest_file (map fst (fs_files (w_fs w)))))) (\<lambda>paths.
      foldp (verify_manifest_step C pst_reader cancelled)
        \<lparr>mv_files_checked = 0, mv_records_checked = 0, mv_repaired_bytes = 0, mv_cancelled = False, mv_damaged_paths = []\<rparr>
        paths)"

section \<open>Agreement with the reader\<close>

lemma find_last_index:
  assumes "P n" and "n \<le> m" and "\<And>k. n < k \<Longrightarrow> k \<le> m \<Longrightarrow> \<not> P k"
  shows "List.find P (rev [0..<Suc m]) = Some n"
  using assms(2,3)
proof (induction m)
  case 0
  with assms(1) show ?case by simp
next
  case (Suc m)
  with assms(1) show ?case by (cases "n = Suc m") auto
qed

lemma hex_digit_plain:
  assumes "hex_digit c \<noteq> None"
  shows "\<not> byte_space c" "c \<notin> set ''+-_xX|''"
  using assms by (auto simp: hex_digit_def byte_space_def Let_def)

lemma rpartition_suffix:
  assumes "CHR ''|'' \<notin> set digits"
  shows "rpartition ''|CRC32:'' (payload @ ''|CRC32:'' @ digits) = Some (payload, digits)"
proof -
  let ?s = "payload @ ''|CRC32:'' @ digits"
  have no_later: "take (length ''|CRC32:'') (drop k ?s) \<noteq> ''|CRC32:''" if "length payload < k" for k
  proof
    assume eq: "take (length ''|CRC32:'') (drop k ?s) = ''|CRC32:''"
    define j where "j = k - Suc (length payload)"
    have drop_eq: "drop k ?s = drop j (''CRC32:'' @ digits)"
      using that by (simp add: j_def drop_Cons' Suc_diff_Suc [symmetric])
    have "CHR ''|'' \<in> set ''|CRC32:''" by simp
    then have "CHR ''|'' \<in> set (take (length ''|CRC32:'') (drop j (''CRC32:'' @ digits)))"
      by (simp only: eq [unfolded drop_eq])
    then have "CHR ''|'' \<in> set (''CRC32:'' @ digits)" by (meson in_set_dropD in_set_takeD)
    with assms show False by simp
  qed
  have "List.find (\<lambda>n. take (length ''|CRC32:'') (drop n ?s) = ''|CRC32:'') (rev [0..<Suc (length ?s)]) = Some (length payload)"
    by (rule find_last_index) (simp, simp, rule no_later)
  then show ?thesis unfolding rpartition_def by (simp del: upt_Suc)
qed

lemma single_underscores_digits:
  assumes "list_all (\<lambda>c. hex_digit c \<noteq> None) s" and "s \<noteq> []"
  shows "single_underscores s"
  using assms
proof (induction s rule: single_underscores.induct)
  case (3 c d s)
  then have "d \<noteq> CHR ''_''" using hex_digit_plain [of d] by auto
  with 3 show ?case by simp
qed auto

lemma hex_int_digits:
  assumes hex: "list_all (\<lambda>c. hex_digit c \<noteq> None) s" and "s \<noteq> []"
  shows "hex_int byte_space s = Some (int (hex_value s))"
proof -
  have plain: "\<not> byte_space c" "c \<notin> set ''+-_xX|''" if "c \<in> set s" for c
    using hex that hex_digit_plain [of c] unfolding list_all_iff by blast+
  have strip: "rstrip byte_space (dropWhile byte_space s) = s"
  proof -
    have "dropWhile byte_space t = t" if "set t \<subseteq> set s" for t
      using that plain(1) by (cases t) auto
    then show ?thesis by (simp add: rstrip_def)
  qed
  have sign: "hd s \<notin> {CHR ''+'', CHR ''-''}" using plain(2) [of "hd s"] assms(2) by auto
  have prefix: "take 2 s \<notin> {''0x'', ''0X''}"
  proof
    assume "take 2 s \<in> {''0x'', ''0X''}"
    then have "CHR ''x'' \<in> set (take 2 s) \<or> CHR ''X'' \<in> set (take 2 s)" by auto
    then show False using plain(2) by (auto dest: in_set_takeD)
  qed
  have "filter (\<lambda>c. c \<noteq> CHR ''_'') s = s" using plain(2) by (auto simp: filter_id_conv)
  with strip sign prefix assms show ?thesis
    by (simp add: hex_int_def single_underscores_digits)
qed

lemma crc_suffix_parts:
  assumes "crc_suffix content = Some (payload, digits)"
  shows "content = payload @ ''|CRC32:'' @ digits" "length digits = 8"
    "list_all (\<lambda>c. hex_digit c \<noteq> None) digits"
proof -
  let ?n = "length content - 15"
  from assms have len: "length content \<ge> 15" and sep: "take 7 (drop ?n content) = ''|CRC32:''"
    and p: "payload = take ?n content" and d: "digits = drop 7 (drop ?n content)"
    and hex: "list_all (\<lambda>c. hex_digit c \<noteq> None) digits"
    by (auto simp: crc_suffix_def Let_def split: if_splits)
  have "content = take ?n content @ take 7 (drop ?n content) @ drop 7 (drop ?n content)"
    by (simp only: append_take_drop_id)
  with sep p d show "content = payload @ ''|CRC32:'' @ digits" by simp
  show "length digits = 8" using len d by simp
  show "list_all (\<lambda>c. hex_digit c \<noteq> None) digits" by (rule hex)
qed

lemma parsed_line_is_valid:
  assumes "parse_line E C line = Inr ev"
  shows "manifest_line_is_valid C line = Inr ev"
proof -
  from assms obtain payload digits where line: "line \<noteq> []" "last line = newline"
    and crc: "crc_suffix (butlast line) = Some (payload, digits)"
    and sum: "unat (crc32 payload) = hex_value digits" and load: "loads C payload = Some (JObj ev)"
    and valid: "validate_event E ev = Inr ()"
    by (auto simp: parse_line_def split: if_splits option.splits json.splits sum.splits)
  note parts = crc_suffix_parts [OF crc]
  have "CHR ''|'' \<notin> set digits" using parts(3) hex_digit_plain(2) by (fastforce simp: list_all_iff)
  then have "rpartition ''|CRC32:'' (butlast line) = Some (payload, digits)"
    unfolding parts(1) by (rule rpartition_suffix)
  moreover have "hex_int byte_space digits = Some (int (hex_value digits))"
    by (rule hex_int_digits) (use parts in auto)
  moreover have "is_str (jget ev ''event'')" using validate_event_name [OF valid] by auto
  ultimately show ?thesis
    using line parts(2) sum load by (simp add: manifest_line_is_valid_def)
qed

lemma verify_loop_read:
  assumes "read_loop E C offset p lines = Inr (evs, t)"
  shows "verify_loop C offset n lines =
    Inr (if t \<noteq> None \<and> (\<exists>d. manifest_line_is_valid C (last lines) = Inr d)
         then (n + length evs + 1, None) else (n + length evs, t))"
  using assms
proof (induction lines arbitrary: offset p n evs t)
  case (Cons line rest)
  show ?case
  proof (cases "parse_line E C line")
    case (Inl e)
    with Cons.prems show ?thesis
      by (cases "manifest_line_is_valid C line") (auto split: if_splits)
  next
    case (Inr ev)
    with Cons.prems obtain q evs' where rest: "read_loop E C (offset + length line) q rest = Inr (evs', t)"
      and "evs = ev # evs'" by (auto split: sum.splits)
    moreover have "last (line # rest) = last rest" if "t \<noteq> None" using rest that by (cases rest) auto
    ultimately show ?thesis using Cons.IH [OF rest, of "n + 1"] parsed_line_is_valid [OF Inr] by auto
  qed
qed simp

lemma read_loop_without_tail:
  assumes "read_loop E C offset p lines = Inr (evs, Some m)"
  shows "\<exists>ls l. lines = ls @ [l] \<and> m = offset + length (concat ls) \<and> read_loop E C offset p ls = Inr (evs, None)"
  using assms
proof (induction lines arbitrary: offset p evs)
  case (Cons line rest)
  show ?case
  proof (cases "parse_line E C line")
    case (Inl e)
    with Cons.prems show ?thesis by (auto split: if_splits)
  next
    case (Inr ev)
    define c where "c = (if jget ev ''event'' = JStr ''checkpoint''
      then map_sum id Some (validate_checkpoint_sequence (jget ev ''sequence'') p) else Inr p)"
    from Inr Cons.prems obtain q evs' where c: "c = Inr q"
      and rest: "read_loop E C (offset + length line) q rest = Inr (evs', Some m)" and evs: "evs = ev # evs'"
      by (auto simp: c_def [symmetric] split: sum.splits)
    from Cons.IH [OF rest] obtain ls l where "rest = ls @ [l]" "m = offset + length line + length (concat ls)"
      "read_loop E C (offset + length line) q ls = Inr (evs', None)" by blast
    with Inr c evs show ?thesis
      by (intro exI [of _ "line # ls"] exI [of _ l]) (simp add: c_def [symmetric])
  qed
qed simp

lemma concat_readlines [simp]: "concat (readlines s) = s"
  by (induction s rule: readlines.induct) (auto split: list.splits)

lemma readlines_nonempty: "[] \<notin> set (readlines s)"
  by (induction s rule: readlines.induct) (auto split: list.splits)

lemma readlines_without_last: "readlines s = ls @ [l] \<Longrightarrow> readlines (concat ls) = ls"
proof (induction s arbitrary: ls l rule: readlines.induct)
  case (2 c cs)
  show ?case
  proof (cases ls)
    case ls: (Cons k ks)
    show ?thesis
    proof (cases "c = newline")
      case True
      with 2 ls show ?thesis by auto
    next
      case False
      with 2(3) ls obtain k' where "k = c # k'" "readlines cs = (k' # ks) @ [l]"
        by (auto split: list.splits)
      with 2(2) [OF False, of "k' # ks" l] False ls show ?thesis by simp
    qed
  qed simp
qed simp

lemma read_events_again:
  assumes "read_events E C bytes = Inr (evs, kept)"
  shows "read_events E C kept = Inr (evs, kept)"
proof -
  from assms obtain t where loop: "read_loop E C 0 None (readlines bytes) = Inr (evs, t)"
    and kept: "kept = (case t of None \<Rightarrow> bytes | Some m \<Rightarrow> take m bytes)"
    by (auto simp: read_events_def split: sum.splits option.splits)
  show ?thesis
  proof (cases t)
    case None
    with assms kept show ?thesis by simp
  next
    case (Some m)
    from read_loop_without_tail [OF loop [unfolded Some]] obtain ls l where
      lines: "readlines bytes = ls @ [l]" and m: "m = length (concat ls)"
      and loop': "read_loop E C 0 None ls = Inr (evs, None)" by auto
    have "bytes = concat ls @ l" using concat_readlines [of bytes] lines by simp
    with kept Some m have "kept = concat ls" by simp
    with readlines_without_last [OF lines] loop' show ?thesis by (simp add: read_events_def)
  qed
qed

section \<open>Property\<close>

text \<open>
  C14. The check of the manifests never loses a readable event. Whenever the reader accepts a manifest
  file, the check of the file returns too and reports the bytes it removed. It removes at most what the
  reader would detach, the reader then finds the same events and leaves the same bytes, and the number of
  records it reports is the number of events, or one more when it keeps a last record whose checksum is
  right and which the reader rejects for its fields.
\<close>

theorem verify_manifest_keeps_readable_events:
  assumes "read_events E C bytes = Inr (evs, kept)"
  shows "\<exists>n removed bytes'. verify_manifest_file C bytes = Inr (n, removed, bytes') \<and>
    removed + length bytes' = length bytes \<and> prefix bytes' bytes \<and> prefix kept bytes' \<and>
    read_events E C bytes' = Inr (evs, kept) \<and>
    n = (if bytes' = kept then length evs else length evs + 1)"
proof -
  from assms obtain t where loop: "read_loop E C 0 None (readlines bytes) = Inr (evs, t)"
    and kept: "kept = (case t of None \<Rightarrow> bytes | Some m \<Rightarrow> take m bytes)"
    by (auto simp: read_events_def split: sum.splits option.splits)
  have pre: "prefix kept bytes" using kept by (auto simp: take_is_prefix split: option.splits)
  have shorter: "length kept < length bytes" if "t \<noteq> None"
  proof -
    from that obtain m where m: "t = Some m" by blast
    from read_loop_without_tail [OF loop [unfolded m]] obtain ls l where
      lines: "readlines bytes = ls @ [l]" and "m = length (concat ls)" by auto
    moreover have "bytes = concat ls @ l" using concat_readlines [of bytes] lines by simp
    moreover have "l \<noteq> []" using readlines_nonempty [of bytes] lines by auto
    ultimately show ?thesis using kept m by simp
  qed
  show ?thesis
  proof (cases "t \<noteq> None \<and> (\<exists>d. manifest_line_is_valid C (last (readlines bytes)) = Inr d)")
    case True
    with verify_loop_read [OF loop, of 0] have "verify_manifest_file C bytes = Inr (length evs + 1, 0, bytes)"
      by (simp add: verify_manifest_file_def)
    moreover have "kept \<noteq> bytes" using shorter True by auto
    ultimately show ?thesis using assms pre by auto
  next
    case False
    with verify_loop_read [OF loop, of 0] kept
    have "verify_manifest_file C bytes = Inr (length evs, length bytes - length kept, kept)"
      by (auto simp: verify_manifest_file_def split: option.splits)
    with pre show ?thesis using read_events_again [OF assms] by (auto dest: prefix_length_le)
  qed
qed

lemma sample_torn_file:
  "read_events sample_env sample_codec (event_line sample_codec sample_checkpoint @ ''{torn'') =
   Inr ([canon_event sample_checkpoint], event_line sample_codec sample_checkpoint)"
proof -
  have ok: "\<forall>ev\<in>set [sample_checkpoint]. codec_ok sample_codec ev \<and> validate_event sample_env ev = Inr ()"
    using sample_checkpoint_valid by (simp add: codec_ok_def sample_codec_def wf_event_def sample_checkpoint_def)
  have inc: "checkpoints_increase None [sample_checkpoint]"
    by (simp add: sample_checkpoint_def validate_checkpoint_sequence_def)
  have "read_loop sample_env sample_codec 0 None (map (event_line sample_codec) [sample_checkpoint] @ [''{torn'']) =
      Inr (map canon_event [sample_checkpoint], Some (0 + length (concat (map (event_line sample_codec) [sample_checkpoint]))))"
    by (rule read_loop_event_lines [OF ok inc]) (use read_loop_tail [of "''{torn''"] in simp)
  moreover have "readlines (event_line sample_codec sample_checkpoint @ ''{torn'') = [event_line sample_codec sample_checkpoint, ''{torn'']"
    using readlines_event_lines [of "[sample_checkpoint]" sample_codec "''{torn''"] ok by simp
  ultimately show ?thesis by (simp add: read_events_def)
qed

theorem verify_manifest_keeps_readable_events_witness:
  "\<exists>n removed bytes'. verify_manifest_file sample_codec (event_line sample_codec sample_checkpoint @ ''{torn'') = Inr (n, removed, bytes') \<and>
    read_events sample_env sample_codec bytes' =
      Inr ([canon_event sample_checkpoint], event_line sample_codec sample_checkpoint)"
  using verify_manifest_keeps_readable_events [OF sample_torn_file] by blast

end
