(* ===== verification/Pst_Manifest.thy ===== *)
theory Pst_Manifest
  imports Verify_Manifest
begin

text \<open>
  The manifest of a PST import (\<^verbatim>\<open>infrastructure/storage/pst_manifest.py\<close>): the event schema, the
  idempotency keys and the order in which events may follow each other, the writer, and the reader of the
  file with its torn tail. The records have the line format of \<open>Manifest_File\<close>.
\<close>

section \<open>Values\<close>

text \<open>Python's equality on JSON values: booleans are the numbers 0 and 1, and the order of the keys of
  a dictionary does not matter. A float equals a float with the same text.\<close>

primrec unbool :: "json \<Rightarrow> json" where
  "unbool JNull = JNull"
| "unbool (JBool b) = JInt (if b then 1 else 0)"
| "unbool (JInt i) = JInt i"
| "unbool (JFloat f) = JFloat f"
| "unbool (JStr s) = JStr s"
| "unbool (JList xs) = JList (map unbool xs)"
| "unbool (JObj d) = JObj (map (map_prod id unbool) d)"

definition py_value :: "json \<Rightarrow> json" where
  "py_value v = canon (unbool v)"

text \<open>\<open>str.replace\<close> of a non-empty text.\<close>

function text_replace :: "string \<Rightarrow> string \<Rightarrow> string \<Rightarrow> string" where
  "text_replace old new s =
    (if old = [] \<or> s = [] then s
     else if take (length old) s = old then new @ text_replace old new (drop (length old) s)
     else hd s # text_replace old new (tl s))"
  by pat_completeness auto
termination by (relation "measure (\<lambda>(_, _, s). length s)") auto

declare text_replace.simps [simp del]

text \<open>\<open>uuid.UUID(text)\<close> and its \<open>version\<close>, which is defined for the variant of RFC 4122 only.\<close>

definition parse_uuid :: "string \<Rightarrow> int option" where
  "parse_uuid s =
    (let hex = text_replace ''uuid:'' [] (text_replace ''urn:'' [] s);
         digits = filter (\<lambda>c. c \<noteq> CHR ''-'') (rstrip (\<lambda>c. c \<in> set ''{}'') (dropWhile (\<lambda>c. c \<in> set ''{}'') hex))
     in if length digits \<noteq> 32 then None
        else (case hex_int is_space digits of None \<Rightarrow> None | Some n \<Rightarrow> if 0 \<le> n \<and> n < 2 ^ 128 then Some n else None))"

definition uuid_version :: "int \<Rightarrow> int option" where
  "uuid_version n = (if odd (n div 2 ^ 63) \<and> even (n div 2 ^ 62) then Some (n div 2 ^ 76 mod 16) else None)"

definition validate_import_uuid :: "string \<Rightarrow> error + unit" where
  "validate_import_uuid s = (case parse_uuid s of
     None \<Rightarrow> Inl (ValueError ''import_uuid must be a UUID'')
   | Some n \<Rightarrow> check (uuid_version n = Some 4) (ValueError ''import_uuid must be a version 4 UUID''))"

section \<open>Events\<close>

definition pst_events :: "string list" where
  "pst_events =
     [''item_discovered'', ''item_saved'', ''item_parse_failed'', ''item_oversize'', ''item_reparsed'', ''import_ready'',
      ''purge_intent'', ''purged'', ''generation_switch_prepared'', ''generation_switch_committed'', ''generation_restored'',
      ''generation_superseded'', ''import_abandoned'']"

definition item_events :: "string list" where
  "item_events = [''item_discovered'', ''item_saved'', ''item_parse_failed'', ''item_oversize'', ''item_reparsed'']"

definition pst_require_text :: "event \<Rightarrow> string \<Rightarrow> string \<Rightarrow> error + unit" where
  "pst_require_text ev field context =
     check (is_text (jget ev field)) (ValueError (context @ '' '' @ field @ '' must be a non-empty string''))"

definition pst_require_uuid :: "event \<Rightarrow> string \<Rightarrow> error + unit" where
  "pst_require_uuid ev field = (case jget ev field of JStr s \<Rightarrow> validate_import_uuid s | _ \<Rightarrow> Inl (ValueError ''import_uuid must be a UUID''))"

definition pst_timestamp_check :: "env \<Rightarrow> json \<Rightarrow> error + unit" where
  "pst_timestamp_check E v = (case v of
     JStr s \<Rightarrow>
       (let normalized = (if s \<noteq> [] \<and> last s = CHR ''Z'' then butlast s @ ''+00:00'' else s)
        in case iso E normalized of
             IsoInvalid \<Rightarrow> Inl (ValueError ''PST manifest timestamp is invalid'')
           | IsoNaive \<Rightarrow> Inl (ValueError ''PST manifest timestamp must include a timezone'')
           | IsoAware _ \<Rightarrow> Inr ())
   | _ \<Rightarrow> Inl (ValueError ''PST manifest timestamp must be an ISO-8601 string''))"

definition sha256_text :: "json \<Rightarrow> bool" where
  "sha256_text v \<longleftrightarrow> (case v of JStr s \<Rightarrow> length s = 64 \<and> list_all (\<lambda>c. c \<in> set ''0123456789abcdef'') s | _ \<Rightarrow> False)"

definition validate_sha256 :: "event \<Rightarrow> string \<Rightarrow> error + unit" where
  "validate_sha256 ev field =
     check (sha256_text (jget ev field)) (ValueError (''PST manifest '' @ field @ '' must be a lowercase SHA-256 hex string''))"

definition pst_require_fields :: "event \<Rightarrow> string list \<Rightarrow> string \<Rightarrow> error + unit" where
  "pst_require_fields ev required name =
     check (\<forall>f\<in>set required. has_key ev f) (ValueError (name @ '' event is missing required fields''))"

definition require_non_negative_int :: "event \<Rightarrow> string \<Rightarrow> string \<Rightarrow> error + unit" where
  "require_non_negative_int ev field name =
    (if \<not> has_key ev field then Inl (KeyError field)
     else check (case jget ev field of JInt n \<Rightarrow> 0 \<le> n | _ \<Rightarrow> False)
       (TypeError (name @ '' '' @ field @ '' must be a non-negative integer'')))"

definition pst_schema_checks :: "string \<Rightarrow> event \<Rightarrow> (error + unit) list" where
  "pst_schema_checks name ev =
    (if name = ''item_discovered'' then
       [pst_require_fields ev [''source_item_key'', ''source_relative_path'', ''folder_relative_path'', ''source_size_bytes'', ''source_sha256''] name,
        pst_require_text ev ''source_item_key'' name, pst_require_text ev ''source_relative_path'' name,
        pst_require_text ev ''folder_relative_path'' name, require_non_negative_int ev ''source_size_bytes'' name,
        validate_sha256 ev ''source_sha256'']
     else if name \<in> {''item_saved'', ''item_reparsed''} then
       [pst_require_fields ev [''source_item_key'', ''final_relative_path'', ''file_hash'', ''size_bytes''] name,
        pst_require_text ev ''source_item_key'' name, pst_require_text ev ''final_relative_path'' name,
        validate_sha256 ev ''file_hash'', require_non_negative_int ev ''size_bytes'' name]
     else if name \<in> {''item_parse_failed'', ''item_oversize''} then
       [pst_require_fields ev [''source_item_key'', ''error_class'', ''error_message''] name,
        pst_require_text ev ''source_item_key'' name, pst_require_text ev ''error_class'' name,
        check (is_str (jget ev ''error_message'')) (TypeError (name @ '' error_message must be a string'')),
        (if name = ''item_oversize'' then require_non_negative_int ev ''source_size_bytes'' name else Inr ())]
     else if name = ''import_ready'' then
       [pst_require_fields ev [''total_files'', ''inventory_sha256'', ''static_manifest_sha256''] name,
        require_non_negative_int ev ''total_files'' name, validate_sha256 ev ''inventory_sha256'',
        validate_sha256 ev ''static_manifest_sha256'']
     else if name \<in> {''purge_intent'', ''purged''} then
       [pst_require_fields ev [''source_item_key'', ''relative_path'', ''file_hash'', ''shared_reference_count'', ''physical_delete''] name,
        pst_require_text ev ''source_item_key'' name, pst_require_text ev ''relative_path'' name, validate_sha256 ev ''file_hash'',
        require_non_negative_int ev ''shared_reference_count'' name,
        check (is_bool (jget ev ''physical_delete'')) (TypeError (name @ '' physical_delete must be a boolean''))]
     else if name \<in> {''generation_switch_prepared'', ''generation_switch_committed''} then
       [pst_require_text ev ''replaces_import_uuid'' name, pst_require_uuid ev ''replaces_import_uuid'']
     else if name = ''generation_superseded'' then
       [pst_require_text ev ''superseded_import_uuid'' name, pst_require_uuid ev ''superseded_import_uuid'']
     else if name = ''generation_restored'' then
       [pst_require_text ev ''restored_import_uuid'' name, pst_require_text ev ''superseded_import_uuid'' name,
        pst_require_uuid ev ''restored_import_uuid'', pst_require_uuid ev ''superseded_import_uuid'']
     else if name = ''import_abandoned'' then [pst_require_text ev ''reason'' name]
     else [])"

definition pst_validate_event :: "env \<Rightarrow> event \<Rightarrow> error + unit" where
  "pst_validate_event E ev = (case jget ev ''event'' of
     JStr name \<Rightarrow>
       if name \<notin> set pst_events then Inl (ValueError ''unsupported PST manifest event'')
       else all_checks ([pst_require_text ev ''import_uuid'' name, pst_require_uuid ev ''import_uuid'',
         pst_timestamp_check E (jget ev ''timestamp'')] @ pst_schema_checks name ev @
         [if has_key ev ''account_id'' then pst_require_text ev ''account_id'' name else Inr ()])
   | _ \<Rightarrow> Inl (ValueError ''unsupported PST manifest event''))"

section \<open>Order of the events\<close>

text \<open>The idempotency key of an event, up to Python's equality.\<close>

definition pst_event_key :: "event \<Rightarrow> json list" where
  "pst_event_key ev =
    (if jget ev ''event'' \<in> JStr ` set (item_events @ [''purge_intent'', ''purged''])
     then map (\<lambda>f. py_value (jget ev f)) [''event'', ''import_uuid'', ''source_item_key'', ''relative_path'', ''file_hash'']
     else map (\<lambda>f. py_value (jget ev f)) [''event'', ''import_uuid'', ''replaces_import_uuid'', ''reason''])"

definition without_timestamp :: "event \<Rightarrow> json" where
  "without_timestamp ev = py_value (JObj (filter (\<lambda>(k, _). k \<noteq> ''timestamp'') ev))"

definition same_field :: "string \<Rightarrow> event \<Rightarrow> event \<Rightarrow> bool" where
  "same_field f ev ev' \<longleftrightarrow> py_value (jget ev f) = py_value (jget ev' f)"

definition preceding :: "string list \<Rightarrow> string list \<Rightarrow> event \<Rightarrow> event list \<Rightarrow> bool" where
  "preceding names shared ev evs \<longleftrightarrow>
     list_ex (\<lambda>p. jget p ''event'' \<in> JStr ` set names \<and> list_all (\<lambda>f. same_field f p ev) shared) evs"

text \<open>What must stand before an event of each kind.\<close>

definition pst_order_check :: "event \<Rightarrow> event list \<Rightarrow> error + unit" where
  "pst_order_check ev evs = (case jget ev ''event'' of
     JStr name \<Rightarrow>
       if name \<in> {''item_saved'', ''item_parse_failed'', ''item_oversize''} then
         check (preceding [''item_discovered''] [''import_uuid'', ''source_item_key''] ev evs)
           (ValueError (name @ '' requires item_discovered first''))
       else if name = ''item_reparsed'' then
         check (preceding [''item_parse_failed'', ''item_oversize''] [''import_uuid'', ''source_item_key''] ev evs)
           (ValueError ''item_reparsed requires an earlier parse failure'')
       else if name = ''purged'' then
         check (list_ex (\<lambda>p. jget p ''event'' = JStr ''purge_intent'' \<and> tl (pst_event_key p) = tl (pst_event_key ev)) evs)
           (ValueError ''purged requires a matching purge_intent'')
       else if name = ''generation_switch_committed'' then
         check (preceding [''generation_switch_prepared''] [''import_uuid'', ''replaces_import_uuid''] ev evs)
           (ValueError ''generation_switch_committed requires generation_switch_prepared'')
       else if name = ''generation_superseded'' then
         check (preceding [''generation_switch_committed''] [''import_uuid''] ev evs)
           (ValueError ''generation_superseded requires generation_switch_committed'')
       else Inr ()
   | _ \<Rightarrow> Inr ())"

text \<open>\<open>True\<close> for a new event, \<open>False\<close> for one that is already recorded.\<close>

definition validate_transition :: "event \<Rightarrow> event list \<Rightarrow> error + bool" where
  "validate_transition ev evs = (case List.find (\<lambda>p. pst_event_key p = pst_event_key ev) evs of
     Some p \<Rightarrow>
       if without_timestamp p = without_timestamp ev then Inr False
       else Inl (ValueError ''PST manifest contains a conflicting duplicate idempotency key'')
   | None \<Rightarrow> map_sum id (\<lambda>_. True) (pst_order_check ev evs))"

section \<open>Writer\<close>

record pst_manifest =
  pm_import_uuid :: string
  pm_events :: "event list"
  pm_synced :: nat

definition pst_append :: "env \<Rightarrow> event \<Rightarrow> (pst_manifest, unit) prog" where
  "pst_append E ev = (\<lambda>m. case pst_validate_event E ev of
     Inl e \<Rightarrow> (Inl e, m)
   | Inr _ \<Rightarrow>
       if jget ev ''import_uuid'' \<noteq> JStr (pm_import_uuid m)
       then (Inl (ValueError ''PST manifest event import_uuid does not match the writer''), m)
       else (case validate_transition ev (pm_events m) of
           Inl e \<Rightarrow> (Inl e, m)
         | Inr False \<Rightarrow> (Inr (), m)
         | Inr True \<Rightarrow> (Inr (), m\<lparr>pm_events := pm_events m @ [ev]\<rparr>)))"

definition pst_flush_and_sync :: "(pst_manifest, unit) prog" where
  "pst_flush_and_sync = modify (\<lambda>m. m\<lparr>pm_synced := length (pm_events m)\<rparr>)"

definition pst_checkpoint :: "(pst_manifest, unit) prog" where
  "pst_checkpoint = raise (ValueError ''PST manifests do not support IMAP checkpoints'')"

section \<open>Lines and files\<close>

definition pst_encode_event :: "env \<Rightarrow> codec \<Rightarrow> event \<Rightarrow> error + string" where
  "pst_encode_event E C ev = (case pst_validate_event E ev of
     Inl e \<Rightarrow> Inl e
   | Inr _ \<Rightarrow>
       (let encoded = dumps C ev
        in Inr (encoded @ ''|CRC32:'' @ hex_text 8 (unat (crc32 encoded)) @ [newline])))"

text \<open>The bytes a writer has given to its file.\<close>

definition pst_file :: "env \<Rightarrow> codec \<Rightarrow> event list \<Rightarrow> string" where
  "pst_file E C evs = concat (map (\<lambda>ev. case pst_encode_event E C ev of Inl _ \<Rightarrow> [] | Inr line \<Rightarrow> line) evs)"

definition pst_parse_line :: "env \<Rightarrow> codec \<Rightarrow> string \<Rightarrow> error + event" where
  "pst_parse_line E C line =
    (if line = [] \<or> last line \<noteq> newline
     then Inl (ManifestCorruptError ''PST manifest record is missing its trailing newline'')
     else case crc_suffix (butlast line) of
       None \<Rightarrow> Inl (ManifestCorruptError ''PST manifest record has no valid CRC32 suffix'')
     | Some (payload, digits) \<Rightarrow>
         if unat (crc32 payload) \<noteq> hex_value digits
         then Inl (ManifestCorruptError ''PST manifest record CRC32 does not match its payload'')
         else (case loads C payload of
             None \<Rightarrow> Inl (ManifestCorruptError ''PST manifest record contains invalid JSON'')
           | Some (JObj ev) \<Rightarrow>
               (case pst_validate_event E ev of
                  Inr _ \<Rightarrow> Inr ev
                | Inl (KeyError k) \<Rightarrow> Inl (KeyError k)
                | Inl _ \<Rightarrow> Inl (ManifestCorruptError ''PST manifest record does not satisfy the event schema''))
           | Some _ \<Rightarrow> Inl (ManifestCorruptError ''PST manifest record must be a JSON object'')))"

definition is_corrupt :: "error \<Rightarrow> bool" where
  "is_corrupt e \<longleftrightarrow> (case e of ManifestCorruptError _ \<Rightarrow> True | _ \<Rightarrow> False)"

text \<open>The loop of \<open>read_events\<close>: the events yielded so far, those to come, and the offset of a last
  record that is malformed or out of order.\<close>

fun pst_read_loop :: "env \<Rightarrow> codec \<Rightarrow> nat \<Rightarrow> event list \<Rightarrow> string list \<Rightarrow> error + (event list \<times> nat option)" where
  "pst_read_loop E C offset evs [] = Inr (evs, None)"
| "pst_read_loop E C offset evs (line # rest) =
    (case pst_parse_line E C line of
       Inl e \<Rightarrow> if \<not> is_corrupt e \<or> rest \<noteq> [] then Inl e else Inr (evs, Some offset)
     | Inr ev \<Rightarrow>
         (case validate_transition ev evs of
            Inl _ \<Rightarrow> if rest \<noteq> [] then Inl (ManifestCorruptError ''PST manifest event sequence is invalid'')
                     else Inr (evs, Some offset)
          | Inr _ \<Rightarrow> pst_read_loop E C (offset + length line) (evs @ [ev]) rest))"

definition pst_read_events :: "env \<Rightarrow> codec \<Rightarrow> string \<Rightarrow> error + (event list \<times> string)" where
  "pst_read_events E C bytes = (case pst_read_loop E C 0 [] (readlines bytes) of
     Inl e \<Rightarrow> Inl e
   | Inr (evs, None) \<Rightarrow> Inr (evs, bytes)
   | Inr (evs, Some n) \<Rightarrow> Inr (evs, take n bytes))"

text \<open>\<open>read_all_events\<close> checks the order of the events it reads once more.\<close>

fun check_order :: "event list \<Rightarrow> event list \<Rightarrow> error + event list" where
  "check_order evs [] = Inr evs"
| "check_order evs (ev # rest) = (case validate_transition ev evs of
     Inl (ValueError text) \<Rightarrow> Inl (ManifestCorruptError text)
   | Inl e \<Rightarrow> Inl e
   | Inr _ \<Rightarrow> check_order (evs @ [ev]) rest)"

definition pst_read_all_events :: "env \<Rightarrow> codec \<Rightarrow> string \<Rightarrow> error + (event list \<times> string)" where
  "pst_read_all_events E C bytes = (case pst_read_events E C bytes of
     Inl e \<Rightarrow> Inl e
   | Inr (evs, kept) \<Rightarrow> map_sum id (\<lambda>_. (evs, kept)) (check_order [] evs))"

definition pst_repair_tail :: "env \<Rightarrow> codec \<Rightarrow> string \<Rightarrow> error + (nat \<times> string)" where
  "pst_repair_tail E C bytes = (case pst_read_events E C bytes of
     Inl e \<Rightarrow> Inl e
   | Inr (_, kept) \<Rightarrow> Inr (length bytes - length kept, kept))"

text \<open>Opening a writer: the events of the file, which loses a torn tail.\<close>

definition pst_open_writer :: "env \<Rightarrow> codec \<Rightarrow> string \<Rightarrow> string option \<Rightarrow> error + (pst_manifest \<times> string option)" where
  "pst_open_writer E C import_uuid bytes = (case validate_import_uuid import_uuid of
     Inl e \<Rightarrow> Inl e
   | Inr _ \<Rightarrow> (case bytes of
       None \<Rightarrow> Inr (\<lparr>pm_import_uuid = import_uuid, pm_events = [], pm_synced = 0\<rparr>, None)
     | Some b \<Rightarrow> (case pst_read_events E C b of
         Inl e \<Rightarrow> Inl e
       | Inr (evs, kept) \<Rightarrow>
           Inr (\<lparr>pm_import_uuid = import_uuid, pm_events = evs, pm_synced = length evs\<rparr>, Some kept))))"

end
