(* ===== verification/Pst_Manifest_Props.thy ===== *)
theory Pst_Manifest_Props
  imports Pst_Manifest
begin

text \<open>
  Properties of PST manifests: whatever is read and appended, every event of the log is justified by the
  events before it, and a log that was written reads back.
\<close>

section \<open>Key order does not matter\<close>

lemma map_insort_key_fst:
  "map (map_prod id f) (insort_key fst x xs) = insort_key fst (map_prod id f x) (map (map_prod id f) xs)"
  by (induction xs) auto

lemma map_sort_key_fst: "map (map_prod id f) (sort_key fst xs) = sort_key fst (map (map_prod id f) xs)"
  by (induction xs) (simp_all only: list.map sort_key_simps map_insort_key_fst)

lemma sort_key_sorted: "sorted (map f xs) \<Longrightarrow> sort_key f xs = xs"
  by (induction xs) (simp_all add: insort_is_Cons)

lemma py_value_canon [simp]: "py_value (canon v) = py_value v"
proof -
  have "canon (unbool (canon v)) = canon (unbool v)"
  proof (induction v)
    case (JObj d)
    have "map (map_prod id canon) (map (map_prod id unbool) (map (map_prod id canon) d)) =
        map (map_prod id canon) (map (map_prod id unbool) d)"
      using JObj by (auto simp: map_prod_def)
    then show ?case
      by (simp only: canon.simps unbool.simps map_sort_key_fst sort_key_sorted [OF sorted_sort_key])
  qed auto
  then show ?thesis by (simp add: py_value_def)
qed

lemma case_canon [simp]:
  "(case canon v of JStr s \<Rightarrow> f s | _ \<Rightarrow> c) = (case v of JStr s \<Rightarrow> f s | _ \<Rightarrow> c)"
  "(case canon v of JInt n \<Rightarrow> g n | _ \<Rightarrow> c) = (case v of JInt n \<Rightarrow> g n | _ \<Rightarrow> c)"
  by (cases v; simp)+

lemma pst_validate_event_canon:
  assumes "wf_event ev"
  shows "pst_validate_event E (canon_event ev) = pst_validate_event E ev"
proof -
  have "pst_schema_checks name (canon_event ev) = pst_schema_checks name ev" for name
    using assms by (simp add: pst_schema_checks_def pst_require_fields_def pst_require_text_def pst_require_uuid_def
        validate_sha256_def sha256_text_def require_non_negative_int_def jget_canon_event)
  with assms show ?thesis
    by (cases "jget ev ''event''")
      (simp_all add: pst_validate_event_def pst_require_text_def pst_require_uuid_def pst_timestamp_check_def jget_canon_event)
qed

lemma pst_event_key_canon: "wf_event ev \<Longrightarrow> pst_event_key (canon_event ev) = pst_event_key ev"
  by (simp add: pst_event_key_def jget_canon_event image_iff)

lemma without_timestamp_canon: "without_timestamp (canon_event ev) = without_timestamp ev"
proof -
  have "filter (\<lambda>(k, _). k \<noteq> ''timestamp'') (map (map_prod id canon) ev) =
      map (map_prod id canon) (filter (\<lambda>(k, _). k \<noteq> ''timestamp'') ev)"
    by (induction ev) auto
  then have "filter (\<lambda>(k, _). k \<noteq> ''timestamp'') (canon_event ev) = canon_event (filter (\<lambda>(k, _). k \<noteq> ''timestamp'') ev)"
    unfolding canon_event_def by (simp only: filter_sort)
  then show ?thesis unfolding without_timestamp_def by (simp only: canon_event_JObj [symmetric] py_value_canon)
qed

lemma same_field_canon:
  "wf_event p \<Longrightarrow> wf_event ev \<Longrightarrow> same_field f (canon_event p) (canon_event ev) = same_field f p ev"
  by (simp add: same_field_def jget_canon_event)

lemma list_ex_canon:
  "(\<And>p. p \<in> set evs \<Longrightarrow> P (canon_event p) = Q p) \<Longrightarrow> list_ex P (map canon_event evs) = list_ex Q evs"
  by (auto simp: list_ex_iff)

lemma preceding_canon:
  assumes "\<forall>p\<in>set (ev # evs). wf_event p"
  shows "preceding names shared (canon_event ev) (map canon_event evs) = preceding names shared ev evs"
  unfolding preceding_def
  by (rule list_ex_canon) (use assms in \<open>auto simp: same_field_canon jget_canon_event image_iff list_all_iff\<close>)

lemma pst_order_check_canon:
  assumes "\<forall>p\<in>set (ev # evs). wf_event p"
  shows "pst_order_check (canon_event ev) (map canon_event evs) = pst_order_check ev evs"
proof -
  from assms have wf: "wf_event ev" by simp
  have purge: "list_ex (\<lambda>p. jget p ''event'' = JStr ''purge_intent'' \<and> tl (pst_event_key p) = tl (pst_event_key (canon_event ev)))
      (map canon_event evs) =
    list_ex (\<lambda>p. jget p ''event'' = JStr ''purge_intent'' \<and> tl (pst_event_key p) = tl (pst_event_key ev)) evs"
    by (rule list_ex_canon) (use assms in \<open>auto simp: pst_event_key_canon jget_canon_event\<close>)
  show ?thesis
    by (simp only: pst_order_check_def preceding_canon [OF assms] purge jget_canon_event [OF wf] case_canon)
qed

lemma find_map: "List.find P (map f xs) = map_option f (List.find (\<lambda>x. P (f x)) xs)"
  by (induction xs) auto

lemma find_cong_set: "(\<And>x. x \<in> set xs \<Longrightarrow> P x = Q x) \<Longrightarrow> List.find P xs = List.find Q xs"
  by (induction xs) auto

lemma validate_transition_canon:
  assumes "\<forall>p\<in>set (ev # evs). wf_event p"
  shows "validate_transition (canon_event ev) (map canon_event evs) = validate_transition ev evs"
proof -
  have "List.find (\<lambda>p. pst_event_key (canon_event p) = pst_event_key (canon_event ev)) evs =
      List.find (\<lambda>p. pst_event_key p = pst_event_key ev) evs"
    by (rule find_cong_set) (use assms in \<open>simp add: pst_event_key_canon\<close>)
  with pst_order_check_canon [OF assms] show ?thesis
    by (simp add: validate_transition_def find_map without_timestamp_canon split: option.split)
qed

section \<open>Justified logs\<close>

text \<open>For each kind of event that depends on another: the kinds that may stand before it, and the fields
  in which the two agree.\<close>

definition required_before :: "string \<Rightarrow> (string list \<times> string list) option" where
  "required_before name = map_of
    [(''item_saved'', ([''item_discovered''], [''import_uuid'', ''source_item_key''])),
     (''item_parse_failed'', ([''item_discovered''], [''import_uuid'', ''source_item_key''])),
     (''item_oversize'', ([''item_discovered''], [''import_uuid'', ''source_item_key''])),
     (''item_reparsed'', ([''item_parse_failed'', ''item_oversize''], [''import_uuid'', ''source_item_key''])),
     (''purged'', ([''purge_intent''], [''import_uuid'', ''source_item_key'', ''relative_path'', ''file_hash''])),
     (''generation_switch_committed'', ([''generation_switch_prepared''], [''import_uuid'', ''replaces_import_uuid''])),
     (''generation_superseded'', ([''generation_switch_committed''], [''import_uuid'']))] name"

definition has_cause :: "event list \<Rightarrow> event \<Rightarrow> bool" where
  "has_cause evs ev \<longleftrightarrow> (\<forall>name names shared. jget ev ''event'' = JStr name \<longrightarrow> required_before name = Some (names, shared) \<longrightarrow>
     (\<exists>p\<in>set evs. jget p ''event'' \<in> JStr ` set names \<and> (\<forall>f\<in>set shared. same_field f p ev)))"

definition justified :: "event list \<Rightarrow> bool" where
  "justified evs \<longleftrightarrow> (\<forall>i<length evs. has_cause (take i evs) (evs ! i))"

definition unambiguous :: "event list \<Rightarrow> bool" where
  "unambiguous evs \<longleftrightarrow> (\<forall>p\<in>set evs. \<forall>q\<in>set evs. pst_event_key p = pst_event_key q \<longrightarrow> without_timestamp p = without_timestamp q)"

lemma justified_snoc: "justified (evs @ [ev]) \<longleftrightarrow> justified evs \<and> has_cause evs ev"
  by (auto simp: justified_def nth_append less_Suc_eq)

lemma has_cause_mono: "has_cause evs ev \<Longrightarrow> set evs \<subseteq> set evs' \<Longrightarrow> has_cause evs' ev"
  unfolding has_cause_def by blast

lemma py_value_JStr [simp]: "py_value v = JStr s \<longleftrightarrow> v = JStr s" "py_value (JStr s) = JStr s"
  by (cases v; simp add: py_value_def)+

lemma same_key_fields:
  assumes "pst_event_key p = pst_event_key ev" and "jget ev ''event'' = JStr name"
    and "required_before name = Some (names, shared)"
  shows "jget p ''event'' = JStr name" "f \<in> set shared \<Longrightarrow> same_field f p ev"
proof -
  have "hd (pst_event_key p) = hd (pst_event_key ev)" using assms(1) by simp
  then show p: "jget p ''event'' = JStr name"
    using assms(2) by (simp add: pst_event_key_def split: if_splits)
  show "same_field f p ev" if "f \<in> set shared"
    using assms p that
    by (auto simp: pst_event_key_def same_field_def required_before_def item_events_def image_iff split: if_splits)
qed

lemma order_check_cause:
  assumes "pst_order_check ev evs = Inr u"
  shows "has_cause evs ev"
  unfolding has_cause_def
proof (intro allI impI)
  fix name names shared
  assume name: "jget ev ''event'' = JStr name" and req: "required_before name = Some (names, shared)"
  show "\<exists>p\<in>set evs. jget p ''event'' \<in> JStr ` set names \<and> (\<forall>f\<in>set shared. same_field f p ev)"
  proof (cases "name = ''purged''")
    case True
    with assms name obtain p where "p \<in> set evs" "jget p ''event'' = JStr ''purge_intent''"
      "tl (pst_event_key p) = tl (pst_event_key ev)"
      by (auto simp: pst_order_check_def list_ex_iff)
    with True name req show ?thesis
      by (auto simp: required_before_def pst_event_key_def item_events_def image_iff same_field_def)
  next
    case False
    with assms name req show ?thesis
      by (auto simp: pst_order_check_def required_before_def preceding_def list_ex_iff list_all_iff split: if_splits)
  qed
qed

lemma transition_keeps_log:
  assumes "justified evs" and "unambiguous evs" and "validate_transition ev evs = Inr b"
  shows "justified (evs @ [ev])" "unambiguous (evs @ [ev])"
proof -
  have main: "has_cause evs ev \<and> (\<forall>p\<in>set evs. pst_event_key p = pst_event_key ev \<longrightarrow> without_timestamp p = without_timestamp ev)"
  proof (cases "List.find (\<lambda>p. pst_event_key p = pst_event_key ev) evs")
    case None
    with assms(3) have "has_cause evs ev"
      by (cases "pst_order_check ev evs") (auto simp: validate_transition_def intro: order_check_cause)
    with None show ?thesis by (simp add: find_None_iff)
  next
    case (Some p)
    then have p: "p \<in> set evs" "pst_event_key p = pst_event_key ev" by (auto dest: find_Some_in_set)
    from Some assms(3) have content: "without_timestamp p = without_timestamp ev"
      by (simp add: validate_transition_def split: if_splits)
    from p(1) obtain i where i: "i < length evs" "evs ! i = p" by (auto simp: in_set_conv_nth)
    with assms(1) have cause: "has_cause (take i evs) p" by (auto simp: justified_def)
    have "has_cause evs ev" unfolding has_cause_def
    proof (intro allI impI)
      fix name names shared
      assume name: "jget ev ''event'' = JStr name" and req: "required_before name = Some (names, shared)"
      from same_key_fields(1) [OF p(2) name req] cause req obtain q where
        q: "q \<in> set (take i evs)" "jget q ''event'' \<in> JStr ` set names" "\<forall>f\<in>set shared. same_field f q p"
        unfolding has_cause_def by blast
      then have "\<forall>f\<in>set shared. same_field f q ev"
        using same_key_fields(2) [OF p(2) name req] by (simp add: same_field_def)
      with q show "\<exists>p\<in>set evs. jget p ''event'' \<in> JStr ` set names \<and> (\<forall>f\<in>set shared. same_field f p ev)"
        by (meson in_set_takeD)
    qed
    moreover have "without_timestamp q = without_timestamp ev" if "q \<in> set evs" "pst_event_key q = pst_event_key ev" for q
      using that p content assms(2) by (metis unambiguous_def)
    ultimately show ?thesis by blast
  qed
  show "justified (evs @ [ev])" using assms(1) main by (simp only: justified_snoc)
  show "unambiguous (evs @ [ev])"
    unfolding unambiguous_def
  proof (intro ballI impI)
    fix p q
    assume "p \<in> set (evs @ [ev])" "q \<in> set (evs @ [ev])" "pst_event_key p = pst_event_key q"
    then consider "p \<in> set evs" "q \<in> set evs" | "p = ev" "q = ev" | "p \<in> set evs" "q = ev" | "p = ev" "q \<in> set evs"
      by force
    then show "without_timestamp p = without_timestamp q"
      by cases (use \<open>pst_event_key p = pst_event_key q\<close> main assms(2) in \<open>metis unambiguous_def\<close>)+
  qed
qed

lemma read_loop_log:
  assumes "pst_read_loop E C offset evs lines = Inr (evs', t)" and "justified evs" and "unambiguous evs"
  shows "justified evs' \<and> unambiguous evs'"
  using assms
proof (induction lines arbitrary: offset evs)
  case (Cons line rest)
  then show ?case
    by (auto split: sum.splits if_splits intro: transition_keeps_log)
qed simp

lemma append_keeps_log:
  assumes "justified (pm_events m)" and "unambiguous (pm_events m)"
  shows "justified (pm_events (snd (pst_append E ev m))) \<and> unambiguous (pm_events (snd (pst_append E ev m)))"
  using assms transition_keeps_log [OF assms]
  by (auto simp: pst_append_def split: sum.split bool.split)

text \<open>A run of the writer: events that are refused leave no trace.\<close>

definition pst_append_all :: "env \<Rightarrow> event list \<Rightarrow> pst_manifest \<Rightarrow> pst_manifest" where
  "pst_append_all E evs m = foldl (\<lambda>m ev. snd (pst_append E ev m)) m evs"

lemma append_extends: "prefix (pm_events m) (pm_events (snd (pst_append E ev m)))"
  by (auto simp: pst_append_def split: sum.split bool.split)

text \<open>
  C15. A PST manifest explains itself. Whatever file a writer is opened on, if it opens at all, and whatever
  events are then offered to it, the log keeps the events it had and every event in it is justified by an
  earlier one: an item is saved, failed or oversize after its discovery, parsed again after a failure,
  purged after an intent for the same item, path and digest, a switch of generations is committed after its
  preparation and a generation superseded after a switch was committed. No two events with the same key
  differ in more than their time.
\<close>

theorem pst_log_is_justified:
  assumes "pst_open_writer E C import_uuid bytes = Inr (m, kept)"
  shows "justified (pm_events (pst_append_all E evs m)) \<and> unambiguous (pm_events (pst_append_all E evs m)) \<and>
    prefix (pm_events m) (pm_events (pst_append_all E evs m))"
proof -
  have empty: "justified []" "unambiguous []" by (simp_all add: justified_def unambiguous_def)
  have "justified (pm_events m) \<and> unambiguous (pm_events m)"
    using assms empty read_loop_log [OF _ empty, of E C 0]
    by (auto simp: pst_open_writer_def pst_read_events_def split: sum.splits option.splits)
  then show ?thesis
  proof (induction evs arbitrary: m)
    case (Cons ev evs)
    from Cons.IH [OF append_keeps_log] Cons.prems append_extends [of m E ev] show ?case
      by (auto simp: pst_append_all_def intro: prefix_order.trans)
  qed (simp add: pst_append_all_def)
qed

section \<open>Replay\<close>

text \<open>
  What an import that is resumed after a crash relies on: an event that was accepted once is accepted again, at
  any later time, and changes nothing.
\<close>

locale idempotent_log =
  fixes app :: "'e \<Rightarrow> ('s, unit) prog"
    and later :: "'s \<Rightarrow> 's \<Rightarrow> bool"
  assumes app_later: "app e s = (Inr (), t) \<Longrightarrow> later s t"
    and later_refl: "later s s"
    and later_trans: "later s t \<Longrightarrow> later t u \<Longrightarrow> later s u"
    and app_again: "app e s = (Inr (), t) \<Longrightarrow> later t u \<Longrightarrow> app e u = (Inr (), u)"
begin

lemma run_later: "forp app es s = (Inr (), t) \<Longrightarrow> later s t"
proof (induction es arbitrary: s)
  case Nil
  then show ?case by (simp add: forp_def later_refl)
next
  case (Cons e es)
  then obtain s1 where "app e s = (Inr (), s1)" "forp app es s1 = (Inr (), t)"
    by (cases "app e s"; cases "fst (app e s)") (auto simp: forp_def)
  with Cons.IH show ?case by (blast intro: later_trans app_later)
qed

lemma replay: "forp app es s = (Inr (), t) \<Longrightarrow> later t u \<Longrightarrow> forp app es u = (Inr (), u)"
proof (induction es arbitrary: s)
  case Nil
  then show ?case by (simp add: forp_def)
next
  case (Cons e es)
  then obtain s1 where e: "app e s = (Inr (), s1)" and es: "forp app es s1 = (Inr (), t)"
    by (cases "app e s"; cases "fst (app e s)") (auto simp: forp_def)
  from run_later [OF es] Cons.prems(2) have "later s1 u" by (rule later_trans)
  with app_again [OF e] have "app e u = (Inr (), u)" by blast
  with Cons.IH [OF es Cons.prems(2)] show ?case by (simp add: forp_def)
qed

end

definition pst_later :: "pst_manifest \<Rightarrow> pst_manifest \<Rightarrow> bool" where
  "pst_later m m' \<longleftrightarrow> pm_import_uuid m' = pm_import_uuid m \<and> prefix (pm_events m) (pm_events m')"

lemma find_prefix: "List.find P xs = Some x \<Longrightarrow> prefix xs ys \<Longrightarrow> List.find P ys = Some x"
proof -
  have "List.find P (xs @ zs) = Some x" if "List.find P xs = Some x" for zs
    using that by (induction xs) (auto split: if_splits)
  then show "List.find P xs = Some x \<Longrightarrow> prefix xs ys \<Longrightarrow> List.find P ys = Some x" by (auto simp: prefix_def)
qed

lemma find_snoc: "List.find P xs = None \<Longrightarrow> P x \<Longrightarrow> List.find P (xs @ [x]) = Some x"
  by (induction xs) (auto split: if_splits)

lemma pst_append_accepted:
  assumes "pst_append E ev m = (Inr (), m')"
  shows "pst_validate_event E ev = Inr ()" "jget ev ''import_uuid'' = JStr (pm_import_uuid m)" "pst_later m m'"
    "\<exists>p. List.find (\<lambda>p. pst_event_key p = pst_event_key ev) (pm_events m') = Some p \<and> without_timestamp p = without_timestamp ev"
proof -
  from assms show valid: "pst_validate_event E ev = Inr ()" and uuid: "jget ev ''import_uuid'' = JStr (pm_import_uuid m)"
    by (auto simp: pst_append_def split: sum.splits if_splits)
  from assms valid uuid consider
      "validate_transition ev (pm_events m) = Inr False" "m' = m"
    | "validate_transition ev (pm_events m) = Inr True" "m' = m\<lparr>pm_events := pm_events m @ [ev]\<rparr>"
    by (auto simp: pst_append_def split: sum.splits bool.splits)
  then have "pst_later m m' \<and>
    (\<exists>p. List.find (\<lambda>p. pst_event_key p = pst_event_key ev) (pm_events m') = Some p \<and> without_timestamp p = without_timestamp ev)"
  proof cases
    case 1
    then show ?thesis
      by (cases "pst_order_check ev (pm_events m)") (auto simp: pst_later_def validate_transition_def split: option.splits if_splits)
  next
    case 2
    from 2(1) have "List.find (\<lambda>p. pst_event_key p = pst_event_key ev) (pm_events m) = None"
      by (auto simp: validate_transition_def split: option.splits if_splits)
    with 2(2) show ?thesis by (simp add: pst_later_def find_snoc)
  qed
  then show "pst_later m m'"
    "\<exists>p. List.find (\<lambda>p. pst_event_key p = pst_event_key ev) (pm_events m') = Some p \<and> without_timestamp p = without_timestamp ev"
    by simp_all
qed

interpretation pst: idempotent_log "pst_append E" pst_later for E
proof unfold_locales
  fix ev m m'
  assume "pst_append E ev m = (Inr (), m')"
  then show "pst_later m m'" by (rule pst_append_accepted(3))
next
  fix ev m m' u
  assume app: "pst_append E ev m = (Inr (), m')" and later: "pst_later m' u"
  note accepted = pst_append_accepted [OF app]
  from accepted(4) obtain p where p: "List.find (\<lambda>p. pst_event_key p = pst_event_key ev) (pm_events m') = Some p"
    "without_timestamp p = without_timestamp ev" by blast
  have "List.find (\<lambda>p. pst_event_key p = pst_event_key ev) (pm_events u) = Some p"
    using find_prefix [OF p(1)] later by (simp add: pst_later_def)
  then have "validate_transition ev (pm_events u) = Inr False" by (simp add: validate_transition_def p(2))
  with accepted(1,2,3) later show "pst_append E ev u = (Inr (), u)" by (simp add: pst_append_def pst_later_def)
qed (auto simp: pst_later_def intro: prefix_order.trans)


section \<open>Reading back\<close>

definition pst_legal :: "env \<Rightarrow> event list \<Rightarrow> bool" where
  "pst_legal E evs \<longleftrightarrow> (\<forall>i<length evs. pst_validate_event E (evs ! i) = Inr () \<and> validate_transition (evs ! i) (take i evs) = Inr True)"

lemma pst_legal_snoc:
  "pst_legal E (evs @ [ev]) \<longleftrightarrow> pst_legal E evs \<and> pst_validate_event E ev = Inr () \<and> validate_transition ev evs = Inr True"
  by (auto simp: pst_legal_def nth_append less_Suc_eq)

lemma pst_legal_appended: "pst_legal E (pm_events m) \<Longrightarrow> pst_legal E (pm_events (pst_append_all E evs m))"
proof (induction evs arbitrary: m)
  case (Cons ev evs)
  have "pst_legal E (pm_events (snd (pst_append E ev m)))"
    using Cons.prems by (auto simp: pst_append_def pst_legal_snoc split: sum.split bool.split)
  with Cons.IH show ?case by (simp add: pst_append_all_def)
qed (simp add: pst_append_all_def)

lemma pst_parse_event_line:
  assumes "codec_ok C ev" and "pst_validate_event E ev = Inr ()"
  shows "pst_parse_line E C (event_line C ev) = Inr (canon_event ev)"
proof -
  from assms have wf: "wf_event ev" and "loads C (dumps C ev) = Some (JObj (canon_event ev))"
    by (simp_all add: codec_ok_def)
  moreover have "hex_value (hex_text 8 (unat (crc32 (dumps C ev)))) = unat (crc32 (dumps C ev))"
    using unat_crc_bound [of "dumps C ev"] by (simp add: hex_value_text)
  moreover have "crc_suffix (event_body C ev) = Some (dumps C ev, hex_text 8 (unat (crc32 (dumps C ev))))"
    unfolding event_body_def by (rule crc_suffix_encoded)
  ultimately show ?thesis
    using pst_validate_event_canon [OF wf, of E] assms(2) by (simp add: pst_parse_line_def event_line_def)
qed

lemma pst_file_lines:
  assumes "pst_legal E evs"
  shows "pst_file E C evs = concat (map (event_line C) evs)"
proof -
  have "pst_encode_event E C ev = Inr (event_line C ev)" if "ev \<in> set evs" for ev
    using assms that by (auto simp: pst_legal_def in_set_conv_nth pst_encode_event_def event_line_def event_body_def Let_def)
  then show ?thesis by (simp add: pst_file_def cong: map_cong)
qed

lemma pst_read_lines:
  assumes "\<forall>ev\<in>set (seen @ evs). codec_ok C ev" and "pst_legal E (seen @ evs)"
    and rest: "\<And>off. pst_read_loop E C off (map canon_event (seen @ evs)) rest = Inr (map canon_event (seen @ evs), at off)"
  shows "pst_read_loop E C offset (map canon_event seen) (map (event_line C) evs @ rest) =
    Inr (map canon_event (seen @ evs), at (offset + length (concat (map (event_line C) evs))))"
  using assms
proof (induction evs arbitrary: offset seen)
  case (Cons ev evs)
  from Cons.prems(2) have legal: "pst_validate_event E ev = Inr () \<and> validate_transition ev seen = Inr True"
    unfolding pst_legal_def by (elim allE [of _ "length seen"]) simp
  have wf: "\<forall>p\<in>set (ev # seen). wf_event p" using Cons.prems(1) by (auto simp: codec_ok_def)
  have "pst_parse_line E C (event_line C ev) = Inr (canon_event ev)"
    by (rule pst_parse_event_line) (use Cons.prems(1) legal in auto)
  moreover have "validate_transition (canon_event ev) (map canon_event seen) = Inr True"
    using validate_transition_canon [OF wf] legal by simp
  moreover have "pst_read_loop E C off (map canon_event (seen @ [ev])) (map (event_line C) evs @ rest) =
      Inr (map canon_event ((seen @ [ev]) @ evs), at (off + length (concat (map (event_line C) evs))))" for off
    by (rule Cons.IH) (use Cons.prems in simp_all)
  ultimately show ?case by (simp add: add.assoc)
qed simp

lemma pst_parse_no_newline: "newline \<notin> set l \<Longrightarrow> \<exists>text. pst_parse_line E C l = Inl (ManifestCorruptError text)"
  by (auto simp: pst_parse_line_def dest: last_in_set)

text \<open>
  C17. A PST manifest that was written reads back. For every log a new writer has accepted, whose bytes were
  followed by any part of an unfinished record, the reader returns exactly the events, up to the key order of
  their dictionaries, and leaves exactly their bytes; a second reading of the order of the events accepts
  them too.
\<close>

theorem pst_log_reads_back:
  assumes "pst_open_writer E C import_uuid None = Inr (m, kept)"
    and "evs = pm_events (pst_append_all E offered m)"
    and "\<forall>ev\<in>set evs. codec_ok C ev" and "newline \<notin> set tail"
  shows "pst_read_all_events E C (pst_file E C evs @ tail) = Inr (map canon_event evs, pst_file E C evs)"
proof -
  have "pm_events m = []" using assms(1) by (auto simp: pst_open_writer_def split: sum.splits)
  then have legal: "pst_legal E evs"
    unfolding assms(2) by (intro pst_legal_appended) (simp add: pst_legal_def)
  have lines: "readlines (pst_file E C evs @ tail) = map (event_line C) evs @ (if tail = [] then [] else [tail])"
    using readlines_event_lines [of evs C tail] assms(3,4) by (simp add: pst_file_lines [OF legal] readlines_no_newline)
  have rest: "pst_read_loop E C off (map canon_event ([] @ evs)) (if tail = [] then [] else [tail]) =
      Inr (map canon_event ([] @ evs), if tail = [] then None else Some off)" for off
    using pst_parse_no_newline [OF assms(4), of E C] by (auto simp: is_corrupt_def)
  have "pst_read_loop E C 0 (map canon_event []) (map (event_line C) evs @ (if tail = [] then [] else [tail])) =
      Inr (map canon_event ([] @ evs), if tail = [] then None else Some (0 + length (concat (map (event_line C) evs))))"
    by (rule pst_read_lines [where at = "\<lambda>off. if tail = [] then None else Some off", OF _ _ rest])
      (use assms(3) legal in simp_all)
  then have read: "pst_read_events E C (pst_file E C evs @ tail) = Inr (map canon_event evs, pst_file E C evs)"
    unfolding pst_read_events_def lines by (cases "tail = []") (simp_all add: pst_file_lines [OF legal])
  have "check_order (map canon_event seen) (map canon_event rest) = Inr (map canon_event (seen @ rest))"
    if "evs = seen @ rest" for seen rest
    using that
  proof (induction rest arbitrary: seen)
    case (Cons ev rest)
    then have "validate_transition ev seen = Inr True" using legal
      unfolding pst_legal_def by (elim allE [of _ "length seen"]) simp
    moreover have "\<forall>p\<in>set (ev # seen). wf_event p" using assms(3) Cons.prems by (auto simp: codec_ok_def)
    ultimately show ?case using Cons.IH [of "seen @ [ev]"] Cons.prems validate_transition_canon [of ev seen] by simp
  qed simp
  from this [of "[]" evs] read show ?thesis by (simp add: pst_read_all_events_def)
qed

section \<open>Repeated restorations\<close>

text \<open>
  A generation is restored once in its manifest. The key of a restoration is only the import it belongs to,
  so a second restoration of the same generation is never recorded: it is dropped without an error
  when it supersedes the same generation as the first one, and refused otherwise. The
  events of the import then show the earlier restoration only.
\<close>

lemma second_restoration_is_lost:
  assumes "p \<in> set (pm_events m)" and "jget p ''event'' = JStr ''generation_restored''"
    and "jget p ''import_uuid'' = JStr (pm_import_uuid m)" and "jget ev ''event'' = JStr ''generation_restored''"
    and "\<forall>e\<in>{p, ev}. jget e ''replaces_import_uuid'' = JNull \<and> jget e ''reason'' = JNull"
  shows "snd (pst_append E ev m) = m"
proof (cases "jget ev ''import_uuid'' = JStr (pm_import_uuid m)")
  case True
  with assms have "pst_event_key p = pst_event_key ev" by (simp add: pst_event_key_def item_events_def image_iff)
  with assms(1) have "List.find (\<lambda>p. pst_event_key p = pst_event_key ev) (pm_events m) \<noteq> None"
    by (auto simp: find_None_iff)
  then have "validate_transition ev (pm_events m) \<noteq> Inr True" by (auto simp: validate_transition_def split: if_splits)
  then show ?thesis by (auto simp: pst_append_def split: sum.split bool.split)
qed (simp add: pst_append_def split: sum.split)

section \<open>Witnesses\<close>

definition sample_uuid :: string where
  "sample_uuid = ''00000000-0000-4000-8000-000000000000''"

lemma sample_uuid_valid: "validate_import_uuid sample_uuid = Inr ()"
  by (simp add: validate_import_uuid_def parse_uuid_def sample_uuid_def text_replace.simps rstrip_def hex_int_def is_space_def
      hex_value_def hex_digit_def uuid_version_def)

definition sample_discovered :: event where
  "sample_discovered =
     [(''event'', JStr ''item_discovered''), (''import_uuid'', JStr sample_uuid), (''timestamp'', JStr ''2026-01-02T03:04:05+00:00''),
      (''source_item_key'', JStr ''k''), (''source_relative_path'', JStr ''a/1.eml''), (''folder_relative_path'', JStr ''a''),
      (''source_size_bytes'', JInt 3), (''source_sha256'', JStr (replicate 64 CHR ''a''))]"

definition sample_saved :: event where
  "sample_saved =
     [(''event'', JStr ''item_saved''), (''import_uuid'', JStr sample_uuid), (''timestamp'', JStr ''2026-01-02T03:04:05+00:00''),
      (''source_item_key'', JStr ''k''), (''final_relative_path'', JStr ''eml/a.eml''), (''file_hash'', JStr (replicate 64 CHR ''a'')),
      (''size_bytes'', JInt 3)]"

definition sample_pst :: pst_manifest where
  "sample_pst = \<lparr>pm_import_uuid = sample_uuid, pm_events = [], pm_synced = 0\<rparr>"

lemma sample_pst_opens: "pst_open_writer sample_env C sample_uuid None = Inr (sample_pst, None)"
  by (simp add: pst_open_writer_def sample_uuid_valid sample_pst_def)

lemmas pst_event_defs = pst_validate_event_def pst_schema_checks_def pst_require_text_def pst_require_uuid_def pst_timestamp_check_def
  pst_require_fields_def require_non_negative_int_def validate_sha256_def sha256_text_def pst_events_def check_def all_checks_Cons

lemma sample_pst_valid:
  "pst_validate_event sample_env sample_discovered = Inr ()" "pst_validate_event sample_env sample_saved = Inr ()"
  using sample_uuid_valid
  by (simp_all add: pst_event_defs sample_discovered_def sample_saved_def sample_env_def sample_uuid_def list_all_iff)

lemma sample_pst_run:
  "pm_events (pst_append_all sample_env [sample_saved, sample_discovered, sample_saved] sample_pst) = [sample_discovered, sample_saved]"
  using sample_pst_valid
  by (simp add: pst_append_all_def pst_append_def sample_pst_def validate_transition_def pst_order_check_def preceding_def
      pst_event_key_def item_events_def same_field_def check_def py_value_def sample_discovered_def sample_saved_def)

theorem pst_log_is_justified_witness:
  "justified [sample_discovered, sample_saved] \<and> unambiguous [sample_discovered, sample_saved]"
  using pst_log_is_justified [OF sample_pst_opens, of "[sample_saved, sample_discovered, sample_saved]"]
  unfolding sample_pst_run by blast


definition sample_pst_codec :: codec where
  "sample_pst_codec = \<lparr>dumps = (\<lambda>_. ''{}''), loads = (\<lambda>_. Some (JObj (canon_event sample_discovered)))\<rparr>"

theorem pst_log_reads_back_witness:
  "pst_read_all_events sample_env sample_pst_codec (pst_file sample_env sample_pst_codec [sample_discovered] @ ''{torn'') =
   Inr ([canon_event sample_discovered], pst_file sample_env sample_pst_codec [sample_discovered])"
proof -
  have run: "[sample_discovered] = pm_events (pst_append_all sample_env [sample_discovered] sample_pst)"
    using sample_pst_valid
    by (simp add: pst_append_all_def pst_append_def sample_pst_def validate_transition_def pst_order_check_def sample_discovered_def)
  have "\<forall>ev\<in>set [sample_discovered]. codec_ok sample_pst_codec ev"
    by (simp add: codec_ok_def sample_pst_codec_def wf_event_def sample_discovered_def)
  from pst_log_reads_back [OF sample_pst_opens run this, of "''{torn''"] show ?thesis by simp
qed

end
