(* ===== verification/Reindex_Props.thy ===== *)
theory Reindex_Props
  imports Reindex Sync_Samples
begin

text \<open>
  What a rebuild of the database guarantees: the resolution of identity links always ends and follows
  them to their end, every stored message of the manifest whose file is intact comes back, and every
  rebuilt row is backed by a verified file or marked as purged.
\<close>

section \<open>Resolution of identity links\<close>

definition linked :: "string \<Rightarrow> links \<Rightarrow> string \<Rightarrow> string \<Rightarrow> bool" where
  "linked account ls k c \<longleftrightarrow> (\<exists>x. map_of ls (account, k) = Some (c, x))"

lemma linked_unique: "linked account ls k c \<Longrightarrow> linked account ls k c' \<Longrightarrow> c = c'"
  by (auto simp: linked_def)

lemma not_linked_iff: "map_of ls (account, k) = None \<longleftrightarrow> (\<forall>c. \<not> linked account ls k c)"
  by (cases "map_of ls (account, k)") (auto simp: linked_def)

lemma cycle_returns:
  assumes "(linked account ls)\<^sup>+\<^sup>+ k k" and "(linked account ls)\<^sup>*\<^sup>* k r"
  shows "(linked account ls)\<^sup>+\<^sup>+ r k"
  using assms(2)
proof (induction rule: rtranclp_induct)
  case (step r r')
  from step.IH obtain y where "linked account ls r y" "(linked account ls)\<^sup>*\<^sup>* y k" by (blast dest: tranclpD)
  with step.hyps(2) have "(linked account ls)\<^sup>*\<^sup>* r' k" using linked_unique by metis
  then show ?case using assms(1) by (rule rtranclp_tranclp_tranclp)
qed (rule assms(1))

lemma follow_link:
  assumes "linked account ls k c"
  shows "(linked account ls)\<^sup>*\<^sup>* k r \<and> (\<forall>x. \<not> linked account ls r x) \<longleftrightarrow>
    (linked account ls)\<^sup>*\<^sup>* c r \<and> (\<forall>x. \<not> linked account ls r x)"
  using assms linked_unique by (metis converse_rtranclpE converse_rtranclp_into_rtranclp)

lemma resolve_loop_iff:
  assumes "\<forall>s\<in>seen. (linked account ls)\<^sup>+\<^sup>+ s k"
  shows "resolve_loop account ls seen k = Inr r \<longleftrightarrow>
    (linked account ls)\<^sup>*\<^sup>* k r \<and> (\<forall>x. \<not> linked account ls r x)"
  using assms
proof (induction account ls seen k rule: resolve_loop.induct)
  case (1 account ls seen k)
  show ?case
  proof (cases "map_of ls (account, k)")
    case None
    then have stop: "\<forall>x. \<not> linked account ls k x" by (simp add: not_linked_iff)
    with None show ?thesis
      by (auto simp: resolve_loop.simps [of account ls seen k] elim: converse_rtranclpE)
  next
    case (Some x)
    then obtain c y where x: "map_of ls (account, k) = Some (c, y)" by (cases x) auto
    then have link: "linked account ls k c" by (auto simp: linked_def)
    show ?thesis
    proof (cases "k \<in> seen")
      case True
      with 1(2) have "(linked account ls)\<^sup>+\<^sup>+ k k" by blast
      with cycle_returns show ?thesis
        using True x by (fastforce simp: resolve_loop.simps [of account ls seen k] dest: tranclpD)
    next
      case False
      have "\<forall>s\<in>insert k seen. (linked account ls)\<^sup>+\<^sup>+ s c"
        using 1(2) link by (auto intro: tranclp.trancl_into_trancl)
      with 1(1) [OF x refl False] False x show ?thesis
        by (simp add: resolve_loop.simps [of account ls seen k] follow_link [OF link])
    qed
  qed
qed

lemma resolve_Inr_iff:
  "resolve_identity_key account k ls = Inr r \<longleftrightarrow>
   (linked account ls)\<^sup>*\<^sup>* k r \<and> (\<forall>x. \<not> linked account ls r x)"
  unfolding resolve_identity_key_def by (rule resolve_loop_iff) simp

lemma resolve_loop_error:
  "resolve_loop account ls seen k = Inl e \<Longrightarrow> e = StorageError ''Manifest identity links contain a cycle''"
  by (induction account ls seen k rule: resolve_loop.induct)
    (auto simp: resolve_loop.simps [of account ls seen k for account ls seen k] split: option.splits if_splits)

lemma resolve_fixed: "resolve_identity_key account k ls = Inr r \<Longrightarrow> resolve_identity_key account r ls = Inr r"
  by (simp add: resolve_Inr_iff)

text \<open>
  C37. The resolution of identity links always ends, also on links that form a cycle. It returns a key
  exactly when following the links from the given key reaches a key without a link, and then returns
  that key; otherwise it raises the error of a cycle.
\<close>

theorem resolve_follows_links_to_their_end:
  "(resolve_identity_key account k ls = Inr r \<longleftrightarrow>
     (linked account ls)\<^sup>*\<^sup>* k r \<and> map_of ls (account, r) = None) \<and>
   (resolve_identity_key account k ls = Inl e \<longleftrightarrow> e = StorageError ''Manifest identity links contain a cycle'' \<and>
     (\<nexists>r. (linked account ls)\<^sup>*\<^sup>* k r \<and> map_of ls (account, r) = None))"
proof -
  have "(\<exists>r. resolve_identity_key account k ls = Inr r) \<or>
      resolve_identity_key account k ls = Inl (StorageError ''Manifest identity links contain a cycle'')"
    using resolve_loop_error [of account ls "{}" k]
    by (cases "resolve_identity_key account k ls") (simp_all add: resolve_identity_key_def)
  then show ?thesis
    using resolve_Inr_iff [of account k ls]
    by (cases "resolve_identity_key account k ls") (auto simp: not_linked_iff)
qed

section \<open>Dictionaries\<close>

lemma map_of_dict_set [simp]: "map_of (dict_set k v d) = (map_of d)(k \<mapsto> v)"
  by (simp add: dict_set_def map_of_upsert fun_eq_iff)

lemma uniq_dict_set [simp]: "uniq fst d \<Longrightarrow> uniq fst (dict_set k v d)"
  unfolding dict_set_def by (rule uniq_upsert) auto

lemma uniq_map_of: "uniq fst d \<Longrightarrow> (k, v) \<in> set d \<longleftrightarrow> map_of d k = Some v"
  by (auto simp: uniq_def)

section \<open>The pass over the manifest\<close>

text \<open>The last event a selector assigns to a key.\<close>

definition latest :: "(event \<Rightarrow> 'k option) \<Rightarrow> event list \<Rightarrow> 'k \<Rightarrow> event option" where
  "latest sel evs k = List.find (\<lambda>ev. sel ev = Some k) (rev evs)"

lemma latest_Nil [simp]: "latest sel [] k = None"
  by (simp add: latest_def)

lemma find_append: "List.find p (xs @ ys) = (case List.find p xs of None \<Rightarrow> List.find p ys | Some x \<Rightarrow> Some x)"
  by (induction xs) auto

lemma latest_Cons: "latest sel (ev # evs) k =
  (case latest sel evs k of None \<Rightarrow> (if sel ev = Some k then Some ev else None) | Some e \<Rightarrow> Some e)"
  by (simp add: latest_def find_append split: option.split)

lemma latest_in: "latest sel evs k = Some ev \<Longrightarrow> ev \<in> set evs \<and> sel ev = Some k"
  unfolding latest_def by (drule find_Some_in_set) simp

definition fetch_of :: "event \<Rightarrow> message_place option" where
  "fetch_of ev = (if jget ev ''event'' = JStr ''fetch'' then event_place ev else None)"

definition account_of :: "event \<Rightarrow> string option" where
  "account_of ev = (if jget ev ''event'' = JStr ''account_snapshot'' then event_text ev ''account_id'' else None)"

definition folder_of :: "event \<Rightarrow> (string \<times> string) option" where
  "folder_of ev = (if jget ev ''event'' = JStr ''folder_snapshot''
     then Option.bind (event_text ev ''account_id'') (\<lambda>a. map_option (Pair a) (event_text ev ''folder_raw_name'')) else None)"

definition purge_of :: "event \<Rightarrow> purge_key option" where
  "purge_of ev = (if jget ev ''event'' = JStr ''purged'' then reindex_purge_key ev else None)"

lemma scan_link_fields:
  assumes "scan_link ev S = Inr S'"
  shows "sc_fetches S' = sc_fetches S" "sc_accounts S' = sc_accounts S" "sc_folders S' = sc_folders S"
    "sc_completed S' = sc_completed S" "sc_snapshots S' = sc_snapshots S"
  using assms by (auto simp: scan_link_def split: option.splits if_splits)

lemma scan_purge_fields:
  assumes "scan_purge name ev S = Inr S'"
  shows "sc_fetches S' = sc_fetches S" "sc_accounts S' = sc_accounts S" "sc_folders S' = sc_folders S"
    "sc_snapshots S' = sc_snapshots S"
  using assms by (auto simp: scan_purge_def split: option.splits if_splits sum.splits)

definition dict_put :: "'k option \<Rightarrow> 'v \<Rightarrow> ('k \<times> 'v) list \<Rightarrow> ('k \<times> 'v) list" where
  "dict_put k v d = (case k of None \<Rightarrow> d | Some x \<Rightarrow> dict_set x v d)"

abbreviation state_events :: "string set" where
  "state_events \<equiv> {''delete_detected'', ''remote_state_unknown'', ''moved'', ''remote_delete_intent'',
     ''remote_delete_completed'', ''remote_delete_uncertain''}"

text \<open>The five kinds of events that leave the dictionaries of accounts, folders and fetches.\<close>

lemma scan_event_branches:
  assumes "jget ev ''event'' = JStr name"
  obtains "name \<in> {''fetch'', ''account_snapshot'', ''folder_snapshot''}"
  | xs where "\<And>S. scan_event S ev = Inr (S\<lparr>sc_snapshots := sc_snapshots S @ xs\<rparr>)" "name \<noteq> ''purged''"
  | "\<And>S. scan_event S ev = scan_link ev S" "name = ''message_identity_linked''"
  | "\<And>S. scan_event S ev = Inr (scan_state name ev S)" "name \<in> state_events"
  | "\<And>S. scan_event S ev = scan_purge name ev S" "name \<in> {''purge_intent'', ''purged''}"
proof -
  consider "name \<in> {''fetch'', ''account_snapshot'', ''folder_snapshot''}" | "name = ''message_membership_snapshot''"
    | "name = ''message_identity_linked''" | "name \<in> state_events" | "name \<in> {''purge_intent'', ''purged''}"
    | "name \<notin> {''fetch'', ''account_snapshot'', ''folder_snapshot''}" "name \<noteq> ''message_membership_snapshot''"
      "name \<noteq> ''message_identity_linked''" "name \<notin> state_events" "name \<notin> {''purge_intent'', ''purged''}"
    by argo
  then show thesis
  proof cases
    case 2
    have "scan_event S ev = Inr (S\<lparr>sc_snapshots := sc_snapshots S @
        (case (event_text ev ''account_id'', event_text ev ''source_item_key'') of
          (Some account, Some k) \<Rightarrow> [(account, k, ev)] | _ \<Rightarrow> [])\<rparr>)" for S
      using assms 2 by (auto simp: scan_event_def split: option.split)
    then show thesis by (rule that(2)) (simp add: 2)
  next
    case 4
    then have n: "name \<noteq> ''account_snapshot''" "name \<noteq> ''folder_snapshot''" "name \<noteq> ''message_membership_snapshot''"
      "name \<noteq> ''message_identity_linked''" "name \<noteq> ''fetch''" by auto
    have "scan_event S ev = Inr (scan_state name ev S)" for S
      unfolding scan_event_def assms json.case n [THEN if_not_P] if_P [OF 4] by (rule refl)
    then show thesis using 4 by (rule that(4))
  next
    case 5
    then have n: "name \<noteq> ''account_snapshot''" "name \<noteq> ''folder_snapshot''" "name \<noteq> ''message_membership_snapshot''"
      "name \<noteq> ''message_identity_linked''" "name \<noteq> ''fetch''" "name \<notin> state_events" by auto
    have "scan_event S ev = scan_purge name ev S" for S
      unfolding scan_event_def assms json.case n [THEN if_not_P] if_P [OF 5] by (rule refl)
    then show thesis using 5 by (rule that(5))
  next
    case 6
    have "scan_event S ev = Inr (S\<lparr>sc_snapshots := sc_snapshots S @ []\<rparr>)" for S
      using assms 6 by (simp add: scan_event_def)
    then show thesis by (rule that(2)) (use 6 in simp)
  qed (use assms that(1,3) in \<open>auto simp: scan_event_def\<close>)
qed

lemma scan_event_other:
  assumes "scan_event S ev = Inr S'" and "jget ev ''event'' \<notin> JStr ` {''fetch'', ''account_snapshot'', ''folder_snapshot''}"
  shows "sc_fetches S' = sc_fetches S \<and> sc_accounts S' = sc_accounts S \<and> sc_folders S' = sc_folders S"
proof (cases "jget ev ''event''")
  case (JStr name)
  then show ?thesis
  proof (cases rule: scan_event_branches)
    case 1
    with JStr assms(2) show ?thesis by auto
  qed (use assms(1) in \<open>auto simp: scan_state_def Let_def scan_link_fields scan_purge_fields\<close>)
qed (use assms(1) in \<open>simp_all add: scan_event_def\<close>)

lemma scan_event_dicts:
  assumes "scan_event S ev = Inr S'"
  shows "sc_fetches S' = dict_put (fetch_of ev) ev (sc_fetches S)"
    "sc_accounts S' = dict_put (account_of ev) ev (sc_accounts S)"
    "sc_folders S' = dict_put (folder_of ev) ev (sc_folders S)"
proof -
  consider "jget ev ''event'' = JStr ''fetch''" | "jget ev ''event'' = JStr ''account_snapshot''"
    | "jget ev ''event'' = JStr ''folder_snapshot''"
    | "jget ev ''event'' \<notin> JStr ` {''fetch'', ''account_snapshot'', ''folder_snapshot''}" by blast
  then have "sc_fetches S' = dict_put (fetch_of ev) ev (sc_fetches S) \<and>
    sc_accounts S' = dict_put (account_of ev) ev (sc_accounts S) \<and> sc_folders S' = dict_put (folder_of ev) ev (sc_folders S)"
  proof cases
    case 4
    with scan_event_other [OF assms 4] show ?thesis by (simp add: dict_put_def fetch_of_def account_of_def folder_of_def)
  qed (use assms in \<open>auto simp: scan_event_def dict_put_def fetch_of_def account_of_def folder_of_def split: option.splits\<close>)
  then show "sc_fetches S' = dict_put (fetch_of ev) ev (sc_fetches S)"
    "sc_accounts S' = dict_put (account_of ev) ev (sc_accounts S)"
    "sc_folders S' = dict_put (folder_of ev) ev (sc_folders S)" by simp_all
qed

lemma map_sum_Inr_iff [simp]: "map_sum f g x = Inr y \<longleftrightarrow> (\<exists>z. x = Inr z \<and> y = g z)"
  by (cases x) auto

lemma scan_Cons_okE:
  assumes "foldp (reindex_step C) S (ev # evs) w = (Inr S', w')"
  obtains S1 w1 where "scan_event S ev = Inr S1" "foldp (reindex_step C) S1 evs w1 = (Inr S', w')"
proof -
  from assms obtain S1 w1 where ev: "reindex_step C S ev w = (Inr S1, w1)" and evs: "foldp (reindex_step C) S1 evs w1 = (Inr S', w')"
    by (auto elim!: bind_okE)
  from ev have "scan_event S ev = Inr S1" by (auto simp: reindex_step_def elim!: then_okE)
  from this evs show thesis by (rule that)
qed

lemma scan_latest:
  assumes "\<And>S ev S'. scan_event S ev = Inr S' \<Longrightarrow> proj S' = dict_put (sel ev) ev (proj S)"
    and "foldp (reindex_step C) S evs w = (Inr S', w')"
  shows "map_of (proj S') k = (case latest sel evs k of None \<Rightarrow> map_of (proj S) k | Some e \<Rightarrow> Some e)"
    and "uniq fst (proj S) \<Longrightarrow> uniq fst (proj S')"
  using assms(2)
proof (induction evs arbitrary: S w)
  case (Cons ev evs)
  {
    case 1
    then obtain S1 w1 where ev: "scan_event S ev = Inr S1"
      and evs: "foldp (reindex_step C) S1 evs w1 = (Inr S', w')" by (rule scan_Cons_okE)
    from Cons.IH(1) [OF evs] assms(1) [OF ev] show ?case
      by (auto simp: latest_Cons dict_put_def split: option.splits)
  next
    case 2
    from 2(2) obtain S1 w1 where ev: "scan_event S ev = Inr S1"
      and evs: "foldp (reindex_step C) S1 evs w1 = (Inr S', w')" by (rule scan_Cons_okE)
    from Cons.IH(2) [OF _ evs] assms(1) [OF ev] 2(1) show ?case
      by (auto simp: dict_put_def split: option.splits)
  }
qed simp_all

lemma scan_purge_completed:
  assumes "scan_purge name ev S = Inr S'" and "reindex_purge_key ev = Some (a, k, p, h)" and "name \<noteq> ''purge_intent''"
  shows "\<exists>r. sc_completed S' = (a, r, p, h) # sc_completed S \<and> (remote_key_text k \<longrightarrow> r = k)"
  using assms
  by (auto simp: scan_purge_def normalize_purge_key_def split: sum.splits if_splits list.splits prod.splits)

lemma scan_completed_step:
  assumes "scan_event S ev = Inr S'"
  shows "(purge_of ev = None \<longrightarrow> sc_completed S' = sc_completed S) \<and>
    (\<forall>a k p h. purge_of ev = Some (a, k, p, h) \<longrightarrow>
      (\<exists>r. sc_completed S' = (a, r, p, h) # sc_completed S \<and> (remote_key_text k \<longrightarrow> r = k)))"
proof (cases "jget ev ''event''")
  case (JStr name)
  then show ?thesis
  proof (cases rule: scan_event_branches)
    case 1
    with JStr assms have "sc_completed S' = sc_completed S" "name \<noteq> ''purged''"
      by (auto simp: scan_event_def split: option.splits)
    with JStr show ?thesis by (simp add: purge_of_def)
  next
    case 5
    show ?thesis
    proof (cases "name = ''purged''")
      case True
      with 5 JStr assms have "scan_purge ''purged'' ev S = Inr S'" "purge_of ev = reindex_purge_key ev"
        by (simp_all add: purge_of_def)
      with scan_purge_completed [of "''purged''" ev S S'] show ?thesis
        by (cases "reindex_purge_key ev") (auto simp: scan_purge_def)
    next
      case False
      with 5 JStr assms show ?thesis
        by (auto simp: purge_of_def scan_purge_def split: option.splits sum.splits)
    qed
  qed (use assms JStr in \<open>auto simp: purge_of_def scan_state_def Let_def scan_link_fields\<close>)
qed (use assms in \<open>simp_all add: scan_event_def purge_of_def\<close>)

lemma scan_completed:
  assumes "foldp (reindex_step C) S evs w = (Inr S', w')"
  shows "set (sc_completed S) \<subseteq> set (sc_completed S')"
    and "ev \<in> set evs \<Longrightarrow> purge_of ev = Some (a, k, p, h) \<Longrightarrow> remote_key_text k \<Longrightarrow> (a, k, p, h) \<in> set (sc_completed S')"
    and "(a, r, p, h) \<in> set (sc_completed S') - set (sc_completed S) \<Longrightarrow> \<exists>ev\<in>set evs. \<exists>k. purge_of ev = Some (a, k, p, h)"
  using assms
proof (induction evs arbitrary: S w)
  case (Cons e evs)
  {
    case 1
    then obtain S1 w1 where e: "scan_event S e = Inr S1" and
      evs: "foldp (reindex_step C) S1 evs w1 = (Inr S', w')" by (rule scan_Cons_okE)
    have "set (sc_completed S) \<subseteq> set (sc_completed S1)"
      using scan_completed_step [OF e] by (cases "purge_of e") (simp, force)
    with Cons.IH(1) [OF evs] show ?case by (rule order_trans [rotated])
  next
    case 2
    from 2(4) obtain S1 w1 where e: "scan_event S e = Inr S1" and
      evs: "foldp (reindex_step C) S1 evs w1 = (Inr S', w')" by (rule scan_Cons_okE)
    from Cons.IH(2) [OF _ _ _ evs] Cons.IH(1) [OF evs] scan_completed_step [OF e] 2 show ?case by auto
  next
    case 3
    from 3(2) obtain S1 w1 where e: "scan_event S e = Inr S1" and
      evs: "foldp (reindex_step C) S1 evs w1 = (Inr S', w')" by (rule scan_Cons_okE)
    from Cons.IH(3) [OF _ evs] scan_completed_step [OF e] 3(1) show ?case
      by (cases "purge_of e") (auto, fastforce+)
  }
qed simp_all

section \<open>Canonical keys\<close>

text \<open>The keys and hashes after the fetches of a list: every fetch has its canonical key, and all fetches of
  a canonical message the same hash.\<close>

definition keys_cover :: "links \<Rightarrow> canonical_keys \<Rightarrow> (message_place \<times> event) list \<Rightarrow> bool" where
  "keys_cover ls K fetches \<longleftrightarrow> (\<forall>(place, ev)\<in>set fetches. \<exists>k. map_of (ck_keys K) place = Some k \<and>
     fetch_canonical ls ev place = Inr k \<and>
     (\<forall>h. event_text ev ''file_hash'' = Some h \<longrightarrow> map_of (ck_hashes K) (fst place, k) = Some h))"

lemma map_le_Some: "f \<subseteq>\<^sub>m g \<Longrightarrow> f x = Some y \<Longrightarrow> g x = Some y"
  by (force simp: map_le_def)

lemma canonical_step_ok:
  assumes "canonical_step ls K (place, ev) s = (Inr K', s')"
  shows "s' = s" and "\<exists>k. ck_keys K' = dict_set place k (ck_keys K) \<and> fetch_canonical ls ev place = Inr k \<and>
      map_of (ck_hashes K) \<subseteq>\<^sub>m map_of (ck_hashes K') \<and>
      (\<forall>h. event_text ev ''file_hash'' = Some h \<longrightarrow> map_of (ck_hashes K') (fst place, k) = Some h)"
proof -
  from assms obtain k c where k: "fetch_source_key ev place = Inr k" "resolve_identity_key (fst place) k ls = Inr c"
    and rest: "(if (case map_of ls (fst place, k) of None \<Rightarrow> False | Some (_, _, lh) \<Rightarrow> event_text ev ''file_hash'' \<noteq> Some lh)
       then raise (StorageError ''Manifest identity link EML hash does not match its fetch'')
       else (case event_text ev ''file_hash'' of
           None \<Rightarrow> ret (K\<lparr>ck_keys := dict_set place c (ck_keys K)\<rparr>)
         | Some h \<Rightarrow>
             (case map_of (ck_hashes K) (fst place, c) of
                None \<Rightarrow> ret (K\<lparr>ck_keys := dict_set place c (ck_keys K),
                  ck_hashes := dict_set (fst place, c) h (ck_hashes K)\<rparr>)
              | Some previous \<Rightarrow>
                  if previous \<noteq> h then raise (StorageError ''Canonical message has inconsistent EML hashes'')
                  else ret (K\<lparr>ck_keys := dict_set place c (ck_keys K)\<rparr>)))) s = (Inr K', s')"
    unfolding canonical_step_def Let_def by (auto elim!: bind_okE)
  from rest show "s' = s" by (auto split: if_splits option.splits)
  from rest have "ck_keys K' = dict_set place c (ck_keys K)" "map_of (ck_hashes K) \<subseteq>\<^sub>m map_of (ck_hashes K')"
    "\<forall>h. event_text ev ''file_hash'' = Some h \<longrightarrow> map_of (ck_hashes K') (fst place, c) = Some h"
    by (auto simp: map_le_def split: if_splits option.splits)
  with k show "\<exists>k. ck_keys K' = dict_set place k (ck_keys K) \<and> fetch_canonical ls ev place = Inr k \<and>
      map_of (ck_hashes K) \<subseteq>\<^sub>m map_of (ck_hashes K') \<and>
      (\<forall>h. event_text ev ''file_hash'' = Some h \<longrightarrow> map_of (ck_hashes K') (fst place, k) = Some h)"
    by (auto simp: fetch_canonical_def)
qed

lemma canonical_fold:
  assumes "foldp (canonical_step ls) K fetches s = (Inr K', s')" and "uniq fst (done @ fetches)" and "keys_cover ls K done"
  shows "s' = s \<and> keys_cover ls K' (done @ fetches)"
  using assms
proof (induction fetches arbitrary: K s "done")
  case (Cons fetch fetches)
  obtain place ev where fetch: "fetch = (place, ev)" by (cases fetch)
  from Cons.prems(1) fetch obtain K1 s1 where step: "canonical_step ls K (place, ev) s = (Inr K1, s1)"
    and rest: "foldp (canonical_step ls) K1 fetches s1 = (Inr K', s')" by (auto elim!: bind_okE)
  from canonical_step_ok(2) [OF step] obtain k where k: "ck_keys K1 = dict_set place k (ck_keys K)"
    "fetch_canonical ls ev place = Inr k" "map_of (ck_hashes K) \<subseteq>\<^sub>m map_of (ck_hashes K1)"
    "\<forall>h. event_text ev ''file_hash'' = Some h \<longrightarrow> map_of (ck_hashes K1) (fst place, k) = Some h" by blast
  have fresh: "place \<notin> fst ` set done" using Cons.prems(2) fetch by (auto simp: uniq_def)
  have old: "map_of (ck_keys K1) q = map_of (ck_keys K) q" if "(q, e) \<in> set done" for q e
    using that fresh k(1) by force
  have "keys_cover ls K1 done"
    unfolding keys_cover_def
  proof (clarify, goal_cases)
    case (1 a b c d e)
    with Cons.prems(3) obtain k' where "map_of (ck_keys K) (a, b, c, d) = Some k'" "fetch_canonical ls e (a, b, c, d) = Inr k'"
      "\<forall>h. event_text e ''file_hash'' = Some h \<longrightarrow> map_of (ck_hashes K) (a, k') = Some h"
      unfolding keys_cover_def by fastforce
    with old [OF 1] k(3) show ?case by (auto dest: map_le_Some)
  qed
  with k fetch have "keys_cover ls K1 (done @ [fetch])" by (simp add: keys_cover_def)
  with Cons.IH [OF rest, of "done @ [fetch]"] Cons.prems(2) canonical_step_ok(1) [OF step] show ?case by simp
qed simp

lemma canonical_fetches_ok:
  assumes "canonical_fetches S (s :: 's) = (Inr K, s')" and "uniq fst (sc_fetches S)"
  shows "keys_cover (sc_links S) K (sc_fetches S)"
proof -
  from assms(1) obtain s1 s2 :: 's where "foldp (canonical_step (sc_links S)) \<lparr>ck_keys = [], ck_hashes = []\<rparr> (sc_fetches S) s1 = (Inr K, s2)"
    unfolding canonical_fetches_def by (auto elim!: bind_okE then_okE)
  from canonical_fold [OF this, of "[]"] assms(2) show ?thesis by (simp add: keys_cover_def)
qed

lemma resolved_completed:
  assumes "foldp (add_completed ls) acc keys (s :: 's) = (Inr ks, s')"
  shows "(a, r, p, h) \<in> set ks \<longleftrightarrow> (a, r, p, h) \<in> set acc \<or>
    (\<exists>k. (a, k, p, h) \<in> set keys \<and> resolve_identity_key a k ls = Inr r)"
  using assms
proof (induction keys arbitrary: acc s)
  case (Cons key keys)
  obtain a' k' p' h' where key: "key = (a', k', p', h')" by (cases key) auto
  from Cons.prems key obtain k and s1 :: 's where k: "add_completed ls acc key s = (Inr k, s1)"
    and rest: "foldp (add_completed ls) k keys s1 = (Inr ks, s')" by (auto elim!: bind_okE)
  from k key obtain r' where r': "resolve_identity_key a' k' ls = Inr r'" "k = (a', r', p', h') # acc"
    by (auto simp: add_completed_def resolve_purge_key_def elim!: bind_okE)
  from Cons.IH [OF rest] r' key show ?case by auto
qed simp

lemma reindex_resolve_ok:
  assumes "reindex_resolve S (s :: 's) = (Inr D, s')" and "uniq fst (sc_fetches S)"
  shows "rd_scan D = S" and "keys_cover (sc_links S) (rd_keys D) (sc_fetches S)"
    and "(a, r, p, h) \<in> set (rd_completed D) \<longleftrightarrow>
      (\<exists>k. (a, k, p, h) \<in> set (sc_completed S) \<and> resolve_identity_key a k (sc_links S) = Inr r)"
proof -
  from assms(1) obtain K purges completed snaps and s1 s2 :: 's where K: "canonical_fetches S s = (Inr K, s1)"
    and P: "resolve_purges S s1 = (Inr (purges, completed), s2)"
    and D: "D = \<lparr>rd_scan = S, rd_keys = K, rd_purges = purges, rd_completed = completed, rd_snapshots = snaps\<rparr>"
    unfolding reindex_resolve_def by (auto elim!: bind_okE)
  from D show "rd_scan D = S" by simp
  from D canonical_fetches_ok [OF K assms(2)] show "keys_cover (sc_links S) (rd_keys D) (sc_fetches S)" by simp
  from P obtain s4 s5 :: 's where
    "foldp (add_completed (sc_links S)) [] (sc_completed S) s4 = (Inr completed, s5)"
    unfolding resolve_purges_def by (auto elim!: bind_okE)
  from resolved_completed [OF this, of a r p h] D show "(a, r, p, h) \<in> set (rd_completed D) \<longleftrightarrow>
      (\<exists>k. (a, k, p, h) \<in> set (sc_completed S) \<and> resolve_identity_key a k (sc_links S) = Inr r)" by simp
qed

section \<open>Preparation\<close>

text \<open>Up to the transaction a rebuild changes nothing but what the cancellation token reads.\<close>

definition same_store :: "'r world \<Rightarrow> 'r world \<Rightarrow> bool" where
  "same_store w w' \<longleftrightarrow> w_db w' = w_db w \<and> w_batch w' = w_batch w \<and> w_fs w' = w_fs w \<and> w_man w' = w_man w"

lemma keeps_same_store [intro]: "keeps (same_store w) (on_remote m)"
  by (auto simp: keeps_def on_remote_def same_store_def split: prod.split)

lemma keeps_pure [intro]:
  "keeps I (lift_sum r)" "keeps I (gets f)" "keeps I (raise e)"
  by (auto simp: keeps_def)

lemma keeps_stopped: "keeps (same_store w) (stopped C)"
  unfolding stopped_def by (intro keeps_catch keeps_then keeps_if keeps_same_store keeps_pure keeps_ret)

lemma keeps_read_fetched: "keeps I (read_fetched C path hash)"
  unfolding read_fetched_def
  by (intro keeps_catch keeps_bind keeps_if keeps_pure keeps_ret) (simp add: keeps_def storage_read_verified_def)

lemma keeps_prepare_step: "keeps (same_store w) (prepare_step C D P fetch)"
  unfolding prepare_step_def Let_def
  by (cases fetch) (auto intro!: keeps_bind keeps_if keeps_stopped keeps_read_fetched split: option.split)

lemma read_fetched_ok:
  assumes "read_fetched C path hash w = (Inr raw, w')"
  shows "w' = w" and "raw = Some bytes \<longleftrightarrow> read_verified (rc_env C) path hash (w_fs w) = Inr bytes"
  using assms by (auto simp: read_fetched_def storage_read_verified_def run_catch run_bind split: sum.splits if_splits)

definition readable :: "'r reindex_ctx \<Rightarrow> fs \<Rightarrow> string \<Rightarrow> string \<Rightarrow> bool" where
  "readable C f path hash \<longleftrightarrow> (\<exists>bytes. read_verified (rc_env C) path hash f = Inr bytes)"

abbreviation key_of :: "reindex_data \<Rightarrow> message_place \<Rightarrow> string" where
  "key_of D place \<equiv> get_default (map_of (ck_keys (rd_keys D)) place) []"

abbreviation is_purged :: "reindex_data \<Rightarrow> message_place \<Rightarrow> string \<Rightarrow> string \<Rightarrow> bool" where
  "is_purged D place path hash \<equiv> (fst place, key_of D place, path, hash) \<in> set (rd_completed D)"

definition prepared_from ::
  "'r reindex_ctx \<Rightarrow> reindex_data \<Rightarrow> fs \<Rightarrow> message_place \<Rightarrow> event \<Rightarrow> string \<Rightarrow> string \<Rightarrow> prepared \<Rightarrow> bool" where
  "prepared_from C D f place ev path hash item \<longleftrightarrow>
     event_text ev ''relative_path'' = Some path \<and> event_text ev ''file_hash'' = Some hash \<and>
     (is_purged D place path hash \<or> readable C f path hash) \<and>
     (\<exists>p n st snap. fst item = reindex_arg C place ev (key_of D place) path hash p n st snap (is_purged D place path hash))"

text \<open>Every prepared message comes from a fetch, and every fetch whose file is intact or purged is prepared.\<close>

definition item_sound :: "'r reindex_ctx \<Rightarrow> reindex_data \<Rightarrow> fs \<Rightarrow> (message_place \<times> event) set \<Rightarrow> prepared \<Rightarrow> bool" where
  "item_sound C D f F item \<longleftrightarrow> (\<exists>place ev path hash. (place, ev) \<in> F \<and> prepared_from C D f place ev path hash item)"

definition fetch_done :: "'r reindex_ctx \<Rightarrow> reindex_data \<Rightarrow> fs \<Rightarrow> prepared set \<Rightarrow> message_place \<times> event \<Rightarrow> bool" where
  "fetch_done C D f A fetch \<longleftrightarrow> (\<forall>path hash. event_text (snd fetch) ''relative_path'' = Some path \<longrightarrow>
     event_text (snd fetch) ''file_hash'' = Some hash \<longrightarrow> is_purged D (fst fetch) path hash \<or> readable C f path hash \<longrightarrow>
     (\<exists>item\<in>A. prepared_from C D f (fst fetch) (snd fetch) path hash item))"

definition prepared_all :: "'r reindex_ctx \<Rightarrow> reindex_data \<Rightarrow> fs \<Rightarrow> (message_place \<times> event) set \<Rightarrow> reindex_prep \<Rightarrow> bool" where
  "prepared_all C D f F P \<longleftrightarrow> (\<forall>item\<in>set (rp_messages P). item_sound C D f F item) \<and>
     (\<not> rp_cancelled P \<longrightarrow> (\<forall>fetch\<in>F. fetch_done C D f (set (rp_messages P)) fetch))"

lemma item_sound_mono: "item_sound C D f F item \<Longrightarrow> F \<subseteq> G \<Longrightarrow> item_sound C D f G item"
  unfolding item_sound_def by blast

lemma fetch_done_mono: "fetch_done C D f A fetch \<Longrightarrow> A \<subseteq> B \<Longrightarrow> fetch_done C D f B fetch"
  unfolding fetch_done_def by blast

lemma prepared_all_insert:
  assumes "prepared_all C D f F P" and "set (rp_messages P) \<subseteq> set (rp_messages P')"
    and "\<And>item. item \<in> set (rp_messages P') - set (rp_messages P) \<Longrightarrow> item_sound C D f {fetch} item"
    and "\<not> rp_cancelled P' \<Longrightarrow> \<not> rp_cancelled P \<and> fetch_done C D f (set (rp_messages P')) fetch"
  shows "prepared_all C D f (insert fetch F) P'"
  unfolding prepared_all_def
proof (intro conjI ballI impI)
  fix item
  assume "item \<in> set (rp_messages P')"
  with assms(1,3) show "item_sound C D f (insert fetch F) item"
    unfolding prepared_all_def by (cases "item \<in> set (rp_messages P)") (blast intro: item_sound_mono)+
next
  fix x
  assume "\<not> rp_cancelled P'" "x \<in> insert fetch F"
  with assms(1,2,4) show "fetch_done C D f (set (rp_messages P')) x"
    unfolding prepared_all_def by (blast intro: fetch_done_mono)
qed

lemma prepared_fetch_item:
  assumes "event_text ev ''relative_path'' = Some path" and "event_text ev ''file_hash'' = Some hash"
    and "is_purged D place path hash \<or> readable C f path hash"
  shows "\<exists>item. rp_messages (prepared_fetch C D P place ev (key_of D place) path hash (is_purged D place path hash) raw) =
      rp_messages P @ [item] \<and> prepared_from C D f place ev path hash item"
  using assms unfolding prepared_fetch_def prepared_from_def Let_def by auto

lemma prepare_step_ok:
  assumes "prepare_step C D P fetch w = (Inr P', w')" and "prepared_all C D (w_fs w) F P"
  shows "prepared_all C D (w_fs w) (insert fetch F) P'"
proof -
  obtain place ev where fetch: "fetch = (place, ev)" by (cases fetch)
  have skip: ?thesis if same: "rp_messages P' = rp_messages P"
    and ok: "\<not> rp_cancelled P' \<Longrightarrow> \<not> rp_cancelled P \<and> fetch_done C D (w_fs w) (set (rp_messages P)) fetch"
    by (rule prepared_all_insert [OF assms(2)]) (use that in simp_all)
  show ?thesis
  proof (cases "rp_cancelled P")
    case True
    with assms(1) fetch show ?thesis by (intro skip) (auto simp: prepare_step_def)
  next
    case False
    then obtain stop w1 where stop: "stopped C w = (Inr stop, w1)"
      using assms(1) fetch by (auto simp: prepare_step_def elim!: bind_okE)
    have fs: "w_fs w1 = w_fs w"
      using keepsD [OF keeps_stopped [of w] _ stop] by (simp add: same_store_def)
    show ?thesis
    proof (cases "stop \<or> event_text ev ''relative_path'' = None \<or> event_text ev ''file_hash'' = None")
      case True
      with False stop assms(1) fetch show ?thesis
        by (intro skip) (auto simp: prepare_step_def run_bind fetch_done_def split: option.splits if_splits)
    next
      case go: False
      then obtain path hash where t: "event_text ev ''relative_path'' = Some path" "event_text ev ''file_hash'' = Some hash"
        by auto
      from False stop go assms(1) t fetch obtain raw where raw: "read_fetched C path hash w1 = (Inr raw, w')"
        and P': "P' = (if raw = None \<and> \<not> is_purged D place path hash
             then P\<lparr>rp_skipped := rp_skipped P + 1, rp_warnings := rp_warnings P @ [''could not verify EML: '' @ path]\<rparr>
             else prepared_fetch C D P place ev (key_of D place) path hash (is_purged D place path hash) raw)"
        by (auto simp: prepare_step_def run_bind Let_def split: prod.splits sum.splits if_splits)
      have r: "raw \<noteq> None \<longleftrightarrow> readable C (w_fs w) path hash"
        using read_fetched_ok(2) [OF raw] fs by (cases raw) (auto simp: readable_def)
      show ?thesis
      proof (cases "is_purged D place path hash \<or> readable C (w_fs w) path hash")
        case True
        from prepared_fetch_item [OF t True, of P raw] obtain item where
          item: "rp_messages P' = rp_messages P @ [item]" "prepared_from C D (w_fs w) place ev path hash item"
          using P' r True by auto
        show ?thesis
          by (rule prepared_all_insert [OF assms(2)])
            (use item t fetch False in \<open>auto simp: item_sound_def fetch_done_def\<close>)
      next
        case no: False
        with P' r t fetch False show ?thesis by (intro skip) (auto simp: fetch_done_def)
      qed
    qed
  qed
qed

lemma prepare_fold:
  assumes "foldp (prepare_step C D) P fetches w = (Inr P', w')" and "prepared_all C D (w_fs w) F P"
  shows "prepared_all C D (w_fs w) (F \<union> set fetches) P'"
  using assms
proof (induction fetches arbitrary: P F w)
  case (Cons fetch fetches)
  from Cons.prems(1) obtain P1 w1 where step: "prepare_step C D P fetch w = (Inr P1, w1)"
    and rest: "foldp (prepare_step C D) P1 fetches w1 = (Inr P', w')" by (auto elim!: bind_okE)
  have "w_fs w1 = w_fs w" using keepsD [OF keeps_prepare_step [of w] _ step] by (simp add: same_store_def)
  with Cons.IH [OF rest, of "insert fetch F"] prepare_step_ok [OF step Cons.prems(2)] show ?case by simp
qed simp

abbreviation valid_fetches :: "reindex_scan \<Rightarrow> (message_place \<times> event) set" where
  "valid_fetches S \<equiv> {(place, ev) \<in> set (sc_fetches S). (fst place, fst (snd place)) \<in> fst ` set (valid_folders S)}"

lemma prepare_messages_ok:
  assumes "prepare_messages C D w = (Inr P, w')"
  shows "prepared_all C D (w_fs w) (valid_fetches (rd_scan D)) P"
proof -
  let ?P0 = "\<lambda>stop. \<lparr>rp_messages = [], rp_contents = 0, rp_purged = 0, rp_skipped = 0,
    rp_warnings = snapshot_warnings (rd_scan D), rp_metadata = [], rp_cancelled = stop\<rparr>"
  let ?fs = "filter (\<lambda>(place, _). (fst place, fst (snd place)) \<in> fst ` set (valid_folders (rd_scan D))) (sc_fetches (rd_scan D))"
  from assms obtain stop w1 P1 w2 where stop: "stopped C w = (Inr stop, w1)"
    and fold: "foldp (prepare_step C D) (?P0 stop) ?fs w1 = (Inr P1, w2)"
    and P: "rp_messages P = rp_messages P1" "\<not> rp_cancelled P \<Longrightarrow> \<not> rp_cancelled P1"
    unfolding prepare_messages_def by (auto elim!: bind_okE split: if_splits)
  have fs: "w_fs w1 = w_fs w" using keepsD [OF keeps_stopped [of w] _ stop] by (simp add: same_store_def)
  have "prepared_all C D (w_fs w1) {} (?P0 stop)" by (simp add: prepared_all_def)
  from prepare_fold [OF fold this] fs P show ?thesis
    by (auto simp: prepared_all_def case_prod_unfold)
qed

lemma keeps_prepare_messages: "keeps (same_store w) (prepare_messages C D)"
  unfolding prepare_messages_def
  by (intro keeps_bind keeps_foldp keeps_if keeps_ret keeps_stopped keeps_prepare_step)

section \<open>Writing\<close>

lemma keeps_messages:
  "keeps (\<lambda>d. I (messages d)) (upsert_account a)" "keeps (\<lambda>d. I (messages d)) (upsert_folder f)"
  "keeps (\<lambda>d. I (messages d)) (add_message_identity_alias acc k i e)"
  "keeps (\<lambda>d. I (messages d)) (replace_message_memberships i ms)" "keeps (\<lambda>d. I (messages d)) (record_audit au)"
  "keeps (\<lambda>d. I (messages d)) (upsert_membership x)" "keeps (\<lambda>d. I (messages d)) (update_message_contents i c)"
proof -
  have c: "(\<And>d. messages (f d) = messages d) \<Longrightarrow> keeps (\<lambda>d. I (messages d)) (constrained ok what f)" for ok what f
    by (auto simp: keeps_def constrained_def)
  have m: "(\<And>d. messages (f d) = messages d) \<Longrightarrow> keeps (\<lambda>d. I (messages d)) (modify f)" for f
    by (auto simp: keeps_def)
  show "keeps (\<lambda>d. I (messages d)) (upsert_account a)"
    unfolding upsert_account_def by (intro keeps_if keeps_then m keeps_pure keeps_ret) simp
  show "keeps (\<lambda>d. I (messages d)) (upsert_folder f)"
    unfolding upsert_folder_def Let_def by (intro keeps_then keeps_bind keeps_option c keeps_pure keeps_ret) simp
  show "keeps (\<lambda>d. I (messages d)) (upsert_membership x)"
    unfolding upsert_membership_def by (rule c) simp
  show "keeps (\<lambda>d. I (messages d)) (update_message_contents i c)"
    unfolding update_message_contents_def by (intro keeps_then m c) simp_all
  show "keeps (\<lambda>d. I (messages d)) (replace_message_memberships i ms)"
    unfolding replace_message_memberships_def insert_membership_def by (intro keeps_then keeps_forp m c) simp_all
  show "keeps (\<lambda>d. I (messages d)) (record_audit au)"
    unfolding record_audit_def by (rule m) simp
  have "keeps (\<lambda>d. I (messages d)) (insert_alias al)" for al
    by (auto simp: keeps_def insert_alias_def)
  then show "keeps (\<lambda>d. I (messages d)) (add_message_identity_alias acc k i e)"
    unfolding add_message_identity_alias_def by (intro keeps_then keeps_bind keeps_option keeps_if keeps_pure keeps_ret)
qed

lemma add_message_rows:
  assumes "add_message norm a cnt d = (r, d')"
  shows "messages d' = messages (snd (upsert_message_row a d))" and "r = Inr i \<Longrightarrow> \<exists>u. fst (upsert_message_row a d) = Inr u"
proof -
  obtain r1 d1 where d1: "upsert_message_row a d = (r1, d1)" by fastforce
  have "keeps (\<lambda>x. messages x = messages d1)
     (bindp (find_message_id_by_source_item_key (ma_account_id a) (ma_source_item_key a)) (\<lambda>row.
       case row of
         None \<Rightarrow> raise (DatabaseError ''Message upsert did not return an id'')
       | Some i \<Rightarrow>
           thenp (upsert_membership (arg_membership a i))
           (thenp (case cnt of None \<Rightarrow> ret ()
                   | Some c \<Rightarrow> update_message_contents i (normalized_contents norm c)) (ret i))))"
    unfolding find_message_id_by_source_item_key_def
    by (intro keeps_bind keeps_option keeps_then keeps_pure keeps_ret keeps_messages)
  then show "messages d' = messages (snd (upsert_message_row a d))" "r = Inr i \<Longrightarrow> \<exists>u. fst (upsert_message_row a d) = Inr u"
    using assms d1 by (cases r1; auto simp: add_message_def dest: keepsD)+
qed

lemma keeps_write_message:
  assumes "\<And>d f mv. I (messages d) \<Longrightarrow>
    I (messages (snd (upsert_message_row ((fst item)\<lparr>ma_folder_id := f, ma_moved_to := mv\<rparr>) d)))"
  shows "keeps (\<lambda>d. I (messages d)) (write_message C acc item)"
proof -
  obtain a cnt place destination where item: "item = (a, cnt, place, destination)" by (cases item) auto
  obtain ids mids where acc: "acc = (ids, mids)" by (cases acc)
  have add: "keeps (\<lambda>d. I (messages d)) (add_message norm (a\<lparr>ma_folder_id := f, ma_moved_to := mv\<rparr>) cnt)" for norm f mv
  proof (rule keepsI)
    fix d :: db
    assume "I (messages d)"
    with assms [where d = d and f = f and mv = mv] item show "I (messages (snd (add_message norm (a\<lparr>ma_folder_id := f, ma_moved_to := mv\<rparr>) cnt d)))"
      using add_message_rows(1) [of norm "a\<lparr>ma_folder_id := f, ma_moved_to := mv\<rparr>" cnt d] by (metis fst_conv prod.collapse)
  qed
  have ensure: "keeps (\<lambda>d. I (messages d)) (ensure_folder x raw ids)" for x raw
    unfolding ensure_folder_def by (intro keeps_option keeps_bind keeps_ret keeps_messages)
  show ?thesis
    unfolding write_message_def item acc prod.case
    by (auto intro!: keeps_bind add ensure split: option.split prod.split)
qed

lemma keeps_snapshot_entry: "keeps (\<lambda>d. I (messages d)) (snapshot_entry account acc entry)"
proof -
  have ensure: "keeps (\<lambda>d. I (messages d)) (ensure_folder x raw ids)" for x raw ids
    unfolding ensure_folder_def by (intro keeps_option keeps_bind keeps_ret keeps_messages)
  show ?thesis
    unfolding snapshot_entry_def
    by (cases acc; cases entry) (auto intro!: keeps_bind ensure keeps_pure split: option.split prod.split json.split)
qed

lemma keeps_write_rest:
  "keeps (\<lambda>d. I (messages d)) (write_alias ls mids link)" "keeps (\<lambda>d. I (messages d)) (write_snapshot mids ids snap)"
  "keeps (\<lambda>d. I (messages d)) (write_audit C D P audit)"
proof -
  show "keeps (\<lambda>d. I (messages d)) (write_alias ls mids link)"
    unfolding write_alias_def by (cases link) (auto intro!: keeps_bind keeps_pure keeps_messages split: option.split)
  show "keeps (\<lambda>d. I (messages d)) (write_snapshot mids ids snap)"
    unfolding write_snapshot_def
    by (cases snap) (auto intro!: keeps_bind keeps_then keeps_foldp keeps_pure keeps_messages keeps_snapshot_entry
        split: option.split json.split prod.split)
  show "keeps (\<lambda>d. I (messages d)) (write_audit C D P audit)"
    unfolding write_audit_def reindex_audit_entry_def
    by (cases audit) (auto intro!: keeps_bind keeps_pure keeps_messages)
qed

section \<open>The rebuilt rows\<close>

definition row_from :: "'r reindex_ctx \<Rightarrow> reindex_data \<Rightarrow> fs \<Rightarrow> (message_place \<times> event) set \<Rightarrow> message_row \<Rightarrow> bool" where
  "row_from C D f F m \<longleftrightarrow> (\<exists>place ev path hash. (place, ev) \<in> F \<and>
     event_text ev ''relative_path'' = Some path \<and> event_text ev ''file_hash'' = Some hash \<and>
     (is_purged D place path hash \<or> readable C f path hash) \<and>
     message_key m = (fst place, key_of D place) \<and> msg_file_hash m = Some hash \<and>
     msg_local_state m = (if is_purged D place path hash then Purged else Active) \<and>
     msg_relative_path m = (if is_purged D place path hash then None else Some path))"

lemma reindex_arg_columns:
  "ma_account_id (reindex_arg C place ev key path hash p n st snap purged) = fst place"
  "ma_source_item_key (reindex_arg C place ev key path hash p n st snap purged) = key"
  "msg_file_hash (set_columns (ma_columns (reindex_arg C place ev key path hash p n st snap purged)) m) = Some hash"
  "msg_local_state (set_columns (ma_columns (reindex_arg C place ev key path hash p n st snap purged)) m) =
     (if purged then Purged else Active)"
  "msg_relative_path (set_columns (ma_columns (reindex_arg C place ev key path hash p n st snap purged)) m) =
     (if purged then None else Some path)"
  by (simp_all add: reindex_arg_def set_columns_def split: prod.split)

lemma item_row:
  assumes "item_sound C D f F item" and "message_key m = (ma_account_id (fst item), ma_source_item_key (fst item))"
  shows "row_from C D f F (set_columns (ma_columns (fst item)) m)"
proof -
  from assms(1) obtain place ev path hash p n st snap where i: "(place, ev) \<in> F"
    "event_text ev ''relative_path'' = Some path" "event_text ev ''file_hash'' = Some hash"
    "is_purged D place path hash \<or> readable C f path hash"
    "fst item = reindex_arg C place ev (key_of D place) path hash p n st snap (is_purged D place path hash)"
    unfolding item_sound_def prepared_from_def by blast
  have "message_key (set_columns (ma_columns (fst item)) m) = (fst place, key_of D place)"
    using assms(2) by (simp add: i(5) reindex_arg_columns)
  with i show ?thesis
    unfolding row_from_def
    by (intro exI [of _ place] exI [of _ ev] exI [of _ path] exI [of _ hash]) (simp add: reindex_arg_columns)
qed

lemma upsert_message_row_from:
  assumes "item_sound C D f F item" and "\<forall>m\<in>set (messages d). row_from C D f F m"
  shows "\<forall>m\<in>set (messages (snd (upsert_message_row ((fst item)\<lparr>ma_folder_id := i, ma_moved_to := mv\<rparr>) d))). row_from C D f F m"
proof -
  let ?k = "(ma_account_id (fst item), ma_source_item_key (fst item))"
  have "\<forall>m\<in>set (upsert_row message_key ?k (set_columns (ma_columns (fst item)))
      (set_columns (ma_columns (fst item)) (blank_message (next_message_id d) (ma_account_id (fst item)) (ma_source_item_key (fst item))))
      (messages d)). row_from C D f F m"
    by (rule ball_upsert) (use assms item_row [OF assms(1)] in \<open>auto simp: blank_message_def\<close>)
  with assms(2) show ?thesis by (simp add: upsert_message_row_def constrained_def Let_def)
qed

lemma upsert_message_row_keys:
  "message_key ` set (messages d) \<subseteq> message_key ` set (messages (snd (upsert_message_row a d)))"
  "fst (upsert_message_row a d) = Inr u \<Longrightarrow>
     (ma_account_id a, ma_source_item_key a) \<in> message_key ` set (messages (snd (upsert_message_row a d)))"
proof -
  have "message_key ` set (messages d) \<subseteq> message_key ` set (upsert_row message_key (ma_account_id a, ma_source_item_key a)
      (set_columns (ma_columns a)) (set_columns (ma_columns a) (blank_message i (ma_account_id a) (ma_source_item_key a))) (messages d))" for i
    by (rule image_upsert_subset) simp
  then show "message_key ` set (messages d) \<subseteq> message_key ` set (messages (snd (upsert_message_row a d)))"
    by (simp add: upsert_message_row_def constrained_def Let_def)
  have "(ma_account_id a, ma_source_item_key a) \<in> message_key ` set (upsert_row message_key (ma_account_id a, ma_source_item_key a)
      (set_columns (ma_columns a)) (set_columns (ma_columns a) (blank_message i (ma_account_id a) (ma_source_item_key a))) (messages d))" for i
    by (rule upsert_row_in) (simp_all add: blank_message_def)
  then show "fst (upsert_message_row a d) = Inr u \<Longrightarrow>
     (ma_account_id a, ma_source_item_key a) \<in> message_key ` set (messages (snd (upsert_message_row a d)))"
    by (simp add: upsert_message_row_def constrained_def Let_def split: if_splits)
qed

lemma keeps_write_rows:
  assumes "\<And>item acc. item \<in> set (rp_messages P) \<Longrightarrow> keeps (\<lambda>d. I (messages d)) (write_message C acc item)"
  shows "keeps (\<lambda>d. I (messages d)) (write_rows C D P)"
  unfolding write_rows_def
  by (intro keeps_then keeps_forp keeps_bind keeps_foldp keeps_ret)
    (auto intro!: keeps_then keeps_bind keeps_forp keeps_foldp keeps_messages keeps_write_rest assms)

lemma write_rows_from:
  assumes "\<And>item. item \<in> set (rp_messages P) \<Longrightarrow> item_sound C D f F item"
  shows "keeps (\<lambda>d. \<forall>m\<in>set (messages d). row_from C D f F m) (write_rows C D P)"
  by (intro keeps_write_rows keeps_write_message upsert_message_row_from assms)

lemma write_message_ok:
  assumes "write_message C acc item d = (Inr v, d')"
  shows "(ma_account_id (fst item), ma_source_item_key (fst item)) \<in> message_key ` set (messages d')"
proof -
  obtain a cnt place destination where item: "item = (a, cnt, place, destination)" by (cases item) auto
  obtain ids mids where acc: "acc = (ids, mids)" by (cases acc)
  from assms obtain d1 a' i where add: "add_message (rc_norm C) a' cnt d1 = (Inr i, d')"
    and a': "ma_account_id a' = ma_account_id a" "ma_source_item_key a' = ma_source_item_key a"
    unfolding write_message_def item acc prod.case by (auto elim!: bind_okE split: prod.splits)
  from add_message_rows [OF add] upsert_message_row_keys(2) [of a' d1] a' item show ?thesis by auto
qed

lemma write_rows_keys:
  assumes "write_rows C D P d = (Inr u, d')" and "item \<in> set (rp_messages P)"
  shows "(ma_account_id (fst item), ma_source_item_key (fst item)) \<in> message_key ` set (messages d')"
proof -
  let ?k = "(ma_account_id (fst item), ma_source_item_key (fst item))"
  let ?I = "\<lambda>ms. ?k \<in> message_key ` set ms"
  from assms(1) obtain ids ids' mids d1 d2 where fold: "foldp (write_message C) (ids, []) (rp_messages P) d1 = (Inr (ids', mids), d2)"
    and rest: "thenp (forp (write_alias (sc_links (rd_scan D)) mids) (sc_links (rd_scan D)))
     (thenp (foldp (write_snapshot mids) ids' (rd_snapshots D)) (ret ())) d2 = (Inr u, d')"
    unfolding write_rows_def by (auto elim!: bind_okE then_okE split: prod.splits)
  have step: "keeps (\<lambda>d. ?I (messages d)) (write_message C b y)" for b y
    by (rule keeps_write_message) (use upsert_message_row_keys(1) in blast)
  have "?I (messages d2)"
    by (rule foldp_establishes [OF fold assms(2), of "\<lambda>_. True"], simp, simp add: keeps_def, rule step, erule write_message_ok)
  moreover have "keeps (\<lambda>d. ?I (messages d)) (thenp (forp (write_alias (sc_links (rd_scan D)) mids) (sc_links (rd_scan D)))
     (thenp (foldp (write_snapshot mids) ids' (rd_snapshots D)) (ret ())))"
    by (intro keeps_then keeps_forp keeps_foldp keeps_ret keeps_write_rest)
  ultimately show ?thesis using rest by (blast dest: keepsD)
qed

section \<open>The whole run\<close>

lemma keeps_same_store_scan: "keeps (same_store w) (foldp (reindex_step C) S evs)"
  unfolding reindex_step_def by (intro keeps_foldp keeps_then keeps_same_store keeps_pure)

lemma keeps_reindex_resolve: "keeps I (reindex_resolve S)"
proof -
  have "keeps I (canonical_step ls K fetch)" for ls K fetch
    unfolding canonical_step_def Let_def
    by (cases fetch) (auto intro!: keeps_bind keeps_pure keeps_if split: option.split)
  then have "keeps I (canonical_fetches S)"
    unfolding canonical_fetches_def check_link_def
    by (auto intro!: keeps_then keeps_bind keeps_forp keeps_foldp keeps_pure keeps_if)
  moreover have "keeps I (resolve_purges S)" "keeps I (resolve_snapshots S)"
    unfolding resolve_purges_def resolve_snapshots_def add_completed_def add_snapshot_def
    by (auto intro!: keeps_bind keeps_foldp keeps_pure)
  ultimately show ?thesis unfolding reindex_resolve_def by (auto intro!: keeps_bind)
qed

text \<open>A rebuild ends before its transaction and leaves the store, or reaches it with everything it read.\<close>

lemma reindex_run:
  assumes "reindex C w = (r, w')"
  obtains "same_store w w'" "\<And>res. r = Inr res \<Longrightarrow> rx_cancelled res"
  | S w1 D P w3 where "foldp (reindex_step C) empty_scan (disk_events (w_man w)) w = (Inr S, w1)" "reindex_resolve S w1 = (Inr D, w1)"
    "prepare_messages C D w1 = (Inr P, w3)" "same_store w w1" "same_store w w3" "\<not> rp_cancelled P" "reindex_write C D P w3 = (r, w')"
proof (cases "read_all_events (w_man w)")
  case (Inl e)
  with assms that(1) show thesis by (auto simp: reindex_def run_bind same_store_def)
next
  case (Inr evs)
  then have evs: "evs = disk_events (w_man w)" by (auto simp: read_all_events_def split: if_splits)
  obtain r1 w1 where scan: "foldp (reindex_step C) empty_scan evs w = (r1, w1)" by fastforce
  have w1: "same_store w w1" using keepsD [OF keeps_same_store_scan [of w] _ scan] by (simp add: same_store_def)
  show thesis
  proof (cases r1)
    case (Inl e)
    with assms Inr scan w1 that(1) show thesis
      by (auto simp: reindex_def run_bind run_catch scan_events_def cancelled_result_def split: if_splits)
  next
    case S: (Inr S)
    obtain r2 w2 where res: "reindex_resolve S w1 = (r2, w2)" by fastforce
    have w2: "w2 = w1" using keepsD [OF keeps_reindex_resolve [of "\<lambda>x. x = w1"] _ res] by simp
    show thesis
    proof (cases r2)
      case (Inl e)
      with assms Inr scan S w1 w2 res that(1) show thesis
        by (auto simp: reindex_def run_bind run_catch scan_events_def split: if_splits)
    next
      case D: (Inr D)
      obtain r3 w3 where prep: "prepare_messages C D w1 = (r3, w3)" by fastforce
      have w3: "same_store w w3" using keepsD [OF keeps_prepare_messages w1 prep] .
      show thesis
      proof (cases "\<exists>P. r3 = Inr P \<and> \<not> rp_cancelled P")
        case True
        then obtain P where P: "r3 = Inr P" "\<not> rp_cancelled P" by blast
        with assms Inr scan S w2 res D prep have "reindex_write C D P w3 = (r, w')"
          by (auto simp: reindex_def run_bind run_catch scan_events_def)
        with that(2) [of S w1 D P w3] scan S evs res w2 D prep P w1 w3 show thesis by simp
      next
        case False
        with assms Inr scan S w2 res D prep w3 that(1) show thesis
          by (cases r3) (auto simp: reindex_def run_bind run_catch scan_events_def cancelled_result_def)
      qed
    qed
  qed
qed

lemma run_on_db_thenE:
  assumes "thenp begin_batch (thenp (on_db m) k) w = (r, w')"
  obtains "w' = w" "\<And>x. r \<noteq> Inr x"
  | e d where "m (w_db w) = (Inl e, d)" "w' = w\<lparr>w_batch := Some (w_db w), w_db := d\<rparr>" "r = Inl e"
  | u d where "m (w_db w) = (Inr u, d)" "k (w\<lparr>w_batch := Some (w_db w), w_db := d\<rparr>) = (r, w')"
  using assms
  by (cases "m (w_db w)"; cases "fst (m (w_db w))") (auto simp: run_then begin_batch_def on_db_def split: if_splits)

text \<open>The messages after the transaction are those the rows were written to; the audit log does not touch
  them.\<close>

lemma reindex_write_ok:
  assumes "reindex_write C D P w = (r, w')"
  shows "messages (w_db w') = messages (w_db w) \<or> messages (w_db w') = messages (snd (write_rows C D P (w_db w)))"
    and "r = Inr res \<Longrightarrow> \<exists>u d. write_rows C D P (w_db w) = (Inr u, d) \<and> messages (w_db w') = messages d"
proof -
  let ?k = "thenp commit_batch (thenp (on_db (forp (write_audit C D P) (sc_audits (rd_scan D))))
    (ret \<lparr>rx_accounts = length (valid_accounts (rd_scan D)), rx_folders = length (valid_folders (rd_scan D)),
         rx_messages = length (rp_messages P), rx_contents = rp_contents P, rx_purged = rp_purged P,
         rx_skipped = rp_skipped P,
         rx_warnings = rp_warnings P @ map (\<lambda>((_, k, _), _). ''incomplete purge intent: '' @ k)
           (filter (\<lambda>(key, _). key \<notin> set (rd_completed D)) (rd_purges D)),
         rx_cancelled = False\<rparr>))"
  have a: "keeps (\<lambda>d. messages d = M) (forp (write_audit C D P) xs)" for M xs
    by (intro keeps_forp keeps_write_rest(3) [where I = "\<lambda>ms. ms = M"])
  have audit: "keeps (\<lambda>v. messages (w_db v) = M) ?k" for M
    by (intro keeps_then keeps_batch keeps_ret keeps_on_db, simp_all) (erule (1) keepsD [OF a])
  have "(messages (w_db w') = messages (w_db w) \<or> messages (w_db w') = messages (snd (write_rows C D P (w_db w)))) \<and>
    (r = Inr res \<longrightarrow> (\<exists>u d. write_rows C D P (w_db w) = (Inr u, d) \<and> messages (w_db w') = messages d))"
    using assms unfolding reindex_write_def
  proof (cases rule: run_on_db_thenE)
    case (3 u d)
    with keepsD [OF audit [of "messages d"] _ 3(2)] show ?thesis by auto
  qed auto
  then show "messages (w_db w') = messages (w_db w) \<or> messages (w_db w') = messages (snd (write_rows C D P (w_db w)))"
    "r = Inr res \<Longrightarrow> \<exists>u d. write_rows C D P (w_db w) = (Inr u, d) \<and> messages (w_db w') = messages d" by auto
qed

lemma keeps_db_inv_write:
  "keeps db_inv (write_rows C D P)" "keeps db_inv (write_audit C D P au)"
proof -
  have ensure: "keeps db_inv (ensure_folder x raw ids)" for x raw ids
    unfolding ensure_folder_def by (intro keeps_option keeps_bind keeps_ret keeps_upsert_folder)
  have entry: "keeps db_inv (snapshot_entry account acc e)" for account acc e
    unfolding snapshot_entry_def
    by (cases acc; cases e) (auto intro!: keeps_bind ensure keeps_pure split: option.split prod.split json.split)
  have message: "keeps db_inv (write_message C acc item)" for acc item
    unfolding write_message_def
    by (cases acc; cases item) (auto intro!: keeps_bind ensure keeps_add_message split: option.split prod.split)
  have als: "keeps db_inv (write_alias ls mids link)" for ls mids link
    unfolding write_alias_def
    by (cases link) (auto intro!: keeps_bind keeps_pure keeps_add_message_identity_alias split: option.split)
  have snap: "keeps db_inv (write_snapshot mids ids s)" for mids ids s
    unfolding write_snapshot_def
    by (cases s) (auto intro!: keeps_bind keeps_then keeps_foldp keeps_pure entry keeps_replace_message_memberships
        split: option.split json.split prod.split)
  show "keeps db_inv (write_rows C D P)"
    unfolding write_rows_def
    by (intro keeps_then keeps_forp keeps_bind keeps_foldp keeps_ret)
      (auto intro!: keeps_then keeps_bind keeps_forp keeps_foldp keeps_upsert_account keeps_upsert_folder message als snap)
  show "keeps db_inv (write_audit C D P au)"
    unfolding write_audit_def reindex_audit_entry_def
    by (cases au) (auto intro!: keeps_bind keeps_pure keeps_other_ops)
qed

lemma keeps_db_inv_reindex_write: "keeps (\<lambda>w. db_inv (w_db w)) (reindex_write C D P)"
  unfolding reindex_write_def
  by (intro keeps_then keeps_batch keeps_ret keeps_on_db)
    (auto dest: keepsD [OF keeps_db_inv_write(1)] keepsD [OF keeps_forp [OF keeps_db_inv_write(2)]])

text \<open>What the scan and the resolution mean in terms of the events.\<close>

lemma scan_meaning:
  assumes "foldp (reindex_step C) empty_scan evs w = (Inr S, w1)"
  shows "map_of (sc_fetches S) place = latest fetch_of evs place" "map_of (sc_accounts S) a = latest account_of evs a"
    "map_of (sc_folders S) k = latest folder_of evs k" "uniq fst (sc_fetches S)"
  using scan_latest [where proj = sc_fetches and sel = fetch_of, OF scan_event_dicts(1) assms]
    scan_latest(1) [where proj = sc_accounts and sel = account_of, OF scan_event_dicts(2) assms]
    scan_latest(1) [where proj = sc_folders and sel = folder_of, OF scan_event_dicts(3) assms]
  by (auto simp: empty_scan_def split: option.splits)

lemma valid_fetch:
  assumes "foldp (reindex_step C) empty_scan evs w = (Inr S, w1)" and "latest fetch_of evs place = Some ev"
    and "latest account_of evs (fst place) = Some aev" and "account_record aev \<noteq> None"
    and "latest folder_of evs (fst place, fst (snd place)) = Some fev" and "folder_record fev \<noteq> None"
  shows "(place, ev) \<in> valid_fetches S"
proof -
  note m = scan_meaning [OF assms(1)]
  from m(1) assms(2) have f: "(place, ev) \<in> set (sc_fetches S)" by (simp add: map_of_SomeD)
  from m(2) assms(3) have "(fst place, aev) \<in> set (sc_accounts S)" by (simp add: map_of_SomeD)
  with assms(4) have "fst place \<in> fst ` set (valid_accounts S)"
    unfolding valid_accounts_def by (force simp: List.map_filter_def)
  moreover from m(3) assms(5) have "((fst place, fst (snd place)), fev) \<in> set (sc_folders S)" by (simp add: map_of_SomeD)
  ultimately have "(fst place, fst (snd place)) \<in> fst ` set (valid_folders S)"
    using assms(6) unfolding valid_folders_def by (force simp: List.map_filter_def)
  with f show ?thesis by simp
qed

text \<open>A fetch is purged for the rebuild when a completed purge names its key, path and hash.\<close>

lemma purged_meaning:
  assumes "foldp (reindex_step C) empty_scan evs w = (Inr S, w1)" and "reindex_resolve S s = (Inr D, s')"
    and "(place, ev) \<in> set (sc_fetches S)"
  shows "fetch_canonical (sc_links S) ev place = Inr (key_of D place)"
    and "e \<in> set evs \<Longrightarrow> purge_of e = Some (fst place, key_of D place, path, hash) \<Longrightarrow> remote_key_text (key_of D place) \<Longrightarrow>
      is_purged D place path hash"
    and "is_purged D place path hash \<Longrightarrow> \<exists>e\<in>set evs. \<exists>k. purge_of e = Some (fst place, k, path, hash)"
proof -
  note r = reindex_resolve_ok [OF assms(2) scan_meaning(4) [OF assms(1)]]
  from r(2) assms(3) obtain k where k: "map_of (ck_keys (rd_keys D)) place = Some k" "fetch_canonical (sc_links S) ev place = Inr k"
    unfolding keys_cover_def by fastforce
  then have key: "key_of D place = k" by (simp add: get_default_def)
  with k show "fetch_canonical (sc_links S) ev place = Inr (key_of D place)" by simp
  from k(2) have fixed: "resolve_identity_key (fst place) k (sc_links S) = Inr k"
    by (auto simp: fetch_canonical_def dest: resolve_fixed split: sum.splits)
  show "is_purged D place path hash" if "e \<in> set evs" "purge_of e = Some (fst place, key_of D place, path, hash)"
    "remote_key_text (key_of D place)"
    using scan_completed(2) [OF assms(1) that] fixed key r(3) [of "fst place" k path hash] by auto
  show "\<exists>e\<in>set evs. \<exists>k. purge_of e = Some (fst place, k, path, hash)" if "is_purged D place path hash"
    using that r(3) [of "fst place" "key_of D place" path hash]
      scan_completed(3) [OF assms(1), of "fst place" _ path hash] by (auto simp: empty_scan_def)
qed

lemma reindex_rows:
  assumes "reindex_write C D P w = (r, w')" and "prepared_all C D f F P" and "messages (w_db w) = []"
  shows "\<forall>m\<in>set (messages (w_db w')). row_from C D f F m"
proof -
  have "keeps (\<lambda>d. \<forall>m\<in>set (messages d). row_from C D f F m) (write_rows C D P)"
    using assms(2) by (intro write_rows_from) (simp add: prepared_all_def)
  from this [unfolded keeps_def, THEN spec, of "w_db w"] assms(3)
  have "\<forall>m\<in>set (messages (snd (write_rows C D P (w_db w)))). row_from C D f F m" by simp
  with reindex_write_ok(1) [OF assms(1)] assms(3) show ?thesis by auto
qed

lemma row_from_backed:
  assumes "foldp (reindex_step C) empty_scan evs w = (Inr S, w1)" and "reindex_resolve S s = (Inr D, s')"
    and "row_from C D f (valid_fetches S) m"
  shows "\<exists>hash. msg_file_hash m = Some hash \<and>
    ((\<exists>path. msg_local_state m = Active \<and> msg_relative_path m = Some path \<and> readable C f path hash \<and>
        (\<forall>e\<in>set evs. remote_key_text (msg_source_item_key m) \<longrightarrow>
           purge_of e \<noteq> Some (msg_account_id m, msg_source_item_key m, path, hash))) \<or>
     (msg_local_state m = Purged \<and> msg_relative_path m = None))"
proof -
  from assms(3) obtain pl e p h where e: "(pl, e) \<in> valid_fetches S" "is_purged D pl p h \<or> readable C f p h"
    "message_key m = (fst pl, key_of D pl)" "msg_file_hash m = Some h"
    "msg_local_state m = (if is_purged D pl p h then Purged else Active)"
    "msg_relative_path m = (if is_purged D pl p h then None else Some p)"
    unfolding row_from_def by blast
  show ?thesis
  proof (cases "is_purged D pl p h")
    case True
    with e show ?thesis by simp
  next
    case False
    with purged_meaning(2) [OF assms(1,2), of pl e] e(1,3)
    have "\<forall>x\<in>set evs. remote_key_text (msg_source_item_key m) \<longrightarrow>
        purge_of x \<noteq> Some (msg_account_id m, msg_source_item_key m, p, h)" by auto
    with False e show ?thesis by auto
  qed
qed

lemma keys_cover_hash:
  assumes "keys_cover ls (rd_keys D) fetches" and "(place, ev) \<in> set fetches" and "event_text ev ''file_hash'' = Some h"
  shows "map_of (ck_hashes (rd_keys D)) (fst place, key_of D place) = Some h"
proof -
  from assms(1,2) obtain k where "map_of (ck_keys (rd_keys D)) place = Some k"
    "\<forall>h. event_text ev ''file_hash'' = Some h \<longrightarrow> map_of (ck_hashes (rd_keys D)) (fst place, k) = Some h"
    unfolding keys_cover_def by fastforce
  with assms(3) show ?thesis by (simp add: get_default_def)
qed

section \<open>A sample\<close>

text \<open>A manifest with two fetched messages, the second of them purged, and the files that are left.\<close>

definition rebuild_ctx :: "unit reindex_ctx" where
  "rebuild_ctx = \<lparr>rc_env = hash_env, rc_cancelled = ret False, rc_parse = box_parse, rc_date = (\<lambda>_. None),
     rc_norm = id, rc_dumps = (\<lambda>_. ''[]''), rc_dumps_compact = (\<lambda>_. ''[]'')\<rparr>"

definition rebuild_fetch :: "int \<Rightarrow> string \<Rightarrow> string \<Rightarrow> event" where
  "rebuild_fetch uid path hash =
     [(''event'', JStr ''fetch''), (''account_id'', JStr ''acc''), (''folder_raw_name'', JStr ''INBOX''),
      (''uid'', JInt uid), (''uidvalidity'', JInt 7), (''source_item_key'', JStr (''imap:SU5CT1g:7:'' @ int_text uid)),
      (''relative_path'', JStr path), (''file_hash'', JStr hash), (''size_bytes'', JInt 3)]"

definition rebuild_account :: event where
  "rebuild_account = [(''event'', JStr ''account_snapshot''), (''account_id'', JStr ''acc''), (''provider_type'', JStr ''imap''),
     (''host'', JStr ''h''), (''port'', JInt 993), (''username'', JStr ''u''), (''display_name'', JNull)]"

definition rebuild_folder :: event where
  "rebuild_folder = [(''event'', JStr ''folder_snapshot''), (''account_id'', JStr ''acc''), (''folder_raw_name'', JStr ''INBOX''),
     (''display_name'', JStr ''INBOX''), (''uidvalidity'', JInt 7)]"

definition rebuild_events :: "event list" where
  "rebuild_events = [rebuild_account, rebuild_folder, rebuild_fetch 3 ''a'' (sha256 hash_env ''raw''),
     rebuild_fetch 4 ''c'' (sha256 hash_env ''two''),
     [(''event'', JStr ''purged''), (''account_id'', JStr ''acc''), (''source_item_key'', JStr ''imap:SU5CT1g:7:4''),
      (''relative_path'', JStr ''c''), (''file_hash'', JStr (sha256 hash_env ''two'')), (''timestamp'', JStr ''t'')]]"

definition rebuild_world :: "unit world" where
  "rebuild_world = \<lparr>w_db = \<lparr>accounts = [], folders = [], messages = [], message_folders = [], message_contents = [],
       sync_failures = [], audit_log = [], app_state = [], aliases = [], pst_items = [], next_folder_id = 1,
       next_message_id = 1\<rparr>,
     w_batch = None, w_fs = \<lparr>fs_root = [''data''], fs_files = [([''a''], ''raw'')]\<rparr>,
     w_man = \<lparr>man_account = ''acc'', man_log = map (Pair ''202601'') rebuild_events, man_synced = 5, man_seq = None\<rparr>,
     w_remote = (), w_history = []\<rparr>"

definition rebuilt :: "(error + reindex_result) \<times> unit world" where
  "rebuilt = reindex rebuild_ctx rebuild_world"

text \<open>The rows of a database as the samples show them.\<close>

definition row_list :: "db \<Rightarrow> (string \<times> local_state \<times> string option) list" where
  "row_list d = map (\<lambda>m. (msg_source_item_key m, msg_local_state m, msg_relative_path m)) (messages d)"

lemma rebuilt_run:
  "(case fst rebuilt of Inr res \<Rightarrow> (rx_messages res, rx_purged res, rx_skipped res, rx_warnings res, rx_cancelled res) | Inl e \<Rightarrow> (0, 0, 0, [], True)) =
     (2, 1, 0, [], False) \<and>
   row_list (w_db (snd rebuilt)) = [(''imap:SU5CT1g:7:3'', Active, Some ''a''), (''imap:SU5CT1g:7:4'', Purged, None)]"
  by code_simp

text \<open>
  C10. A rebuild brings every stored message back. When a rebuild into an empty database returns without
  being cancelled, every message that the manifest records as fetched, in a folder with valid snapshots,
  whose file still has its hash and whose hash no completed purge of the account names, has an active row
  under its canonical key with that hash and the path of an intact file.
\<close>

theorem reindex_brings_stored_messages_back:
  assumes "reindex C w = (Inr res, w')" and "\<not> rx_cancelled res" and "messages (w_db w) = []"
    and "latest fetch_of (disk_events (w_man w)) place = Some ev"
    and "event_text ev ''relative_path'' = Some path" and "event_text ev ''file_hash'' = Some hash"
    and "readable C (w_fs w) path hash"
    and "latest account_of (disk_events (w_man w)) (fst place) = Some aev" and "account_record aev \<noteq> None"
    and "latest folder_of (disk_events (w_man w)) (fst place, fst (snd place)) = Some fev" and "folder_record fev \<noteq> None"
    and "\<And>e k p. e \<in> set (disk_events (w_man w)) \<Longrightarrow> purge_of e \<noteq> Some (fst place, k, p, hash)"
  shows "\<exists>S w1. scan_events C (disk_events (w_man w)) w = (Inr S, w1) \<and> (\<exists>m\<in>set (messages (w_db w')). \<exists>p.
    msg_account_id m = fst place \<and> fetch_canonical (sc_links S) ev place = Inr (msg_source_item_key m) \<and>
    msg_local_state m = Active \<and> msg_file_hash m = Some hash \<and> msg_relative_path m = Some p \<and> readable C (w_fs w) p hash)"
  using assms(1)
proof (cases rule: reindex_run)
  case 1
  with assms(2) show ?thesis by simp
next
  case (2 S w1 D P w3)
  let ?F = "valid_fetches S"
  note r = reindex_resolve_ok [OF 2(2) scan_meaning(4) [OF 2(1)]]
  have fs: "w_fs w1 = w_fs w" "w_db w3 = w_db w" using 2(4,5) by (simp_all add: same_store_def)
  from prepare_messages_ok [OF 2(3)] r(1) fs have all: "prepared_all C D (w_fs w) ?F P" by simp
  have place: "(place, ev) \<in> ?F" by (rule valid_fetch [OF 2(1) assms(4,8-11)])
  with all 2(6) have "fetch_done C D (w_fs w) (set (rp_messages P)) (place, ev)" unfolding prepared_all_def by blast
  with assms(5-7) obtain item where item: "item \<in> set (rp_messages P)" "prepared_from C D (w_fs w) place ev path hash item"
    unfolding fetch_done_def fst_conv snd_conv by blast
  obtain u d where d: "write_rows C D P (w_db w3) = (Inr u, d)" "messages (w_db w') = messages d"
    using reindex_write_ok(2) [OF 2(7)] by blast
  from item(2) have "ma_account_id (fst item) = fst place" "ma_source_item_key (fst item) = key_of D place"
    unfolding prepared_from_def by (auto simp: reindex_arg_columns)
  with write_rows_keys [OF d(1) item(1)] d(2) obtain m where
    m: "m \<in> set (messages (w_db w'))" "message_key m = (fst place, key_of D place)" by auto
  from reindex_rows [OF 2(7) all] fs assms(3) m(1) have "row_from C D (w_fs w) ?F m" by simp
  then obtain pl e p h where e: "(pl, e) \<in> ?F" "event_text e ''file_hash'' = Some h"
    "is_purged D pl p h \<or> readable C (w_fs w) p h" "message_key m = (fst pl, key_of D pl)" "msg_file_hash m = Some h"
    "msg_local_state m = (if is_purged D pl p h then Purged else Active)"
    "msg_relative_path m = (if is_purged D pl p h then None else Some p)"
    unfolding row_from_def by blast
  have in_scan: "(pl, e) \<in> set (sc_fetches S)" "(place, ev) \<in> set (sc_fetches S)" using e(1) place by simp_all
  have same: "fst pl = fst place" "key_of D pl = key_of D place" using e(4) m(2) by simp_all
  have hash: "h = hash"
    using keys_cover_hash [OF r(2) in_scan(1) e(2)] keys_cover_hash [OF r(2) in_scan(2) assms(6)] unfolding same by simp
  have "\<not> is_purged D pl p h"
  proof
    assume "is_purged D pl p h"
    from purged_meaning(3) [OF 2(1,2) in_scan(1) this] same(1) hash assms(12) show False by auto
  qed
  with hash have "\<exists>m\<in>set (messages (w_db w')). \<exists>p. msg_account_id m = fst place \<and>
    fetch_canonical (sc_links S) ev place = Inr (msg_source_item_key m) \<and>
    msg_local_state m = Active \<and> msg_file_hash m = Some hash \<and> msg_relative_path m = Some p \<and> readable C (w_fs w) p hash"
    using e(3,5-7) m purged_meaning(1) [OF 2(1,2) in_scan(2)] by (intro bexI [of _ m] exI [of _ p]) auto
  with 2(1) show ?thesis by (auto simp: scan_events_def)
qed

lemma rebuilt_facts:
  "disk_events (w_man rebuild_world) = rebuild_events"
  "latest fetch_of rebuild_events (''acc'', ''INBOX'', 7, 3) = Some (rebuild_fetch 3 ''a'' (sha256 hash_env ''raw''))"
  "latest account_of rebuild_events ''acc'' = Some rebuild_account" "account_record rebuild_account \<noteq> None"
  "latest folder_of rebuild_events (''acc'', ''INBOX'') = Some rebuild_folder" "folder_record rebuild_folder \<noteq> None"
  "event_text (rebuild_fetch 3 ''a'' (sha256 hash_env ''raw'')) ''relative_path'' = Some ''a''"
  "event_text (rebuild_fetch 3 ''a'' (sha256 hash_env ''raw'')) ''file_hash'' = Some (sha256 hash_env ''raw'')"
  "read_verified (rc_env rebuild_ctx) ''a'' (sha256 hash_env ''raw'') (w_fs rebuild_world) = Inr ''raw''"
  "list_all (\<lambda>e. case purge_of e of None \<Rightarrow> True | Some (_, _, _, h) \<Rightarrow> h \<noteq> sha256 hash_env ''raw'') rebuild_events"
  by code_simp+

theorem reindex_brings_stored_messages_back_witness:
  "\<exists>m\<in>set (messages (w_db (snd rebuilt))). msg_account_id m = ''acc'' \<and> msg_local_state m = Active \<and>
    msg_file_hash m = Some (sha256 hash_env ''raw'')"
proof -
  obtain res where res: "reindex rebuild_ctx rebuild_world = (Inr res, snd rebuilt)" "\<not> rx_cancelled res"
    using rebuilt_run by (cases "fst rebuilt") (auto simp: rebuilt_def prod_eq_iff)
  have purges: "purge_of e \<noteq> Some (''acc'', k, p, sha256 hash_env ''raw'')" if "e \<in> set rebuild_events" for e k p
    using that rebuilt_facts(10) by (auto simp: list_all_iff)
  have "messages (w_db rebuild_world) = []" by (simp add: rebuild_world_def)
  note got = reindex_brings_stored_messages_back [OF res this, of "(''acc'', ''INBOX'', 7, 3)"
      "rebuild_fetch 3 ''a'' (sha256 hash_env ''raw'')" "''a''" "sha256 hash_env ''raw''" rebuild_account rebuild_folder,
      unfolded rebuilt_facts(1) readable_def rebuilt_facts(9)]
  show ?thesis using got rebuilt_facts(2-8) purges by auto
qed

text \<open>
  C11. A rebuild invents nothing. However a rebuild into an empty database ends, it keeps the constraints of
  the schema and leaves the stored files and the manifest alone, and every message row has a hash and is
  either active with a path under which the file has that hash, and which no completed purge of its key
  names, or purged without a path.
\<close>

theorem reindex_rows_are_backed:
  assumes "reindex C w = (r, w')" and "messages (w_db w) = []" and "db_inv (w_db w)"
  shows "db_inv (w_db w') \<and> w_fs w' = w_fs w \<and> w_man w' = w_man w \<and> (\<forall>m\<in>set (messages (w_db w')). \<exists>hash.
    msg_file_hash m = Some hash \<and>
    ((\<exists>path. msg_local_state m = Active \<and> msg_relative_path m = Some path \<and> readable C (w_fs w) path hash \<and>
        (\<forall>e\<in>set (disk_events (w_man w)). remote_key_text (msg_source_item_key m) \<longrightarrow>
           purge_of e \<noteq> Some (msg_account_id m, msg_source_item_key m, path, hash))) \<or>
     (msg_local_state m = Purged \<and> msg_relative_path m = None)))"
  using assms(1)
proof (cases rule: reindex_run)
  case 1
  with assms(2,3) show ?thesis by (simp add: same_store_def)
next
  case (2 S w1 D P w3)
  let ?F = "valid_fetches S"
  note r = reindex_resolve_ok [OF 2(2) scan_meaning(4) [OF 2(1)]]
  have fs: "w_fs w1 = w_fs w" "w_db w3 = w_db w" "w_fs w3 = w_fs w" "w_man w3 = w_man w"
    using 2(4,5) by (simp_all add: same_store_def)
  have inv: "db_inv (w_db w')" using keepsD [OF keeps_db_inv_reindex_write _ 2(7)] assms(3) fs(2) by simp
  have "keeps (\<lambda>v. w_fs v = w_fs w \<and> w_man v = w_man w) (reindex_write C D P)"
    unfolding reindex_write_def by (intro keeps_then keeps_batch keeps_ret keeps_on_db) simp_all
  from keepsD [OF this _ 2(7)] fs have files: "w_fs w' = w_fs w" "w_man w' = w_man w" by simp_all
  from prepare_messages_ok [OF 2(3)] r(1) fs have all: "prepared_all C D (w_fs w) ?F P" by simp
  have "\<forall>m\<in>set (messages (w_db w')). row_from C D (w_fs w) ?F m" using reindex_rows [OF 2(7) all] fs assms(2) by simp
  with row_from_backed [OF 2(1,2)] have "\<forall>m\<in>set (messages (w_db w')). \<exists>hash. msg_file_hash m = Some hash \<and>
    ((\<exists>path. msg_local_state m = Active \<and> msg_relative_path m = Some path \<and> readable C (w_fs w) path hash \<and>
        (\<forall>e\<in>set (disk_events (w_man w)). remote_key_text (msg_source_item_key m) \<longrightarrow>
           purge_of e \<noteq> Some (msg_account_id m, msg_source_item_key m, path, hash))) \<or>
     (msg_local_state m = Purged \<and> msg_relative_path m = None))" by blast
  with inv files show ?thesis by blast
qed

theorem reindex_rows_are_backed_witness:
  "length (messages (w_db (snd rebuilt))) = 2 \<and> list_all (\<lambda>m.
    \<exists>hash. msg_file_hash m = Some hash \<and>
      ((\<exists>path. msg_local_state m = Active \<and> msg_relative_path m = Some path \<and> readable rebuild_ctx (w_fs rebuild_world) path hash) \<or>
       (msg_local_state m = Purged \<and> msg_relative_path m = None))) (messages (w_db (snd rebuilt)))"
proof -
  have "reindex rebuild_ctx rebuild_world = (fst rebuilt, snd rebuilt)" by (simp add: rebuilt_def)
  note rows = reindex_rows_are_backed [OF this]
  have inv: "db_inv (w_db rebuild_world)"
    by (simp add: rebuild_world_def db_inv_def table_inv_defs exists_defs)
  have "length (row_list (w_db (snd rebuilt))) = 2" using rebuilt_run by simp
  then have "length (messages (w_db (snd rebuilt))) = 2" by (simp add: row_list_def)
  with rows inv show ?thesis by (auto simp: list_all_iff rebuild_world_def)
qed

section \<open>A damaged file\<close>

definition snapshot_key :: "event \<Rightarrow> (string \<times> string) option" where
  "snapshot_key ev = (if jget ev ''event'' = JStr ''message_membership_snapshot''
     then Option.bind (event_text ev ''account_id'') (\<lambda>a. map_option (Pair a) (event_text ev ''source_item_key'')) else None)"

lemma scan_event_snapshots:
  assumes "scan_event S ev = Inr S'"
  shows "set (sc_snapshots S) \<subseteq> set (sc_snapshots S')"
    and "snapshot_key ev = Some (a, k) \<Longrightarrow> (a, k, ev) \<in> set (sc_snapshots S')"
proof -
  show "(a, k, ev) \<in> set (sc_snapshots S')" if "snapshot_key ev = Some (a, k)"
    using that assms by (auto simp: snapshot_key_def scan_event_def bind_eq_Some_conv split: if_splits)
  show "set (sc_snapshots S) \<subseteq> set (sc_snapshots S')"
  proof (cases "jget ev ''event''")
    case (JStr name)
    then show ?thesis
    proof (cases rule: scan_event_branches)
      case 1
      with JStr assms show ?thesis by (auto simp: scan_event_def split: option.splits)
    qed (use assms in \<open>auto simp: scan_state_def Let_def scan_link_fields scan_purge_fields\<close>)
  qed (use assms in \<open>simp_all add: scan_event_def\<close>)
qed

lemma scan_snapshots:
  assumes "foldp (reindex_step C) S evs w = (Inr S', w')"
  shows "set (sc_snapshots S) \<subseteq> set (sc_snapshots S')"
    and "ev \<in> set evs \<Longrightarrow> snapshot_key ev = Some (a, k) \<Longrightarrow> (a, k, ev) \<in> set (sc_snapshots S')"
  using assms
proof (induction evs arbitrary: S w)
  case (Cons e evs)
  {
    case 1
    then obtain S1 w1 where e: "scan_event S e = Inr S1" and evs: "foldp (reindex_step C) S1 evs w1 = (Inr S', w')"
      by (rule scan_Cons_okE)
    from scan_event_snapshots(1) [OF e] Cons.IH(1) [OF evs] show ?case by (rule order_trans)
  next
    case 2
    from 2(3) obtain S1 w1 where e: "scan_event S e = Inr S1" and evs: "foldp (reindex_step C) S1 evs w1 = (Inr S', w')"
      by (rule scan_Cons_okE)
    from scan_event_snapshots(2) [OF e, of a k] Cons.IH(1) [OF evs] Cons.IH(2) [OF _ _ evs] 2(1,2) show ?case by auto
  }
qed simp_all

lemma foldp_each:
  assumes "foldp f b xs s = (Inr c, t)" and "x \<in> set xs"
  shows "\<exists>b s v t. f b x s = (Inr v, t)"
  using assms
proof (induction xs arbitrary: b s)
  case (Cons y ys)
  from Cons.prems(1) obtain v s1 where "f b y s = (Inr v, s1)" "foldp f v ys s1 = (Inr c, t)" by (auto elim!: bind_okE)
  with Cons show ?case by auto
qed simp

lemma add_snapshot_ConsE:
  assumes "foldp (add_snapshot ls) d (x # xs) (s :: 's) = (Inr d', s')"
  obtains a k ev c s1 where "x = (a, k, ev)" "resolve_identity_key a k ls = Inr c"
    "foldp (add_snapshot ls) (dict_set (a, c) ev d) xs (s1 :: 's) = (Inr d', s')"
proof -
  from assms obtain d1 s1 where "add_snapshot ls d x s = (Inr d1, s1)" "foldp (add_snapshot ls) d1 xs s1 = (Inr d', s')"
    by (auto elim!: bind_okE)
  then show thesis using that by (cases x) (auto simp: add_snapshot_def elim!: bind_okE)
qed

lemma dict_set_keys: "fst ` set d \<subseteq> fst ` set (dict_set y v d)" "y \<in> fst ` set (dict_set y v d)"
  unfolding dict_set_def by (rule image_upsert_subset, simp) (rule upsert_row_in, simp_all)

lemma resolved_snapshots:
  assumes "foldp (add_snapshot ls) d xs (s :: 's) = (Inr d', s')"
  shows "fst ` set d \<subseteq> fst ` set d'" and "(a, k, ev) \<in> set xs \<Longrightarrow> resolve_identity_key a k ls = Inr r \<Longrightarrow> (a, r) \<in> fst ` set d'"
  using assms
proof (induction xs arbitrary: d s)
  case (Cons x xs)
  {
    case 1
    then obtain a' k' ev' c and s1 :: 's where rest: "foldp (add_snapshot ls) (dict_set (a', c) ev' d) xs s1 = (Inr d', s')"
      by (rule add_snapshot_ConsE)
    from dict_set_keys(1) Cons.IH(1) [OF rest] show ?case by (rule order_trans)
  next
    case 2
    from 2(3) obtain a' k' ev' c and s1 :: 's where x: "x = (a', k', ev')" "resolve_identity_key a' k' ls = Inr c"
      and rest: "foldp (add_snapshot ls) (dict_set (a', c) ev' d) xs s1 = (Inr d', s')" by (rule add_snapshot_ConsE)
    show ?case
    proof (cases "(a, k, ev) \<in> set xs")
      case True
      then show ?thesis using Cons.IH(2) [OF _ 2(2) rest] by blast
    next
      case False
      with 2 x have "(a, r) = (a', c)" by auto
      with Cons.IH(1) [OF rest, THEN subsetD, OF dict_set_keys(2)] show ?thesis by simp
    qed
  }
qed simp_all

abbreviation item_key :: "prepared \<Rightarrow> string \<times> string" where
  "item_key item \<equiv> (ma_account_id (fst item), ma_source_item_key (fst item))"

lemma write_message_ids:
  assumes "write_message C (ids, mids) item d = (Inr v, d')"
  shows "\<exists>ids' i. v = (ids', dict_set (item_key item) i mids)"
proof -
  obtain a cnt place destination where item: "item = (a, cnt, place, destination)" by (cases item) auto
  from assms show ?thesis
    unfolding write_message_def item prod.case by (auto elim!: bind_okE split: prod.splits) (rule exI, rule refl)
qed

lemma written_ids:
  assumes "foldp (write_message C) (ids, mids) items d = (Inr (ids', mids'), d')" and "map_of mids' k = Some i"
  shows "map_of mids k \<noteq> None \<or> k \<in> item_key ` set items"
  using assms
proof (induction items arbitrary: ids mids d)
  case (Cons item items)
  from Cons.prems(1) obtain v d1 where v: "write_message C (ids, mids) item d = (Inr v, d1)"
    and rest: "foldp (write_message C) v items d1 = (Inr (ids', mids'), d')" by (auto elim!: bind_okE)
  from write_message_ids [OF v] obtain ids1 j where "v = (ids1, dict_set (item_key item) j mids)" by blast
  with Cons.IH [OF rest [unfolded this] Cons.prems(2)] show ?case by (auto split: if_splits)
qed simp

lemma snapshot_needs_item:
  assumes "write_rows C D P d = (Inr u, d')" and "k \<in> fst ` set (rd_snapshots D)"
  shows "k \<in> item_key ` set (rp_messages P)"
proof -
  from assms(1) obtain ids ids' mids d1 d2 d3 c d4 where
    fold: "foldp (write_message C) (ids, []) (rp_messages P) d1 = (Inr (ids', mids), d2)"
    and snaps: "foldp (write_snapshot mids) ids' (rd_snapshots D) d3 = (Inr c, d4)"
    unfolding write_rows_def by (auto elim!: bind_okE then_okE split: prod.splits)
  from assms(2) obtain ev where "(k, ev) \<in> set (rd_snapshots D)" by force
  from foldp_each [OF snaps this] obtain b s v t where "write_snapshot mids b (k, ev) s = (Inr v, t)" by blast
  then obtain i where "map_of mids k = Some i" by (cases k) (auto simp: write_snapshot_def split: option.splits)
  from written_ids [OF fold this] show ?thesis by simp
qed

text \<open>
  C36. One damaged file makes a rebuild fail. For a fetched message whose membership snapshot is in the
  manifest, as every synchronization writes it, and that is not purged, a missing or damaged file is skipped
  with a warning, and then no rebuild completes: the snapshot finds no message, which ends the run with an
  error inside the transaction.
\<close>

theorem damaged_file_aborts_reindex:
  assumes "reindex C w = (r, w')" and "latest fetch_of (disk_events (w_man w)) place = Some ev"
    and "event_text ev ''file_hash'' = Some hash" and "fetch_source_key ev place = Inr k"
    and "\<And>p. \<not> readable C (w_fs w) p hash"
    and "\<And>e k p. e \<in> set (disk_events (w_man w)) \<Longrightarrow> purge_of e \<noteq> Some (fst place, k, p, hash)"
    and "snap \<in> set (disk_events (w_man w))" and "snapshot_key snap = Some (fst place, k)"
  shows "\<forall>res. r = Inr res \<longrightarrow> rx_cancelled res"
  using assms(1)
proof (cases rule: reindex_run)
  case 1
  then show ?thesis by blast
next
  case (2 S w1 D P w3)
  note rs = reindex_resolve_ok [OF 2(2) scan_meaning(4) [OF 2(1)]]
  show ?thesis
  proof (intro allI impI)
    fix res
    assume "r = Inr res"
    with reindex_write_ok(2) [OF 2(7)] obtain u d where d: "write_rows C D P (w_db w3) = (Inr u, d)" by blast
    have fetch: "(place, ev) \<in> set (sc_fetches S)"
      using assms(2) scan_meaning(1) [OF 2(1)] by (simp add: map_of_SomeD)
    have key: "resolve_identity_key (fst place) k (sc_links S) = Inr (key_of D place)"
      using purged_meaning(1) [OF 2(1,2) fetch] assms(4) by (simp add: fetch_canonical_def)
    have snap: "(fst place, k, snap) \<in> set (sc_snapshots S)" by (rule scan_snapshots(2) [OF 2(1) assms(7,8)])
    obtain s s' where run: "foldp (add_snapshot (sc_links S)) [] (sc_snapshots S) (s :: 'a world) = (Inr (rd_snapshots D), s')"
      using 2(2) unfolding reindex_resolve_def resolve_snapshots_def by (auto elim!: bind_okE split: prod.splits)
    from snapshot_needs_item [OF d resolved_snapshots(2) [OF run snap key]] obtain item where item: "item \<in> set (rp_messages P)"
      "item_key item = (fst place, key_of D place)" by auto
    from prepare_messages_ok [OF 2(3)] item(1) 2(4) have "item_sound C D (w_fs w) (valid_fetches (rd_scan D)) item"
      by (simp add: prepared_all_def same_store_def)
    then obtain pl e path h where e: "(pl, e) \<in> set (sc_fetches S)" "event_text e ''file_hash'' = Some h"
      "is_purged D pl path h \<or> readable C (w_fs w) path h" "item_key item = (fst pl, key_of D pl)"
      unfolding item_sound_def prepared_from_def rs(1) by (fastforce simp: reindex_arg_columns)
    have "h = hash"
      using keys_cover_hash [OF rs(2) e(1,2)] keys_cover_hash [OF rs(2) fetch assms(3)] e(4) item(2) by simp
    with e(3) assms(5) have "is_purged D pl path hash" by blast
    from purged_meaning(3) [OF 2(1,2) e(1) this] assms(6) e(4) item(2) show "rx_cancelled res" by auto
  qed
qed

definition damaged_world :: "unit world" where
  "damaged_world = rebuild_world\<lparr>w_fs := \<lparr>fs_root = [''data''], fs_files = []\<rparr>,
     w_man := \<lparr>man_account = ''acc'', man_log = map (Pair ''202601'')
       [rebuild_account, rebuild_folder, rebuild_fetch 3 ''a'' (sha256 hash_env ''raw''),
        [(''event'', JStr ''message_membership_snapshot''), (''account_id'', JStr ''acc''),
         (''source_item_key'', JStr ''imap:SU5CT1g:7:3''), (''memberships'', JList [])]],
       man_synced = 4, man_seq = None\<rparr>\<rparr>"

theorem damaged_file_aborts_reindex_witness:
  "(\<nexists>res. fst (reindex rebuild_ctx damaged_world) = Inr res \<and> \<not> rx_cancelled res) \<and>
   fst (reindex rebuild_ctx damaged_world) = Inl (StorageError ''Membership snapshot has no canonical fetch'')"
proof
  let ?e = "rebuild_fetch 3 ''a'' (sha256 hash_env ''raw'')"
  let ?s = "[(''event'', JStr ''message_membership_snapshot''), (''account_id'', JStr ''acc''),
         (''source_item_key'', JStr ''imap:SU5CT1g:7:3''), (''memberships'', JList [])]"
  let ?evs = "disk_events (w_man damaged_world)"
  have evs: "?evs = [rebuild_account, rebuild_folder, ?e, ?s]" by code_simp
  have f: "latest fetch_of ?evs (''acc'', ''INBOX'', 7, 3) = Some ?e" "fetch_source_key ?e (''acc'', ''INBOX'', 7, 3) = Inr ''imap:SU5CT1g:7:3''"
    "snapshot_key ?s = Some (''acc'', ''imap:SU5CT1g:7:3'')" "list_all (\<lambda>e. purge_of e = None) ?evs"
    by code_simp+
  have gone: "\<not> readable rebuild_ctx (w_fs damaged_world) p h" for p h
    by (auto simp: readable_def read_verified_def read_eml_def damaged_world_def fs_lookup_def split: sum.splits if_splits)
  have run: "reindex rebuild_ctx damaged_world = (fst (reindex rebuild_ctx damaged_world), snd (reindex rebuild_ctx damaged_world))"
    by simp
  have "\<forall>res. fst (reindex rebuild_ctx damaged_world) = Inr res \<longrightarrow> rx_cancelled res"
    by (rule damaged_file_aborts_reindex [OF run f(1) rebuilt_facts(8) f(2) gone, of ?s])
      (use f(3,4) evs in \<open>auto simp: list_all_iff\<close>)
  then show "\<nexists>res. fst (reindex rebuild_ctx damaged_world) = Inr res \<and> \<not> rx_cancelled res" by blast
qed code_simp

end
