(* ===== verification/Verify_Props.thy ===== *)
theory Verify_Props
  imports Verify Reindex_Props
begin

text \<open>
  Properties of the verification of stored files: the orphan scan moves only files without a message and
  without provenance, and loses none; the full check reports exactly the inconsistent files.
\<close>

section \<open>Programs that only consult the token\<close>

definition remote_only :: "'r world \<Rightarrow> 'r world \<Rightarrow> bool" where
  "remote_only w w' \<longleftrightarrow> (\<exists>s. w' = w\<lparr>w_remote := s\<rparr>)"

lemma remote_only_refl [simp]: "remote_only w w"
  unfolding remote_only_def by (rule exI [of _ "w_remote w"]) simp

lemma remote_only_fields:
  assumes "remote_only w w'"
  shows "w_db w' = w_db w" "w_batch w' = w_batch w" "w_fs w' = w_fs w" "w_man w' = w_man w" "w_history w' = w_history w"
  using assms by (auto simp: remote_only_def)

lemma keeps_remote_only [intro]: "keeps (remote_only w) (on_remote m)"
  by (auto simp: keeps_def remote_only_def on_remote_def split: prod.split)

lemma keeps_catch_cancel [intro]: "keeps I m \<Longrightarrow> keeps I (catch_cancel m)"
  unfolding catch_cancel_def by (intro keeps_catch keeps_bind keeps_if keeps_ret keeps_raise)

lemma token_stopped_remote: "keeps (remote_only w) (token_stopped cancelled)"
  unfolding token_stopped_def by (intro keeps_bind keeps_catch_cancel keeps_remote_only keeps_ret)

lemma hash_chunks_remote: "keeps (remote_only w) (hash_chunks E cancelled path)"
  unfolding hash_chunks_def
  by (intro keeps_bind keeps_then keeps_forp keeps_remote_only keeps_ret keeps_gets keeps_lift_sum)

lemma run_remote_only:
  assumes "\<And>w. keeps (remote_only w) m" and "m w = (r, w')"
  shows "remote_only w w'"
  using keepsD [OF assms(1) remote_only_refl assms(2)] .

lemma hash_chunks_ok:
  assumes "hash_chunks E cancelled path w = (Inr (h, n), w')"
  shows "\<exists>bytes. read_eml path (w_fs w) = Inr bytes \<and> h = sha256 E bytes \<and> n = int (length bytes)"
proof (cases "read_eml path (w_fs w)")
  case (Inr bytes)
  with assms show ?thesis
    by (auto simp: hash_chunks_def run_bind run_then split: prod.splits sum.splits)
qed (use assms in \<open>simp add: hash_chunks_def run_bind\<close>)

lemma catch_cancel_ok: "catch_cancel m w = (Inr (Some x), w') \<Longrightarrow> m w = (Inr x, w')"
  by (auto simp: catch_cancel_def run_catch run_bind split: prod.splits sum.splits if_splits)

lemma keeps_bind_inv:
  "keeps I m \<Longrightarrow> (\<And>s x t. I s \<Longrightarrow> m s = (Inr x, t) \<Longrightarrow> keeps I (f x)) \<Longrightarrow> keeps I (bindp m f)"
  by (fastforce simp: keeps_def bindp_def split: prod.splits sum.splits)

lemma read_eml_plain:
  "list_all plain_part p \<Longrightarrow> p \<noteq> [] \<Longrightarrow> read_eml (path_text p) f = Inr bytes \<Longrightarrow> fs_lookup f p = Some bytes"
  by (auto simp: read_eml_def resolve_inside_text split: option.splits)

section \<open>Listing and dictionaries\<close>

lemma iter_eml_paths_set:
  assumes "iter_eml_paths None f = Inr paths"
  shows "set paths = path_text ` {p. eml_file [''eml''] p \<and> fs_lookup f p \<noteq> None}"
proof -
  from assms have "paths = map path_text (sort (filter (eml_file [''eml'']) (map fst (fs_files f))))"
    by (simp add: iter_eml_paths_def)
  then have "set paths = path_text ` {p \<in> set (map fst (fs_files f)). eml_file [''eml''] p}"
    by (simp only: set_map set_sort set_filter)
  also have "{p \<in> set (map fst (fs_files f)). eml_file [''eml''] p} = {p. eml_file [''eml''] p \<and> fs_lookup f p \<noteq> None}"
    by (auto simp: fs_lookup_def map_of_eq_None_iff)
  finally show ?thesis .
qed

lemma map_of_dict_by: "map_of (dict_by key xs) q = List.find (\<lambda>x. key x = Some q) (rev xs)"
proof (induction xs rule: rev_induct)
  case (snoc x xs)
  then show ?case by (cases "key x") (auto simp: dict_by_def)
qed (simp add: dict_by_def)

lemma in_map_filter: "y \<in> set (List.map_filter f xs) \<longleftrightarrow> (\<exists>x\<in>set xs. f x = Some y)"
  by (induction xs) (auto simp: List.map_filter_simps split: option.split)

lemma record_path_Some: "record_path r = Some p \<longleftrightarrow> msg_relative_path (rec_row r) = Some p \<and> p \<noteq> []"
  by (auto simp: record_path_def split: option.split)

lemma record_hash_Some: "record_hash r = Some h \<longleftrightarrow> msg_file_hash (rec_row r) = Some h \<and> h \<noteq> []"
  by (auto simp: record_hash_def split: option.split)

section \<open>The orphan scan\<close>

definition quarantine_place :: "(string \<Rightarrow> string) \<Rightarrow> string list \<Rightarrow> string list" where
  "quarantine_place unique p = [''tmp'', ''quarantine'', last p @ ''.'' @ unique (path_text p) @ ''.eml'']"

text \<open>The random names collide neither with each other nor with a file that is already there.\<close>

definition fresh_names :: "(string \<Rightarrow> string) \<Rightarrow> fs \<Rightarrow> bool" where
  "fresh_names unique f \<longleftrightarrow> inj_on (quarantine_place unique) (set (map fst (fs_files f))) \<and>
     list_all (\<lambda>p. fs_lookup f (quarantine_place unique p) = None) (map fst (fs_files f))"

text \<open>A file that the database names, and one that the manifest accounts for: the last event with
  its path has its digest and a key, and no stored message has the digest.\<close>

definition named_by_message :: "db \<Rightarrow> string \<Rightarrow> bool" where
  "named_by_message d path \<longleftrightarrow> (\<exists>m\<in>set (messages d). msg_relative_path m = Some path)"

definition has_provenance :: "db \<Rightarrow> event list \<Rightarrow> string \<Rightarrow> string \<Rightarrow> bool" where
  "has_provenance d evs path h \<longleftrightarrow>
    (\<exists>ev k. List.find (\<lambda>ev. provenance_path ev = Some path) (rev evs) = Some ev \<and>
       jget ev ''file_hash'' = JStr h \<and> jget ev ''source_item_key'' = JStr k) \<and>
    (\<forall>m\<in>set (messages d). msg_relative_path m \<noteq> None \<longrightarrow> msg_file_hash m \<noteq> Some h)"

definition true_orphan :: "env \<Rightarrow> db \<Rightarrow> event list \<Rightarrow> string list \<Rightarrow> string \<Rightarrow> bool" where
  "true_orphan E d evs p bytes \<longleftrightarrow> eml_file [''eml''] p \<and> \<not> named_by_message d (path_text p) \<and>
     \<not> has_provenance d evs (path_text p) (sha256 E bytes)"

definition moved_at_most :: "(string \<Rightarrow> string) \<Rightarrow> (string list \<Rightarrow> string \<Rightarrow> bool) \<Rightarrow> fs \<Rightarrow> fs \<Rightarrow> bool" where
  "moved_at_most unique orphan f0 f \<longleftrightarrow> (\<forall>p bytes. fs_lookup f0 p = Some bytes \<longrightarrow>
     fs_lookup f p = Some bytes \<or>
     fs_lookup f p = None \<and> fs_lookup f (quarantine_place unique p) = Some bytes \<and> orphan p bytes)"

lemma fs_lookup_file: "fs_lookup f p = Some bytes \<Longrightarrow> p \<in> set (map fst (fs_files f))"
  unfolding fs_lookup_def by (metis in_set_zipE map_of_SomeD zip_map_fst_snd)

lemma quarantine_moves:
  assumes inv: "moved_at_most unique orphan f0 f" and fresh: "fresh_names unique f0" and plain: "fs_plain f0"
    and q: "fs_lookup f0 q = Some b0" "eml_file [''eml''] q" "orphan q b0"
    and run: "quarantine (unique (path_text q)) (path_text q) f = (r, f')"
  shows "moved_at_most unique orphan f0 f'"
proof -
  have q_file: "q \<in> set (map fst (fs_files f0))" using q(1) by (rule fs_lookup_file)
  then have "list_all plain_part q" "q \<noteq> []" using plain by (auto simp: fs_plain_def)
  then have resolve: "resolve_inside (fs_root f) (path_text q) = Inr q" by (rule resolve_inside_text)
  have eml: "hd q = ''eml''" using q(2) by (cases q) (auto simp: eml_file_def)
  show ?thesis
  proof (cases "fs_lookup f q")
    case None
    with run resolve inv show ?thesis by (simp add: quarantine_def)
  next
    case (Some b)
    with inv q(1) have b: "b = b0" by (fastforce simp: moved_at_most_def)
    have ne: "q \<noteq> quarantine_place unique q'" for q' using eml by (auto simp: quarantine_place_def)
    have f': "fs_lookup f' x = (if x = quarantine_place unique q then Some b0 else if x = q then None else fs_lookup f x)" for x
      using run resolve Some b ne [of q] by (auto simp: quarantine_def quarantine_place_def fs_lookup_replace)
    show ?thesis unfolding moved_at_most_def
    proof (intro allI impI)
      fix p bytes
      assume p: "fs_lookup f0 p = Some bytes"
      then have p_file: "p \<in> set (map fst (fs_files f0))" by (rule fs_lookup_file)
      have "p \<noteq> quarantine_place unique q"
        using fresh q_file p by (auto simp: fresh_names_def list_all_iff)
      moreover have "quarantine_place unique p \<noteq> quarantine_place unique q" if "p \<noteq> q"
        using fresh p_file q_file that unfolding fresh_names_def by (meson inj_onD)
      ultimately show "fs_lookup f' p = Some bytes \<or>
          fs_lookup f' p = None \<and> fs_lookup f' (quarantine_place unique p) = Some bytes \<and> orphan p bytes"
        using inv p q ne [of p] by (cases "p = q") (auto simp: f' moved_at_most_def)
    qed
  qed
qed

text \<open>What one step of the scan keeps, for a path of the listing.\<close>

definition scan_inv :: "env \<Rightarrow> (string \<Rightarrow> string) \<Rightarrow> event list \<Rightarrow> 'r world \<Rightarrow> 'r world \<Rightarrow> bool" where
  "scan_inv E unique evs w w' \<longleftrightarrow> messages (w_db w') = messages (w_db w) \<and> w_man w' = w_man w \<and>
     moved_at_most unique (true_orphan E (w_db w) evs) (w_fs w) (w_fs w')"

lemma scan_inv_remote: "scan_inv E unique evs w w1 \<Longrightarrow> remote_only w1 w2 \<Longrightarrow> scan_inv E unique evs w w2"
  by (simp add: scan_inv_def remote_only_fields)

lemma stored_known:
  assumes "list_stored_messages None d = (Inr rs, d')"
  shows "d' = d" "path \<notin> set (List.map_filter record_path rs) \<Longrightarrow> path \<noteq> [] \<Longrightarrow> \<not> named_by_message d path"
    "h \<in> set (List.map_filter record_hash rs) \<Longrightarrow> \<exists>m\<in>set (messages d). msg_relative_path m \<noteq> None \<and> msg_file_hash m = Some h"
proof -
  from assms show "d' = d" by (simp add: list_stored_messages_def)
  from assms have rs: "rs = map (message_record_of d) (filter (\<lambda>m. msg_relative_path m \<noteq> None) (sort_key msg_id (messages d)))"
    by (auto simp: list_stored_messages_def)
  show "\<not> named_by_message d path" if "path \<notin> set (List.map_filter record_path rs)" "path \<noteq> []"
    using that rs by (force simp: named_by_message_def in_map_filter record_path_Some message_record_of_def)
  show "\<exists>m\<in>set (messages d). msg_relative_path m \<noteq> None \<and> msg_file_hash m = Some h"
    if "h \<in> set (List.map_filter record_hash rs)"
    using that rs
    by (auto simp: in_map_filter record_hash_Some message_record_of_def)
qed

lemma registerable_provenance:
  assumes "list_stored_messages None d = (Inr rs, d')" and "has_provenance d evs path h"
  shows "registerable (List.map_filter record_hash rs) (provenance evs) path h \<noteq> None"
proof -
  have "h \<notin> set (List.map_filter record_hash rs)"
    using stored_known(3) [OF assms(1), of h] assms(2) unfolding has_provenance_def by blast
  with assms(2) show ?thesis
    by (auto simp: has_provenance_def registerable_def provenance_def map_of_dict_by)
qed

lemma orphan_step_keeps:
  fixes w :: "'r world"
  assumes plain: "fs_plain (w_fs w)" and fresh: "fresh_names unique (w_fs w)"
    and q: "eml_file [''eml''] q" "fs_lookup (w_fs w) q \<noteq> None"
    and rs: "list_stored_messages None (w_db w) = (Inr rs, d')"
  shows "keeps (scan_inv E unique evs w)
    (orphan_step E cancelled unique (List.map_filter record_path rs) (List.map_filter record_hash rs) (provenance evs) R (path_text q))"
proof -
  let ?I = "scan_inv E unique evs w" and ?known = "List.map_filter record_path rs"
    and ?reg = "registerable (List.map_filter record_hash rs) (provenance evs) (path_text q)"
  from q(2) obtain b0 where b0: "fs_lookup (w_fs w) q = Some b0" by blast
  then have "q \<in> set (map fst (fs_files (w_fs w)))" by (rule fs_lookup_file)
  with plain have part: "list_all plain_part q" "q \<noteq> []" by (auto simp: fs_plain_def)
  have remote: "keeps ?I m" if "\<And>w. keeps (remote_only w) m" for m :: "('r world, 'a) prog"
    unfolding keeps_def using scan_inv_remote run_remote_only [OF that] by (metis prod.collapse)
  have unlink: "keeps ?I (thenp (on_fs (quarantine (unique (path_text q)) (path_text q)))
      (thenp (on_db (record_audit (orphan_audit E (path_text q)))) (ret R')))"
    if "path_text q \<notin> set ?known" "?reg (sha256 E b0) = None" for R'
  proof -
    have "true_orphan E (w_db w) evs q b0"
      using that q(1) stored_known(2) [OF rs] path_text_hd [OF part] registerable_provenance [OF rs]
      unfolding true_orphan_def by blast
    then have "keeps ?I (on_fs (quarantine (unique (path_text q)) (path_text q)))"
      using quarantine_moves [OF _ fresh plain b0 q(1)]
      by (fastforce simp: keeps_def on_fs_def scan_inv_def split: prod.splits)
    moreover have "keeps ?I (on_db (record_audit (orphan_audit E (path_text q))))"
      by (simp add: keeps_def on_db_def record_audit_def scan_inv_def)
    ultimately show ?thesis by (intro keeps_then keeps_ret)
  qed
  have found: "keeps ?I (case r of None \<Rightarrow> ret R0
      | Some (h, _) \<Rightarrow> (case ?reg h of Some k \<Rightarrow> ret (R1 h k)
        | None \<Rightarrow> thenp (on_fs (quarantine (unique (path_text q)) (path_text q)))
            (thenp (on_db (record_audit (orphan_audit E (path_text q)))) (ret R2))))"
    if "path_text q \<notin> set ?known" "?I w1" "catch_cancel (hash_chunks E cancelled (path_text q)) w1 = (Inr r, w2)"
    for R0 R1 R2 r w1 w2
  proof (cases r)
    case (Some x)
    obtain h n where x: "x = (h, n)" by fastforce
    from that(3) have "hash_chunks E cancelled (path_text q) w1 = (Inr (h, n), w2)"
      unfolding Some x by (rule catch_cancel_ok)
    from hash_chunks_ok [OF this] obtain bytes where "read_eml (path_text q) (w_fs w1) = Inr bytes" and h: "h = sha256 E bytes"
      by blast
    then have "fs_lookup (w_fs w1) q = Some bytes" by (rule_tac read_eml_plain [OF part])
    with that(2) b0 have "bytes = b0" by (fastforce simp: scan_inv_def moved_at_most_def)
    with h have h: "h = sha256 E b0" by simp
    show ?thesis
    proof (cases "?reg h")
      case None
      then show ?thesis unfolding Some x option.case prod.case by (simp only: option.case unlink [OF that(1)] h)
    next
      case (Some k)
      then show ?thesis unfolding \<open>r = Some x\<close> x by simp
    qed
  qed simp
  have checked: "keeps ?I (if path_text q \<in> set ?known then ret R3
      else bindp (catch_cancel (hash_chunks E cancelled (path_text q))) (\<lambda>r. case r of None \<Rightarrow> ret R0
      | Some (h, _) \<Rightarrow> (case ?reg h of Some k \<Rightarrow> ret (R1 h k)
        | None \<Rightarrow> thenp (on_fs (quarantine (unique (path_text q)) (path_text q)))
            (thenp (on_db (record_audit (orphan_audit E (path_text q)))) (ret R2)))))" for R0 R1 R2 R3
  proof (cases "path_text q \<in> set ?known")
    case False
    show ?thesis unfolding if_not_P [OF False]
      by (rule keeps_bind_inv [OF remote found [OF False]]) (rule keeps_catch_cancel, rule hash_chunks_remote)
  qed simp
  show ?thesis
    unfolding orphan_step_def Let_def
    by (rule keeps_if [OF keeps_ret keeps_bind [OF remote [OF token_stopped_remote] keeps_if [OF keeps_ret checked]]])
qed

text \<open>The events the scan looks at.\<close>

definition events_considered :: "bool \<Rightarrow> manifest \<Rightarrow> event list" where
  "events_considered with_manifest m = (case (if with_manifest then read_all_events m else Inr []) of Inl _ \<Rightarrow> [] | Inr evs \<Rightarrow> evs)"

text \<open>
  C12. The orphan scan loses nothing and touches only true orphans. However it ends, cancelled or with an
  error at any file, the messages of the database are unchanged, and every file that was stored is still
  at its place or, with the same bytes, in the quarantine directory. Only a message file below the
  directory of the messages is moved there, when no message names it and the manifest does not account for
  it: the last record with its path has another digest or no key, or a stored message has its digest.
\<close>

theorem orphan_scan_moves_only_true_orphans:
  assumes run: "orphan_scan E cancelled unique with_manifest w = (r, w')"
    and plain: "fs_plain (w_fs w)" and fresh: "fresh_names unique (w_fs w)"
    and stored: "fs_lookup (w_fs w) p = Some bytes"
  shows "messages (w_db w') = messages (w_db w) \<and> w_man w' = w_man w \<and>
    (fs_lookup (w_fs w') p = Some bytes \<or>
     fs_lookup (w_fs w') (quarantine_place unique p) = Some bytes \<and>
     true_orphan E (w_db w) (events_considered with_manifest (w_man w)) p bytes)"
proof -
  obtain paths where paths: "iter_eml_paths None (w_fs w) = Inr paths" by (simp add: iter_eml_paths_def)
  obtain rs where rs: "list_stored_messages None (w_db w) = (Inr rs, w_db w)" by (simp add: list_stored_messages_def)
  have start: "scan_inv E unique evs w w" for evs by (simp add: scan_inv_def moved_at_most_def)
  have "scan_inv E unique (events_considered with_manifest (w_man w)) w w'"
  proof (cases "if with_manifest then read_all_events (w_man w) else Inr []")
    case (Inl e)
    with run paths rs start show ?thesis by (simp add: orphan_scan_def run_bind)
  next
    case (Inr evs)
    let ?loop = "foldp (orphan_step E cancelled unique (List.map_filter record_path rs) (List.map_filter record_hash rs)
        (provenance evs)) \<lparr>os_checked = 0, os_registerable = [], os_quarantined = [], os_cancelled = False\<rparr> paths"
    from run paths rs Inr have loop: "?loop w = (r, w')" by (simp add: orphan_scan_def run_bind)
    have "keeps (scan_inv E unique evs w) ?loop"
    proof (rule keeps_foldp)
      fix R path
      assume "path \<in> set paths"
      with iter_eml_paths_set [OF paths] obtain q where "path = path_text q" "eml_file [''eml''] q" "fs_lookup (w_fs w) q \<noteq> None"
        by blast
      then show "keeps (scan_inv E unique evs w) (orphan_step E cancelled unique (List.map_filter record_path rs)
          (List.map_filter record_hash rs) (provenance evs) R path)"
        using orphan_step_keeps [OF plain fresh _ _ rs] by simp
    qed
    from keepsD [OF this start loop] Inr show ?thesis by (simp add: events_considered_def)
  qed
  with stored show ?thesis by (auto simp: scan_inv_def moved_at_most_def)
qed

section \<open>The full check\<close>

lemma run_never_cancelled:
  assumes "\<forall>s. \<exists>t. cancelled s = (Inr False, t)"
  shows "\<exists>w'. on_remote (raise_if_cancelled cancelled) w = (Inr (), w') \<and> remote_only w w'"
proof -
  from assms obtain t where "cancelled (w_remote w) = (Inr False, t)" by blast
  then show ?thesis by (auto simp: on_remote_def raise_if_cancelled_def remote_only_def run_bind)
qed

lemma remote_only_trans: "remote_only w w1 \<Longrightarrow> remote_only w1 w2 \<Longrightarrow> remote_only w w2"
  by (auto simp: remote_only_def)

lemma token_never_stopped:
  assumes "\<forall>s. \<exists>t. cancelled s = (Inr False, t)"
  shows "\<exists>w'. token_stopped cancelled w = (Inr False, w') \<and> remote_only w w'"
  using run_never_cancelled [OF assms, of w]
  by (auto simp: token_stopped_def catch_cancel_def run_bind run_catch)

lemma hash_never_cancelled:
  assumes "\<forall>s. \<exists>t. cancelled s = (Inr False, t)" and "read_eml path (w_fs w) = Inr bytes"
  shows "\<exists>w'. hash_chunks E cancelled path w = (Inr (sha256 E bytes, int (length bytes)), w') \<and> remote_only w w'"
proof -
  have "\<exists>w'. forp (\<lambda>_. on_remote (raise_if_cancelled cancelled)) xs w = (Inr (), w') \<and> remote_only w w'" for xs :: "nat list"
  proof (induction xs arbitrary: w)
    case (Cons x xs)
    from run_never_cancelled [OF assms(1), of w] obtain w1 where
      "on_remote (raise_if_cancelled cancelled) w = (Inr (), w1)" "remote_only w w1" by blast
    with Cons [of w1] show ?case by (auto simp: forp_def intro: remote_only_trans)
  qed (simp add: forp_def)
  then obtain w' where "forp (\<lambda>_. on_remote (raise_if_cancelled cancelled))
      [0..<nat ((int (length bytes) + 1048575) div 1048576)] w = (Inr (), w')" "remote_only w w'" by blast
  with assms(2) show ?thesis by (simp add: hash_chunks_def run_bind run_then)
qed

text \<open>
  What the full check compares a file with: the last stored message that names it, by digest and size
  where the message has them, or without a message the name that comes from the digest.
\<close>

definition file_consistent :: "env \<Rightarrow> db \<Rightarrow> string list \<Rightarrow> string \<Rightarrow> bool" where
  "file_consistent E d p bytes \<longleftrightarrow>
    (case List.find (\<lambda>m. msg_relative_path m = Some (path_text p)) (rev (sort_key msg_id (messages d))) of
       None \<Rightarrow> casefold (last p) = casefold (take 32 (sha256 E bytes) @ ''.eml'')
     | Some m \<Rightarrow> (msg_file_hash m \<notin> {None, Some []} \<longrightarrow> sha256 E bytes = casefold (the (msg_file_hash m))) \<and>
         msg_size_bytes m \<in> {None, Some (int (length bytes))})"

lemma find_record:
  assumes "path \<noteq> []"
  shows "map_option rec_row (List.find (\<lambda>r. record_path r = Some path)
      (map (message_record_of d) (filter (\<lambda>m. msg_relative_path m \<noteq> None) ms))) =
    List.find (\<lambda>m. msg_relative_path m = Some path) ms"
  by (induction ms) (auto simp: record_path_Some message_record_of_def assms)

lemma last_record_of_path:
  assumes "list_stored_messages None d = (Inr rs, d')" and "path \<noteq> []"
  shows "map_option rec_row (map_of (records_by_path rs) path) =
    List.find (\<lambda>m. msg_relative_path m = Some path) (rev (sort_key msg_id (messages d)))"
proof -
  from assms(1) have "rs = map (message_record_of d) (filter (\<lambda>m. msg_relative_path m \<noteq> None) (sort_key msg_id (messages d)))"
    by (auto simp: list_stored_messages_def)
  then have "rev rs = map (message_record_of d) (filter (\<lambda>m. msg_relative_path m \<noteq> None) (rev (sort_key msg_id (messages d))))"
    by (simp only: rev_map rev_filter)
  then show ?thesis unfolding records_by_path_def map_of_dict_by by (simp only: find_record [OF assms(2)])
qed

lemma full_issue_consistent:
  assumes "list_stored_messages None d = (Inr rs, d')" and plain: "list_all plain_part p" "p \<noteq> []"
  shows "vi_relative_path ` set (full_issue (records_by_path rs) (path_text p) (sha256 E bytes) (int (length bytes))) =
    (if file_consistent E d p bytes then {} else {path_text p})"
proof -
  have "path_text p \<noteq> []" using path_text_hd [OF plain] by blast
  note last = last_record_of_path [OF assms(1) this]
  show ?thesis
  proof (cases "map_of (records_by_path rs) (path_text p)")
    case None
    with last have "List.find (\<lambda>m. msg_relative_path m = Some (path_text p)) (rev (sort_key msg_id (messages d))) = None" by simp
    with None show ?thesis by (simp add: full_issue_def file_consistent_def Let_def path_parts_text [OF plain])
  next
    case (Some r)
    with last have m: "List.find (\<lambda>m. msg_relative_path m = Some (path_text p)) (rev (sort_key msg_id (messages d))) = Some (rec_row r)"
      by simp
    have "record_hash r \<noteq> None \<longleftrightarrow> msg_file_hash (rec_row r) \<notin> {None, Some []}"
      "record_hash r \<noteq> None \<Longrightarrow> record_hash r = msg_file_hash (rec_row r)"
      by (auto simp: record_hash_def split: option.splits)
    with Some m show ?thesis by (auto simp: full_issue_def file_consistent_def Let_def)
  qed
qed

lemma full_steps:
  assumes never: "\<forall>s. \<exists>t. cancelled s = (Inr False, t)" and plain: "fs_plain (w_fs w)"
    and "\<forall>p\<in>set ps. fs_lookup (w_fs w) p \<noteq> None" and "\<not> fv_cancelled V"
  shows "\<exists>w'. foldp (full_step E cancelled records) V (map path_text ps) w =
    (Inr (V\<lparr>fv_checked := fv_checked V + int (length ps),
       fv_issues := fv_issues V @ concat (map (\<lambda>p. full_issue records (path_text p)
         (sha256 E (the (fs_lookup (w_fs w) p))) (int (length (the (fs_lookup (w_fs w) p))))) ps)\<rparr>), w') \<and> remote_only w w'"
  using assms(2-4)
proof (induction ps arbitrary: V w)
  case (Cons p ps)
  from Cons.prems(2) obtain bytes where b: "fs_lookup (w_fs w) p = Some bytes" by auto
  have "list_all plain_part p" "p \<noteq> []" using Cons.prems(1) fs_lookup_file [OF b] by (auto simp: fs_plain_def)
  from resolve_inside_text [OF this, of "fs_root (w_fs w)"] b have r: "read_eml (path_text p) (w_fs w) = Inr bytes"
    by (simp add: read_eml_def)
  from token_never_stopped [OF never, of w] obtain w1 where w1: "token_stopped cancelled w = (Inr False, w1)" "remote_only w w1"
    by blast
  from hash_never_cancelled [OF never, of "path_text p" w1 bytes E] r w1 obtain w2 where
    w2: "hash_chunks E cancelled (path_text p) w1 = (Inr (sha256 E bytes, int (length bytes)), w2)" "remote_only w1 w2"
    by (auto simp: remote_only_fields)
  let ?V = "V\<lparr>fv_checked := fv_checked V + 1, fv_issues := fv_issues V @ full_issue records (path_text p) (sha256 E bytes) (int (length bytes))\<rparr>"
  have "full_step E cancelled records V (path_text p) w = (Inr ?V, w2)"
    using w1 w2 Cons.prems(3) by (simp add: full_step_def catch_cancel_def run_bind run_catch Let_def)
  moreover have fs: "w_fs w2 = w_fs w" and ro: "remote_only w w2"
    using w1(2) w2(2) by (auto simp: remote_only_fields intro: remote_only_trans)
  moreover obtain w' where "foldp (full_step E cancelled records) ?V (map path_text ps) w2 =
    (Inr (?V\<lparr>fv_checked := fv_checked ?V + int (length ps),
       fv_issues := fv_issues ?V @ concat (map (\<lambda>p. full_issue records (path_text p)
         (sha256 E (the (fs_lookup (w_fs w2) p))) (int (length (the (fs_lookup (w_fs w2) p))))) ps)\<rparr>), w')" "remote_only w2 w'"
    using Cons.IH [of w2 ?V] Cons.prems fs by auto
  ultimately show ?case using b by (auto simp: run_bind intro: remote_only_trans)
qed simp

text \<open>
  C13. The full check reports exactly the damaged files. Unless it is cancelled it always returns, changes
  nothing, looks at every message file, and the paths it reports are exactly those of the files that
  disagree with the last stored message naming them, or that no message names and whose name is not the
  one their digest gives.
\<close>

theorem full_verify_reports_exactly_the_damaged:
  assumes "\<forall>s. \<exists>t. cancelled s = (Inr False, t)" and "fs_plain (w_fs w)"
  shows "\<exists>R w'. full_verify E cancelled w = (Inr R, w') \<and> same_store w w' \<and> \<not> fv_cancelled R \<and>
    fv_checked R = int (length (filter (eml_file [''eml'']) (map fst (fs_files (w_fs w))))) \<and>
    vi_relative_path ` set (fv_issues R) =
      {path_text p |p bytes. eml_file [''eml''] p \<and> fs_lookup (w_fs w) p = Some bytes \<and> \<not> file_consistent E (w_db w) p bytes}"
proof -
  define ps where "ps = sort (filter (eml_file [''eml'']) (map fst (fs_files (w_fs w))))"
  obtain rs where rs: "list_stored_messages None (w_db w) = (Inr rs, w_db w)" by (simp add: list_stored_messages_def)
  let ?issues = "\<lambda>p. full_issue (records_by_path rs) (path_text p)
      (sha256 E (the (fs_lookup (w_fs w) p))) (int (length (the (fs_lookup (w_fs w) p))))"
  let ?V = "\<lparr>fv_checked = 0, fv_issues = [], fv_cancelled = False\<rparr>"
  have files: "p \<in> set ps \<longleftrightarrow> eml_file [''eml''] p \<and> fs_lookup (w_fs w) p \<noteq> None" for p
    by (auto simp: ps_def fs_lookup_def map_of_eq_None_iff)
  from full_steps [OF assms, of ps ?V E "records_by_path rs"] files obtain w' where
    "foldp (full_step E cancelled (records_by_path rs)) ?V (map path_text ps) w =
       (Inr (?V\<lparr>fv_checked := int (length ps), fv_issues := concat (map ?issues ps)\<rparr>), w')"
    and remote: "remote_only w w'" by auto
  then have "full_verify E cancelled w = (Inr (?V\<lparr>fv_checked := int (length ps), fv_issues := concat (map ?issues ps)\<rparr>), w')"
    using rs by (simp add: full_verify_def run_bind iter_eml_paths_def ps_def)
  moreover have "same_store w w'" using remote by (simp add: same_store_def remote_only_fields)
  moreover have "vi_relative_path ` set (?issues p) = (if file_consistent E (w_db w) p (the (fs_lookup (w_fs w) p)) then {} else {path_text p})"
    if p: "p \<in> set ps" for p
  proof (rule full_issue_consistent [OF rs])
    from p files obtain bytes where "fs_lookup (w_fs w) p = Some bytes" by blast
    then show "list_all plain_part p" "p \<noteq> []" using assms(2) fs_lookup_file [of "w_fs w" p bytes] by (auto simp: fs_plain_def)
  qed
  then have "vi_relative_path ` set (concat (map ?issues ps)) =
      {path_text p |p. p \<in> set ps \<and> \<not> file_consistent E (w_db w) p (the (fs_lookup (w_fs w) p))}"
    by (auto simp: image_UN)
  moreover have "{path_text p |p. p \<in> set ps \<and> \<not> file_consistent E (w_db w) p (the (fs_lookup (w_fs w) p))} =
      {path_text p |p bytes. eml_file [''eml''] p \<and> fs_lookup (w_fs w) p = Some bytes \<and> \<not> file_consistent E (w_db w) p bytes}"
    using files by fastforce
  ultimately show ?thesis by (auto simp: ps_def)
qed

section \<open>Witnesses\<close>

definition scan_world :: "unit world" where
  "scan_world = \<lparr>w_db = w_db rebuild_world, w_batch = None,
     w_fs = \<lparr>fs_root = [''data''], fs_files = [([''eml'', ''acc'', ''a.eml''], ''raw''), ([''eml'', ''acc'', ''b.eml''], ''raw'')]\<rparr>,
     w_man = w_man rebuild_world, w_remote = (), w_history = []\<rparr>"

lemma scan_world_ok: "fs_plain (w_fs scan_world)" "fresh_names (\<lambda>_. ''0f'') (w_fs scan_world)"
  "fs_lookup (w_fs scan_world) [''eml'', ''acc'', ''a.eml''] = Some ''raw''"
  by (simp_all add: scan_world_def fs_plain_def plain_part_def fresh_names_def quarantine_place_def fs_lookup_def)

theorem orphan_scan_moves_only_true_orphans_witness:
  "\<exists>r w'. orphan_scan hash_env (ret False) (\<lambda>_. ''0f'') False scan_world = (r, w') \<and>
    messages (w_db w') = [] \<and>
    (fs_lookup (w_fs w') [''eml'', ''acc'', ''a.eml''] = Some ''raw'' \<or>
     fs_lookup (w_fs w') [''tmp'', ''quarantine'', ''a.eml.0f.eml''] = Some ''raw'')"
proof -
  obtain r w' where run: "orphan_scan hash_env (ret False) (\<lambda>_. ''0f'') False scan_world = (r, w')" by fastforce
  from orphan_scan_moves_only_true_orphans [OF this scan_world_ok] run show ?thesis
    by (auto simp: quarantine_place_def scan_world_def rebuild_world_def)
qed

theorem full_verify_reports_exactly_the_damaged_witness:
  "\<exists>R w'. full_verify hash_env (ret False) scan_world = (Inr R, w') \<and> same_store scan_world w' \<and>
    fv_checked R = 2"
proof -
  have never: "\<forall>s. \<exists>t. (ret False :: (unit, bool) prog) s = (Inr False, t)" by simp
  have "length (filter (eml_file [''eml'']) (map fst (fs_files (w_fs scan_world)))) = 2"
    by (simp add: scan_world_def eml_file_def)
  with full_verify_reports_exactly_the_damaged [OF never scan_world_ok(1), of hash_env] show ?thesis
    by (metis of_nat_numeral)
qed

end
