(* ===== verification/Pst_Rebuild.thy ===== *)
theory Pst_Rebuild
  imports Pst_Manifest_Props Verify_Props
begin

text \<open>
  The rebuild of the PST generations (\<open>_rebuild_pst_manifests\<close> of
  \<^verbatim>\<open>infrastructure/database/reindex.py\<close>): the scan of the manifest directories, which finds the predecessor of
  each generation and the generations that were superseded, and the loop that rebuilds each generation after its
  predecessor. The rebuild of one generation (\<open>reindex_pst\<close>) and the look-up of its row are arguments.
\<close>

section \<open>Scan\<close>

text \<open>A directory: its name, its snapshot and its events as they are read.\<close>

record pst_directory =
  dir_name :: string
  dir_snapshot :: "error + event"
  dir_events :: "error + event list"

record pst_scan =
  gs_descriptors :: "(string \<times> string option) list"
  gs_superseded_at :: "(string \<times> string option) list"

definition text_of :: "json \<Rightarrow> string option" where
  "text_of v = (case v of JStr s \<Rightarrow> Some s | _ \<Rightarrow> None)"

text \<open>The predecessor and the superseded generations after one event.\<close>

definition scan_generation_event ::
  "string option \<times> (string \<times> string option) list \<Rightarrow> event \<Rightarrow> string option \<times> (string \<times> string option) list" where
  "scan_generation_event acc ev =
    (let (replaces, superseded) = acc in
     if jget ev ''event'' = JStr ''generation_switch_committed'' then
       (case jget ev ''replaces_import_uuid'' of
          JStr candidate \<Rightarrow> (Some candidate, dict_set candidate (text_of (jget ev ''timestamp'')) superseded)
        | _ \<Rightarrow> acc)
     else if jget ev ''event'' = JStr ''generation_restored'' then
       (case jget ev ''superseded_import_uuid'' of
          JStr candidate \<Rightarrow> (replaces, dict_set candidate (text_of (jget ev ''timestamp'')) superseded)
        | _ \<Rightarrow> acc)
     else acc)"

definition scan_directory_body :: "pst_scan \<Rightarrow> pst_directory \<Rightarrow> error + pst_scan" where
  "scan_directory_body S dir = (case validate_import_uuid (dir_name dir) of
     Inl e \<Rightarrow> Inl e
   | Inr _ \<Rightarrow> (case dir_snapshot dir of
       Inl e \<Rightarrow> Inl e
     | Inr snapshot \<Rightarrow> (case jget snapshot ''import_uuid'' of
         JStr import_uuid \<Rightarrow> (case dir_events dir of
             Inl e \<Rightarrow> Inl e
           | Inr evs \<Rightarrow>
               (let (replaces, superseded) = foldl scan_generation_event (None, gs_superseded_at S) evs
                in Inr \<lparr>gs_descriptors = dict_set import_uuid replaces (gs_descriptors S), gs_superseded_at = superseded\<rparr>))
       | _ \<Rightarrow> Inl (ValueError ''missing import_uuid''))))"

definition is_skipped :: "error \<Rightarrow> bool" where
  "is_skipped e \<longleftrightarrow> (case e of ValueError _ \<Rightarrow> True | TypeError _ \<Rightarrow> True | FileNotFoundError \<Rightarrow> True | _ \<Rightarrow> False)"

fun scan_directories :: "pst_scan \<Rightarrow> pst_directory list \<Rightarrow> error + pst_scan" where
  "scan_directories S [] = Inr S"
| "scan_directories S (dir # dirs) = (case scan_directory_body S dir of
     Inr S' \<Rightarrow> scan_directories S' dirs
   | Inl e \<Rightarrow> if is_skipped e then scan_directories S dirs else Inl e)"

section \<open>Loop\<close>

record pst_rebuild =
  rb_pending :: "string list"
  rb_rebuilt :: "(string \<times> int) list"
  rb_results :: "reindex_result list"
  rb_progress :: bool

text \<open>One generation of a round: it waits for its predecessor, is dropped when there is none, or rebuilt.\<close>

definition rebuild_generation ::
  "(string \<Rightarrow> bool \<Rightarrow> int option \<Rightarrow> string option \<Rightarrow> ('s, reindex_result) prog) \<Rightarrow> (string \<Rightarrow> ('s, int option) prog) \<Rightarrow>
   pst_scan \<Rightarrow> pst_rebuild \<Rightarrow> string \<Rightarrow> ('s, pst_rebuild) prog" where
  "rebuild_generation reindex_pst import_id S B import_uuid =
    (let replaces = (case map_of (gs_descriptors S) import_uuid of None \<Rightarrow> None | Some r \<Rightarrow> r);
         removed = B\<lparr>rb_pending := removeAll import_uuid (rb_pending B), rb_progress := True\<rparr> in
     case (case replaces of None \<Rightarrow> None | Some u \<Rightarrow> if u \<in> fst ` set (rb_rebuilt B) then None else Some u) of
       Some u \<Rightarrow> ret (if u \<in> fst ` set (gs_descriptors S) then B else removed)
     | None \<Rightarrow>
         (let is_active = (import_uuid \<notin> fst ` set (gs_superseded_at S)) in
          bindp (catchp (bindp (reindex_pst import_uuid is_active
                (case replaces of None \<Rightarrow> None | Some u \<Rightarrow> if u = [] then None else map_of (rb_rebuilt B) u)
                (case map_of (gs_superseded_at S) import_uuid of None \<Rightarrow> None | Some t \<Rightarrow> t)) (\<lambda>r. ret (Some r)))
              (\<lambda>e. if is_skipped e \<or> is_storage_error e then ret None else raise e)) (\<lambda>r. case r of
            None \<Rightarrow> ret removed
          | Some result \<Rightarrow> bindp (import_id import_uuid) (\<lambda>i.
              ret (removed\<lparr>rb_results := rb_results B @ [result],
                rb_rebuilt := (case i of None \<Rightarrow> rb_rebuilt B | Some n \<Rightarrow> dict_set import_uuid n (rb_rebuilt B))\<rparr>)))))"

text \<open>Rounds over the sorted pending generations while one makes progress; a round with progress removes a
  pending generation, so as many rounds as there are generations are enough.\<close>

fun rebuild_rounds ::
  "nat \<Rightarrow> (string \<Rightarrow> bool \<Rightarrow> int option \<Rightarrow> string option \<Rightarrow> ('s, reindex_result) prog) \<Rightarrow> (string \<Rightarrow> ('s, int option) prog) \<Rightarrow>
   pst_scan \<Rightarrow> pst_rebuild \<Rightarrow> ('s, pst_rebuild) prog" where
  "rebuild_rounds 0 reindex_pst import_id S B = ret B"
| "rebuild_rounds (Suc n) reindex_pst import_id S B =
    (if rb_pending B = [] then ret B
     else bindp (foldp (rebuild_generation reindex_pst import_id S) (B\<lparr>rb_progress := False\<rparr>) (sort (rb_pending B))) (\<lambda>B'.
       if rb_progress B' then rebuild_rounds n reindex_pst import_id S B' else ret B'))"

definition rebuild_pst_manifests ::
  "(string \<Rightarrow> bool \<Rightarrow> int option \<Rightarrow> string option \<Rightarrow> ('s, reindex_result) prog) \<Rightarrow> (string \<Rightarrow> ('s, int option) prog) \<Rightarrow>
   pst_directory list \<Rightarrow> ('s, pst_rebuild) prog" where
  "rebuild_pst_manifests reindex_pst import_id dirs =
    bindp (lift_sum (scan_directories \<lparr>gs_descriptors = [], gs_superseded_at = []\<rparr> (sort_key dir_name dirs))) (\<lambda>S.
      rebuild_rounds (length (gs_descriptors S)) reindex_pst import_id S
        \<lparr>rb_pending = map fst (gs_descriptors S), rb_rebuilt = [], rb_results = [], rb_progress = True\<rparr>)"

section \<open>Every generation gets its turn\<close>

definition waiting :: "pst_scan \<Rightarrow> pst_rebuild \<Rightarrow> string \<Rightarrow> bool" where
  "waiting S B u \<longleftrightarrow> (\<exists>v. map_of (gs_descriptors S) u = Some (Some v) \<and>
     v \<notin> fst ` set (rb_rebuilt B) \<and> v \<in> fst ` set (gs_descriptors S))"

lemma rebuild_generation_result:
  assumes "rebuild_generation f g S B u s = (Inr B', s')"
  shows "B' = B \<and> waiting S B u \<or> rb_pending B' = removeAll u (rb_pending B) \<and> rb_progress B'"
  using assms unfolding rebuild_generation_def waiting_def
  by (auto simp: Let_def run_bind run_catch split: option.splits if_splits prod.splits sum.splits)

lemma rebuild_round:
  assumes "foldp (rebuild_generation f g S) B us s = (Inr B', s')"
  shows "B' = B \<and> (\<forall>u\<in>set us. waiting S B u) \<or> rb_progress B' \<and> (\<exists>u\<in>set us. u \<notin> set (rb_pending B'))"
    and "set (rb_pending B') \<subseteq> set (rb_pending B)" and "distinct (rb_pending B) \<Longrightarrow> distinct (rb_pending B')"
    and "rb_progress B \<Longrightarrow> rb_progress B'"
proof -
  have "(B' = B \<and> (\<forall>u\<in>set us. waiting S B u) \<or> rb_progress B' \<and> (\<exists>u\<in>set us. u \<notin> set (rb_pending B'))) \<and>
    set (rb_pending B') \<subseteq> set (rb_pending B) \<and> (distinct (rb_pending B) \<longrightarrow> distinct (rb_pending B')) \<and>
    (rb_progress B \<longrightarrow> rb_progress B')"
    using assms
  proof (induction us arbitrary: B s)
    case (Cons u us)
    from Cons.prems obtain B1 s1 where B1: "rebuild_generation f g S B u s = (Inr B1, s1)"
      and rest: "foldp (rebuild_generation f g S) B1 us s1 = (Inr B', s')"
      by (auto simp: run_bind split: prod.splits sum.splits)
    from rebuild_generation_result [OF B1] Cons.IH [OF rest] show ?case
      by (elim disjE conjE) (auto simp: distinct_removeAll)
  qed simp
  then show "B' = B \<and> (\<forall>u\<in>set us. waiting S B u) \<or> rb_progress B' \<and> (\<exists>u\<in>set us. u \<notin> set (rb_pending B'))"
    "set (rb_pending B') \<subseteq> set (rb_pending B)" "distinct (rb_pending B) \<Longrightarrow> distinct (rb_pending B')"
    "rb_progress B \<Longrightarrow> rb_progress B'"
    by blast+
qed

lemma rebuild_rounds_end:
  assumes "rebuild_rounds n f g S B s = (Inr B', s')" and "length (rb_pending B) \<le> n" and "distinct (rb_pending B)"
  shows "\<forall>u\<in>set (rb_pending B'). waiting S B' u"
  using assms
proof (induction n arbitrary: B s)
  case (Suc n)
  show ?case
  proof (cases "rb_pending B = []")
    case False
    let ?B0 = "B\<lparr>rb_progress := False\<rparr>"
    from Suc.prems(1) False obtain B1 s1 where B1: "foldp (rebuild_generation f g S) ?B0 (sort (rb_pending B)) s = (Inr B1, s1)"
      and rest: "(if rb_progress B1 then rebuild_rounds n f g S B1 else ret B1) s1 = (Inr B', s')"
      by (auto simp: run_bind split: prod.splits sum.splits)
    note round = rebuild_round [OF B1]
    show ?thesis
    proof (cases "rb_progress B1")
      case True
      with round(1) have "\<exists>u\<in>set (rb_pending B). u \<notin> set (rb_pending B1)" by auto
      with round(2) have "set (rb_pending B1) \<subset> set (rb_pending B)" by auto
      then have "card (set (rb_pending B1)) < card (set (rb_pending B))" by (simp add: psubset_card_mono)
      then have "length (rb_pending B1) < length (rb_pending B)"
        using round(3) Suc.prems(3) by (simp add: distinct_card)
      with Suc.IH [of B1 s1] rest True round(3) Suc.prems(2,3) show ?thesis by simp
    next
      case False
      with round(1) rest have "B' = ?B0" "\<forall>u\<in>set (rb_pending B). waiting S ?B0 u" by auto
      then show ?thesis by simp
    qed
  qed (use Suc.prems in simp)
qed simp

lemma distinct_dict_set: "distinct (map fst d) \<Longrightarrow> distinct (map fst (dict_set k v d))"
  using uniq_upsert [of fst d "(k, v)" k "\<lambda>_. (k, v)"] by (simp add: dict_set_def uniq_def)

lemma keys_dict_set [simp]: "fst ` set (dict_set k v d) = insert k (fst ` set d)"
  by (simp flip: dom_map_of_conv_image_fst)

lemma scan_directories_distinct:
  assumes "scan_directories S dirs = Inr S'" and "distinct (map fst (gs_descriptors S))"
  shows "distinct (map fst (gs_descriptors S'))"
  using assms
proof (induction dirs arbitrary: S)
  case (Cons dir dirs)
  show ?case
  proof (cases "scan_directory_body S dir")
    case (Inl e)
    with Cons show ?thesis by (auto split: if_splits)
  next
    case (Inr S1)
    then have "distinct (map fst (gs_descriptors S1))"
      using Cons.prems(2)
      by (auto simp: scan_directory_body_def case_prod_unfold Let_def intro: distinct_dict_set split: sum.splits json.splits)
    with Inr Cons show ?thesis by simp
  qed
qed simp

text \<open>The rebuilt generations are closed under predecessors.\<close>

definition predecessors_first :: "pst_scan \<Rightarrow> pst_rebuild \<Rightarrow> bool" where
  "predecessors_first S B \<longleftrightarrow> (\<forall>u\<in>fst ` set (rb_rebuilt B). \<forall>v. map_of (gs_descriptors S) u = Some (Some v) \<longrightarrow>
     v \<in> fst ` set (rb_rebuilt B))"

lemma rebuild_generation_rebuilt:
  assumes "rebuild_generation f g S B u s = (Inr B', s')"
  shows "rb_rebuilt B' = rb_rebuilt B \<or> (\<exists>n. rb_rebuilt B' = dict_set u n (rb_rebuilt B) \<and>
    (\<forall>v. map_of (gs_descriptors S) u = Some (Some v) \<longrightarrow> v \<in> fst ` set (rb_rebuilt B)))"
  using assms unfolding rebuild_generation_def
  by (auto simp: Let_def run_bind run_catch split: option.splits if_splits prod.splits sum.splits)

lemma rebuild_generation_predecessors:
  assumes "rebuild_generation f g S B u s = (Inr B', s')" and "predecessors_first S B"
  shows "predecessors_first S B'"
  using rebuild_generation_rebuilt [OF assms(1)]
proof (elim disjE exE conjE)
  assume "rb_rebuilt B' = rb_rebuilt B"
  with assms(2) show ?thesis by (simp add: predecessors_first_def)
next
  fix n
  assume "rb_rebuilt B' = dict_set u n (rb_rebuilt B)"
    "\<forall>v. map_of (gs_descriptors S) u = Some (Some v) \<longrightarrow> v \<in> fst ` set (rb_rebuilt B)"
  with assms(2) show ?thesis unfolding predecessors_first_def by (simp only: keys_dict_set) blast
qed

lemma rebuild_rounds_predecessors:
  "rebuild_rounds n f g S B s = (Inr B', s') \<Longrightarrow> predecessors_first S B \<Longrightarrow> predecessors_first S B'"
proof (induction n arbitrary: B s)
  case (Suc n)
  have fold: "predecessors_first S B'" if "foldp (rebuild_generation f g S) B us s = (Inr B', s')" "predecessors_first S B" for B B' us s s'
    using that
  proof (induction us arbitrary: B s)
    case (Cons u us)
    then show ?case by (auto simp: run_bind split: prod.splits sum.splits dest: rebuild_generation_predecessors)
  qed simp
  show ?case
  proof (cases "rb_pending B = []")
    case False
    from Suc.prems(1) False obtain B1 s1 where
      B1: "foldp (rebuild_generation f g S) (B\<lparr>rb_progress := False\<rparr>) (sort (rb_pending B)) s = (Inr B1, s1)"
      and rest: "(if rb_progress B1 then rebuild_rounds n f g S B1 else ret B1) s1 = (Inr B', s')"
      by (auto simp: run_bind split: prod.splits sum.splits)
    from fold [OF B1] Suc.prems(2) have "predecessors_first S B1" by (simp add: predecessors_first_def)
    with rest Suc.IH [of B1 s1] show ?thesis by (simp split: if_splits)
  qed (use Suc.prems in simp)
qed simp

text \<open>
  The rebuild of the PST generations ends, in order and complete. When it returns, no generation that could be
  rebuilt is left: what is still pending waits for a predecessor that is known but was not rebuilt. And a
  generation is only rebuilt when its predecessor was.
\<close>

lemma pst_rebuild_is_complete:
  assumes "rebuild_pst_manifests reindex_pst import_id dirs s = (Inr B, s')"
  shows "\<exists>S. scan_directories \<lparr>gs_descriptors = [], gs_superseded_at = []\<rparr> (sort_key dir_name dirs) = Inr S \<and>
    predecessors_first S B \<and>
    (\<forall>u\<in>set (rb_pending B). \<exists>v. map_of (gs_descriptors S) u = Some (Some v) \<and>
       v \<in> fst ` set (gs_descriptors S) \<and> v \<notin> fst ` set (rb_rebuilt B))"
proof -
  let ?scan = "scan_directories \<lparr>gs_descriptors = [], gs_superseded_at = []\<rparr> (sort_key dir_name dirs)"
  from assms obtain S where S: "?scan = Inr S"
    by (cases ?scan) (auto simp: rebuild_pst_manifests_def run_bind)
  let ?B = "\<lparr>rb_pending = map fst (gs_descriptors S), rb_rebuilt = [], rb_results = [], rb_progress = True\<rparr>"
  from S assms have run: "rebuild_rounds (length (gs_descriptors S)) reindex_pst import_id S ?B s = (Inr B, s')"
    by (simp add: rebuild_pst_manifests_def run_bind)
  have "distinct (map fst (gs_descriptors S))" using scan_directories_distinct [OF S] by simp
  then have "\<forall>u\<in>set (rb_pending B). waiting S B u" by (intro rebuild_rounds_end [OF run]) simp_all
  moreover have "predecessors_first S B" by (rule rebuild_rounds_predecessors [OF run]) (simp add: predecessors_first_def)
  ultimately show ?thesis using S unfolding waiting_def by blast
qed

section \<open>Superseded generations\<close>

lemma scan_event_superseded:
  "fst ` set (snd acc) \<subseteq> fst ` set (snd (scan_generation_event acc ev))"
  by (auto simp: scan_generation_event_def case_prod_unfold split: json.splits)

lemma scan_events_superseded:
  "fst ` set (snd acc) \<subseteq> fst ` set (snd (foldl scan_generation_event acc evs))"
proof (induction evs arbitrary: acc)
  case (Cons ev evs)
  show ?case using order_trans [OF scan_event_superseded Cons.IH] by simp
qed simp

lemma scan_events_committed:
  assumes "ev \<in> set evs" and "jget ev ''event'' = JStr ''generation_switch_committed''" and "jget ev ''replaces_import_uuid'' = JStr old"
  shows "old \<in> fst ` set (snd (foldl scan_generation_event acc evs))"
  using assms(1)
proof (induction evs arbitrary: acc)
  case (Cons e evs)
  show ?case
  proof (cases "ev \<in> set evs")
    case False
    with Cons.prems have "e = ev" by simp
    with assms(2,3) have "old \<in> fst ` set (snd (scan_generation_event acc e))"
      by (simp add: scan_generation_event_def case_prod_unfold)
    with scan_events_superseded [of "scan_generation_event acc e" evs] show ?thesis by auto
  qed (use Cons.IH in simp)
qed simp

definition superseded_set :: "pst_scan \<Rightarrow> string set" where
  "superseded_set S = fst ` set (gs_superseded_at S)"

lemma scan_body_superseded:
  assumes "scan_directory_body S dir = Inr S'"
  shows "superseded_set S \<subseteq> superseded_set S'"
proof -
  from assms obtain evs where "gs_superseded_at S' = snd (foldl scan_generation_event (None, gs_superseded_at S) evs)"
    by (auto simp: scan_directory_body_def case_prod_unfold Let_def split: sum.splits json.splits)
  with scan_events_superseded [of "(None, gs_superseded_at S)" evs] show ?thesis by (simp add: superseded_set_def)
qed

lemma scan_directories_superseded:
  "scan_directories S dirs = Inr S' \<Longrightarrow> superseded_set S \<subseteq> superseded_set S'"
proof (induction dirs arbitrary: S)
  case (Cons dir dirs)
  then show ?case
    by (cases "scan_directory_body S dir") (auto split: if_splits dest: scan_body_superseded)
qed simp

text \<open>
  C39. A rebuild forgets restorations. As soon as the readable manifest of some generation records a committed switch
  from an older one, the rebuild never makes the older one active, whatever the manifests record
  afterwards: its result does not depend on how an active rebuild of that generation would behave. After
  a generation was restored, neither it nor the one it superseded is active in the rebuilt database.
\<close>

theorem replaced_generation_is_never_rebuilt_active:
  assumes dir: "dir \<in> set dirs" "validate_import_uuid (dir_name dir) = Inr ()" "dir_snapshot dir = Inr snapshot"
      "jget snapshot ''import_uuid'' = JStr new" "dir_events dir = Inr evs"
    and ev: "ev \<in> set evs" "jget ev ''event'' = JStr ''generation_switch_committed''" "jget ev ''replaces_import_uuid'' = JStr old"
    and eq: "\<And>u active i t. u \<noteq> old \<or> \<not> active \<Longrightarrow> f u active i t = g u active i t"
  shows "rebuild_pst_manifests f import_id dirs = rebuild_pst_manifests g import_id dirs"
proof -
  have scan: "old \<in> superseded_set S'" if "scan_directories S ds = Inr S'" "dir \<in> set ds" for S S' ds
    using that
  proof (induction ds arbitrary: S)
    case (Cons d ds)
    show ?case
    proof (cases "dir \<in> set ds")
      case True
      with Cons show ?thesis by (auto split: sum.splits if_splits)
    next
      case False
      with Cons.prems have "d = dir" by simp
      with dir obtain S1 where S1: "scan_directory_body S d = Inr S1"
        and at: "gs_superseded_at S1 = snd (foldl scan_generation_event (None, gs_superseded_at S) evs)"
        by (simp add: scan_directory_body_def case_prod_unfold Let_def)
      have "old \<in> superseded_set S1" unfolding superseded_set_def at by (rule scan_events_committed [OF ev])
      with S1 Cons.prems scan_directories_superseded [of S1 ds S'] show ?thesis by auto
    qed
  qed simp
  have gen: "rebuild_generation f import_id S = rebuild_generation g import_id S" if "old \<in> superseded_set S" for S
  proof (intro ext)
    fix B u s
    have "f u (u \<notin> fst ` set (gs_superseded_at S)) = g u (u \<notin> fst ` set (gs_superseded_at S))"
      using that eq by (auto simp: superseded_set_def fun_eq_iff)
    then show "rebuild_generation f import_id S B u s = rebuild_generation g import_id S B u s"
      by (simp only: rebuild_generation_def Let_def)
  qed
  have "rebuild_rounds n f import_id S B = rebuild_rounds n g import_id S B" if "old \<in> superseded_set S" for n S B
    by (induction n arbitrary: B) (simp_all add: gen [OF that] cong: if_cong)
  with scan dir(1) show ?thesis
    unfolding rebuild_pst_manifests_def
    by (cases "scan_directories \<lparr>gs_descriptors = [], gs_superseded_at = []\<rparr> (sort_key dir_name dirs)")
      (simp_all add: fun_eq_iff run_bind)
qed

section \<open>Witnesses\<close>

text \<open>Two generations: the second replaced the first, which was restored afterwards.\<close>

definition second_uuid :: string where
  "second_uuid = ''00000000-0000-4000-8000-000000000001''"

lemma second_uuid_valid: "validate_import_uuid second_uuid = Inr ()"
  by (simp add: validate_import_uuid_def parse_uuid_def second_uuid_def text_replace.simps rstrip_def hex_int_def is_space_def
      hex_value_def hex_digit_def uuid_version_def)

definition first_dir :: pst_directory where
  "first_dir = \<lparr>dir_name = sample_uuid, dir_snapshot = Inr [(''import_uuid'', JStr sample_uuid)],
     dir_events = Inr [[(''event'', JStr ''generation_restored''), (''import_uuid'', JStr sample_uuid),
       (''restored_import_uuid'', JStr sample_uuid), (''superseded_import_uuid'', JStr second_uuid)]]\<rparr>"

definition switch_event :: event where
  "switch_event = [(''event'', JStr ''generation_switch_committed''), (''import_uuid'', JStr second_uuid),
     (''replaces_import_uuid'', JStr sample_uuid)]"

definition second_dir :: pst_directory where
  "second_dir = \<lparr>dir_name = second_uuid, dir_snapshot = Inr [(''import_uuid'', JStr second_uuid)],
     dir_events = Inr [switch_event]\<rparr>"

definition log_rebuild :: "string \<Rightarrow> bool \<Rightarrow> int option \<Rightarrow> string option \<Rightarrow> ((string \<times> bool) list, reindex_result) prog" where
  "log_rebuild u active i t = thenp (modify (\<lambda>l. l @ [(u, active)]))
     (ret \<lparr>rx_accounts = 1, rx_folders = 0, rx_messages = 0, rx_contents = 0, rx_purged = 0, rx_skipped = 0,
       rx_warnings = [], rx_cancelled = False\<rparr>)"

lemma sample_generations:
  "scan_directories \<lparr>gs_descriptors = [], gs_superseded_at = []\<rparr> (sort_key dir_name [first_dir, second_dir]) =
   Inr \<lparr>gs_descriptors = [(sample_uuid, None), (second_uuid, Some sample_uuid)],
     gs_superseded_at = [(second_uuid, None), (sample_uuid, None)]\<rparr>"
proof -
  have "sort_key dir_name [first_dir, second_dir] = [first_dir, second_dir]"
    by (simp add: first_dir_def second_dir_def sample_uuid_def second_uuid_def)
  then show ?thesis
    using sample_uuid_valid second_uuid_valid
    by (simp add: scan_directory_body_def first_dir_def second_dir_def switch_event_def scan_generation_event_def dict_set_def
        upsert_row_def text_of_def sample_uuid_def second_uuid_def)
qed

abbreviation sample_rebuild where
  "sample_rebuild f \<equiv> rebuild_pst_manifests f (\<lambda>_. ret (Some 1)) [first_dir, second_dir] []"

lemma sample_rebuild_runs:
  "snd (sample_rebuild log_rebuild) = [(sample_uuid, False), (second_uuid, False)]" "\<not> isl (fst (sample_rebuild log_rebuild))"
  unfolding rebuild_pst_manifests_def sample_generations lift_sum_def bindp_def by code_simp+

lemma pst_rebuild_is_complete_witness:
  "\<exists>B. sample_rebuild log_rebuild = (Inr B, [(sample_uuid, False), (second_uuid, False)]) \<and>
    (\<exists>S. scan_directories \<lparr>gs_descriptors = [], gs_superseded_at = []\<rparr> (sort_key dir_name [first_dir, second_dir]) = Inr S \<and>
      predecessors_first S B)"
proof -
  obtain B where run: "sample_rebuild log_rebuild = (Inr B, [(sample_uuid, False), (second_uuid, False)])"
    using sample_rebuild_runs by (metis prod.collapse sum.collapse(2))
  with pst_rebuild_is_complete [OF run] show ?thesis by blast
qed

theorem replaced_generation_is_never_rebuilt_active_witness:
  "sample_rebuild log_rebuild =
     sample_rebuild (\<lambda>u active i t. if u = sample_uuid \<and> active then raise FileNotFoundError else log_rebuild u active i t) \<and>
   snd (sample_rebuild log_rebuild) = [(sample_uuid, False), (second_uuid, False)]"
proof (rule conjI [OF _ sample_rebuild_runs(1)], rule fun_cong [where x = "[]"],
    rule replaced_generation_is_never_rebuilt_active [of second_dir])
  show "switch_event \<in> set [switch_event]" "jget switch_event ''event'' = JStr ''generation_switch_committed''"
    "jget switch_event ''replaces_import_uuid'' = JStr sample_uuid"
    by (simp_all add: switch_event_def)
  show "validate_import_uuid (dir_name second_dir) = Inr ()" by (simp add: second_dir_def second_uuid_valid)
  show "dir_snapshot second_dir = Inr [(''import_uuid'', JStr second_uuid)]" "dir_events second_dir = Inr [switch_event]"
    by (simp_all add: second_dir_def)
qed auto

end
