(* ===== verification/Pst_Snapshots.thy ===== *)
theory Pst_Snapshots
  imports Pst_Manifest_Props
begin

text \<open>
  The snapshot files of a PST import, \<^verbatim>\<open>import.json\<close> and \<^verbatim>\<open>folders.json\<close>
  (\<^verbatim>\<open>infrastructure/storage/pst_manifest.py\<close>): their schema with the digest of their contents, reading, and writing,
  which never replaces a snapshot by a different one. A file is the bytes it holds, or \<open>None\<close> when it is not there.
\<close>

section \<open>Schema\<close>

definition content_hash_field :: string where
  "content_hash_field = ''content_sha256''"

definition without_hash :: "event \<Rightarrow> event" where
  "without_hash p = filter (\<lambda>(k, _). k \<noteq> content_hash_field) p"

definition with_version :: "event \<Rightarrow> event" where
  "with_version p = (if has_key p ''schema_version'' then p else p @ [(''schema_version'', JInt 1)])"

definition with_content_hash :: "env \<Rightarrow> codec \<Rightarrow> event \<Rightarrow> event" where
  "with_content_hash E C p =
    (let content = with_version (without_hash p)
     in content @ [(content_hash_field, JStr (sha256 E (dumps C content)))])"

definition import_required :: "string list" where
  "import_required = [''account_id'', ''display_name'', ''import_uuid'', ''created_at'', ''source_filename'', ''source_sha256'',
     ''source_size_bytes'', ''source_mtime'', ''source_file_identity'', ''readpst_version'', ''options'']"

definition is_object :: "json \<Rightarrow> bool" where
  "is_object v \<longleftrightarrow> (case v of JObj _ \<Rightarrow> True | _ \<Rightarrow> False)"

text \<open>The digest of the contents: its form, then its value.\<close>

definition content_hash_checks :: "env \<Rightarrow> codec \<Rightarrow> string \<Rightarrow> event \<Rightarrow> (error + unit) list" where
  "content_hash_checks E C kind p =
    [validate_sha256 p content_hash_field,
     check (jget p content_hash_field = jget (with_content_hash E C (without_hash p)) content_hash_field)
       (ValueError (kind @ '' manifest content_sha256 does not match its contents''))]"

definition validate_import_snapshot :: "env \<Rightarrow> codec \<Rightarrow> event \<Rightarrow> error + unit" where
  "validate_import_snapshot E C p = all_checks (
    [check (py_value (jget p ''schema_version'') = JInt 1) (ValueError ''unsupported PST import manifest schema version''),
     check (list_all (has_key p) import_required) (ValueError ''import manifest is missing required fields''),
     pst_require_text p ''import_uuid'' ''import manifest'', pst_require_uuid p ''import_uuid'',
     pst_require_text p ''account_id'' ''import manifest'', pst_require_text p ''display_name'' ''import manifest'',
     pst_require_text p ''source_filename'' ''import manifest'', pst_require_text p ''readpst_version'' ''import manifest'',
     pst_timestamp_check E (jget p ''created_at''), validate_sha256 p ''source_sha256'',
     check (case jget p ''source_size_bytes'' of JInt n \<Rightarrow> 0 \<le> n | _ \<Rightarrow> False)
       (ValueError ''import manifest source_size_bytes must be a non-negative integer''),
     check (is_object (jget p ''source_file_identity'')) (ValueError ''import manifest source_file_identity must be an object''),
     check (is_object (jget p ''options'')) (ValueError ''import manifest options must be an object'')] @
    content_hash_checks E C ''import'' p)"

fun folder_entry_checks :: "string list \<Rightarrow> json list \<Rightarrow> error + unit" where
  "folder_entry_checks seen [] = Inr ()"
| "folder_entry_checks seen (JObj f # rest) = (case all_checks
    [check (has_key f ''raw_name'' \<and> has_key f ''display_name'') (ValueError ''folder manifest entry is missing required fields''),
     check (is_text (jget f ''raw_name'')) (ValueError ''folder manifest raw_name must be a non-empty string''),
     check (is_text (jget f ''display_name'')) (ValueError ''folder manifest display_name must be a non-empty string''),
     check (jget f ''raw_name'' \<notin> JStr ` set seen) (ValueError ''folder manifest raw_name is duplicated''),
     check (has_key f ''original_name_unresolved'' \<longrightarrow> is_bool (jget f ''original_name_unresolved''))
       (TypeError ''folder manifest original_name_unresolved must be a boolean'')] of
       Inl e \<Rightarrow> Inl e
     | Inr _ \<Rightarrow> folder_entry_checks (case jget f ''raw_name'' of JStr raw \<Rightarrow> raw # seen | _ \<Rightarrow> seen) rest)"
| "folder_entry_checks seen (v # rest) = Inl (ValueError ''folder manifest entries must be objects'')"

definition validate_folders_snapshot :: "env \<Rightarrow> codec \<Rightarrow> event \<Rightarrow> error + unit" where
  "validate_folders_snapshot E C p =
    (if py_value (jget p ''schema_version'') \<noteq> JInt 1 then Inl (ValueError ''unsupported PST folder manifest schema version'')
     else case jget p ''folders'' of
       JList fs \<Rightarrow> all_checks (folder_entry_checks [] fs # content_hash_checks E C ''folder'' p)
     | _ \<Rightarrow> Inl (ValueError ''folder manifest folders must be an array''))"

section \<open>Files\<close>

datatype snapshot_kind = ImportSnapshot | FoldersSnapshot

definition validate_snapshot :: "env \<Rightarrow> codec \<Rightarrow> snapshot_kind \<Rightarrow> event \<Rightarrow> error + unit" where
  "validate_snapshot E C kind p = (case kind of
     ImportSnapshot \<Rightarrow> validate_import_snapshot E C p | FoldersSnapshot \<Rightarrow> validate_folders_snapshot E C p)"

definition read_snapshot :: "env \<Rightarrow> codec \<Rightarrow> snapshot_kind \<Rightarrow> string option \<Rightarrow> error + event" where
  "read_snapshot E C kind bytes = (case Option.bind bytes (loads C) of
     None \<Rightarrow> Inl (ManifestCorruptError ''PST manifest snapshot cannot be read'')
   | Some (JObj p) \<Rightarrow> (case validate_snapshot E C kind p of
         Inl _ \<Rightarrow> Inl (ManifestCorruptError ''PST manifest snapshot does not satisfy its schema'')
       | Inr _ \<Rightarrow> Inr p)
   | Some _ \<Rightarrow> Inl (ManifestCorruptError ''PST manifest snapshot must be a JSON object''))"

definition same_object :: "event \<Rightarrow> event \<Rightarrow> bool" where
  "same_object p q \<longleftrightarrow> py_value (JObj p) = py_value (JObj q)"

definition atomic_write_json :: "env \<Rightarrow> codec \<Rightarrow> snapshot_kind \<Rightarrow> event \<Rightarrow> (string option, unit) prog" where
  "atomic_write_json E C kind p = (\<lambda>old. case old of
     None \<Rightarrow> (Inr (), Some (dumps C p @ [newline]))
   | Some _ \<Rightarrow> (case read_snapshot E C kind old of
         Inl e \<Rightarrow> (Inl e, old)
       | Inr existing \<Rightarrow>
           if same_object existing p then (Inr (), old)
           else (Inl (ValueError ''PST manifest snapshot is immutable''), old)))"

definition write_snapshot_file :: "env \<Rightarrow> codec \<Rightarrow> snapshot_kind \<Rightarrow> event \<Rightarrow> (string option, unit) prog" where
  "write_snapshot_file E C kind p =
    (let validated = with_content_hash E C p in
     thenp (lift_sum (validate_snapshot E C kind validated)) (atomic_write_json E C kind validated))"

definition write_import_manifest :: "env \<Rightarrow> codec \<Rightarrow> event \<Rightarrow> (string option, unit) prog" where
  "write_import_manifest E C snapshot = write_snapshot_file E C ImportSnapshot (with_version snapshot)"

definition write_folders_manifest :: "env \<Rightarrow> codec \<Rightarrow> json list \<Rightarrow> (string option, unit) prog" where
  "write_folders_manifest E C fs = write_snapshot_file E C FoldersSnapshot [(''folders'', JList fs)]"

definition read_folders_manifest :: "env \<Rightarrow> codec \<Rightarrow> string option \<Rightarrow> error + json list" where
  "read_folders_manifest E C bytes = (case read_snapshot E C FoldersSnapshot bytes of
     Inl e \<Rightarrow> Inl e
   | Inr p \<Rightarrow> (case jget p ''folders'' of
       JList fs \<Rightarrow> Inr fs | _ \<Rightarrow> Inl (ManifestCorruptError ''PST folder manifest folders must be an array'')))"

section \<open>Schema and key order\<close>

text \<open>What the code relies on of \<open>json.dumps\<close> with \<open>sort_keys\<close>: the order of the keys of an object does not
  matter.\<close>

definition sorts_keys :: "codec \<Rightarrow> bool" where
  "sorts_keys C \<longleftrightarrow> (\<forall>ev. wf_event ev \<longrightarrow> dumps C (canon_event ev) = dumps C ev)"

lemma without_hash_canon: "without_hash (canon_event p) = canon_event (without_hash p)"
proof -
  have "filter (\<lambda>(k, _). k \<noteq> content_hash_field) (map (map_prod id canon) p) =
      map (map_prod id canon) (filter (\<lambda>(k, _). k \<noteq> content_hash_field) p)"
    by (induction p) auto
  then show ?thesis unfolding without_hash_def canon_event_def by (simp only: filter_sort)
qed

lemma wf_without_hash: "wf_event p \<Longrightarrow> wf_event (without_hash p)"
  by (auto simp: wf_event_def without_hash_def distinct_map_filter list_all_iff)

lemma without_hash_idem [simp]: "without_hash (without_hash p) = without_hash p"
  by (simp add: without_hash_def)

lemma jget_content_hash:
  "jget (with_content_hash E C p) content_hash_field = JStr (sha256 E (dumps C (with_version (without_hash p))))"
proof -
  have "content_hash_field \<notin> fst ` set (with_version (without_hash p))"
    by (auto simp: with_version_def without_hash_def content_hash_field_def)
  then show ?thesis by (simp add: with_content_hash_def Let_def jget_def map_add_def map_of_eq_None_iff [THEN iffD2])
qed

lemma has_key_without_hash [simp]: "has_key (without_hash p) ''schema_version'' = has_key p ''schema_version''"
  by (force simp: has_key_def without_hash_def content_hash_field_def)

lemma content_hash_checks_canon:
  assumes "sorts_keys C" and "wf_event p" and "has_key p ''schema_version''"
  shows "content_hash_checks E C kind (canon_event p) = content_hash_checks E C kind p"
proof -
  have "with_version (without_hash (canon_event p)) = canon_event (without_hash p)"
    "with_version (without_hash p) = without_hash p"
    using assms(3) by (simp_all add: with_version_def without_hash_canon)
  then have "dumps C (with_version (without_hash (canon_event p))) = dumps C (with_version (without_hash p))"
    using assms(1) wf_without_hash [OF assms(2)] by (simp add: sorts_keys_def)
  then show ?thesis
    using assms(2) by (simp add: content_hash_checks_def jget_content_hash validate_sha256_def sha256_text_def jget_canon_event)
qed

lemma folder_entry_checks_canon:
  "list_all wf_json fs \<Longrightarrow> folder_entry_checks seen (map canon fs) = folder_entry_checks seen fs"
proof (induction seen fs rule: folder_entry_checks.induct)
  case (2 seen f rest)
  then have wf: "wf_event f" "list_all wf_json rest" by (simp_all add: wf_event_def)
  have "canon (jget f ''raw_name'') \<in> JStr ` set seen \<longleftrightarrow> jget f ''raw_name'' \<in> JStr ` set seen" by (auto simp: image_iff)
  with 2 wf show ?case
    by (simp only: list.map canon_event_JObj folder_entry_checks.simps)
      (simp add: jget_canon_event split: sum.split)
qed simp_all

lemma version_key: "py_value (jget p ''schema_version'') = JInt 1 \<Longrightarrow> has_key p ''schema_version''"
  by (cases "map_of p ''schema_version''") (force simp: jget_def has_key_def py_value_def dest: map_of_SomeD)+

lemma wf_jget_list: "wf_event p \<Longrightarrow> jget p k = JList fs \<Longrightarrow> list_all wf_json fs"
  by (auto simp: wf_event_def jget_def list_all_iff split: option.splits dest!: map_of_SomeD)

lemma is_object_canon [simp]: "is_object (canon v) = is_object v"
  by (cases v) (simp_all add: is_object_def)

lemma has_key_canon_list [simp]: "has_key (canon_event p) = has_key p"
  by (simp add: fun_eq_iff)

lemma validate_import_canon:
  assumes "sorts_keys C" and "wf_event p"
  shows "validate_import_snapshot E C p = Inr () \<Longrightarrow> validate_import_snapshot E C (canon_event p) = Inr ()"
proof -
  assume ok: "validate_import_snapshot E C p = Inr ()"
  then have "has_key p ''schema_version''" by (intro version_key) (auto simp: validate_import_snapshot_def all_checks_Inr)
  from content_hash_checks_canon [OF assms this] assms(2) ok show ?thesis
    by (simp add: validate_import_snapshot_def pst_require_text_def pst_require_uuid_def pst_timestamp_check_def
      validate_sha256_def sha256_text_def jget_canon_event)
qed

lemma validate_folders_canon:
  assumes "sorts_keys C" and "wf_event p"
  shows "validate_folders_snapshot E C p = Inr () \<Longrightarrow> validate_folders_snapshot E C (canon_event p) = Inr ()"
proof -
  assume ok: "validate_folders_snapshot E C p = Inr ()"
  then have version: "py_value (jget p ''schema_version'') = JInt 1" by (auto simp: validate_folders_snapshot_def split: if_splits)
  from ok obtain fs where fs: "jget p ''folders'' = JList fs"
    by (auto simp: validate_folders_snapshot_def split: if_splits json.splits)
  have "folder_entry_checks [] (map canon fs) = folder_entry_checks [] fs"
    by (rule folder_entry_checks_canon) (rule wf_jget_list [OF assms(2) fs])
  with content_hash_checks_canon [OF assms version_key [OF version]] assms(2) ok fs version show ?thesis
    by (simp add: validate_folders_snapshot_def jget_canon_event)
qed

lemma validate_snapshot_canon:
  "sorts_keys C \<Longrightarrow> wf_event p \<Longrightarrow> validate_snapshot E C kind p = Inr () \<Longrightarrow> validate_snapshot E C kind (canon_event p) = Inr ()"
  by (cases kind) (simp_all add: validate_snapshot_def validate_import_canon validate_folders_canon)

lemma same_object_canon [simp]: "same_object (canon_event p) q = same_object p q"
  unfolding same_object_def by (simp only: canon_event_JObj [symmetric] py_value_canon)

section \<open>Snapshots are immutable\<close>

text \<open>
  C18. A snapshot that was written can be read and never changes. When a snapshot was written to a file that did
  not exist, it reads back as what was written, up to the order of keys; and whatever snapshot is written to
  that file afterwards, the file stays as it is, and the attempt succeeds exactly when the new snapshot
  satisfies the schema and equals the one that is there.
\<close>

theorem snapshots_are_immutable:
  assumes "sorts_keys C" and "write_snapshot_file E C kind p None = (Inr (), stored)"
    and "wf_event (with_content_hash E C p)"
    and "loads C (dumps C (with_content_hash E C p) @ [newline]) = Some (JObj (canon_event (with_content_hash E C p)))"
  shows "read_snapshot E C kind stored = Inr (canon_event (with_content_hash E C p)) \<and>
    snd (write_snapshot_file E C kind q stored) = stored \<and>
    (fst (write_snapshot_file E C kind q stored) = Inr () \<longleftrightarrow>
      validate_snapshot E C kind (with_content_hash E C q) = Inr () \<and>
      same_object (with_content_hash E C p) (with_content_hash E C q))"
proof -
  from assms(2) have valid: "validate_snapshot E C kind (with_content_hash E C p) = Inr ()"
    and stored: "stored = Some (dumps C (with_content_hash E C p) @ [newline])"
    by (auto simp: write_snapshot_file_def Let_def run_then atomic_write_json_def split: sum.splits)
  have read: "read_snapshot E C kind stored = Inr (canon_event (with_content_hash E C p))"
    using assms(4) validate_snapshot_canon [OF assms(1,3) valid] by (simp add: stored read_snapshot_def)
  then show ?thesis
    by (cases "validate_snapshot E C kind (with_content_hash E C q)")
      (auto simp: write_snapshot_file_def Let_def run_then atomic_write_json_def stored)
qed

definition sample_folders :: event where
  "sample_folders = [(''folders'', JList []), (''schema_version'', JInt 1), (content_hash_field, JStr (replicate 64 (CHR ''b'')))]"

definition sample_snapshot_codec :: codec where
  "sample_snapshot_codec = \<lparr>dumps = (\<lambda>_. ''{}''), loads = (\<lambda>_. Some (JObj (canon_event sample_folders)))\<rparr>"

lemma sample_folders_hash: "with_content_hash hash_env sample_snapshot_codec [(''folders'', JList [])] = sample_folders"
  by (simp add: with_content_hash_def without_hash_def with_version_def has_key_def sample_folders_def hash_env_def
    sample_snapshot_codec_def content_hash_field_def)

theorem snapshots_are_immutable_witness:
  "read_snapshot hash_env sample_snapshot_codec FoldersSnapshot (Some (''{}'' @ [newline])) = Inr (canon_event sample_folders)"
proof -
  let ?C = sample_snapshot_codec
  have h: "jget sample_folders content_hash_field = JStr (replicate 64 (CHR ''b''))"
    by (simp add: jget_def sample_folders_def content_hash_field_def)
  have "jget (with_content_hash hash_env ?C (without_hash sample_folders)) content_hash_field = JStr (replicate 64 (CHR ''b''))"
    unfolding jget_content_hash by (simp add: hash_env_def sample_snapshot_codec_def)
  with h have "content_hash_checks hash_env ?C kind sample_folders = [Inr (), Inr ()]" for kind
    by (simp add: content_hash_checks_def validate_sha256_def sha256_text_def check_def list_all_iff)
  then have "validate_folders_snapshot hash_env ?C sample_folders = Inr ()"
    by (simp add: validate_folders_snapshot_def) (simp add: sample_folders_def jget_def py_value_def content_hash_field_def)
  then have written: "write_snapshot_file hash_env ?C FoldersSnapshot [(''folders'', JList [])] None = (Inr (), Some (''{}'' @ [newline]))"
    by (simp add: write_snapshot_file_def sample_folders_hash run_then validate_snapshot_def atomic_write_json_def)
      (simp add: sample_snapshot_codec_def)
  have "sorts_keys ?C" by (simp add: sorts_keys_def sample_snapshot_codec_def)
  moreover have "wf_event sample_folders" by (simp add: wf_event_def sample_folders_def content_hash_field_def)
  moreover have "loads ?C x = Some (JObj (canon_event sample_folders))" for x by (simp add: sample_snapshot_codec_def)
  ultimately show ?thesis
    using snapshots_are_immutable [of ?C hash_env FoldersSnapshot "[(''folders'', JList [])]", OF _ written] by (simp add: sample_folders_hash)
qed

end
