(* ===== verification/Search_Query.thy ===== *)
theory Search_Query
  imports Identity "HOL-Library.Sublist"
begin

text \<open>
  The search query language (\<^verbatim>\<open>usecases/search_query.py\<close>, \<^verbatim>\<open>domain/normalize.py\<close>): words, quoted
  phrases and exclusions, their normalization, and the escaping of terms for the full-text index and for
  \<open>LIKE\<close>. The Unicode normalization is a parameter; the remaining functions on text are those of ASCII.
\<close>

section \<open>Normalization\<close>

fun collapse_space :: "string \<Rightarrow> string" where
  "collapse_space [] = []"
| "collapse_space [c] = (if is_space c then '' '' else [c])"
| "collapse_space (c # d # s) =
    (if is_space c \<and> is_space d then collapse_space (d # s)
     else (if is_space c then CHR '' '' else c) # collapse_space (d # s))"

definition normalize_for_search :: "(string \<Rightarrow> string) \<Rightarrow> string \<Rightarrow> string" where
  "normalize_for_search nfkc s = rstrip is_space (dropWhile is_space (collapse_space (casefold (nfkc s))))"

section \<open>Tokens\<close>

abbreviation quote_char :: char where
  "quote_char \<equiv> CHR 0x22"

text \<open>The rest of a phrase after its opening quote: the phrase and what follows it.\<close>

fun read_phrase :: "string \<Rightarrow> string \<Rightarrow> error + (string \<times> string)" where
  "read_phrase characters [] = Inl (SearchQueryError ''search query contains an unterminated quote'')"
| "read_phrase characters (c # s) =
    (if c \<noteq> quote_char then read_phrase (characters @ [c]) s
     else (case s of
         d # s' \<Rightarrow>
           if d = quote_char then read_phrase (characters @ [quote_char]) s'
           else if \<not> is_space d then Inl (SearchQueryError ''quoted phrases must be separated by whitespace'')
           else Inr (characters, s)
       | [] \<Rightarrow> Inr (characters, s)))"

lemma read_phrase_shorter: "read_phrase acc s = Inr (term, rest) \<Longrightarrow> length rest < length s"
proof (induction acc s rule: read_phrase.induct)
  case (2 acc c s)
  then show ?case by (auto split: if_splits list.splits)
qed simp

text \<open>One term, quoted or not, at the head of a text that is not empty: the term and the rest.\<close>

definition read_term :: "string \<Rightarrow> error + (string \<times> string)" where
  "read_term s =
    (if hd s = quote_char then read_phrase [] (tl s)
     else if quote_char \<in> set (takeWhile (\<lambda>c. \<not> is_space c) s)
     then Inl (SearchQueryError ''search query contains an invalid quote'')
     else Inr (takeWhile (\<lambda>c. \<not> is_space c) s, dropWhile (\<lambda>c. \<not> is_space c) s))"

lemma read_term_shorter:
  assumes "read_term s = Inr (term, rest)" and "s \<noteq> []" and "\<not> is_space (hd s)"
  shows "length rest < length s"
proof (cases "hd s = quote_char")
  case True
  with assms(1) have "read_phrase [] (tl s) = Inr (term, rest)" by (simp add: read_term_def)
  from read_phrase_shorter [OF this] show ?thesis by simp
next
  case False
  with assms show ?thesis by (cases s) (auto simp: read_term_def le_imp_less_Suc length_dropWhile_le split: if_splits)
qed

function scan_tokens :: "string \<Rightarrow> error + (bool \<times> string) list" where
  "scan_tokens text =
    (let s = dropWhile is_space text in
     if s = [] then Inr []
     else
       (let excluded = (hd s = CHR ''-''); t = (if excluded then tl s else s) in
        if excluded \<and> (t = [] \<or> is_space (hd t)) then Inl (SearchQueryError ''search query contains an invalid exclusion'')
        else (case read_term t of
            Inl e \<Rightarrow> Inl e
          | Inr (raw, rest) \<Rightarrow>
              if raw = [] then Inl (SearchQueryError ''search query contains an empty phrase'')
              else (case scan_tokens rest of Inl e \<Rightarrow> Inl e | Inr tokens \<Rightarrow> Inr ((excluded, raw) # tokens)))))"
  by pat_completeness auto
termination
proof (relation "measure length", simp)
  fix q s excluded t x raw rest
  assume s: "s = dropWhile is_space q" "s \<noteq> []" and e: "excluded = (hd s = CHR ''-'')"
    and t: "t = (if excluded then tl s else s)" "\<not> (excluded \<and> (t = [] \<or> is_space (hd t)))"
    and r: "read_term t = Inr x" "(raw, rest) = x"
  have sp: "\<not> is_space (hd s)" using s hd_dropWhile by metis
  have "length rest < length t" using r by (intro read_term_shorter [of t raw]) (use s t sp in auto)
  also have "length t \<le> length s" using t(1) by auto
  also have "length s \<le> length q" using s(1) by (simp add: length_dropWhile_le)
  finally show "(rest, q) \<in> measure length" by simp
qed

declare scan_tokens.simps [simp del]

definition tokenize :: "string \<Rightarrow> error + (bool \<times> string) list" where
  "tokenize text = (case scan_tokens text of
     Inl e \<Rightarrow> Inl e
   | Inr tokens \<Rightarrow>
       if tokens \<noteq> [] \<and> list_all fst tokens
       then Inl (SearchQueryError ''search query must contain an included term'')
       else Inr tokens)"

section \<open>Terms\<close>

text \<open>\<open>str.replace\<close> of one character.\<close>

definition replace_char :: "char \<Rightarrow> string \<Rightarrow> string \<Rightarrow> string" where
  "replace_char c new s = concat (map (\<lambda>d. if d = c then new else [d]) s)"

definition escape_fts_term :: "string \<Rightarrow> string" where
  "escape_fts_term s = [quote_char] @ replace_char quote_char [quote_char, quote_char] s @ [quote_char]"

definition escape_like_term :: "string \<Rightarrow> string" where
  "escape_like_term s =
    (let escaped = replace_char (CHR 0x5C) [CHR 0x5C, CHR 0x5C] s;
         escaped = replace_char (CHR ''%'') [CHR 0x5C, CHR ''%''] escaped
     in replace_char (CHR ''_'') [CHR 0x5C, CHR ''_''] escaped)"

record search_plan =
  pl_match_terms :: "string list"
  pl_like_terms :: "string list"
  pl_exclude_match_terms :: "string list"
  pl_exclude_like_terms :: "string list"
  pl_mode :: string
  pl_has_slow_path :: bool

definition add_term :: "(string \<Rightarrow> string) \<Rightarrow> search_plan \<Rightarrow> bool \<times> string \<Rightarrow> error + search_plan" where
  "add_term nfkc P token =
    (let (excluded, raw) = token; s = normalize_for_search nfkc raw in
     if s = [] then Inl (SearchQueryError ''search query contains an empty term'')
     else if length s \<ge> 3 then
       Inr (if excluded then P\<lparr>pl_exclude_match_terms := pl_exclude_match_terms P @ [escape_fts_term s]\<rparr>
            else P\<lparr>pl_match_terms := pl_match_terms P @ [escape_fts_term s]\<rparr>)
     else
       Inr (if excluded then P\<lparr>pl_exclude_like_terms := pl_exclude_like_terms P @ [escape_like_term s]\<rparr>
            else P\<lparr>pl_like_terms := pl_like_terms P @ [escape_like_term s]\<rparr>))"

fun add_terms :: "(string \<Rightarrow> string) \<Rightarrow> search_plan \<Rightarrow> (bool \<times> string) list \<Rightarrow> error + search_plan" where
  "add_terms nfkc P [] = Inr P"
| "add_terms nfkc P (t # ts) = (case add_term nfkc P t of Inl e \<Rightarrow> Inl e | Inr P' \<Rightarrow> add_terms nfkc P' ts)"

definition parse_query :: "(string \<Rightarrow> string) \<Rightarrow> string \<Rightarrow> string \<Rightarrow> error + search_plan" where
  "parse_query nfkc text mode =
    (if mode \<notin> {''and'', ''or''} then Inl (SearchQueryError ''search mode must be 'and' or 'or' '')
     else (case tokenize text of
         Inl e \<Rightarrow> Inl e
       | Inr tokens \<Rightarrow>
           if tokens = [] then Inl (SearchQueryError ''search query must contain a term'')
           else (case add_terms nfkc \<lparr>pl_match_terms = [], pl_like_terms = [], pl_exclude_match_terms = [],
                  pl_exclude_like_terms = [], pl_mode = mode, pl_has_slow_path = False\<rparr> tokens of
               Inl e \<Rightarrow> Inl e
             | Inr P \<Rightarrow> Inr (P\<lparr>pl_has_slow_path := pl_like_terms P \<noteq> [] \<or> pl_exclude_like_terms P \<noteq> []\<rparr>))))"

section \<open>Matching\<close>

text \<open>SQLite's \<open>text LIKE pattern ESCAPE '\'\<close>, which ignores the case of ASCII letters.\<close>

function like_match :: "string \<Rightarrow> string \<Rightarrow> bool" where
  "like_match [] s = (s = [])"
| "like_match (p # ps) s =
    (if p = CHR ''%'' then like_match ps s \<or> (case s of [] \<Rightarrow> False | _ # cs \<Rightarrow> like_match (p # ps) cs)
     else if p = CHR 0x5C then
       (case (ps, s) of (q # qs, c # cs) \<Rightarrow> char_lower c = char_lower q \<and> like_match qs cs | _ \<Rightarrow> False)
     else (case s of [] \<Rightarrow> False | c # cs \<Rightarrow> (p = CHR ''_'' \<or> char_lower c = char_lower p) \<and> like_match ps cs))"
  by pat_completeness auto
termination by (relation "measure (\<lambda>(p, s). length p + length s)") auto

declare like_match.simps(2) [simp del]

text \<open>A string of the full-text query language: the characters between the quotes, with doubled quotes
  as one.\<close>

fun fts_string :: "string \<Rightarrow> string option" where
  "fts_string (c # s) = (if c \<noteq> quote_char then None else
     (case read_phrase [] s of Inr (phrase, []) \<Rightarrow> Some phrase | _ \<Rightarrow> None))"
| "fts_string [] = None"

lemma replace_char_append [simp]: "replace_char c n (s @ t) = replace_char c n s @ replace_char c n t"
  by (simp add: replace_char_def)

lemma replace_char_Cons [simp]:
  "replace_char c n (d # s) = (if d = c then n else [d]) @ replace_char c n s" "replace_char c n [] = []"
  by (simp_all add: replace_char_def)

lemma escape_like_Cons:
  "escape_like_term (c # s) = (if c \<in> set [CHR 0x5C, CHR ''%'', CHR ''_''] then [CHR 0x5C, c] else [c]) @ escape_like_term s"
  by (auto simp: escape_like_term_def Let_def)

lemma escape_like_Nil [simp]: "escape_like_term [] = []"
  by (simp add: escape_like_term_def)

lemma like_percent: "like_match (CHR ''%'' # ps) s \<longleftrightarrow> (\<exists>u v. s = u @ v \<and> like_match ps v)"
proof (induction s)
  case Nil
  show ?case by (simp add: like_match.simps(2))
next
  case (Cons c s)
  have "like_match (CHR ''%'' # ps) (c # s) \<longleftrightarrow> like_match ps (c # s) \<or> like_match (CHR ''%'' # ps) s"
    by (simp add: like_match.simps(2))
  also have "\<dots> \<longleftrightarrow> (\<exists>u v. c # s = u @ v \<and> like_match ps v)"
    unfolding Cons by (auto simp: Cons_eq_append_conv)
  finally show ?case .
qed

lemma like_literal:
  "like_match (escape_like_term t @ ps) s \<longleftrightarrow> (\<exists>u v. s = u @ v \<and> casefold u = casefold t \<and> like_match ps v)"
proof (induction t arbitrary: s)
  case Nil
  show ?case by (simp add: casefold_def)
next
  case (Cons c t)
  have step: "like_match (escape_like_term (c # t) @ ps) s \<longleftrightarrow>
      (\<exists>d s'. s = d # s' \<and> char_lower d = char_lower c \<and> like_match (escape_like_term t @ ps) s')"
    by (cases s) (auto simp: escape_like_Cons like_match.simps(2))
  show ?case
    unfolding step Cons by (auto simp: casefold_def map_eq_Cons_conv) (metis append_Cons)+
qed

lemma read_phrase_quoted:
  assumes "rest = [] \<or> is_space (hd rest)"
  shows "read_phrase acc (replace_char quote_char [quote_char, quote_char] s @ quote_char # rest) = Inr (acc @ s, rest)"
proof (induction s arbitrary: acc)
  case Nil
  from assms show ?case by (cases rest) (auto simp: is_space_def)
qed (simp add: comp_def)

lemma casefold_occurs: "(\<exists>a u b. s = a @ u @ b \<and> casefold u = casefold t) \<longleftrightarrow> sublist (casefold t) (casefold s)"
proof
  assume "\<exists>a u b. s = a @ u @ b \<and> casefold u = casefold t"
  then obtain a u b where "casefold s = casefold a @ casefold t @ casefold b" by (auto simp: casefold_def)
  then show "sublist (casefold t) (casefold s)" unfolding sublist_def by blast
next
  assume "sublist (casefold t) (casefold s)"
  then obtain xs ys where eq: "casefold s = xs @ casefold t @ ys" unfolding sublist_def by blast
  let ?u = "take (length t) (drop (length xs) s)"
  have "casefold ?u = take (length t) (drop (length xs) (casefold s))" by (simp add: casefold_def take_map drop_map)
  also have "\<dots> = casefold t" unfolding eq by (simp add: casefold_def)
  finally have "casefold ?u = casefold t" .
  moreover have "s = take (length xs) s @ ?u @ drop (length t) (drop (length xs) s)"
    by (simp only: append_take_drop_id)
  ultimately show "\<exists>a u b. s = a @ u @ b \<and> casefold u = casefold t" by blast
qed

section \<open>Properties\<close>

text \<open>
  C23. A short term finds exactly the texts that contain it. The pattern built from a term, with its backslashes,
  percent signs and underscores escaped, matches a text if and only if the term occurs in the text, up
  to the case of letters; and the full-text query built from a term is one string that denotes exactly
  the term.
\<close>

theorem search_terms_are_literal:
  "(like_match (''%'' @ escape_like_term t @ ''%'') s \<longleftrightarrow> sublist (casefold t) (casefold s)) \<and>
   fts_string (escape_fts_term t) = Some t"
proof
  have "like_match (''%'' @ escape_like_term t @ ''%'') s \<longleftrightarrow> (\<exists>a u b. s = a @ u @ b \<and> casefold u = casefold t)"
    by (auto simp: like_percent like_literal)
  also have "\<dots> \<longleftrightarrow> sublist (casefold t) (casefold s)"
    by (rule casefold_occurs)
  finally show "like_match (''%'' @ escape_like_term t @ ''%'') s \<longleftrightarrow> sublist (casefold t) (casefold s)" .
  show "fts_string (escape_fts_term t) = Some t"
    using read_phrase_quoted [of "[]" "[]" t] by (simp add: escape_fts_term_def)
qed

text \<open>How a user writes a list of terms down: each one quoted, the excluded ones after a minus sign.\<close>

definition written_token :: "bool \<times> string \<Rightarrow> string" where
  "written_token t = (if fst t then ''-'' else []) @ escape_fts_term (snd t)"

definition written_query :: "(bool \<times> string) list \<Rightarrow> string" where
  "written_query ts = join_with (CHR '' '') (map written_token ts)"

lemma scan_written:
  assumes "rest = [] \<or> is_space (hd rest)" and "snd t \<noteq> []"
  shows "scan_tokens (written_token t @ rest) = map_sum id (\<lambda>ts. t # ts) (scan_tokens rest)"
proof -
  have read: "read_term (escape_fts_term (snd t) @ rest) = Inr (snd t, rest)"
    using read_phrase_quoted [OF assms(1), of "[]" "snd t"] by (simp add: read_term_def escape_fts_term_def)
  have "\<not> is_space quote_char" "\<not> is_space (CHR ''-'')" by (simp_all add: is_space_def)
  then have skip: "dropWhile is_space (written_token t @ rest) = written_token t @ rest"
    by (simp add: written_token_def escape_fts_term_def)
  have "\<not> is_space (hd (escape_fts_term (snd t) @ rest))" "escape_fts_term (snd t) @ rest \<noteq> []"
    "hd (escape_fts_term (snd t) @ rest) \<noteq> CHR ''-''"
    by (simp_all add: escape_fts_term_def is_space_def)
  with read assms(2) show ?thesis
    unfolding scan_tokens.simps [of "written_token t @ rest"] skip
    by (cases "fst t"; cases t) (auto simp: written_token_def Let_def split: sum.split)
qed

text \<open>
  Every list of terms can be searched for. A query that writes non-empty terms between quotes, with their own
  quotes doubled and a minus sign before the excluded ones, is read as exactly these terms; only a
  query that excludes everything is refused.
\<close>

lemma query_reads_back:
  assumes "\<forall>t\<in>set ts. snd t \<noteq> []"
  shows "tokenize (written_query ts) =
    (if ts \<noteq> [] \<and> list_all fst ts then Inl (SearchQueryError ''search query must contain an included term'') else Inr ts)"
proof -
  have "scan_tokens (written_query ts) = Inr ts"
    using assms
  proof (induction ts rule: induct_list012)
    case 1
    show ?case by (simp add: written_query_def scan_tokens.simps)
  next
    case (2 t)
    then show ?case using scan_written [of "[]" t] by (simp add: written_query_def scan_tokens.simps [of "[]"])
  next
    case (3 t u ts)
    have "scan_tokens (CHR '' '' # written_query (u # ts)) = scan_tokens (written_query (u # ts))"
      by (subst (1 2) scan_tokens.simps) (simp add: is_space_def)
    with 3 scan_written [of "CHR '' '' # written_query (u # ts)" t] show ?case
      by (simp add: written_query_def is_space_def)
  qed
  then show ?thesis by (simp add: tokenize_def)
qed

lemma query_reads_back_witness:
  "tokenize (written_query [(False, ''a b''), (True, [quote_char])]) = Inr [(False, ''a b''), (True, [quote_char])]"
  using query_reads_back [of "[(False, ''a b''), (True, [quote_char])]"] by simp

end
