(* ===== verification/Search.thy ===== *)
theory Search
  imports Search_Query Verify_Props "HOL-Library.Product_Lexorder"
begin

text \<open>
  Listing and searching of messages (\<^verbatim>\<open>infrastructure/database/search_repository.py\<close>,
  \<^verbatim>\<open>usecases/search_messages.py\<close>, \<^verbatim>\<open>domain/search.py\<close>) over the finalized schema: the compound selection
  of matching messages, the filters, pages after a cursor, and the reading of all pages. The full-text
  index and the reading of a stored date, as the text the program writes for it, are parameters.
\<close>

section \<open>Matching messages\<close>

datatype set_op = UnionOp | IntersectOp | ExceptOp

text \<open>The messages of one term: by the full-text index, or by \<open>LIKE\<close> over the searchable columns.\<close>

definition like_column :: "string \<Rightarrow> string option \<Rightarrow> bool" where
  "like_column pat col = (case col of None \<Rightarrow> False | Some s \<Rightarrow> like_match pat s)"

definition term_ids :: "(string \<Rightarrow> int list) \<Rightarrow> db \<Rightarrow> string \<times> bool \<Rightarrow> int list" where
  "term_ids fts d t =
    (if snd t then map fst (filter (\<lambda>r. list_ex (like_column (''%'' @ fst t @ ''%''))
         [cnt_subject_norm (snd r), cnt_sender_norm (snd r), cnt_body_text (snd r), cnt_attachment_names (snd r)]) (message_contents d))
     else fts (fst t))"

text \<open>The compound selection: the first term, then each further term with its operator.\<close>

definition positive_terms :: "search_plan \<Rightarrow> (string \<times> bool) list" where
  "positive_terms P = map (\<lambda>t. (t, False)) (pl_match_terms P) @ map (\<lambda>t. (t, True)) (pl_like_terms P)"

definition negative_terms :: "search_plan \<Rightarrow> (string \<times> bool) list" where
  "negative_terms P = map (\<lambda>t. (t, False)) (pl_exclude_match_terms P) @ map (\<lambda>t. (t, True)) (pl_exclude_like_terms P)"

definition matching_expression :: "search_plan \<Rightarrow> (set_op \<times> string \<times> bool) list" where
  "matching_expression P =
    (let positive = map (Pair (if pl_mode P = ''or'' then UnionOp else IntersectOp)) (positive_terms P);
         negative = map (Pair UnionOp) (negative_terms P)
     in if negative = [] then positive
        else if positive = [] then negative
        else positive @ (ExceptOp, snd (hd negative)) # tl negative)"

text \<open>SQLite groups the operators of a compound selection from left to right.\<close>

fun apply_op :: "set_op \<Rightarrow> int set \<Rightarrow> int set \<Rightarrow> int set" where
  "apply_op UnionOp A B = A \<union> B"
| "apply_op IntersectOp A B = A \<inter> B"
| "apply_op ExceptOp A B = A - B"

definition compound_select :: "('t \<Rightarrow> int list) \<Rightarrow> (set_op \<times> 't) list \<Rightarrow> int set" where
  "compound_select ids parts = (case parts of
     [] \<Rightarrow> {}
   | (_, t) # rest \<Rightarrow> foldl (\<lambda>S (op, t). apply_op op S (set (ids t))) (set (ids t)) rest)"

definition matches_plan :: "(string \<Rightarrow> int list) \<Rightarrow> db \<Rightarrow> search_plan option \<Rightarrow> message_row \<Rightarrow> bool" where
  "matches_plan fts d plan m = (case plan of
     None \<Rightarrow> True
   | Some P \<Rightarrow> matching_expression P = [] \<or> msg_id m \<in> compound_select (term_ids fts d) (matching_expression P))"

section \<open>Filters\<close>

record message_filter =
  flt_account_ids :: "string list option"
  flt_folder_ids :: "int list option"
  flt_date_from :: "string option"
  flt_date_to :: "string option"
  flt_has_attachment :: "bool option"
  flt_local_states :: "local_state list"
  flt_remote_states :: "remote_state list option"
  flt_thread_key :: "string option"

definition default_filter :: message_filter where
  "default_filter = \<lparr>flt_account_ids = None, flt_folder_ids = None, flt_date_from = None, flt_date_to = None,
     flt_has_attachment = None, flt_local_states = [Active], flt_remote_states = None, flt_thread_key = None\<rparr>"

text \<open>\<open>COALESCE(date_sent, internal_date, '')\<close>.\<close>

definition sort_text :: "message_row \<Rightarrow> string" where
  "sort_text m = (case msg_date_sent m of Some t \<Rightarrow> t | None \<Rightarrow> (case msg_internal_date m of Some t \<Rightarrow> t | None \<Rightarrow> []))"

definition of_message :: "db \<Rightarrow> message_row \<Rightarrow> membership list" where
  "of_message d m = filter (\<lambda>x. mf_message_id x = msg_id m) (message_folders d)"

definition filter_clause :: "db \<Rightarrow> message_filter \<Rightarrow> message_row \<Rightarrow> bool" where
  "filter_clause d F m \<longleftrightarrow>
     opt_all (\<lambda>ids. msg_account_id m \<in> set ids) (flt_account_ids F) \<and>
     opt_all (\<lambda>ids. list_ex (\<lambda>x. mf_folder_id x \<in> set ids) (of_message d m)) (flt_folder_ids F) \<and>
     opt_all (\<lambda>t. t \<le> sort_text m) (flt_date_from F) \<and>
     opt_all (\<lambda>t. sort_text m \<le> t) (flt_date_to F) \<and>
     opt_all (\<lambda>b. msg_has_attachment m = b) (flt_has_attachment F) \<and>
     msg_local_state m \<in> set (flt_local_states F) \<and>
     opt_all (\<lambda>states. list_ex (\<lambda>x. mf_remote_state x \<in> set states) (of_message d m)) (flt_remote_states F) \<and>
     opt_all (\<lambda>t. msg_thread_key m = Some t) (flt_thread_key F)"

section \<open>Pages\<close>

record message_list_row =
  ml_id :: int
  ml_account_id :: string
  ml_folder_id :: int
  ml_folder_raw_name :: string
  ml_folder_display_name :: string
  ml_subject :: string
  ml_sender :: string
  ml_date_sent :: "string option"
  ml_internal_date :: "string option"
  ml_size_bytes :: "int option"
  ml_has_attachment :: bool
  ml_remote_state :: remote_state
  ml_local_state :: local_state
  ml_thread_key :: "string option"
  ml_imap_flags :: "string option"
  ml_moved_to :: "string option"
  ml_failure_class :: "string option"
  ml_flags_seen_at :: "string option"
  ml_trashed_at :: "string option"

record page_cursor =
  cur_sort_key :: string
  cur_message_id :: int

record search_page =
  sp_items :: "message_list_row list"
  sp_next_cursor :: "page_cursor option"
  sp_exhausted :: bool
  sp_has_slow_path :: bool

text \<open>The membership shown for a message: the smallest folder id among those the filter selects.\<close>

definition shown_membership :: "db \<Rightarrow> message_filter \<Rightarrow> message_row \<Rightarrow> membership option" where
  "shown_membership d F m =
    (let xs = filter (\<lambda>x. opt_all (\<lambda>ids. mf_folder_id x \<in> set ids) (flt_folder_ids F)) (of_message d m)
     in if xs = [] then None else List.find (\<lambda>x. mf_folder_id x = Min (set (map mf_folder_id xs))) xs)"

definition folder_by_id :: "db \<Rightarrow> int \<Rightarrow> folder_row option" where
  "folder_by_id d i = List.find (\<lambda>f. fld_id f = i) (folders d)"

definition text_or_empty :: "string option \<Rightarrow> string" where
  "text_or_empty v = (case v of None \<Rightarrow> [] | Some s \<Rightarrow> s)"

definition summary :: "(string \<Rightarrow> string option) \<Rightarrow> db \<Rightarrow> message_filter \<Rightarrow> message_row \<Rightarrow> message_list_row option" where
  "summary dt d F m = (case shown_membership d F m of
     None \<Rightarrow> None
   | Some x \<Rightarrow> (case folder_by_id d (mf_folder_id x) of
       None \<Rightarrow> None
     | Some f \<Rightarrow> Some
         \<lparr>ml_id = msg_id m, ml_account_id = msg_account_id m, ml_folder_id = mf_folder_id x, ml_folder_raw_name = fld_raw_name f,
          ml_folder_display_name = fld_display_name f, ml_subject = text_or_empty (msg_subject m), ml_sender = text_or_empty (msg_sender m),
          ml_date_sent = Option.bind (msg_date_sent m) dt, ml_internal_date = Option.bind (msg_internal_date m) dt,
          ml_size_bytes = msg_size_bytes m, ml_has_attachment = msg_has_attachment m, ml_remote_state = mf_remote_state x,
          ml_local_state = msg_local_state m, ml_thread_key = msg_thread_key m, ml_imap_flags = mf_imap_flags x,
          ml_moved_to = (case mf_moved_to x of None \<Rightarrow> None | Some i \<Rightarrow> map_option fld_display_name (folder_by_id d i)),
          ml_failure_class = map_option sf_error_class (List.find (\<lambda>r. sf_account_id r = msg_account_id m \<and>
            sf_folder_id r = mf_folder_id x \<and> mf_uidvalidity x = Some (sf_uidvalidity r) \<and> mf_uid x = Some (sf_uid r)) (sync_failures d)),
          ml_flags_seen_at = Option.bind (mf_flags_seen_at x) dt, ml_trashed_at = Option.bind (msg_trashed_at m) dt\<rparr>))"

text \<open>The key of the last row of a page, from the dates as they were read.\<close>

definition cursor_after :: "message_list_row \<Rightarrow> page_cursor" where
  "cursor_after s = \<lparr>cur_sort_key = (case ml_date_sent s of Some t \<Rightarrow> t | None \<Rightarrow>
     (case ml_internal_date s of Some t \<Rightarrow> t | None \<Rightarrow> [])), cur_message_id = ml_id s\<rparr>"

definition row_key :: "message_row \<Rightarrow> string \<times> int" where
  "row_key m = (sort_text m, msg_id m)"

definition page_rows ::
  "(string \<Rightarrow> int list) \<Rightarrow> (string \<Rightarrow> string option) \<Rightarrow> db \<Rightarrow> search_plan option \<Rightarrow> message_filter \<Rightarrow> page_cursor option \<Rightarrow>
   message_row list" where
  "page_rows fts dt d plan F cursor = rev (sort_key row_key (filter (\<lambda>m. summary dt d F m \<noteq> None \<and> matches_plan fts d plan m \<and>
     filter_clause d F m \<and> opt_all (\<lambda>c. row_key m < (cur_sort_key c, cur_message_id c)) cursor) (messages d)))"

definition page ::
  "(string \<Rightarrow> int list) \<Rightarrow> (string \<Rightarrow> string option) \<Rightarrow> search_plan option \<Rightarrow> message_filter \<Rightarrow> page_cursor option \<Rightarrow> int \<Rightarrow>
   db \<Rightarrow> error + search_page" where
  "page fts dt plan F cursor limit d =
    (if limit \<le> 0 then Inl (ValueError ''limit must be positive'')
     else (let rows = take (nat limit + 1) (page_rows fts dt d plan F cursor);
               summaries = map (\<lambda>m. the (summary dt d F m)) (take (nat limit) rows);
               has_more = int (length rows) > limit
           in Inr \<lparr>sp_items = summaries,
                sp_next_cursor = (if has_more \<and> summaries \<noteq> [] then Some (cursor_after (last summaries)) else None),
                sp_exhausted = \<not> has_more, sp_has_slow_path = False\<rparr>))"

definition count_rows :: "(string \<Rightarrow> int list) \<Rightarrow> search_plan option \<Rightarrow> message_filter \<Rightarrow> db \<Rightarrow> int" where
  "count_rows fts plan F d =
     int (length (remdups (map msg_id (filter (\<lambda>m. matches_plan fts d plan m \<and> filter_clause d F m) (messages d)))))"

section \<open>Cursors as text\<close>

definition cursor_to_string :: "codec \<Rightarrow> page_cursor \<Rightarrow> string" where
  "cursor_to_string C c = dumps C [(''sort_key'', JStr (cur_sort_key c)), (''message_id'', JInt (cur_message_id c))]"

definition cursor_from_string :: "codec \<Rightarrow> string \<Rightarrow> error + page_cursor" where
  "cursor_from_string C s = (case loads C s of
     Some (JObj decoded) \<Rightarrow> (case (jget decoded ''sort_key'', jget decoded ''message_id'') of
         (JStr k, JInt i) \<Rightarrow> Inr \<lparr>cur_sort_key = k, cur_message_id = i\<rparr>
       | _ \<Rightarrow> Inl (ValueError ''invalid page cursor''))
   | _ \<Rightarrow> Inl (ValueError ''invalid page cursor''))"

lemma cursor_round_trip:
  assumes "codec_ok C [(''sort_key'', JStr (cur_sort_key c)), (''message_id'', JInt (cur_message_id c))]"
  shows "cursor_from_string C (cursor_to_string C c) = Inr c"
  using assms unfolding codec_ok_def cursor_from_string_def cursor_to_string_def
  by (simp add: jget_canon_event)

section \<open>Use cases\<close>

definition repo_page ::
  "(string \<Rightarrow> int list) \<Rightarrow> (string \<Rightarrow> string option) \<Rightarrow> ('r, bool) prog \<Rightarrow> search_plan option \<Rightarrow> message_filter \<Rightarrow>
   page_cursor option \<Rightarrow> int \<Rightarrow> ('r world, search_page) prog" where
  "repo_page fts dt cancelled plan F cursor limit =
    thenp (on_remote (raise_if_cancelled cancelled))
      (bindp (gets (\<lambda>w. page fts dt plan F cursor limit (w_db w))) lift_sum)"

definition search_messages ::
  "(string \<Rightarrow> int list) \<Rightarrow> (string \<Rightarrow> string option) \<Rightarrow> (string \<Rightarrow> string) \<Rightarrow> ('r, bool) prog \<Rightarrow> string \<Rightarrow> string \<Rightarrow> message_filter \<Rightarrow>
   page_cursor option \<Rightarrow> int \<Rightarrow> ('r world, search_page) prog" where
  "search_messages fts dt nfkc cancelled query mode F cursor limit =
    bindp (lift_sum (parse_query nfkc query mode)) (\<lambda>P.
    bindp (repo_page fts dt cancelled (Some P) F cursor limit) (\<lambda>p. ret (p\<lparr>sp_has_slow_path := pl_has_slow_path P\<rparr>)))"

definition list_messages ::
  "(string \<Rightarrow> int list) \<Rightarrow> (string \<Rightarrow> string option) \<Rightarrow> ('r, bool) prog \<Rightarrow> message_filter \<Rightarrow> page_cursor option \<Rightarrow> int \<Rightarrow>
   ('r world, search_page) prog" where
  "list_messages fts dt cancelled F cursor limit = repo_page fts dt cancelled None F cursor limit"

definition list_thread ::
  "(string \<Rightarrow> int list) \<Rightarrow> (string \<Rightarrow> string option) \<Rightarrow> ('r, bool) prog \<Rightarrow> string \<Rightarrow> message_filter \<Rightarrow> ('r world, message_list_row list) prog" where
  "list_thread fts dt cancelled thread_key F =
    bindp (repo_page fts dt cancelled None (F\<lparr>flt_thread_key := Some thread_key\<rparr>) None 2147483647) (\<lambda>p. ret (sp_items p))"

definition count_messages ::
  "(string \<Rightarrow> int list) \<Rightarrow> (string \<Rightarrow> string) \<Rightarrow> ('r, bool) prog \<Rightarrow> string option \<Rightarrow> string \<Rightarrow> message_filter \<Rightarrow> ('r world, int) prog" where
  "count_messages fts nfkc cancelled query mode F =
    bindp (case query of None \<Rightarrow> ret None | Some q \<Rightarrow> bindp (lift_sum (parse_query nfkc q mode)) (\<lambda>P. ret (Some P))) (\<lambda>plan.
    thenp (on_remote (raise_if_cancelled cancelled)) (gets (\<lambda>w. count_rows fts plan F (w_db w))))"

text \<open>One page of the current list or search, and all pages one after the other. The result is \<open>None\<close> when
  the given number of pages is not enough.\<close>

definition current_page ::
  "(string \<Rightarrow> int list) \<Rightarrow> (string \<Rightarrow> string option) \<Rightarrow> (string \<Rightarrow> string) \<Rightarrow> ('r, bool) prog \<Rightarrow> string \<Rightarrow> string \<Rightarrow> message_filter \<Rightarrow>
   page_cursor option \<Rightarrow> ('r world, search_page) prog" where
  "current_page fts dt nfkc cancelled query mode F cursor =
    (if query \<noteq> [] then search_messages fts dt nfkc cancelled query mode F cursor 200
     else list_messages fts dt cancelled F cursor 200)"

fun read_pages ::
  "nat \<Rightarrow> (page_cursor option \<Rightarrow> ('r world, search_page) prog) \<Rightarrow> ('r, bool) prog \<Rightarrow> page_cursor option \<Rightarrow> message_list_row list \<Rightarrow>
   ('r world, message_list_row list option) prog" where
  "read_pages 0 next_page cancelled cursor results = ret None"
| "read_pages (Suc n) next_page cancelled cursor results =
    thenp (on_remote (raise_if_cancelled cancelled))
    (bindp (next_page cursor) (\<lambda>p.
      (let results' = results @ sp_items p in
       if sp_exhausted p \<or> sp_next_cursor p = None then ret (Some results')
       else read_pages n next_page cancelled (sp_next_cursor p) results')))"

definition list_all_messages ::
  "nat \<Rightarrow> (string \<Rightarrow> int list) \<Rightarrow> (string \<Rightarrow> string option) \<Rightarrow> (string \<Rightarrow> string) \<Rightarrow> ('r, bool) prog \<Rightarrow> string \<Rightarrow> string \<Rightarrow> message_filter \<Rightarrow>
   ('r world, message_list_row list option) prog" where
  "list_all_messages n fts dt nfkc cancelled query mode F =
     read_pages n (current_page fts dt nfkc cancelled query mode F) cancelled None []"

section \<open>One message\<close>

record message_detail = message_list_row +
  md_recipient :: string
  md_cc :: string
  md_message_id :: "string option"
  md_in_reply_to :: "string option"
  md_references_ids :: "string option"
  md_relative_path :: "string option"
  md_file_hash :: "string option"

definition get_message_detail :: "(string \<Rightarrow> string option) \<Rightarrow> int \<Rightarrow> db \<Rightarrow> message_detail option" where
  "get_message_detail dt i d = (case List.find (\<lambda>m. msg_id m = i) (messages d) of
     None \<Rightarrow> None
   | Some m \<Rightarrow> (case summary dt d default_filter m of
       None \<Rightarrow> None
     | Some s \<Rightarrow> Some (message_list_row.extend s (message_detail.fields (text_or_empty (msg_recipient m)) (text_or_empty (msg_cc m))
         (msg_message_id m) (msg_in_reply_to m) (msg_references_ids m) (msg_relative_path m) (msg_file_hash m)))))"

end
