(* ===== verification/Search_Props.thy ===== *)
theory Search_Props
  imports Search
begin

text \<open>
  Properties of the search: what a query with exclusions selects, and that the pages of a list or search
  together are exactly its messages, newest first.
\<close>

section \<open>What a query selects\<close>

definition positive_ids :: "(string \<times> bool \<Rightarrow> int list) \<Rightarrow> search_plan \<Rightarrow> int set" where
  "positive_ids ids P =
    (if pl_mode P = ''or'' then (\<Union>t\<in>set (positive_terms P). set (ids t)) else (\<Inter>t\<in>set (positive_terms P). set (ids t)))"

lemma foldl_union: "foldl (\<lambda>S (op, t). apply_op op S (set (ids t))) S (map (Pair UnionOp) ts) = S \<union> (\<Union>t\<in>set ts. set (ids t))"
  by (induction ts arbitrary: S) auto

lemma foldl_intersect: "foldl (\<lambda>S (op, t). apply_op op S (set (ids t))) S (map (Pair IntersectOp) ts) = S \<inter> (\<Inter>t\<in>set ts. set (ids t))"
  by (induction ts arbitrary: S) auto

lemma compound_positive:
  assumes "positive_terms P = t # ts"
  shows "compound_select ids (map (Pair (if pl_mode P = ''or'' then UnionOp else IntersectOp)) (positive_terms P) @ rest) =
    foldl (\<lambda>S (op, t). apply_op op S (set (ids t))) (positive_ids ids P) rest"
  using assms by (simp add: compound_select_def positive_ids_def foldl_union foldl_intersect)

lemma add_terms_positive:
  assumes "add_terms nfkc P ts = Inr P'"
  shows "(\<exists>t\<in>set ts. \<not> fst t) \<or> positive_terms P \<noteq> [] \<Longrightarrow> positive_terms P' \<noteq> []" "pl_mode P' = pl_mode P"
proof -
  have "((\<exists>t\<in>set ts. \<not> fst t) \<or> positive_terms P \<noteq> [] \<longrightarrow> positive_terms P' \<noteq> []) \<and> pl_mode P' = pl_mode P"
    using assms
  proof (induction ts arbitrary: P)
    case (Cons t ts)
    from Cons.prems obtain P1 where P1: "add_term nfkc P t = Inr P1" and rest: "add_terms nfkc P1 ts = Inr P'"
      by (auto split: sum.splits)
    from P1 have "(\<not> fst t \<or> positive_terms P \<noteq> [] \<longrightarrow> positive_terms P1 \<noteq> []) \<and> pl_mode P1 = pl_mode P"
      by (auto simp: add_term_def Let_def case_prod_unfold positive_terms_def split: if_splits)
    with Cons.IH [OF rest] show ?case by auto
  qed simp
  then show "(\<exists>t\<in>set ts. \<not> fst t) \<or> positive_terms P \<noteq> [] \<Longrightarrow> positive_terms P' \<noteq> []" "pl_mode P' = pl_mode P" by blast+
qed

lemma parsed_has_positive:
  assumes "parse_query nfkc q mode = Inr P"
  shows "positive_terms P \<noteq> []"
proof -
  from assms obtain ts P1 where tok: "tokenize q = Inr ts" "ts \<noteq> []" and
    add: "add_terms nfkc \<lparr>pl_match_terms = [], pl_like_terms = [], pl_exclude_match_terms = [], pl_exclude_like_terms = [],
      pl_mode = mode, pl_has_slow_path = False\<rparr> ts = Inr P1" and P: "positive_terms P = positive_terms P1"
    by (auto simp: parse_query_def positive_terms_def split: sum.splits if_splits)
  from tok have "\<exists>t\<in>set ts. \<not> fst t" by (auto simp: tokenize_def list_all_iff split: sum.splits if_splits)
  with add_terms_positive(1) [OF add] P show ?thesis by simp
qed

text \<open>
  C24. What a query selects, and that a second exclusion brings messages in. The included terms select what
  matches all of them, or one of them in the mode \<open>or\<close>, and the first excluded term is taken away. The
  further excluded terms are joined to the same compound selection, whose operators group from left to
  right: the messages that match a second or later excluded term are all part of the result, whether or not
  they match an included term.
\<close>

theorem later_exclusions_are_included:
  assumes "parse_query nfkc q mode = Inr P"
  shows "compound_select ids (matching_expression P) = (case negative_terms P of
     [] \<Rightarrow> positive_ids ids P
   | n # ns \<Rightarrow> (positive_ids ids P - set (ids n)) \<union> (\<Union>t\<in>set ns. set (ids t)))"
proof -
  from parsed_has_positive [OF assms] obtain t ts where p: "positive_terms P = t # ts" by (cases "positive_terms P") auto
  note positive = compound_positive [OF p, of ids]
  show ?thesis
  proof (cases "negative_terms P")
    case Nil
    with positive [of "[]"] show ?thesis by (simp add: matching_expression_def)
  next
    case (Cons n ns)
    with positive [of "(ExceptOp, n) # map (Pair UnionOp) ns"] p show ?thesis
      by (simp add: matching_expression_def Let_def foldl_union)
  qed
qed

theorem later_exclusions_are_included_witness:
  "\<exists>P. parse_query id ''a -b -c'' ''and'' = Inr P \<and>
     7 \<in> compound_select (\<lambda>t. if t = (''a'', True) then [1, 2] else if t = (''c'', True) then [7] else []) (matching_expression P)"
proof -
  let ?P = "\<lparr>pl_match_terms = [], pl_like_terms = [''a''], pl_exclude_match_terms = [], pl_exclude_like_terms = [''b'', ''c''],
    pl_mode = ''and'', pl_has_slow_path = True\<rparr>"
  have parse: "parse_query id ''a -b -c'' ''and'' = Inr ?P" by code_simp
  from later_exclusions_are_included [OF this] parse show ?thesis
    by (intro exI [of _ ?P]) (simp add: negative_terms_def)
qed

section \<open>Reading all pages\<close>

text \<open>The dates of the messages are stored as the program writes them.\<close>

definition canonical_dates :: "(string \<Rightarrow> string option) \<Rightarrow> db \<Rightarrow> bool" where
  "canonical_dates dt d \<longleftrightarrow> list_all (\<lambda>m. opt_all (\<lambda>t. dt t = Some t) (msg_date_sent m) \<and>
     opt_all (\<lambda>t. dt t = Some t) (msg_internal_date m)) (messages d)"

lemma cursor_after_row:
  assumes "canonical_dates dt d" and "m \<in> set (messages d)" and "summary dt d F m = Some s"
  shows "(cur_sort_key (cursor_after s), cur_message_id (cursor_after s)) = row_key m"
proof -
  from assms(3) have "ml_id s = msg_id m" "ml_date_sent s = Option.bind (msg_date_sent m) dt"
    "ml_internal_date s = Option.bind (msg_internal_date m) dt"
    by (auto simp: summary_def split: option.splits)
  moreover from assms(1,2) have "opt_all (\<lambda>t. dt t = Some t) (msg_date_sent m)" "opt_all (\<lambda>t. dt t = Some t) (msg_internal_date m)"
    by (auto simp: canonical_dates_def list_all_iff)
  ultimately show ?thesis
    by (cases "msg_date_sent m"; cases "msg_internal_date m") (simp_all add: cursor_after_def row_key_def sort_text_def)
qed

lemma sorted_sort_key_strict:
  assumes "distinct (map f xs)"
  shows "sorted_wrt (\<lambda>a b. f b < f a) (rev (sort_key f xs))"
proof -
  have "distinct (map f (sort_key f xs))" using assms by (metis distinct_map distinct_sort set_sort)
  then have "sorted_wrt (\<lambda>a b. f a < f b) (sort_key f xs)"
    using sorted_sort_key [of f xs] by (simp add: strict_sorted_iff flip: sorted_wrt_map)
  then show ?thesis by (simp add: sorted_wrt_rev)
qed

lemma filter_below:
  assumes "sorted_wrt (\<lambda>a b. f b < f a) (ys @ m # zs)"
  shows "filter (\<lambda>r. f r < (f m :: 'k :: linorder)) (ys @ m # zs) = zs"
proof -
  have "filter (\<lambda>r. f r < f m) ys = []" using assms by (auto simp: sorted_wrt_append filter_empty_conv)
  moreover have "filter (\<lambda>r. f r < f m) zs = zs" using assms by (auto simp: sorted_wrt_append filter_id_conv)
  ultimately show ?thesis by simp
qed

lemma page_rows_after:
  "page_rows fts dt d plan F (Some c) =
   filter (\<lambda>m. row_key m < (cur_sort_key c, cur_message_id c)) (page_rows fts dt d plan F None)"
proof -
  let ?P = "\<lambda>m. summary dt d F m \<noteq> None \<and> matches_plan fts d plan m \<and> filter_clause d F m"
  let ?Q = "\<lambda>m. row_key m < (cur_sort_key c, cur_message_id c)"
  have "filter (\<lambda>m. ?P m \<and> ?Q m) (messages d) = filter ?Q (filter ?P (messages d))"
    by (simp add: conj_commute)
  then show ?thesis unfolding page_rows_def by (simp add: rev_filter [symmetric] filter_sort)
qed

lemma page_rows_strict:
  assumes "uniq msg_id (messages d)"
  shows "sorted_wrt (\<lambda>a b. row_key b < row_key a) (page_rows fts dt d plan F c)"
  unfolding page_rows_def
proof (rule sorted_sort_key_strict)
  let ?xs = "filter (\<lambda>m. summary dt d F m \<noteq> None \<and> matches_plan fts d plan m \<and> filter_clause d F m \<and>
    opt_all (\<lambda>c. row_key m < (cur_sort_key c, cur_message_id c)) c) (messages d)"
  have "distinct (map msg_id ?xs)" using assms by (simp add: uniq_def distinct_map_filter)
  then show "distinct (map row_key ?xs)" by (auto simp: distinct_map row_key_def inj_on_def)
qed

lemma page_rows_in: "m \<in> set (page_rows fts dt d plan F c) \<Longrightarrow> m \<in> set (messages d) \<and> summary dt d F m \<noteq> None"
  by (auto simp: page_rows_def)

text \<open>What the next page is, when the rows that are still to come are known.\<close>

lemma page_of_rest:
  assumes "page_rows fts dt d plan F cursor = zs"
  shows "\<exists>p. page fts dt plan F cursor 200 d = Inr p \<and> sp_items p = map (\<lambda>m. the (summary dt d F m)) (take 200 zs) \<and>
    (length zs \<le> 200 \<and> sp_exhausted p \<or>
     200 < length zs \<and> \<not> sp_exhausted p \<and> sp_next_cursor p = Some (cursor_after (the (summary dt d F (zs ! 199)))))"
proof (cases "length zs \<le> 200")
  case True
  with assms show ?thesis by (simp add: page_def Let_def)
next
  case False
  then have len: "length (take 200 zs) = 200" by simp
  then have ne: "take 200 zs \<noteq> []" by (metis list.size(3) zero_neq_numeral)
  have last: "last (map (\<lambda>m. the (summary dt d F m)) (take 200 zs)) = the (summary dt d F (zs ! 199))"
    unfolding last_map [OF ne] last_conv_nth [OF ne] len by simp
  let ?p = "\<lparr>sp_items = map (\<lambda>m. the (summary dt d F m)) (take 200 zs),
    sp_next_cursor = Some (cursor_after (the (summary dt d F (zs ! 199)))), sp_exhausted = False, sp_has_slow_path = False\<rparr>"
  have rows: "length (take 201 zs) = 201" "take 200 (take 201 zs) = take 200 zs" using False by simp_all
  have "page fts dt plan F cursor 200 d = Inr ?p"
    using rows ne last assms by (simp add: page_def Let_def)
  with False show ?thesis by simp
qed

lemma read_pages_rest:
  assumes never: "\<forall>s. \<exists>t. cancelled s = (Inr False, t)" and uniq: "uniq msg_id (messages d)" and dates: "canonical_dates dt d"
    and page: "\<And>c w. w_db w = d \<Longrightarrow> \<exists>w' p. next_page c w = (map_sum id (\<lambda>p. p\<lparr>sp_has_slow_path := slow\<rparr>) (page fts dt plan F c 200 d), w') \<and> remote_only w w'"
    and rows: "page_rows fts dt d plan F None = ys @ zs" "page_rows fts dt d plan F cursor = zs" and "length zs < n" and "w_db w = d"
  shows "\<exists>w'. read_pages n next_page cancelled cursor results w =
    (Inr (Some (results @ map (\<lambda>m. the (summary dt d F m)) zs)), w') \<and> remote_only w w'"
  using assms(5-8)
proof (induction n arbitrary: ys zs cursor results w)
  case (Suc n)
  from run_never_cancelled [OF never, of w] obtain w1 where
    w1: "on_remote (raise_if_cancelled cancelled) w = (Inr (), w1)" "remote_only w w1" by blast
  from page_of_rest [OF Suc.prems(2)] obtain p where p: "page fts dt plan F cursor 200 d = Inr p"
    "sp_items p = map (\<lambda>m. the (summary dt d F m)) (take 200 zs)"
    "length zs \<le> 200 \<and> sp_exhausted p \<or> 200 < length zs \<and> \<not> sp_exhausted p \<and>
      sp_next_cursor p = Some (cursor_after (the (summary dt d F (zs ! 199))))" by blast
  from page [of w1 cursor] w1(2) Suc.prems(4) p(1) obtain w2 where
    w2: "next_page cursor w1 = (Inr (p\<lparr>sp_has_slow_path := slow\<rparr>), w2)" "remote_only w1 w2"
    by (auto simp: remote_only_fields)
  have w: "w_db w2 = d" "remote_only w w2"
    using w1(2) w2(2) Suc.prems(4) by (auto simp: remote_only_fields intro: remote_only_trans)
  show ?case
  proof (cases "length zs \<le> 200")
    case True
    with p w1 w2 w show ?thesis by (simp add: run_then run_bind Let_def)
  next
    case False
    let ?c = "cursor_after (the (summary dt d F (zs ! 199)))"
    have split: "zs = take 199 zs @ zs ! 199 # drop 200 zs" using False id_take_nth_drop [of 199 zs] by simp
    have "zs ! 199 \<in> set (page_rows fts dt d plan F None)" using Suc.prems(1) False by simp
    from page_rows_in [OF this] obtain s where "zs ! 199 \<in> set (messages d)" "summary dt d F (zs ! 199) = Some s" by auto
    from cursor_after_row [OF dates this] this have key: "(cur_sort_key ?c, cur_message_id ?c) = row_key (zs ! 199)" by simp
    have "page_rows fts dt d plan F None = (ys @ take 199 zs) @ zs ! 199 # drop 200 zs"
      using Suc.prems(1) split by simp
    with page_rows_strict [OF uniq, of fts dt plan F None] have rest: "page_rows fts dt d plan F (Some ?c) = drop 200 zs"
      unfolding page_rows_after key by (simp only: filter_below)
    have "page_rows fts dt d plan F None = (ys @ take 200 zs) @ drop 200 zs" using Suc.prems(1) by simp
    moreover have "length (drop 200 zs) < n" using Suc.prems(3) False by simp
    ultimately obtain w' where
      "read_pages n next_page cancelled (Some ?c) (results @ map (\<lambda>m. the (summary dt d F m)) (take 200 zs)) w2 =
        (Inr (Some ((results @ map (\<lambda>m. the (summary dt d F m)) (take 200 zs)) @ map (\<lambda>m. the (summary dt d F m)) (drop 200 zs))), w')"
      "remote_only w2 w'" using Suc.IH [OF _ rest _ w(1)] by blast
    moreover have "map (\<lambda>m. the (summary dt d F m)) (take 200 zs) @ map (\<lambda>m. the (summary dt d F m)) (drop 200 zs) =
        map (\<lambda>m. the (summary dt d F m)) zs" by (simp flip: map_append)
    ultimately show ?thesis using False p w1 w2 w by (auto simp: run_then run_bind Let_def intro: remote_only_trans)
  qed
qed simp

text \<open>
  C22. The pages of a list are the whole list. Reading page after page, while the database does not change and the
  operation is not cancelled, ends after at most one page more than there are messages and returns every
  message of the list or search exactly once, newest first. The dates must be stored as the program
  writes them, since the cursor carries the date as it was read.
\<close>

theorem all_pages_are_read:
  assumes "\<forall>s. \<exists>t. cancelled s = (Inr False, t)" and "uniq msg_id (messages (w_db w))" and "canonical_dates dt (w_db w)"
    and plan: "if query = [] then plan = None else \<exists>P. parse_query nfkc query mode = Inr P \<and> plan = Some P"
    and rows: "rows = page_rows fts dt (w_db w) plan F None" and "length rows < n"
  shows "(\<exists>w'. list_all_messages n fts dt nfkc cancelled query mode F w =
      (Inr (Some (map (\<lambda>m. the (summary dt (w_db w) F m)) rows)), w') \<and> same_store w w') \<and>
    sorted_wrt (\<lambda>a b. row_key b < row_key a) rows"
proof -
  define slow where "slow = (case plan of None \<Rightarrow> False | Some P \<Rightarrow> pl_has_slow_path P)"
  have repo: "\<exists>w'. repo_page fts dt cancelled plan F c 200 v = (page fts dt plan F c 200 (w_db v), w') \<and> remote_only v w'" for c v
    using run_never_cancelled [OF assms(1), of v] by (auto simp: repo_page_def run_then run_bind remote_only_fields split: sum.split)
  have page: "\<exists>w' p. current_page fts dt nfkc cancelled query mode F c v =
      (map_sum id (\<lambda>p. p\<lparr>sp_has_slow_path := slow\<rparr>) (page fts dt plan F c 200 (w_db w)), w') \<and> remote_only v w'"
    if v: "w_db v = w_db w" for c v
  proof -
    from repo [of c v] v obtain w' where w': "repo_page fts dt cancelled plan F c 200 v = (page fts dt plan F c 200 (w_db w), w')"
      "remote_only v w'" by auto
    show ?thesis
    proof (cases "query = []")
      case True
      have "map_sum id (\<lambda>p. p\<lparr>sp_has_slow_path := slow\<rparr>) (page fts dt plan F c 200 (w_db w)) = page fts dt plan F c 200 (w_db w)"
        using True plan by (simp add: page_def Let_def slow_def)
      with True plan w' show ?thesis by (simp add: current_page_def list_messages_def)
    next
      case False
      with plan w' show ?thesis
        by (cases "page fts dt plan F c 200 (w_db w)") (auto simp: current_page_def search_messages_def run_bind slow_def)
    qed
  qed
  have "\<exists>w'. list_all_messages n fts dt nfkc cancelled query mode F w =
      (Inr (Some ([] @ map (\<lambda>m. the (summary dt (w_db w) F m)) rows)), w') \<and> remote_only w w'"
    unfolding list_all_messages_def
    by (rule read_pages_rest [where ys = "[]", OF assms(1-3) page]) (use rows assms(6) in auto)
  moreover have "sorted_wrt (\<lambda>a b. row_key b < row_key a) rows" unfolding rows by (rule page_rows_strict [OF assms(2)])
  ultimately show ?thesis by (auto simp: same_store_def remote_only_fields)
qed

definition list_world :: "unit world" where
  "list_world = scan_world\<lparr>w_db := sample_db\<rparr>"

definition list_filter :: message_filter where
  "list_filter = default_filter\<lparr>flt_local_states := [Active, Trashed]\<rparr>"

theorem all_pages_are_read_witness:
  "\<exists>w' rows. list_all_messages 3 (\<lambda>_. []) Some id (ret False) [] ''and'' list_filter list_world = (Inr (Some rows), w') \<and>
    map ml_id rows = [2, 1]"
proof -
  have never: "\<forall>s. \<exists>t. (ret False :: (unit, bool) prog) s = (Inr False, t)" by simp
  have ok: "uniq msg_id (messages (w_db list_world))" "canonical_dates Some (w_db list_world)" by code_simp+
  let ?rows = "page_rows (\<lambda>_. []) Some (w_db list_world) None list_filter None"
  have ids: "map ml_id (map (\<lambda>m. the (summary Some (w_db list_world) list_filter m)) ?rows) = [2, 1]" by code_simp
  have "length ?rows < 3" using arg_cong [OF ids, of length] by simp
  have plan: "if ([] :: string) = [] then (None :: search_plan option) = None
      else \<exists>P. parse_query id [] ''and'' = Inr P \<and> None = Some P" by simp
  from all_pages_are_read [OF never ok plan refl \<open>length ?rows < 3\<close>] obtain w' where
    "list_all_messages 3 (\<lambda>_. []) Some id (ret False) [] ''and'' list_filter list_world =
      (Inr (Some (map (\<lambda>m. the (summary Some (w_db list_world) list_filter m)) ?rows)), w')" by blast
  with ids show ?thesis by (intro exI conjI)
qed

end
