(* ===== verification/Startup.thy ===== *)
theory Startup
  imports Verify_Props Trash_Props Snapshots "HOL-Library.Sublist"
begin

text \<open>
  Recovery at start-up (\<open>repair_manifest_tails\<close> and \<open>recover_after_unclean_shutdown\<close> of
  \<^verbatim>\<open>usecases/snapshots.py\<close>): the torn tails of all manifest files are removed, then, account by account, the
  messages fetched since the last checkpoint are verified and the interrupted purges completed. The state holds
  the manifest records of every account.
\<close>

section \<open>Tails\<close>

text \<open>The files of one account, month by month: how many events were read, and the files afterwards. \<open>seen\<close>
  are the events of the earlier files.\<close>

fun repair_files :: "env \<Rightarrow> codec \<Rightarrow> event list \<Rightarrow> string list \<Rightarrow> (error + event list) \<times> string list" where
  "repair_files E C seen [] = (Inr seen, [])"
| "repair_files E C seen (bytes # rest) = (case read_events E C bytes of
     Inl e \<Rightarrow> (Inl e, bytes # rest)
   | Inr (evs, kept) \<Rightarrow>
       if \<not> checkpoints_increase None (seen @ evs)
       then (Inl (ManifestCorruptError ''manifest checkpoint sequences are not strictly increasing''), bytes # rest)
       else (case repair_files E C (seen @ evs) rest of (r, rest') \<Rightarrow> (r, kept # rest')))"

definition repair_account ::
  "env \<Rightarrow> codec \<Rightarrow> nat \<Rightarrow> account_row \<Rightarrow> ((string \<times> string list) list, nat) prog" where
  "repair_account E C n a = (\<lambda>d.
    if acc_id a = [] then (Inr n, d)
    else (case manifest_validate_account_id (acc_id a) of
        Inl e \<Rightarrow> (Inl e, d)
      | Inr _ \<Rightarrow> (case map_of d (acc_id a) of
          None \<Rightarrow> (Inr n, d)
        | Some fs \<Rightarrow> (case repair_files E C [] fs of (r, fs') \<Rightarrow>
            (map_sum id (\<lambda>evs. if evs = [] then n else n + 1) r, dict_set (acc_id a) fs' d)))))"

definition repair_manifest_tails ::
  "env \<Rightarrow> codec \<Rightarrow> db \<Rightarrow> ((string \<times> string list) list, nat) prog" where
  "repair_manifest_tails E C d = bindp (lift_sum (fst (list_accounts d))) (foldp (repair_account E C) 0)"

section \<open>Recovery\<close>

record 'r site =
  si_world :: "'r world"
  si_logs :: "(string \<times> (string \<times> event) list) list"

definition log_of :: "'r site \<Rightarrow> string \<Rightarrow> (string \<times> event) list" where
  "log_of s a = (case map_of (si_logs s) a of None \<Rightarrow> [] | Some log \<Rightarrow> log)"

text \<open>A round for one account: the reader, then a writer on the same records, which is closed at the end.\<close>

definition recover_account ::
  "env \<Rightarrow> ('r, bool) prog \<Rightarrow> (string \<Rightarrow> string) \<Rightarrow> storage_state \<Rightarrow> string \<Rightarrow> (string \<times> event) list \<Rightarrow> ('r world, range_result) prog" where
  "recover_account E cancelled unique st a log =
    thenp (lift_sum (manifest_validate_account_id a))
    (thenp (modify (\<lambda>w. w\<lparr>w_man := \<lparr>man_account = a, man_log = log, man_synced = length log, man_seq = None\<rparr>\<rparr>))
    (bindp (range_verify E cancelled unique) (\<lambda>result.
     bindp (lift_sum (open_writer a log)) (\<lambda>m.
     thenp (modify (\<lambda>w. w\<lparr>w_man := m\<rparr>)) (thenp (recover_incomplete_purges E st) (ret result))))))"

definition recover_site_account ::
  "env \<Rightarrow> ('r, bool) prog \<Rightarrow> (string \<Rightarrow> string) \<Rightarrow> storage_state \<Rightarrow> range_result list \<Rightarrow> account_row \<Rightarrow> ('r site, range_result list) prog" where
  "recover_site_account E cancelled unique st results a =
    (if acc_id a = [] then ret results
     else (\<lambda>s. case recover_account E cancelled unique st (acc_id a) (log_of s (acc_id a)) (si_world s) of (r, w) \<Rightarrow>
       (map_sum id (\<lambda>x. results @ [x]) r,
        (case manifest_validate_account_id (acc_id a) of
           Inl _ \<Rightarrow> s\<lparr>si_world := w\<rparr>
         | Inr _ \<Rightarrow> s\<lparr>si_world := w, si_logs := dict_set (acc_id a) (man_log (w_man w)) (si_logs s)\<rparr>))))"

definition recover_after_unclean_shutdown ::
  "env \<Rightarrow> ('r, bool) prog \<Rightarrow> (string \<Rightarrow> string) \<Rightarrow> storage_state \<Rightarrow> ('r site, range_result list) prog" where
  "recover_after_unclean_shutdown E cancelled unique st =
    bindp (gets (\<lambda>s. fst (list_accounts (w_db (si_world s))))) (\<lambda>r. bindp (lift_sum r)
      (foldp (recover_site_account E cancelled unique st) []))"

section \<open>What recovery keeps\<close>

definition grown :: "(string \<times> event) list \<Rightarrow> 'r world \<Rightarrow> bool" where
  "grown log w \<longleftrightarrow> db_inv (w_db w) \<and> prefix log (man_log (w_man w))"

lemma keeps_grown_on_db: "keeps db_inv m \<Longrightarrow> keeps (grown log) (on_db m)"
  by (auto intro!: keeps_on_db simp: grown_def dest: keepsD)

lemma keeps_grown_other:
  "keeps (grown log) begin_batch" "keeps (grown log) commit_batch" "keeps (grown log) (storage_delete p)"
  "keeps (grown log) (on_remote q)" "keeps (grown log) (on_fs g)"
  by (auto simp: keeps_def grown_def begin_batch_def commit_batch_def storage_delete_def on_remote_def on_fs_def
      record_effect_def split: prod.split sum.split)

lemma append_event_grows: "prefix (man_log m) (man_log (snd (append_event E ev m)))"
  by (auto simp: append_event_def split: sum.splits)

lemma keeps_grown_journal: "keeps (grown log) (journal E ev)"
proof -
  have "keeps (grown log) (man_append E ev)"
    unfolding keeps_def
  proof (intro allI impI)
    fix w :: "'r world"
    assume "grown log w"
    with append_event_grows [of "w_man w" E ev] show "grown log (snd (man_append E ev w))"
      by (cases "append_event E ev (w_man w)") (auto simp: grown_def man_append_def intro: prefix_order.trans)
  qed
  moreover have "keeps (grown log) man_sync" by (auto simp: keeps_def grown_def run_man_sync)
  ultimately show ?thesis unfolding journal_def by (intro keeps_then)
qed

lemma keeps_grown_finish: "keeps (grown log) (finish_purge_database E m b)"
proof -
  have "keeps db_inv (audit_exists m)" unfolding audit_exists_def list_audit_log_def by (intro keeps_bind) auto
  then show ?thesis
    unfolding finish_purge_database_def
    by (intro keeps_then keeps_bind keeps_when keeps_grown_other keeps_grown_on_db) (auto intro: keeps_delete_message_contents keeps_message_ops keeps_other_ops)
qed

lemma keeps_grown_complete: "keeps (grown log) (complete_purge E m ts intended wi)"
proof -
  have "keeps (grown log) (if b then storage_exists p else ret False)" for b p by auto
  then show ?thesis
    unfolding complete_purge_def count_path_references_def on_db_gets Let_def
    by (auto split: option.split intro!: keeps_bind keeps_then keeps_when keeps_grown_journal keeps_grown_other keeps_grown_finish)
qed

lemma keeps_grown_recovery: "keeps (grown log) (recover_incomplete_purges E st)"
  unfolding recover_incomplete_purges_def list_stored_messages_def on_db_gets Let_def
  by (intro keeps_if keeps_raise keeps_bind keeps_gets keeps_lift_sum keeps_then keeps_forp
      keeps_recover_steps keeps_grown_complete keeps_grown_finish)

lemma keeps_grown_verify: "keeps (grown log) (range_verify E cancelled unique)"
proof -
  have stop: "keeps (grown log) (token_stopped cancelled)"
    unfolding token_stopped_def by (intro keeps_bind keeps_catch_cancel keeps_grown_other keeps_ret)
  have hash: "keeps (grown log) (range_hash E cancelled path)" for path
    unfolding range_hash_def hash_chunks_def
    by (intro keeps_catch keeps_catch_cancel keeps_bind keeps_then keeps_forp keeps_grown_other keeps_gets keeps_lift_sum keeps_ret)
      (auto split: prod.split)
  have "keeps db_inv (record_integrity_failure r reason)" for r reason
    unfolding record_integrity_failure_def by (auto split: option.split intro: keeps_other_ops)
  then have repair: "keeps (grown log) (repair_integrity_issue unique r issue)" for r issue
    unfolding repair_integrity_issue_def
    by (intro keeps_then keeps_when keeps_grown_on_db keeps_grown_other keeps_message_ops keeps_ret)
  have "keeps (grown log) (range_repair unique R item issue)" for R item issue
    unfolding range_repair_def Let_def
    by (intro keeps_then keeps_bind keeps_when keeps_grown_other keeps_ret) (auto split: option.split intro: repair)
  then have "keeps (grown log) (range_verify_step E cancelled unique records R ev)" for records R ev
    unfolding range_verify_step_def Let_def
    by (intro keeps_if keeps_ret keeps_bind stop) (auto split: json.split option.split intro!: keeps_bind hash)
  then show ?thesis
    unfolding range_verify_def list_stored_messages_def on_db_gets
    by (intro keeps_bind keeps_gets keeps_lift_sum keeps_foldp)
qed

lemma recover_account_grows:
  assumes "recover_account E cancelled unique st a log w = (r, w')" and "db_inv (w_db w)" and "manifest_validate_account_id a = Inr ()"
  shows "grown log w'"
proof -
  let ?m = "\<lparr>man_account = a, man_log = log, man_synced = length log, man_seq = None\<rparr>"
  obtain r1 w1 where v: "range_verify E cancelled unique (w\<lparr>w_man := ?m\<rparr>) = (r1, w1)" by fastforce
  have w1: "grown log w1" using keepsD [OF keeps_grown_verify _ v, of log] assms(2) by (simp add: grown_def)
  show ?thesis
  proof (cases r1)
    case (Inl e)
    with assms v w1 show ?thesis by (simp add: recover_account_def run_then run_bind)
  next
    case (Inr result)
    show ?thesis
    proof (cases "open_writer a log")
      case (Inl e)
      with assms v w1 Inr show ?thesis by (simp add: recover_account_def run_then run_bind)
    next
      case m: (Inr m)
      then have "man_log m = log" by (auto simp: open_writer_def Let_def split: sum.splits)
      with w1 have w2: "grown log (w1\<lparr>w_man := m\<rparr>)" by (simp add: grown_def)
      obtain r2 w2 where rec: "recover_incomplete_purges E st (w1\<lparr>w_man := m\<rparr>) = (r2, w2)" by fastforce
      from keepsD [OF keeps_grown_recovery w2 rec] rec assms v Inr m show ?thesis
        by (auto simp: recover_account_def run_then run_bind split: sum.splits)
    qed
  qed
qed

lemma recover_account_rejected:
  "manifest_validate_account_id a = Inl e \<Longrightarrow> recover_account E cancelled unique st a log w = (Inl e, w)"
  by (simp add: recover_account_def run_then)

definition site_grown :: "'r site \<Rightarrow> 'r site \<Rightarrow> bool" where
  "site_grown s s' \<longleftrightarrow> db_inv (w_db (si_world s')) \<and> (\<forall>a. prefix (log_of s a) (log_of s' a))"

lemma recover_site_account_grows: "keeps (site_grown s0) (recover_site_account E cancelled unique st results a)"
  unfolding keeps_def
proof (intro allI impI)
  fix s
  assume s: "site_grown s0 s"
  obtain r w where run: "recover_account E cancelled unique st (acc_id a) (log_of s (acc_id a)) (si_world s) = (r, w)" by fastforce
  show "site_grown s0 (snd (recover_site_account E cancelled unique st results a s))"
  proof (cases "manifest_validate_account_id (acc_id a)")
    case (Inl e)
    with run have "w = si_world s" by (simp add: recover_account_rejected [OF Inl])
    with s run Inl show ?thesis by (simp add: recover_site_account_def site_grown_def log_of_def)
  next
    case (Inr u)
    with recover_account_grows [OF run] s have "grown (log_of s (acc_id a)) w" by (simp add: site_grown_def)
    with s run Inr show ?thesis
      by (auto simp: recover_site_account_def site_grown_def log_of_def grown_def intro: prefix_order.trans)
  qed
qed

text \<open>
  C25. The recovery at start-up loses nothing durable. However it ends, for whichever accounts and in whatever state
  the manifests are, the database keeps its schema and the manifest of every account keeps all its records
  in place: records are only added.
\<close>

theorem startup_recovery_keeps_records:
  assumes "recover_after_unclean_shutdown E cancelled unique st s = (r, s')" and "db_inv (w_db (si_world s))"
  shows "db_inv (w_db (si_world s')) \<and> (\<forall>a. prefix (log_of s a) (log_of s' a))"
proof -
  have "keeps (site_grown s) (recover_after_unclean_shutdown E cancelled unique st)"
    unfolding recover_after_unclean_shutdown_def
    by (intro keeps_bind keeps_gets keeps_lift_sum keeps_foldp recover_site_account_grows)
  from keepsD [OF this _ assms(1)] assms(2) show ?thesis by (simp add: site_grown_def)
qed

theorem startup_recovery_keeps_records_witness:
  "\<exists>r s'. recover_after_unclean_shutdown sample_env (ret False) id ATTACHED
     \<lparr>si_world = sample_journal_world sample_intent Trashed, si_logs = [(''acc'', [(''202601'', sample_intent)])]\<rparr> = (r, s') \<and>
     prefix [(''202601'', sample_intent)] (log_of s' ''acc'')"
proof -
  define s where "s = \<lparr>si_world = sample_journal_world sample_intent Trashed, si_logs = [(''acc'', [(''202601'', sample_intent)])]\<rparr>"
  obtain r s' where run: "recover_after_unclean_shutdown sample_env (ret False) id ATTACHED s = (r, s')" by fastforce
  have "db_inv (w_db (si_world s))" by (simp add: s_def sample_journal_db)
  from startup_recovery_keeps_records [OF run this] have "prefix (log_of s ''acc'') (log_of s' ''acc'')" by blast
  moreover have "log_of s ''acc'' = [(''202601'', sample_intent)]" by (simp add: s_def log_of_def)
  ultimately show ?thesis using run unfolding s_def by auto
qed

definition sample_site :: "unit site" where
  "sample_site =
    (let fetched = [(''event'', JStr ''fetch''), (''account_id'', JStr ''acc''), (''source_item_key'', JStr ''k1''),
       (''relative_path'', JStr ''eml/acc/m.eml''), (''file_hash'', JStr ''ab'')]
     in \<lparr>si_world = (sample_journal_world sample_intent Trashed)\<lparr>w_fs := \<lparr>fs_root = [''data''], fs_files = []\<rparr>\<rparr>,
          si_logs = [(''acc'', [(''202601'', fetched), (''202601'', sample_intent)])]\<rparr>)"

lemma verification_hides_interrupted_purge:
  "case recover_after_unclean_shutdown sample_env (ret False) id ATTACHED sample_site of (r, s) \<Rightarrow>
     map msg_local_state (messages (w_db (si_world s))) = [Trashed] \<and>
     map msg_relative_path (messages (w_db (si_world s))) = [None] \<and>
     incomplete_intents (map snd (log_of s ''acc'')) = [sample_intent]"
  by code_simp

end
