(* ===== verification/Attachments.thy ===== *)
theory Attachments
  imports Eml_Storage
begin

text \<open>
  File names of attachments (\<^verbatim>\<open>domain/attachments.py\<close>): the name a mail gives to an attachment becomes a
  name that is safe on every file system and at most 255 bytes long, with the warnings raised on the way.
  Texts are lists of Unicode code points; the normalization form NFC and the case folding of Unicode are
  parameters.
\<close>

section \<open>Code points\<close>

type_synonym ustring = "nat list"

definition utext :: "string \<Rightarrow> ustring" where
  "utext s = map of_char s"

definition is_surrogate :: "nat \<Rightarrow> bool" where
  "is_surrogate c \<longleftrightarrow> 0xD800 \<le> c \<and> c \<le> 0xDFFF"

text \<open>The length of a character in UTF-8.\<close>

definition char_bytes :: "nat \<Rightarrow> nat" where
  "char_bytes c = (if c < 0x80 then 1 else if c < 0x800 then 2 else if c < 0x10000 then 3 else 4)"

definition utf8_length :: "ustring \<Rightarrow> nat" where
  "utf8_length s = sum_list (map char_bytes s)"

text \<open>\<open>len(s.encode("utf-8"))\<close>, which a lone surrogate makes fail.\<close>

definition encoded_length :: "ustring \<Rightarrow> error + nat" where
  "encoded_length s =
     (if list_ex is_surrogate s then Inl (ValueError ''surrogates not allowed'') else Inr (utf8_length s))"

section \<open>Truncation\<close>

fun truncate_loop :: "nat \<Rightarrow> nat \<Rightarrow> ustring \<Rightarrow> ustring" where
  "truncate_loop max_bytes used [] = []"
| "truncate_loop max_bytes used (c # s) =
    (if used + char_bytes c > max_bytes then [] else c # truncate_loop max_bytes (used + char_bytes c) s)"

definition truncate_utf8 :: "ustring \<Rightarrow> nat \<Rightarrow> ustring" where
  "truncate_utf8 s max_bytes = (if utf8_length s \<le> max_bytes then s else truncate_loop max_bytes 0 s)"

abbreviation dot :: nat where
  "dot \<equiv> 46"

text \<open>\<open>rsplit(".", 1)\<close> of a text with a dot.\<close>

definition rsplit_dot :: "ustring \<Rightarrow> ustring \<times> ustring" where
  "rsplit_dot s = (rev (tl (dropWhile (\<lambda>c. c \<noteq> dot) (rev s))), rev (takeWhile (\<lambda>c. c \<noteq> dot) (rev s)))"

definition has_extension :: "ustring \<Rightarrow> bool" where
  "has_extension s \<longleftrightarrow> dot \<in> set s \<and> hd s \<noteq> dot"

definition truncate_preserving_extension :: "ustring \<Rightarrow> nat \<Rightarrow> error + ustring" where
  "truncate_preserving_extension s max_bytes = (case encoded_length s of
     Inl e \<Rightarrow> Inl e
   | Inr n \<Rightarrow>
       if n \<le> max_bytes then Inr s
       else if \<not> has_extension s then Inr (truncate_utf8 s max_bytes)
       else (let (stem, ext) = rsplit_dot s; extension = dot # ext in
         if utf8_length extension \<ge> max_bytes then Inr (truncate_utf8 extension max_bytes)
         else Inr (truncate_utf8 stem (max_bytes - utf8_length extension) @ extension)))"

definition extension_of :: "(ustring \<Rightarrow> ustring) \<Rightarrow> ustring \<Rightarrow> ustring" where
  "extension_of fold_case s = (if \<not> has_extension s then [] else dot # fold_case (snd (rsplit_dot s)))"

section \<open>Names\<close>

definition path_separator :: "nat \<Rightarrow> bool" where
  "path_separator c \<longleftrightarrow> c \<in> set (utext [CHR ''/'', CHR 0x5C])"

definition forbidden_character :: "nat \<Rightarrow> bool" where
  "forbidden_character c \<longleftrightarrow> c \<in> set (utext (''<>:/|?*'' @ [CHR 0x22, CHR 0x5C]))"

text \<open>The Unicode category \<open>Cc\<close>.\<close>

definition control_character :: "nat \<Rightarrow> bool" where
  "control_character c \<longleftrightarrow> c < 32 \<or> 127 \<le> c \<and> c < 160"

definition executable_extensions :: "ustring list" where
  "executable_extensions = map utext [''.exe'', ''.scr'', ''.js'', ''.vbs'', ''.lnk'', ''.bat'', ''.cmd'', ''.ps1'']"

definition ascii_lower :: "nat \<Rightarrow> nat" where
  "ascii_lower c = (if 65 \<le> c \<and> c \<le> 90 then c + 32 else c)"

text \<open>The pattern of the reserved names, which ignores case.\<close>

definition reserved_name :: "ustring \<Rightarrow> bool" where
  "reserved_name s \<longleftrightarrow> map ascii_lower s \<in> utext ` set ([''con'', ''prn'', ''aux'', ''nul''] @
     map (\<lambda>c. ''com'' @ [c]) ''123456789'' @ map (\<lambda>c. ''lpt'' @ [c]) ''123456789'')"

definition basename :: "ustring \<Rightarrow> ustring" where
  "basename s = takeWhile (\<lambda>c. c \<noteq> dot) s"

record sanitized_name =
  san_name :: ustring
  san_warnings :: "string list"

definition is_executable :: "sanitized_name \<Rightarrow> bool" where
  "is_executable r \<longleftrightarrow> ''executable_extension'' \<in> set (san_warnings r)"

abbreviation underscore :: nat where
  "underscore \<equiv> 95"

definition replace_unsafe :: "ustring \<Rightarrow> ustring" where
  "replace_unsafe s = map (\<lambda>c. if forbidden_character c \<or> control_character c then underscore else c) s"

definition trailing_character :: "nat \<Rightarrow> bool" where
  "trailing_character c \<longleftrightarrow> c \<in> set (utext ''. '')"

definition warn :: "bool \<Rightarrow> string \<Rightarrow> string list" where
  "warn b w = (if b then [w] else [])"

text \<open>The steps before the name is bounded, and the whole function.\<close>

definition clean_name :: "(ustring \<Rightarrow> ustring) \<Rightarrow> ustring \<Rightarrow> sanitized_name" where
  "clean_name nfc name =
    (let components = split_at path_separator (nfc name);
         value = last components;
         replaced = replace_unsafe value;
         stripped = rstrip trailing_character replaced;
         filled = (if stripped = [] then utext ''attachment'' else stripped);
         renamed = (if reserved_name (basename filled)
           then basename filled @ [underscore] @ drop (length (basename filled)) filled else filled)
     in \<lparr>san_name = renamed, san_warnings =
           warn (length components > 1) ''path_component'' @
           warn (list_ex forbidden_character value) ''forbidden_character'' @
           warn (list_ex (\<lambda>c. control_character c \<and> \<not> forbidden_character c) value) ''control_character'' @
           warn (stripped \<noteq> replaced) ''trailing_character'' @
           warn (stripped = []) ''empty_name'' @
           warn (reserved_name (basename filled)) ''reserved_name''\<rparr>)"

definition sanitize_attachment_name ::
  "(ustring \<Rightarrow> ustring) \<Rightarrow> (ustring \<Rightarrow> ustring) \<Rightarrow> ustring \<Rightarrow> error + sanitized_name" where
  "sanitize_attachment_name nfc fold_case name =
    (let cleaned = clean_name nfc name; value = nfc (san_name cleaned) in
     case truncate_preserving_extension value 255 of
       Inl e \<Rightarrow> Inl e
     | Inr bounded \<Rightarrow> Inr \<lparr>san_name = bounded, san_warnings = san_warnings cleaned @
         warn (bounded \<noteq> value) ''truncated'' @
         warn (extension_of fold_case bounded \<in> set executable_extensions) ''executable_extension''\<rparr>)"

section \<open>Destinations\<close>

fun resolve_names :: "ustring list \<Rightarrow> ustring list \<Rightarrow> ustring list" where
  "resolve_names acc [] = rev acc"
| "resolve_names acc (p # ps) =
     (if p = [] \<or> p = [dot] then resolve_names acc ps
      else if p = [dot, dot] then resolve_names (tl acc) ps
      else resolve_names (p # acc) ps)"

definition slash :: "nat \<Rightarrow> bool" where
  "slash c \<longleftrightarrow> c = of_char (CHR ''/'')"

definition resolve_within :: "ustring list \<Rightarrow> ustring \<Rightarrow> error + ustring list" where
  "resolve_within base name =
    (let start = (if name \<noteq> [] \<and> slash (hd name) then [] else rev base);
         destination = resolve_names start (split_at slash name)
     in if take (length base) destination \<noteq> base
        then Inl (ValueError ''attachment destination escapes its base directory'')
        else if destination = base
        then Inl (ValueError ''attachment destination escapes or equals its base directory'')
        else Inr destination)"

end
