(* ===== verification/Attachments_Props.thy ===== *)
theory Attachments_Props
  imports Attachments "HOL-Library.Sublist"
begin

text \<open>
  What a sanitized attachment name guarantees, that sanitizing it again changes nothing unless it was
  truncated, and how a truncation can bring a reserved name back.
\<close>

section \<open>Normalization\<close>

text \<open>
  What UAX 15 documents of NFC: it is idempotent, parts of a normalized text are normalized, ASCII text is
  left alone, and an underscore combines with nothing before or after it.
\<close>

definition nfc_ok :: "(ustring \<Rightarrow> ustring) \<Rightarrow> bool" where
  "nfc_ok nfc \<longleftrightarrow> (\<forall>s. nfc (nfc s) = nfc s) \<and> (\<forall>s t. sublist t s \<and> nfc s = s \<longrightarrow> nfc t = t) \<and>
     (\<forall>s. (\<forall>c\<in>set s. c < 128) \<longrightarrow> nfc s = s) \<and> (\<forall>s t. nfc (s @ underscore # t) = nfc s @ underscore # nfc t)"

lemma nfc_part: "nfc_ok nfc \<Longrightarrow> nfc s = s \<Longrightarrow> sublist t s \<Longrightarrow> nfc t = t"
  unfolding nfc_ok_def by blast

lemma nfc_idem: "nfc_ok nfc \<Longrightarrow> nfc (nfc s) = nfc s"
  by (simp add: nfc_ok_def)

lemma nfc_underscore: "nfc_ok nfc \<Longrightarrow> nfc (s @ underscore # t) = nfc s @ underscore # nfc t"
  by (simp add: nfc_ok_def)

lemma nfc_replace_unsafe:
  assumes "nfc_ok nfc" and "nfc (s @ t) = s @ t"
  shows "nfc (s @ replace_unsafe t) = s @ replace_unsafe t"
  using assms(2)
proof (induction t arbitrary: s)
  case (Cons c t)
  show ?case
  proof (cases "forbidden_character c \<or> control_character c")
    case True
    have "nfc s = s" by (rule nfc_part [OF assms(1) Cons.prems]) simp
    moreover have "nfc t = t" by (rule nfc_part [OF assms(1) Cons.prems]) (simp add: suffix_imp_sublist suffix_def)
    ultimately
    show ?thesis using Cons.IH [of "[]"] True by (simp add: replace_unsafe_def nfc_underscore [OF assms(1)])
  next
    case False
    with Cons.IH [of "s @ [c]"] Cons.prems show ?thesis by (simp add: replace_unsafe_def)
  qed
qed (simp add: replace_unsafe_def)

section \<open>Clean names\<close>

definition unsafe :: "nat \<Rightarrow> bool" where
  "unsafe c \<longleftrightarrow> forbidden_character c \<or> control_character c"

lemma underscore_safe [simp]: "\<not> unsafe underscore" "\<not> trailing_character underscore"
  by (simp_all add: unsafe_def forbidden_character_def control_character_def trailing_character_def utext_def)

lemma replace_unsafe_safe: "c \<in> set (replace_unsafe s) \<Longrightarrow> \<not> unsafe c"
  using underscore_safe(1) by (auto simp: replace_unsafe_def unsafe_def)

lemma replace_unsafe_id: "(\<forall>c\<in>set s. \<not> unsafe c) \<Longrightarrow> replace_unsafe s = s"
  unfolding replace_unsafe_def by (rule map_idI) (auto simp: unsafe_def)

lemma last_split_at: "suffix (last (split_at p s)) s"
proof (induction p s rule: split_at.induct)
  case (2 p c s)
  show ?case
  proof (cases "p c")
    case True
    with 2 show ?thesis by (simp add: suffix_ConsI)
  next
    case False
    obtain t ts where s: "split_at p s = t # ts" by (cases "split_at p s") auto
    show ?thesis
    proof (cases ts)
      case Nil
      from s Nil have "split_at p s = [t]" by simp
      then have "t = s" by (induction s arbitrary: t) (auto split: if_splits list.splits)
      with s Nil False show ?thesis by simp
    next
      case (Cons u us)
      with 2 s False show ?thesis by (simp add: suffix_ConsI)
    qed
  qed
qed simp

lemma prefix_rstrip: "prefix (rstrip p s) s"
  by (metis rstrip_def rev_rev_ident suffix_dropWhile suffix_to_prefix)

lemma last_rstrip: "rstrip p s \<noteq> [] \<Longrightarrow> \<not> p (last (rstrip p s))"
  by (metis hd_dropWhile last_rev rev_is_Nil_conv rstrip_def)

lemma rstrip_id: "s \<noteq> [] \<Longrightarrow> \<not> p (last s) \<Longrightarrow> rstrip p s = s"
  by (cases s rule: rev_cases) (simp_all add: rstrip_def)

lemma reserved_underscore: "\<not> reserved_name (s @ [underscore])"
proof
  assume "reserved_name (s @ [underscore])"
  then obtain r where r: "map ascii_lower (s @ [underscore]) = utext r"
    "r \<in> set ([''con'', ''prn'', ''aux'', ''nul''] @ map (\<lambda>c. ''com'' @ [c]) ''123456789'' @ map (\<lambda>c. ''lpt'' @ [c]) ''123456789'')"
    unfolding reserved_name_def by blast
  then have "r \<noteq> []" by (auto simp: utext_def)
  with arg_cong [OF r(1), of last] have "of_char (last r) = (95::nat)" by (simp add: ascii_lower_def utext_def last_map)
  with r(2) show False by auto
qed

lemma basename_rest: "drop (length (basename s)) s = dropWhile (\<lambda>c. c \<noteq> dot) s"
  by (simp add: basename_def dropWhile_eq_drop)

lemma basename_renamed:
  "basename (basename s @ [underscore] @ drop (length (basename s)) s) = basename s @ [underscore]"
proof -
  define b where "b = basename s"
  have b: "c \<in> set (b @ [underscore]) \<Longrightarrow> c \<noteq> dot" for c by (auto simp: b_def basename_def dest: set_takeWhileD)
  have "takeWhile (\<lambda>c. c \<noteq> dot) (dropWhile (\<lambda>c. c \<noteq> dot) s) = []" by (induction s) auto
  then have "takeWhile (\<lambda>c. c \<noteq> dot) ((b @ [underscore]) @ dropWhile (\<lambda>c. c \<noteq> dot) s) = b @ [underscore]"
    by (subst takeWhile_append2) (use b in simp_all)
  then show ?thesis by (simp add: basename_def [of "_ @ _"] basename_rest b_def)
qed

definition tidy :: "ustring \<Rightarrow> bool" where
  "tidy s \<longleftrightarrow> s \<noteq> [] \<and> (\<forall>c\<in>set s. \<not> unsafe c) \<and> \<not> trailing_character (last s) \<and> \<not> reserved_name (basename s)"

lemma clean_name_tidy:
  assumes "nfc_ok nfc"
  shows "nfc (san_name (clean_name nfc name)) = san_name (clean_name nfc name)" and "tidy (san_name (clean_name nfc name))"
proof -
  define replaced where "replaced = replace_unsafe (last (split_at path_separator (nfc name)))"
  define filled where "filled = (if rstrip trailing_character replaced = [] then utext ''attachment'' else rstrip trailing_character replaced)"
  define rest where "rest = drop (length (basename filled)) filled"
  have name: "san_name (clean_name nfc name) =
      (if reserved_name (basename filled) then basename filled @ [underscore] @ rest else filled)"
    by (simp add: clean_name_def Let_def replaced_def filled_def rest_def)
  have "nfc (last (split_at path_separator (nfc name))) = last (split_at path_separator (nfc name))"
    by (rule nfc_part [OF assms nfc_idem [OF assms]]) (rule suffix_imp_sublist [OF last_split_at])
  with nfc_replace_unsafe [OF assms, of "[]"] have "nfc replaced = replaced" by (simp add: replaced_def)
  then have "nfc (rstrip trailing_character replaced) = rstrip trailing_character replaced"
    by (rule nfc_part [OF assms]) (simp add: prefix_rstrip prefix_imp_sublist)
  moreover have "nfc (utext ''attachment'') = utext ''attachment''" using assms by (simp add: nfc_ok_def utext_def)
  ultimately have filled: "nfc filled = filled" by (simp add: filled_def)
  have split: "filled = basename filled @ rest" by (simp add: rest_def basename_rest) (simp add: basename_def)
  have parts: "nfc (basename filled) = basename filled" "nfc rest = rest"
    by (rule nfc_part [OF assms filled], metis split prefixI prefix_imp_sublist)
      (rule nfc_part [OF assms filled], metis split suffixI suffix_imp_sublist)
  show "nfc (san_name (clean_name nfc name)) = san_name (clean_name nfc name)"
    using filled parts nfc_underscore [OF assms, of "basename filled" rest] by (simp add: name)
  have safe: "\<forall>c\<in>set filled. \<not> unsafe c"
  proof (cases "rstrip trailing_character replaced = []")
    case True
    then show ?thesis
      by (simp add: filled_def unsafe_def forbidden_character_def control_character_def utext_def)
  next
    case False
    then have "set filled \<subseteq> set replaced" using set_mono_prefix [OF prefix_rstrip] by (simp add: filled_def)
    then show ?thesis using replace_unsafe_safe unfolding replaced_def by blast
  qed
  have "filled \<noteq> []" by (simp add: filled_def utext_def)
  moreover have "\<not> trailing_character (last filled)"
    using last_rstrip [of trailing_character replaced] by (auto simp: filled_def trailing_character_def utext_def)
  moreover have "last rest = last filled" if "rest \<noteq> []" by (subst split) (simp add: that)
  moreover have "\<forall>c\<in>set (basename filled) \<union> set rest. \<not> unsafe c" using safe unfolding split [THEN arg_cong, of set] by simp
  moreover have "\<not> reserved_name (basename filled @ [underscore])" by (rule reserved_underscore)
  ultimately show "tidy (san_name (clean_name nfc name))"
    using safe basename_renamed [of filled] unfolding tidy_def name rest_def [symmetric]
    by (auto simp: unsafe_def [symmetric])
qed

section \<open>Truncation\<close>

lemma utf8_length_simps [simp]:
  "utf8_length [] = 0" "utf8_length (c # s) = char_bytes c + utf8_length s" "utf8_length (s @ t) = utf8_length s + utf8_length t"
  by (simp_all add: utf8_length_def)

lemma char_bytes_bounds: "1 \<le> char_bytes c" "char_bytes c \<le> 4"
  by (simp_all add: char_bytes_def)

lemma utf8_length_bound: "utf8_length s \<le> 4 * length s"
  by (induction s) (use char_bytes_bounds(2) in \<open>simp_all add: add_mono\<close>)

lemma truncate_loop_prefix: "prefix (truncate_loop m used s) s"
  by (induction m used s rule: truncate_loop.induct) auto

lemma truncate_loop_length:
  "used \<le> m \<Longrightarrow> used + utf8_length (truncate_loop m used s) \<le> m"
  "used + utf8_length s > m \<Longrightarrow> used + utf8_length (truncate_loop m used s) + 4 > m"
proof (induction m used s rule: truncate_loop.induct)
  case (2 m used c s)
  { case 1
    with 2 show ?case by (simp add: add.assoc)
  next
    case 2
    with "2.IH" char_bytes_bounds(2) [of c] show ?case by (auto simp: add.assoc)
  }
qed simp_all

lemma truncate_utf8_length:
  "utf8_length (truncate_utf8 s m) \<le> m" "utf8_length s \<ge> m \<Longrightarrow> utf8_length (truncate_utf8 s m) + 4 > m"
  using truncate_loop_length(1) [where used = 0 and m = m and s = s] truncate_loop_length(2) [where used = 0 and m = m and s = s]
  by (auto simp: truncate_utf8_def)

lemma truncate_utf8_prefix: "prefix (truncate_utf8 s m) s"
  by (simp add: truncate_utf8_def truncate_loop_prefix)

lemma rsplit_dot_join: "dot \<in> set s \<Longrightarrow> s = fst (rsplit_dot s) @ dot # snd (rsplit_dot s)"
proof -
  assume "dot \<in> set s"
  then have "dropWhile (\<lambda>c. c \<noteq> dot) (rev s) \<noteq> []" by (simp add: dropWhile_eq_Nil_conv)
  then have d: "dropWhile (\<lambda>c. c \<noteq> dot) (rev s) = dot # tl (dropWhile (\<lambda>c. c \<noteq> dot) (rev s))"
    by (metis (mono_tags, lifting) hd_Cons_tl hd_dropWhile)
  have "rev s = takeWhile (\<lambda>c. c \<noteq> dot) (rev s) @ dropWhile (\<lambda>c. c \<noteq> dot) (rev s)" by simp
  with d have "rev s = takeWhile (\<lambda>c. c \<noteq> dot) (rev s) @ dot # tl (dropWhile (\<lambda>c. c \<noteq> dot) (rev s))" by simp
  from arg_cong [OF this, of rev] show ?thesis by (simp add: rsplit_dot_def)
qed

lemma truncate_preserving_extension_result:
  assumes "truncate_preserving_extension s m = Inr b"
  shows "utf8_length b \<le> m" and "set b \<subseteq> set s" and "b = s \<or> utf8_length b + 4 > m"
proof -
  have "utf8_length b \<le> m \<and> set b \<subseteq> set s \<and> (b = s \<or> utf8_length b + 4 > m)"
  proof (cases "utf8_length s \<le> m")
    case True
    with assms show ?thesis by (auto simp: truncate_preserving_extension_def encoded_length_def split: if_splits)
  next
    case long: False
    show ?thesis
    proof (cases "has_extension s")
      case False
      with assms long have b: "b = truncate_utf8 s m"
        by (auto simp: truncate_preserving_extension_def encoded_length_def split: if_splits)
      show ?thesis using long truncate_utf8_length [where s = s and m = m] set_mono_prefix [OF truncate_utf8_prefix [of s m]] unfolding b by simp
    next
      case True
      obtain stem ext where e: "rsplit_dot s = (stem, ext)" by (cases "rsplit_dot s")
      with True have s: "s = stem @ dot # ext" using rsplit_dot_join [of s] by (simp add: has_extension_def)
      define x where "x = dot # ext"
      have b: "b = (if utf8_length x \<ge> m then truncate_utf8 x m else truncate_utf8 stem (m - utf8_length x) @ x)"
        using assms long True e by (auto simp: truncate_preserving_extension_def encoded_length_def x_def split: if_splits)
      have long': "m < utf8_length stem + utf8_length x" using long by (simp add: s x_def)
      show ?thesis
      proof (cases "utf8_length x \<ge> m")
        case True
        then show ?thesis
          using truncate_utf8_length [where s = x and m = m] set_mono_prefix [OF truncate_utf8_prefix [of x m]]
          unfolding b by (auto simp: s x_def)
      next
        case False
        define t where "t = truncate_utf8 stem (m - utf8_length x)"
        have "utf8_length t \<le> m - utf8_length x" "m - utf8_length x < utf8_length t + 4"
          using truncate_utf8_length [where s = stem and m = "m - utf8_length x"] long' by (simp_all add: t_def)
        moreover have "set t \<subseteq> set stem" unfolding t_def by (rule set_mono_prefix [OF truncate_utf8_prefix])
        moreover have "b = t @ x" "s = stem @ x" using False by (simp_all add: b t_def s x_def)
        ultimately show ?thesis using False by auto
      qed
    qed
  qed
  then show "utf8_length b \<le> m" "set b \<subseteq> set s" "b = s \<or> utf8_length b + 4 > m" by simp_all
qed

section \<open>Safe names\<close>

lemma resolve_within_child:
  assumes "\<forall>c\<in>set name. \<not> slash c" and "name \<notin> {[], [dot], [dot, dot]}"
  shows "resolve_within base name = Inr (base @ [name])"
proof -
  have "split_at slash name = [name]" using assms(1) by (simp add: split_at_none)
  with assms show ?thesis by (cases name) (auto simp: resolve_within_def Let_def)
qed

lemma slash_unsafe: "slash c \<Longrightarrow> unsafe c"
  by (simp add: slash_def unsafe_def forbidden_character_def utext_def)

lemma set_rstrip: "set (rstrip p s) \<subseteq> set s"
  by (rule set_mono_prefix [OF prefix_rstrip])

lemma clean_name_characters: "set (san_name (clean_name nfc name)) \<subseteq> set (nfc name) \<union> {c. c < 128}"
proof -
  define replaced where "replaced = replace_unsafe (last (split_at path_separator (nfc name)))"
  define filled where "filled = (if rstrip trailing_character replaced = [] then utext ''attachment'' else rstrip trailing_character replaced)"
  have "set replaced \<subseteq> set (nfc name) \<union> {c. c < 128}"
    using set_mono_suffix [OF last_split_at [of path_separator "nfc name"]] by (auto simp: replaced_def replace_unsafe_def)
  then have filled: "set filled \<subseteq> set (nfc name) \<union> {c. c < 128}"
    using set_rstrip [of trailing_character replaced] by (auto simp: filled_def utext_def)
  have "san_name (clean_name nfc name) = (if reserved_name (basename filled)
      then basename filled @ [underscore] @ drop (length (basename filled)) filled else filled)"
    by (simp add: clean_name_def Let_def replaced_def filled_def)
  then have "set (san_name (clean_name nfc name)) \<subseteq> set filled \<union> {underscore}"
    by (auto simp: basename_def dest: set_takeWhileD in_set_dropD)
  with filled show ?thesis by auto
qed

lemma sanitize_result:
  assumes "nfc_ok nfc" and "sanitize_attachment_name nfc fold_case name = Inr r"
  shows "truncate_preserving_extension (san_name (clean_name nfc name)) 255 = Inr (san_name r)"
    and "san_warnings r = san_warnings (clean_name nfc name) @ warn (san_name r \<noteq> san_name (clean_name nfc name)) ''truncated'' @
      warn (extension_of fold_case (san_name r) \<in> set executable_extensions) ''executable_extension''"
  using assms(2) clean_name_tidy(1) [OF assms(1), of name]
  by (auto simp: sanitize_attachment_name_def Let_def split: sum.splits)

lemma sanitize_safe:
  assumes "nfc_ok nfc" and "\<not> list_ex is_surrogate (nfc name)"
  shows "\<exists>r. sanitize_attachment_name nfc fold_case name = Inr r \<and> san_name r \<notin> {[], [dot], [dot, dot]} \<and>
    (\<forall>c\<in>set (san_name r). \<not> unsafe c) \<and> utf8_length (san_name r) \<le> 255"
proof -
  define v where "v = san_name (clean_name nfc name)"
  have "\<not> list_ex is_surrogate v"
    using clean_name_characters [of nfc name] assms(2) unfolding v_def by (fastforce simp: list_ex_iff is_surrogate_def)
  then obtain b where b: "truncate_preserving_extension v 255 = Inr b"
    by (cases "truncate_preserving_extension v 255")
      (auto simp: truncate_preserving_extension_def encoded_length_def split_beta Let_def split: if_splits)
  note result = truncate_preserving_extension_result [OF b]
  have tidy: "tidy v" unfolding v_def by (rule clean_name_tidy(2) [OF assms(1)])
  have "b \<notin> {[], [dot], [dot, dot]}"
  proof (cases "b = v")
    case True
    with tidy show ?thesis by (auto simp: tidy_def trailing_character_def utext_def)
  next
    case False
    with result(3) utf8_length_bound [of b] have "length b > 2" by linarith
    then show ?thesis by auto
  qed
  moreover have "\<forall>c\<in>set b. \<not> unsafe c" using result(2) tidy by (auto simp: tidy_def)
  moreover obtain r where "sanitize_attachment_name nfc fold_case name = Inr r" "san_name r = b"
    using b clean_name_tidy(1) [OF assms(1), of name] by (simp add: sanitize_attachment_name_def Let_def v_def)
  ultimately show ?thesis using result(1) by blast
qed

text \<open>
  C21. A sanitized name is safe. Whatever name a mail gives to an attachment, if it is encodable at all, the
  sanitization returns a name that is a direct child of every destination directory, has at most 255 bytes
  in UTF-8 and contains no separator, no other forbidden character and no control character.
\<close>

theorem sanitized_names_are_safe:
  assumes "nfc_ok nfc" and "\<not> list_ex is_surrogate (nfc name)"
  shows "\<exists>r. sanitize_attachment_name nfc fold_case name = Inr r \<and>
    resolve_within base (san_name r) = Inr (base @ [san_name r]) \<and> utf8_length (san_name r) \<le> 255 \<and>
    list_all (\<lambda>c. \<not> forbidden_character c \<and> \<not> control_character c \<and> \<not> path_separator c) (san_name r)"
proof -
  from sanitize_safe [OF assms] obtain r where r: "sanitize_attachment_name nfc fold_case name = Inr r"
    "san_name r \<notin> {[], [dot], [dot, dot]}" "\<forall>c\<in>set (san_name r). \<not> unsafe c" "utf8_length (san_name r) \<le> 255" by blast
  from r(2,3) slash_unsafe have "resolve_within base (san_name r) = Inr (base @ [san_name r])"
    by (intro resolve_within_child) auto
  moreover have "path_separator c \<Longrightarrow> unsafe c" for c by (auto simp: path_separator_def unsafe_def forbidden_character_def utext_def)
  ultimately show ?thesis using r by (auto simp: list_all_iff unsafe_def)
qed

theorem sanitized_names_are_safe_witness:
  "\<exists>r. sanitize_attachment_name id id (utext ''../nul.txt'') = Inr r \<and> resolve_within [] (san_name r) = Inr [san_name r]"
proof -
  have "nfc_ok id" by (simp add: nfc_ok_def)
  moreover have "\<not> list_ex is_surrogate (id (utext ''../nul.txt''))" by (simp add: utext_def is_surrogate_def)
  ultimately show ?thesis using sanitized_names_are_safe [of id "utext ''../nul.txt''" id "[]"] by auto
qed

section \<open>Sanitizing again\<close>

lemma clean_name_id:
  assumes "nfc v = v" and "tidy v"
  shows "clean_name nfc v = \<lparr>san_name = v, san_warnings = []\<rparr>"
proof -
  have sep: "split_at path_separator v = [v]"
    using assms(2) by (intro split_at_none)
      (auto simp: tidy_def path_separator_def unsafe_def forbidden_character_def utext_def)
  have "replace_unsafe v = v" "rstrip trailing_character v = v" "v \<noteq> []" "\<not> reserved_name (basename v)"
    using assms(2) by (auto simp: tidy_def replace_unsafe_id rstrip_id)
  moreover have "\<not> list_ex forbidden_character v" "\<not> list_ex (\<lambda>c. control_character c \<and> \<not> forbidden_character c) v"
    using assms(2) by (auto simp: tidy_def unsafe_def list_ex_iff)
  ultimately show ?thesis using assms(1) by (simp add: clean_name_def sep warn_def)
qed

lemma clean_name_warnings:
  "''truncated'' \<notin> set (san_warnings (clean_name nfc name))" "''executable_extension'' \<notin> set (san_warnings (clean_name nfc name))"
  by (simp_all add: clean_name_def Let_def warn_def)

text \<open>
  Sanitizing is stable. A sanitized name that was not truncated is left as it is when it is sanitized again,
  with the same classification as executable, so that a reviewed plan to save it passes the second check;
  no other warning is raised then.
\<close>

lemma sanitizing_again_changes_nothing:
  assumes "nfc_ok nfc" and r: "sanitize_attachment_name nfc fold_case name = Inr r" and "''truncated'' \<notin> set (san_warnings r)"
  shows "sanitize_attachment_name nfc fold_case (san_name r) =
    Inr \<lparr>san_name = san_name r, san_warnings = warn (is_executable r) ''executable_extension''\<rparr>"
proof -
  define v where "v = san_name (clean_name nfc name)"
  note result = sanitize_result [OF assms(1) r]
  have name: "san_name r = v" using assms(3) by (auto simp: result(2) warn_def v_def split: if_splits)
  have v: "nfc v = v" "tidy v" using clean_name_tidy [OF assms(1)] by (simp_all add: v_def)
  have "is_executable r \<longleftrightarrow> extension_of fold_case v \<in> set executable_extensions"
    using clean_name_warnings(2) [of nfc name] name by (simp add: is_executable_def result(2) warn_def)
  moreover have "truncate_preserving_extension v 255 = Inr v" using result(1) name by (simp add: v_def)
  ultimately show ?thesis by (simp add: name sanitize_attachment_name_def clean_name_id [of nfc v, OF v] v(1) warn_def)
qed

lemma sanitizing_again_changes_nothing_witness:
  "\<exists>r. sanitize_attachment_name id id (utext ''aux?.js'') = Inr r \<and> sanitize_attachment_name id id (san_name r) =
     Inr \<lparr>san_name = san_name r, san_warnings = warn (is_executable r) ''executable_extension''\<rparr>"
proof -
  define r where "r = \<lparr>san_name = utext ''aux_.js'', san_warnings = [''forbidden_character'', ''executable_extension'']\<rparr>"
  have "clean_name id (utext ''aux?.js'') = \<lparr>san_name = utext ''aux_.js'', san_warnings = [''forbidden_character'']\<rparr>"
    by (simp add: clean_name_def Let_def utext_def path_separator_def replace_unsafe_def forbidden_character_def
      control_character_def rstrip_def trailing_character_def basename_def reserved_name_def ascii_lower_def warn_def)
  moreover have "truncate_preserving_extension (utext ''aux_.js'') 255 = Inr (utext ''aux_.js'')"
    by (simp add: truncate_preserving_extension_def encoded_length_def utext_def char_bytes_def is_surrogate_def)
  moreover have "extension_of id (utext ''aux_.js'') = utext ''.js''"
    by (simp add: extension_of_def has_extension_def rsplit_dot_def utext_def)
  ultimately have "sanitize_attachment_name id id (utext ''aux?.js'') = Inr r"
    by (simp add: sanitize_attachment_name_def r_def warn_def executable_extensions_def)
  moreover have "''truncated'' \<notin> set (san_warnings r)" by (simp add: r_def)
  moreover have "nfc_ok id" by (simp add: nfc_ok_def)
  ultimately show ?thesis using sanitizing_again_changes_nothing [of id id "utext ''aux?.js''" r] by blast
qed

section \<open>What a truncation can undo\<close>

lemma utf8_length_replicate [simp]: "utf8_length (replicate n c) = n * char_bytes c"
  by (induction n) simp_all

lemma truncate_loop_append:
  "used + utf8_length s \<le> m \<Longrightarrow> truncate_loop m used (s @ t) = s @ truncate_loop m (used + utf8_length s) t"
  by (induction s arbitrary: used) (simp_all add: add.assoc)

lemma rsplit_dot_append: "dot \<notin> set ext \<Longrightarrow> rsplit_dot (stem @ dot # ext) = (stem, ext)"
proof -
  assume "dot \<notin> set ext"
  then have "takeWhile (\<lambda>c. c \<noteq> dot) (rev ext @ dot # rev stem) = rev ext" "dropWhile (\<lambda>c. c \<noteq> dot) (rev ext @ dot # rev stem) = dot # rev stem"
    by (simp_all add: takeWhile_append dropWhile_append)
  then show ?thesis by (simp add: rsplit_dot_def)
qed

text \<open>A long extension leaves few bytes for the stem: what is kept of it can be a reserved name. And the
  last character that is kept can be a space, which sanitizing again removes, so that the plan to save it
  is refused.\<close>

lemma sanitize_tidy:
  assumes "nfc_ok nfc" and "sanitize_attachment_name nfc fold_case v = Inr r" and "\<forall>c\<in>set v. c < 128" and "tidy v"
  shows "truncate_preserving_extension v 255 = Inr (san_name r)"
proof -
  have "nfc v = v" using assms(1,3) by (simp add: nfc_ok_def)
  with sanitize_result(1) [OF assms(1,2)] assms(4) show ?thesis by (simp add: clean_name_id [of nfc v])
qed

lemma ascii_surrogate: "\<forall>c\<in>set v. c < 128 \<Longrightarrow> \<not> list_ex is_surrogate v"
  by (auto simp: list_ex_iff is_surrogate_def)

lemma truncation_restores_reserved_name:
  assumes "nfc_ok nfc" and "sanitize_attachment_name nfc fold_case (utext ''console.'' @ replicate 251 120) = Inr r"
  shows "san_name r = utext ''con.'' @ replicate 251 120 \<and> reserved_name (basename (san_name r))"
proof -
  define ext where "ext = replicate 251 (120::nat)"
  define v where "v = utext ''console.'' @ ext"
  have ext: "dot \<notin> set ext" "ext \<noteq> []" "last ext = 120" "set ext = {120}" "utf8_length ext = 251"
    by (simp_all add: ext_def last_replicate char_bytes_def)
  have ascii: "\<forall>c\<in>set v. c < 128" by (simp add: v_def ext utext_def)
  have base: "basename v = utext ''console''" by (simp add: v_def basename_def utext_def)
  have "tidy v" unfolding tidy_def base
    by (simp add: v_def ext unsafe_def forbidden_character_def control_character_def trailing_character_def utext_def
      reserved_name_def ascii_lower_def)
  with assms ascii have "truncate_preserving_extension v 255 = Inr (san_name r)"
    by (intro sanitize_tidy) (simp_all add: v_def ext_def)
  moreover have split: "rsplit_dot v = (utext ''console'', ext)"
    using rsplit_dot_append [OF ext(1), of "utext ''console''"] by (simp add: v_def utext_def)
  moreover have "has_extension v" "utf8_length v = 259" by (simp_all add: v_def ext has_extension_def utext_def char_bytes_def)
  moreover have "truncate_utf8 (utext ''console'') 3 = utext ''con''"
    by (simp add: truncate_utf8_def utext_def char_bytes_def)
  moreover have "utf8_length (dot # ext) = 252" by (simp add: ext char_bytes_def)
  ultimately have "san_name r = utext ''con'' @ dot # ext"
    using ascii_surrogate [OF ascii] by (simp add: truncate_preserving_extension_def encoded_length_def)
  then show ?thesis by (simp add: ext_def basename_def utext_def reserved_name_def ascii_lower_def)
qed

lemma truncation_leaves_a_trailing_space:
  assumes "nfc_ok nfc" and "sanitize_attachment_name nfc fold_case (replicate 254 97 @ [32, 98]) = Inr r"
  shows "san_name r = replicate 254 97 @ [32]"
proof -
  define a where "a = replicate 254 (97::nat)"
  define v where "v = a @ [32, 98]"
  have a: "dot \<notin> set a" "a \<noteq> []" "set a = {97}" "utf8_length a = 254" "length a = 254" by (simp_all add: a_def char_bytes_def)
  have ascii: "\<forall>c\<in>set v. c < 128" by (simp add: v_def a)
  have base: "basename v = v" by (simp add: v_def basename_def takeWhile_append a)
  have "\<not> reserved_name v" using a(5) by (auto simp: v_def reserved_name_def utext_def dest!: arg_cong [where f = length])
  then have "tidy v" unfolding tidy_def base
    by (simp add: v_def a unsafe_def forbidden_character_def control_character_def trailing_character_def utext_def)
  with assms ascii have "truncate_preserving_extension v 255 = Inr (san_name r)"
    by (intro sanitize_tidy) (simp_all add: v_def a_def)
  moreover have "\<not> has_extension v" "utf8_length v = 256" by (simp_all add: v_def a has_extension_def char_bytes_def)
  moreover have "truncate_loop 255 0 v = a @ [32]" by (simp add: v_def truncate_loop_append a char_bytes_def)
  ultimately show ?thesis
    using ascii_surrogate [OF ascii] by (simp add: truncate_preserving_extension_def encoded_length_def truncate_utf8_def a_def)
qed

end
