(* ===== verification/Export.thy ===== *)
theory Export
  imports Attachments_Props Retry
begin

text \<open>
  Copies of stored messages for the user (\<^verbatim>\<open>usecases/export_attachments.py\<close>, \<^verbatim>\<open>usecases/export_message.py\<close>):
  attachments are published under free names of a directory, also while other programs use it, and a message
  is written to a chosen path. The state holds the stored files, the files of the user and the cancellation
  token; a name that belongs to a directory is listed among the files with some content. A temporary file that is published or removed before the operation ends is left out, and so is the
  limit of a file system on the length of names.
\<close>

section \<open>State\<close>

type_synonym ufiles = "(ustring list \<times> string) list"

record 'r desk =
  dk_store :: fs
  dk_files :: ufiles
  dk_dirs :: "ustring list list"
  dk_token :: 'r

record message_part =
  mp_content_id :: "string option"
  mp_content_type :: string
  mp_filename :: "ustring option"
  mp_payload :: string
  mp_is_inline :: bool

definition desk_token :: "('r, 'a) prog \<Rightarrow> ('r desk, 'a) prog" where
  "desk_token m = (\<lambda>s. case m (dk_token s) of (r, t) \<Rightarrow> (r, s\<lparr>dk_token := t\<rparr>))"

definition desk_files :: "(ufiles, 'a) prog \<Rightarrow> ('r desk, 'a) prog" where
  "desk_files m = (\<lambda>s. case m (dk_files s) of (r, d) \<Rightarrow> (r, s\<lparr>dk_files := d\<rparr>))"

definition occupied :: "ufiles \<Rightarrow> ustring list \<Rightarrow> bool" where
  "occupied d p \<longleftrightarrow> p \<in> fst ` set d"

section \<open>A free name\<close>

text \<open>\<open>Path(name).stem\<close> and \<open>Path(name).suffix\<close>.\<close>

definition stem_suffix :: "ustring \<Rightarrow> ustring \<times> ustring" where
  "stem_suffix name =
    (let (stem, ext) = rsplit_dot name in
     if dot \<in> set name \<and> stem \<noteq> [] \<and> ext \<noteq> [] then (stem, dot # ext) else (name, []))"

definition candidate_name :: "ustring \<Rightarrow> nat \<Rightarrow> ustring" where
  "candidate_name filename counter =
    (if counter = 0 then filename
     else fst (stem_suffix filename) @ utext ('' ('' @ nat_text counter @ '')'') @ snd (stem_suffix filename))"

text \<open>The loop over the counters; the result is \<open>None\<close> when the given number of rounds is not enough.\<close>

fun candidate_loop :: "nat \<Rightarrow> ufiles \<Rightarrow> ustring list \<Rightarrow> ustring \<Rightarrow> nat \<Rightarrow> error + ustring list option" where
  "candidate_loop 0 d base filename counter = Inr None"
| "candidate_loop (Suc n) d base filename counter =
    (case resolve_within base (candidate_name filename counter) of
       Inl _ \<Rightarrow> Inl (StorageError ''Attachment destination is no longer safe'')
     | Inr candidate \<Rightarrow> if \<not> occupied d candidate then Inr (Some candidate) else candidate_loop n d base filename (Suc counter))"

text \<open>As many names as there are files, and one more, contain a free one.\<close>

definition candidate_path :: "ustring list \<Rightarrow> ustring \<Rightarrow> ufiles \<Rightarrow> error + ustring list option" where
  "candidate_path base filename d = candidate_loop (length d + 1) d base filename 0"

section \<open>Attachments\<close>

text \<open>\<open>os.link\<close>, which fails when the destination exists.\<close>

definition write_without_overwrite :: "ustring list \<Rightarrow> string \<Rightarrow> (ufiles, bool) prog" where
  "write_without_overwrite destination payload = (\<lambda>d.
     if occupied d destination then (Inr False, d) else (Inr True, d @ [(destination, payload)]))"

text \<open>\<open>others\<close> is what other programs do to the files between the choice of a name and its publication. The result
  is \<open>None\<close> when they won the name in every round.\<close>

fun publish_part :: "nat \<Rightarrow> (ufiles \<Rightarrow> ufiles) \<Rightarrow> ustring list \<Rightarrow> ustring \<Rightarrow> string \<Rightarrow> (ufiles, ustring list option) prog" where
  "publish_part 0 others base filename payload = ret None"
| "publish_part (Suc n) others base filename payload =
    bindp (gets (candidate_path base filename)) (\<lambda>r. bindp (lift_sum r) (\<lambda>candidate. case candidate of
        None \<Rightarrow> ret None
      | Some destination \<Rightarrow>
          thenp (modify others) (bindp (write_without_overwrite destination payload) (\<lambda>published.
            if published then ret (Some destination) else publish_part n others base filename payload))))"

record export_warning =
  xw_message_id :: int
  xw_path :: "ustring list"
  xw_codes :: "string list"

record export_result =
  xr_files :: "ustring list list"
  xr_skipped_count :: int
  xr_warnings :: "string list"
  xr_warning_details :: "export_warning list"
  xr_executable_paths :: "ustring list list"

record 'r export_ctx =
  xc_env :: env
  xc_nfc :: "ustring \<Rightarrow> ustring"
  xc_fold_case :: "ustring \<Rightarrow> ustring"
  xc_render :: "string \<Rightarrow> error + message_part list"
  xc_others :: "ufiles \<Rightarrow> ufiles"
  xc_rounds :: nat
  xc_cancelled :: "('r, bool) prog"

definition message_storage :: "message_row \<Rightarrow> error + (string \<times> string) option" where
  "message_storage m =
    (if msg_local_state m = Purged then Inr None
     else case msg_relative_path m of
       None \<Rightarrow> Inl (StorageError ''Message has no stored EML path'')
     | Some path \<Rightarrow>
         if path = [] then Inl (StorageError ''Message has no stored EML path'')
         else (case msg_file_hash m of
             None \<Rightarrow> Inl (StorageError ''Message has no stored EML hash'')
           | Some hash \<Rightarrow> if hash = [] then Inl (StorageError ''Message has no stored EML hash'') else Inr (Some (path, hash))))"

definition is_attachment :: "message_part \<Rightarrow> bool" where
  "is_attachment p \<longleftrightarrow> mp_content_id p = None \<and> \<not> mp_is_inline p"

text \<open>One part of a message. The result of a run is \<open>None\<close> once a name was lost in every round.\<close>

definition export_part ::
  "'r export_ctx \<Rightarrow> ustring list \<Rightarrow> int \<Rightarrow> export_result option \<Rightarrow> message_part \<Rightarrow> ('r desk, export_result option) prog" where
  "export_part X base message_id acc p = (case acc of None \<Rightarrow> ret None | Some R \<Rightarrow>
    thenp (desk_token (raise_if_cancelled (xc_cancelled X)))
    (if \<not> is_attachment p then ret (Some R)
     else bindp (lift_sum (sanitize_attachment_name (xc_nfc X) (xc_fold_case X) (case mp_filename p of None \<Rightarrow> [] | Some f \<Rightarrow> f))) (\<lambda>sanitized.
       bindp (desk_files (publish_part (xc_rounds X) (xc_others X) base (san_name sanitized) (mp_payload p))) (\<lambda>path. case path of
           None \<Rightarrow> ret None
         | Some path \<Rightarrow> ret (Some (R\<lparr>xr_files := xr_files R @ [path], xr_warnings := xr_warnings R @ san_warnings sanitized,
             xr_warning_details := xr_warning_details R @
               (if san_warnings sanitized = [] then [] else [\<lparr>xw_message_id = message_id, xw_path = path, xw_codes = san_warnings sanitized\<rparr>]),
             xr_executable_paths := xr_executable_paths R @ (if is_executable sanitized then [path] else [])\<rparr>))))))"

definition export_message_parts ::
  "'r export_ctx \<Rightarrow> ustring list \<Rightarrow> export_result option \<Rightarrow> message_row \<Rightarrow> ('r desk, export_result option) prog" where
  "export_message_parts X base acc m = (case acc of None \<Rightarrow> ret None | Some R \<Rightarrow>
    thenp (desk_token (raise_if_cancelled (xc_cancelled X)))
    (bindp (lift_sum (message_storage m)) (\<lambda>metadata. case metadata of
        None \<Rightarrow> ret (Some (R\<lparr>xr_skipped_count := xr_skipped_count R + 1\<rparr>))
      | Some (path, hash) \<Rightarrow>
          bindp (gets (\<lambda>s. read_verified (xc_env X) path hash (dk_store s))) (\<lambda>r. bindp (lift_sum r) (\<lambda>raw.
          bindp (lift_sum (xc_render X raw)) (\<lambda>parts.
            foldp (export_part X base (msg_id m)) (Some R) parts))))))"

definition export_attachments ::
  "'r export_ctx \<Rightarrow> ustring list \<Rightarrow> message_row list \<Rightarrow> ('r desk, export_result option) prog" where
  "export_attachments X base ms =
    bindp (gets (\<lambda>s. base \<in> set (dk_dirs s))) (\<lambda>exists.
    if \<not> exists then raise (StorageError ''Attachment destination directory does not exist'')
    else bindp (foldp (export_message_parts X base)
        (Some \<lparr>xr_files = [], xr_skipped_count = 0, xr_warnings = [], xr_warning_details = [], xr_executable_paths = []\<rparr>) ms) (\<lambda>R.
      thenp (desk_token (raise_if_cancelled (xc_cancelled X))) (ret R)))"

section \<open>Messages\<close>

definition write_file :: "ustring list \<Rightarrow> string \<Rightarrow> ufiles \<Rightarrow> ufiles" where
  "write_file p payload d = upsert_row fst p (\<lambda>_. (p, payload)) (p, payload) d"

text \<open>The path of the destination as its parent and its name.\<close>

definition export_eml :: "env \<Rightarrow> string \<Rightarrow> string \<Rightarrow> ustring list \<times> ustring \<Rightarrow> ('r desk, ustring list) prog" where
  "export_eml E relative_path expected_hash dest =
    (let (parent, name) = dest in
     bindp (gets (\<lambda>s. read_verified E relative_path expected_hash (dk_store s))) (\<lambda>r. bindp (lift_sum r) (\<lambda>raw.
     bindp (gets dk_dirs) (\<lambda>dirs.
     if parent \<notin> set dirs then raise (StorageError ''EML export destination directory does not exist'')
     else if name = [] then raise (StorageError ''EML export destination must name a file'')
     else if parent @ [name] \<in> set dirs then raise (StorageError ''Could not export EML'')
     else thenp (desk_files (modify (write_file (parent @ [name]) raw))) (ret (parent @ [name]))))))"

end
