(* ===== verification/Export_Props.thy ===== *)
theory Export_Props
  imports Export
begin

text \<open>
  An export finds free names and never overwrites a file, whatever other programs do to the directory; what it
  reports holds the exported bytes.
\<close>

section \<open>Free names\<close>

lemma stem_suffix_join: "fst (stem_suffix name) @ snd (stem_suffix name) = name"
  using rsplit_dot_join [of name] by (auto simp: stem_suffix_def Let_def split: prod.splits)

lemma utext_inject: "utext s = utext t \<longleftrightarrow> s = t"
  by (auto simp: utext_def inj_map_eq_map inj_def)

lemma candidate_name_inj: "candidate_name f i = candidate_name f j \<Longrightarrow> i = j"
proof -
  assume eq: "candidate_name f i = candidate_name f j"
  have longer: "length (candidate_name f k) > length f" if "k \<noteq> 0" for k
    using that arg_cong [OF stem_suffix_join [of f], of length] by (simp add: candidate_name_def utext_def)
  have zero: "candidate_name f 0 = f" by (simp add: candidate_name_def)
  show "i = j"
  proof (cases "i = 0 \<or> j = 0")
    case True
    with longer [of i] longer [of j] zero eq show ?thesis by (metis less_irrefl)
  next
    case False
    with eq have "utext ('' ('' @ nat_text i @ '')'') = utext ('' ('' @ nat_text j @ '')'')" by (simp add: candidate_name_def)
    then show ?thesis by (simp add: utext_inject nat_text_inject)
  qed
qed

definition child_name :: "ustring \<Rightarrow> bool" where
  "child_name name \<longleftrightarrow> (\<forall>c\<in>set name. \<not> slash c) \<and> name \<notin> {[], [dot], [dot, dot]}"

lemma candidate_child:
  assumes "child_name f"
  shows "resolve_within base (candidate_name f k) = Inr (base @ [candidate_name f k])"
proof (rule resolve_within_child)
  have "set (candidate_name f k) \<subseteq> set f \<union> set (utext ('' ('' @ nat_text k @ '')''))"
    using arg_cong [OF stem_suffix_join [of f], of set] by (auto simp: candidate_name_def)
  moreover have "\<not> slash c" if "c \<in> set (utext ('' ('' @ nat_text k @ '')''))" for c
    using that by (auto simp: utext_def slash_def dest!: nat_text_decimal)
  ultimately show "\<forall>c\<in>set (candidate_name f k). \<not> slash c" using assms by (auto simp: child_name_def)
  show "candidate_name f k \<notin> {[], [dot], [dot, dot]}"
  proof (cases "k = 0")
    case False
    then have "length (candidate_name f k) > 2" by (simp add: candidate_name_def utext_def)
    then show ?thesis by auto
  qed (use assms in \<open>simp add: candidate_name_def child_name_def\<close>)
qed

lemma candidate_loop_none:
  assumes "child_name f" and "candidate_loop n d base f c = Inr None"
  shows "(\<lambda>k. base @ [candidate_name f k]) ` {c..<c + n} \<subseteq> fst ` set d"
  using assms(2)
proof (induction n arbitrary: c)
  case (Suc n)
  then have occ: "base @ [candidate_name f c] \<in> fst ` set d" and rest: "candidate_loop n d base f (Suc c) = Inr None"
    by (auto simp: candidate_child [OF assms(1)] occupied_def split: if_splits)
  have "{c..<c + Suc n} = insert c {Suc c..<Suc c + n}" by auto
  with occ Suc.IH [OF rest] show ?case by simp
qed simp

lemma candidate_loop_free:
  "candidate_loop n d base f c = Inr (Some p) \<Longrightarrow> \<not> occupied d p"
  by (induction n arbitrary: c) (auto split: sum.splits if_splits)

lemma candidate_loop_child:
  "child_name f \<Longrightarrow> \<exists>r. candidate_loop n d base f c = Inr r"
  by (induction n arbitrary: c) (auto simp: candidate_child)

lemma candidate_path_found:
  assumes "child_name f"
  shows "\<exists>p. candidate_path base f d = Inr (Some p)"
proof -
  obtain r where r: "candidate_path base f d = Inr r" unfolding candidate_path_def using candidate_loop_child [OF assms] by blast
  have "r \<noteq> None"
  proof
    assume "r = None"
    with r have "(\<lambda>k. base @ [candidate_name f k]) ` {0..<0 + (length d + 1)} \<subseteq> fst ` set d"
      by (intro candidate_loop_none [OF assms]) (simp add: candidate_path_def)
    then have "card ((\<lambda>k. base @ [candidate_name f k]) ` {0..<0 + (length d + 1)}) \<le> card (fst ` set d)" by (rule card_mono [rotated]) simp
    moreover have "card ((\<lambda>k. base @ [candidate_name f k]) ` {0..<0 + (length d + 1)}) = length d + 1"
      by (subst card_image) (auto simp: inj_on_def dest: candidate_name_inj)
    moreover have "card (fst ` set d) \<le> length d" by (metis card_length length_map list.set_map)
    ultimately show False by simp
  qed
  with r show ?thesis by auto
qed

section \<open>Publication\<close>

definition files_stay :: "ufiles \<Rightarrow> ufiles \<Rightarrow> bool" where
  "files_stay d d' \<longleftrightarrow> (\<forall>p bytes. map_of d p = Some bytes \<longrightarrow> map_of d' p = Some bytes)"

lemma files_stay_refl [simp]: "files_stay d d"
  by (simp add: files_stay_def)

lemma files_stay_trans: "files_stay d d1 \<Longrightarrow> files_stay d1 d2 \<Longrightarrow> files_stay d d2"
  by (simp add: files_stay_def)

lemma free_is_unmapped: "\<not> occupied d p \<longleftrightarrow> map_of d p = None"
  by (simp add: occupied_def map_of_eq_None_iff)

lemma publish_part_result:
  assumes "\<And>d. files_stay d (others d)" and "publish_part n others base f payload d = (r, d')"
  shows "files_stay d d'" and "r = Inr (Some p) \<Longrightarrow> map_of d p = None \<and> map_of d' p = Some payload"
proof -
  have "files_stay d d' \<and> (r = Inr (Some p) \<longrightarrow> map_of d p = None \<and> map_of d' p = Some payload)"
    using assms(2)
  proof (induction n arbitrary: d)
    case (Suc n)
    show ?case
    proof (cases "candidate_path base f d")
      case (Inr c)
      show ?thesis
      proof (cases c)
        case (Some q)
        show ?thesis
        proof (cases "occupied (others d) q")
          case True
          with Suc.prems Inr Some have "publish_part n others base f payload (others d) = (r, d')"
            by (simp add: run_bind run_then write_without_overwrite_def)
          from Suc.IH [OF this] assms(1) [of d] show ?thesis by (auto simp: files_stay_def) (metis not_None_eq)
        next
          case False
          with Suc.prems Inr Some have "r = Inr (Some q)" "d' = others d @ [(q, payload)]"
            by (simp_all add: run_bind run_then write_without_overwrite_def)
          moreover have "map_of (others d) q = None" using False by (simp add: free_is_unmapped)
          ultimately show ?thesis using assms(1) [of d]
            by (auto simp: files_stay_def map_add_Some_iff) (metis not_None_eq option.distinct(1))
        qed
      qed (use Suc.prems Inr in \<open>auto simp: run_bind\<close>)
    qed (use Suc.prems in \<open>auto simp: run_bind\<close>)
  qed auto
  then show "files_stay d d'" "r = Inr (Some p) \<Longrightarrow> map_of d p = None \<and> map_of d' p = Some payload" by simp_all
qed

lemma publish_part_finishes:
  assumes "child_name f"
  shows "\<exists>p. publish_part (Suc n) id base f payload d = (Inr (Some p), d @ [(p, payload)])"
proof -
  from candidate_path_found [OF assms] obtain p where p: "candidate_path base f d = Inr (Some p)" by blast
  then have "\<not> occupied d p" unfolding candidate_path_def by (rule candidate_loop_free)
  with p show ?thesis by (simp add: run_bind run_then write_without_overwrite_def)
qed

section \<open>A whole export\<close>

text \<open>The bytes a message contributes: its attachments, when its file is intact and can be rendered.\<close>

definition attachment_payloads :: "'r export_ctx \<Rightarrow> fs \<Rightarrow> message_row \<Rightarrow> string list" where
  "attachment_payloads X f m = (case message_storage m of
     Inr (Some (path, hash)) \<Rightarrow> (case read_verified (xc_env X) path hash f of
         Inr raw \<Rightarrow> (case xc_render X raw of Inr parts \<Rightarrow> map mp_payload (filter is_attachment parts) | Inl _ \<Rightarrow> [])
       | Inl _ \<Rightarrow> [])
   | _ \<Rightarrow> [])"

definition holds_export :: "ufiles \<Rightarrow> string list \<Rightarrow> export_result option \<Rightarrow> ufiles \<Rightarrow> bool" where
  "holds_export d ps acc d' \<longleftrightarrow> files_stay d d' \<and> (\<forall>R. acc = Some R \<longrightarrow>
     distinct (xr_files R) \<and> (\<forall>p\<in>set (xr_files R). map_of d p = None) \<and> map (map_of d') (xr_files R) = map Some ps)"

lemma holds_export_stay:
  assumes "holds_export d ps acc d1" and "files_stay d1 d2"
  shows "holds_export d ps acc d2"
proof -
  have "map (map_of d2) ys = map Some ps" if "map (map_of d1) ys = map Some ps" for ys
    using that assms(2) by (auto simp: list_eq_iff_nth_eq files_stay_def)
  with assms show ?thesis by (auto simp: holds_export_def dest: files_stay_trans)
qed

lemma holds_export_add:
  assumes "holds_export d ps (Some R) d1" and "files_stay d1 d2" and "map_of d1 p = None" and "map_of d2 p = Some payload"
    and "xr_files R' = xr_files R @ [p]"
  shows "holds_export d (ps @ [payload]) (Some R') d2"
proof -
  have "p \<notin> set (xr_files R)"
  proof
    assume "p \<in> set (xr_files R)"
    then have "map_of d1 p \<in> set (map (map_of d1) (xr_files R))" by simp
    with assms(1,3) show False by (auto simp: holds_export_def)
  qed
  moreover have "map_of d p = None" using assms(1,3) by (auto simp: holds_export_def files_stay_def) (metis not_None_eq)
  moreover have "holds_export d ps (Some R) d2" by (rule holds_export_stay [OF assms(1,2)])
  ultimately show ?thesis using assms(4,5) by (auto simp: holds_export_def)
qed

lemma desk_token_run: "\<exists>r t. desk_token m s = (r, s\<lparr>dk_token := t\<rparr>)"
  by (cases "m (dk_token s)") (auto simp: desk_token_def)

lemma desk_files_run: "desk_files m s = (r, s') \<Longrightarrow> \<exists>d. m (dk_files s) = (r, d) \<and> s' = s\<lparr>dk_files := d\<rparr>"
  by (auto simp: desk_files_def split: prod.splits)

lemma holds_export_None [simp]: "holds_export d ps None d' \<longleftrightarrow> files_stay d d'"
  by (simp add: holds_export_def)

lemma holds_export_files: "holds_export d ps acc d' \<Longrightarrow> files_stay d d'"
  by (simp add: holds_export_def)

lemma export_part_step:
  assumes others: "\<And>d. files_stay d (xc_others X d)" and run: "export_part X base i acc p s = (r, s')"
    and holds: "holds_export d ps acc (dk_files s)"
  shows "dk_store s' = dk_store s \<and> files_stay d (dk_files s') \<and>
    (\<forall>acc'. r = Inr acc' \<longrightarrow> holds_export d (ps @ (if is_attachment p then [mp_payload p] else [])) acc' (dk_files s'))"
proof (cases acc)
  case None
  with run holds show ?thesis by (auto simp: export_part_def)
next
  case (Some R)
  obtain r1 t where token: "desk_token (raise_if_cancelled (xc_cancelled X)) s = (r1, s\<lparr>dk_token := t\<rparr>)" using desk_token_run [of "raise_if_cancelled (xc_cancelled X)" s] by blast
  have files: "files_stay d (dk_files s)" using holds by (rule holds_export_files)
  show ?thesis
  proof (cases "\<exists>u. r1 = Inr u \<and> is_attachment p")
    case False
    with run Some token holds files show ?thesis by (auto simp: export_part_def run_then split: sum.splits)
  next
    case True
    show ?thesis
    proof (cases "sanitize_attachment_name (xc_nfc X) (xc_fold_case X) (case mp_filename p of None \<Rightarrow> [] | Some f \<Rightarrow> f)")
      case (Inl e)
      with run Some token True files show ?thesis by (auto simp: export_part_def run_bind)
    next
      case (Inr n)
      obtain r2 d2 where pub: "publish_part (xc_rounds X) (xc_others X) base (san_name n) (mp_payload p) (dk_files s) = (r2, d2)" by fastforce
      note result = publish_part_result [OF others pub]
      have stay: "files_stay d d2" by (rule files_stay_trans [OF files result(1)])
      show ?thesis
      proof (cases "\<exists>q. r2 = Inr (Some q)")
        case False
        with run Some token True Inr pub stay show ?thesis
          by (auto simp: export_part_def run_bind desk_files_def split: sum.splits option.splits)
      next
        case found: True
        then obtain q where q: "r2 = Inr (Some q)" by blast
        from holds have "holds_export d ps (Some R) (dk_files s)" by (simp add: Some)
        from holds_export_add [OF this result(1)] result(2) [OF q] run Some token True Inr pub q stay show ?thesis
          by (auto simp: export_part_def run_bind desk_files_def)
      qed
    qed
  qed
qed

lemma export_parts_fold:
  assumes "\<And>d. files_stay d (xc_others X d)" and "foldp (export_part X base i) acc parts s = (r, s')"
    and "holds_export d ps acc (dk_files s)"
  shows "dk_store s' = dk_store s \<and> files_stay d (dk_files s') \<and>
    (\<forall>acc'. r = Inr acc' \<longrightarrow> holds_export d (ps @ map mp_payload (filter is_attachment parts)) acc' (dk_files s'))"
  using assms(2,3)
proof (induction parts arbitrary: acc s ps)
  case Nil
  then show ?case by (auto dest: holds_export_files)
next
  case (Cons p parts)
  obtain r1 s1 where p: "export_part X base i acc p s = (r1, s1)" by fastforce
  note step = export_part_step [OF assms(1) p Cons.prems(2)]
  show ?case
  proof (cases r1)
    case (Inl e)
    with p Cons.prems(1) step show ?thesis by auto
  next
    case (Inr acc1)
    with p Cons.prems(1) have rest: "foldp (export_part X base i) acc1 parts s1 = (r, s')" by simp
    from Cons.IH [OF rest, of "ps @ (if is_attachment p then [mp_payload p] else [])"] step Inr show ?thesis by auto
  qed
qed

lemma export_message_step:
  assumes "\<And>d. files_stay d (xc_others X d)" and "export_message_parts X base acc m s = (r, s')"
    and "holds_export d ps acc (dk_files s)"
  shows "dk_store s' = dk_store s \<and> files_stay d (dk_files s') \<and>
    (\<forall>acc'. r = Inr acc' \<longrightarrow> holds_export d (ps @ attachment_payloads X (dk_store s) m) acc' (dk_files s'))"
proof (cases acc)
  case None
  with assms show ?thesis by (auto simp: export_message_parts_def)
next
  case (Some R)
  obtain r1 t where token: "desk_token (raise_if_cancelled (xc_cancelled X)) s = (r1, s\<lparr>dk_token := t\<rparr>)" using desk_token_run [of "raise_if_cancelled (xc_cancelled X)" s] by blast
  have files: "files_stay d (dk_files s)" using assms(3) by (rule holds_export_files)
  show ?thesis
  proof (cases "\<exists>u path hash raw parts. r1 = Inr u \<and> message_storage m = Inr (Some (path, hash)) \<and>
      read_verified (xc_env X) path hash (dk_store s) = Inr raw \<and> xc_render X raw = Inr parts")
    case False
    with assms(2,3) Some token files show ?thesis
      by (auto simp: export_message_parts_def run_then run_bind attachment_payloads_def holds_export_def
        split: sum.splits option.splits)
  next
    case True
    then obtain path hash raw parts where m: "message_storage m = Inr (Some (path, hash))"
      "read_verified (xc_env X) path hash (dk_store s) = Inr raw" "xc_render X raw = Inr parts" by blast
    from True token assms(2) Some m have "foldp (export_part X base (msg_id m)) (Some R) parts (s\<lparr>dk_token := t\<rparr>) = (r, s')"
      by (auto simp: export_message_parts_def run_bind)
    from export_parts_fold [OF assms(1) this, of d ps] assms(3) Some m show ?thesis by (simp add: attachment_payloads_def)
  qed
qed

lemma export_messages_fold:
  assumes "\<And>d. files_stay d (xc_others X d)" and "foldp (export_message_parts X base) acc ms s = (r, s')"
    and "holds_export d ps acc (dk_files s)"
  shows "dk_store s' = dk_store s \<and> files_stay d (dk_files s') \<and>
    (\<forall>acc'. r = Inr acc' \<longrightarrow> holds_export d (ps @ concat (map (attachment_payloads X (dk_store s)) ms)) acc' (dk_files s'))"
  using assms(2,3)
proof (induction ms arbitrary: acc s ps)
  case Nil
  then show ?case by (auto dest: holds_export_files)
next
  case (Cons m ms)
  obtain r1 s1 where m: "export_message_parts X base acc m s = (r1, s1)" by fastforce
  note step = export_message_step [OF assms(1) m Cons.prems(2)]
  show ?case
  proof (cases r1)
    case (Inl e)
    with m Cons.prems(1) step show ?thesis by auto
  next
    case (Inr acc1)
    with m Cons.prems(1) have rest: "foldp (export_message_parts X base) acc1 ms s1 = (r, s')" by simp
    from Cons.IH [OF rest, of "ps @ attachment_payloads X (dk_store s) m"] step Inr show ?thesis by auto
  qed
qed

definition exportable :: "'r export_ctx \<Rightarrow> fs \<Rightarrow> message_row \<Rightarrow> bool" where
  "exportable X f m \<longleftrightarrow> message_storage m = Inr None \<or> (\<exists>path hash raw parts. message_storage m = Inr (Some (path, hash)) \<and>
     read_verified (xc_env X) path hash f = Inr raw \<and> xc_render X raw = Inr parts \<and>
     (\<forall>p\<in>set parts. \<not> list_ex is_surrogate (xc_nfc X (case mp_filename p of None \<Rightarrow> [] | Some n \<Rightarrow> n))))"

section \<open>A sample\<close>

definition sample_part :: message_part where
  "sample_part = \<lparr>mp_content_id = None, mp_content_type = ''text/plain'', mp_filename = Some (utext ''a''),
     mp_payload = ''new'', mp_is_inline = False\<rparr>"

definition sample_export :: "unit export_ctx" where
  "sample_export = \<lparr>xc_env = hash_env, xc_nfc = id, xc_fold_case = id, xc_render = (\<lambda>_. Inr [sample_part]),
     xc_others = id, xc_rounds = 1, xc_cancelled = ret False\<rparr>"

definition sample_mail :: message_row where
  "sample_mail = set_columns [ColRelativePath (Some ''m''), ColFileHash (Some (replicate 64 (CHR ''a'')))] (blank_message 1 ''acc'' ''k'')"

definition sample_desk :: "unit desk" where
  "sample_desk = \<lparr>dk_store = \<lparr>fs_root = [''store''], fs_files = [([''m''], ''raw'')]\<rparr>,
     dk_files = [([utext ''d'', utext ''a''], ''old'')], dk_dirs = [[utext ''d'']], dk_token = ()\<rparr>"

lemma sample_mail_exportable: "exportable sample_export (dk_store sample_desk) sample_mail"
proof -
  have "message_storage sample_mail = Inr (Some (''m'', replicate 64 (CHR ''a'')))"
    by (simp add: sample_mail_def message_storage_def set_columns_def blank_message_def)
  moreover have "read_verified hash_env ''m'' (replicate 64 (CHR ''a'')) (dk_store sample_desk) = Inr ''raw''"
    by (simp add: read_verified_def read_eml_def valid_hash_text_def sample_desk_def resolve_inside_def path_parts_def fs_lookup_def hash_env_def
      casefold_def char_lower_def list_all_iff map_replicate_const)
  moreover have "\<not> list_ex is_surrogate (utext ''a'')" by (simp add: utext_def is_surrogate_def)
  ultimately show ?thesis by (auto simp: exportable_def sample_export_def sample_part_def)
qed

text \<open>
  C19. An export never overwrites a file. However it ends, and whatever other programs add to the directory
  meanwhile, every file that was there keeps its bytes and the stored messages are untouched. When it
  returns its report, the reported files are all new and different from each other, and they hold, in order,
  exactly the bytes of the attachments of the messages whose stored files are intact.
\<close>

theorem export_never_overwrites:
  assumes "\<And>d p bytes. map_of d p = Some bytes \<Longrightarrow> map_of (xc_others X d) p = Some bytes"
    and run: "export_attachments X base ms s = (r, s')"
  shows "(\<forall>p bytes. map_of (dk_files s) p = Some bytes \<longrightarrow> map_of (dk_files s') p = Some bytes) \<and> dk_store s' = dk_store s \<and>
    (\<forall>R. r = Inr (Some R) \<longrightarrow> distinct (xr_files R) \<and> (\<forall>p\<in>set (xr_files R). map_of (dk_files s) p = None) \<and>
      map (map_of (dk_files s')) (xr_files R) = map Some (concat (map (attachment_payloads X (dk_store s)) ms)))"
proof -
  define start where "start = \<lparr>xr_files = [], xr_skipped_count = 0, xr_warnings = [], xr_warning_details = [], xr_executable_paths = []\<rparr>"
  have others: "files_stay d (xc_others X d)" for d using assms(1) by (simp add: files_stay_def)
  obtain r1 s1 where f: "foldp (export_message_parts X base) (Some start) ms s = (r1, s1)" by fastforce
  have "holds_export (dk_files s) [] (Some start) (dk_files s)" by (simp add: holds_export_def start_def)
  from export_messages_fold [OF others f this] have
    "dk_store s1 = dk_store s" "files_stay (dk_files s) (dk_files s1)"
    "\<And>acc. r1 = Inr acc \<Longrightarrow> holds_export (dk_files s) (concat (map (attachment_payloads X (dk_store s)) ms)) acc (dk_files s1)"
    by auto
  moreover obtain r2 t where "desk_token (raise_if_cancelled (xc_cancelled X)) s1 = (r2, s1\<lparr>dk_token := t\<rparr>)"
    using desk_token_run [of "raise_if_cancelled (xc_cancelled X)" s1] by blast
  ultimately show ?thesis
    using run f unfolding export_attachments_def start_def [symmetric]
    by (auto simp: run_bind run_then files_stay_def holds_export_def split: if_splits sum.splits)
qed

theorem export_never_overwrites_witness:
  "map_of (dk_files (snd (export_attachments sample_export [utext ''d''] [sample_mail] sample_desk))) [utext ''d'', utext ''a''] = Some ''old''"
proof -
  obtain r s' where run: "export_attachments sample_export [utext ''d''] [sample_mail] sample_desk = (r, s')" by fastforce
  have "map_of (xc_others sample_export d) p = Some bytes" if "map_of d p = Some bytes" for d p bytes
    using that by (simp add: sample_export_def)
  from export_never_overwrites [OF this run] show ?thesis unfolding run by (auto simp: sample_desk_def)
qed

section \<open>Completion\<close>

lemma never_cancelled_token:
  assumes "\<forall>t. \<exists>t'. cancelled t = (Inr False, t')"
  shows "\<exists>t. desk_token (raise_if_cancelled cancelled) s = (Inr (), s\<lparr>dk_token := t\<rparr>)"
  using spec [OF assms, of "dk_token s"] by (auto simp: desk_token_def raise_if_cancelled_def run_bind)

lemma export_part_finishes:
  assumes "nfc_ok (xc_nfc X)" and "xc_others X = id" and "xc_rounds X > 0" and "\<forall>t. \<exists>t'. xc_cancelled X t = (Inr False, t')"
    and "\<not> list_ex is_surrogate (xc_nfc X (case mp_filename p of None \<Rightarrow> [] | Some n \<Rightarrow> n))"
  shows "\<exists>R' s'. export_part X base i (Some R) p s = (Inr (Some R'), s') \<and> dk_store s' = dk_store s"
proof -
  obtain t where token: "desk_token (raise_if_cancelled (xc_cancelled X)) s = (Inr (), s\<lparr>dk_token := t\<rparr>)"
    using never_cancelled_token [OF assms(4)] by blast
  from sanitize_safe [OF assms(1,5), of "xc_fold_case X"] obtain n where
    n: "sanitize_attachment_name (xc_nfc X) (xc_fold_case X) (case mp_filename p of None \<Rightarrow> [] | Some n \<Rightarrow> n) = Inr n"
      "san_name n \<notin> {[], [dot], [dot, dot]}" "\<forall>c\<in>set (san_name n). \<not> unsafe c" by blast
  have "child_name (san_name n)" using n(2,3) slash_unsafe by (auto simp: child_name_def)
  moreover obtain k where "xc_rounds X = Suc k" using assms(3) gr0_implies_Suc by blast
  ultimately obtain q where
    "publish_part (xc_rounds X) (xc_others X) base (san_name n) (mp_payload p) (dk_files s) = (Inr (Some q), dk_files s @ [(q, mp_payload p)])"
    using publish_part_finishes assms(2) by metis
  with token n show ?thesis by (auto simp: export_part_def run_bind desk_files_def)
qed

lemma export_parts_finish:
  assumes "nfc_ok (xc_nfc X)" and "xc_others X = id" and "xc_rounds X > 0" and "\<forall>t. \<exists>t'. xc_cancelled X t = (Inr False, t')"
    and "\<forall>p\<in>set parts. \<not> list_ex is_surrogate (xc_nfc X (case mp_filename p of None \<Rightarrow> [] | Some n \<Rightarrow> n))"
  shows "\<exists>R' s'. foldp (export_part X base i) (Some R) parts s = (Inr (Some R'), s') \<and> dk_store s' = dk_store s"
  using assms(5)
proof (induction parts arbitrary: R s)
  case (Cons p parts)
  from Cons.prems have "\<not> list_ex is_surrogate (xc_nfc X (case mp_filename p of None \<Rightarrow> [] | Some n \<Rightarrow> n))" by simp
  from export_part_finishes [OF assms(1-4) this] obtain R1 s1 where
    p: "export_part X base i (Some R) p s = (Inr (Some R1), s1)" "dk_store s1 = dk_store s" by blast
  from Cons.prems Cons.IH [of R1 s1] obtain R' s' where
    "foldp (export_part X base i) (Some R1) parts s1 = (Inr (Some R'), s')" "dk_store s' = dk_store s1" by auto
  with p show ?case by simp
qed simp

lemma export_messages_finish:
  assumes "nfc_ok (xc_nfc X)" and "xc_others X = id" and "xc_rounds X > 0" and "\<forall>t. \<exists>t'. xc_cancelled X t = (Inr False, t')"
    and "\<forall>m\<in>set ms. exportable X (dk_store s) m"
  shows "\<exists>R' s'. foldp (export_message_parts X base) (Some R) ms s = (Inr (Some R'), s')"
  using assms(5)
proof (induction ms arbitrary: R s)
  case (Cons m ms)
  obtain t where token: "desk_token (raise_if_cancelled (xc_cancelled X)) s = (Inr (), s\<lparr>dk_token := t\<rparr>)"
    using never_cancelled_token [OF assms(4)] by blast
  have "\<exists>R1 s1. export_message_parts X base (Some R) m s = (Inr (Some R1), s1) \<and> dk_store s1 = dk_store s"
  proof (cases "message_storage m = Inr None")
    case True
    with token show ?thesis by (simp add: export_message_parts_def)
  next
    case False
    with Cons.prems obtain path hash raw parts where m: "message_storage m = Inr (Some (path, hash))"
      "read_verified (xc_env X) path hash (dk_store s) = Inr raw" "xc_render X raw = Inr parts"
      "\<forall>p\<in>set parts. \<not> list_ex is_surrogate (xc_nfc X (case mp_filename p of None \<Rightarrow> [] | Some n \<Rightarrow> n))"
      by (auto simp: exportable_def)
    from export_parts_finish [OF assms(1-4) m(4), of base "msg_id m" R "s\<lparr>dk_token := t\<rparr>"] m(1-3) token show ?thesis
      by (auto simp: export_message_parts_def run_bind)
  qed
  then obtain R1 s1 where "export_message_parts X base (Some R) m s = (Inr (Some R1), s1)" "dk_store s1 = dk_store s" by blast
  with Cons.IH [of s1 R1] Cons.prems show ?case by auto
qed simp



end
