(* ===== verification/Eml_Files.thy ===== *)
theory Eml_Files
  imports Eml_Storage
begin

text \<open>
  The rest of \<^verbatim>\<open>infrastructure/storage/eml_storage.py\<close>: saving a message that is streamed from a file, the size
  of a stored file, and the removal of temporary files at start-up. Saving from a file is saving its bytes;
  the removal of temporary files also removes what was put into quarantine.
\<close>

section \<open>Operations\<close>

text \<open>\<open>source\<close> is what a regular file at the source path holds. The bytes go to the temporary file first, and
  only then is a stored file with the same digest looked for.\<close>

definition save_eml_from_file ::
  "env \<Rightarrow> string \<Rightarrow> string \<Rightarrow> (nat \<times> nat) option \<Rightarrow> string option \<Rightarrow> (fs, stored_eml) prog" where
  "save_eml_from_file E uuid account_id internal_date source =
    (case validate_account_id account_id of
       Inl e \<Rightarrow> raise e
     | Inr _ \<Rightarrow> (case source of
         None \<Rightarrow> raise (StorageError ''Source EML is not a regular file'')
       | Some raw \<Rightarrow>
          (let file_hash = sha256 E raw;
               destination = eml_destination account_id internal_date file_hash;
               temporary = [''tmp'', uuid @ ''.eml'']
           in thenp (modify (fs_write temporary raw))
              (bindp (gets (find_existing_eml E account_id file_hash)) (\<lambda>existing.
              case existing of
                Some s \<Rightarrow> thenp (modify (fs_unlink temporary)) (ret s)
              | None \<Rightarrow> bindp (gets (\<lambda>f. fs_lookup f destination)) (\<lambda>old.
                  if old \<noteq> None \<and> sha256 E (the old) = file_hash
                  then thenp (modify (fs_unlink temporary))
                    (ret \<lparr>se_relative_path = path_text destination, se_file_hash = file_hash,
                          se_size_bytes = int (length (the old)), se_deduplicated = True\<rparr>)
                  else thenp (modify (fs_replace temporary destination))
                    (ret \<lparr>se_relative_path = path_text destination, se_file_hash = file_hash,
                          se_size_bytes = int (length raw), se_deduplicated = False\<rparr>)))))))"

definition stat_size :: "string \<Rightarrow> fs \<Rightarrow> error + int" where
  "stat_size relative_path f = (case resolve_inside (fs_root f) relative_path of
     Inl e \<Rightarrow> Inl e
   | Inr p \<Rightarrow> (case fs_lookup f p of None \<Rightarrow> Inl FileNotFoundError | Some bytes \<Rightarrow> Inr (int (length bytes))))"

text \<open>A file below a child of \<open>tmp\<close> other than \<open>pstimp\<close>.\<close>

definition abandoned :: "string list \<Rightarrow> bool" where
  "abandoned p \<longleftrightarrow> take 1 p = [''tmp''] \<and> length p > 1 \<and> p ! 1 \<noteq> ''pstimp''"

definition cleanup_tmp :: "(fs, nat) prog" where
  "cleanup_tmp = (\<lambda>f. (Inr (length (filter (\<lambda>r. abandoned (fst r)) (fs_files f))),
     f\<lparr>fs_files := delete_where (\<lambda>r. abandoned (fst r)) (fs_files f)\<rparr>))"

section \<open>Saving from a file\<close>

lemma find_upsert_other:
  assumes "p \<notin> fst ` set rows" and "\<not> P (p, b)"
  shows "List.find P (upsert_row fst p g (p, b) rows) = List.find P rows"
proof -
  have "List.find P (rows @ [(p, b)]) = List.find P rows"
    using assms(2) by (induction rows) auto
  with assms(1) show ?thesis by (simp add: upsert_row_def)
qed

lemma find_existing_temporary:
  assumes "fs_lookup f (''tmp'' # t) = None"
  shows "find_existing_eml E a h (fs_write (''tmp'' # t) raw f) = find_existing_eml E a h f"
proof -
  have "''tmp'' # t \<notin> fst ` set (fs_files f)" using assms by (simp add: fs_lookup_def map_of_eq_None_iff)
  then show ?thesis
    unfolding find_existing_eml_def fs_write_def by (simp add: find_upsert_other)
qed

definition same_files :: "fs \<Rightarrow> fs \<Rightarrow> bool" where
  "same_files f g \<longleftrightarrow> fs_root f = fs_root g \<and> fs_lookup f = fs_lookup g"

text \<open>
  Streaming a message into the storage is saving its bytes. With a temporary name that is not taken, saving
  from a regular file gives the result of saving the bytes of that file, on every branch, and leaves the
  same files; in particular no temporary file stays behind when the message was stored already.
\<close>

lemma save_from_file_is_save:
  assumes "fs_lookup f [''tmp'', uuid @ ''.eml''] = None"
  shows "fst (save_eml_from_file E uuid a d (Some raw) f) = fst (save_eml E uuid a d raw f) \<and>
    same_files (snd (save_eml_from_file E uuid a d (Some raw) f)) (snd (save_eml E uuid a d raw f))"
proof (cases "validate_account_id a")
  case (Inr u)
  let ?t = "[''tmp'', uuid @ ''.eml'']"
  let ?d = "eml_destination a d (sha256 E raw)"
  have ne: "?d \<noteq> ?t" by (simp add: eml_destination_def)
  have undone: "fs_lookup (fs_unlink ?t (fs_write ?t raw f)) = fs_lookup f" using assms by (auto simp: fun_eq_iff)
  have found: "find_existing_eml E a (sha256 E raw) (fs_write ?t raw f) = find_existing_eml E a (sha256 E raw) f"
    using assms by (rule find_existing_temporary)
  show ?thesis
    using Inr ne undone by (auto simp: save_eml_from_file_def save_eml_def Let_def run_bind run_then found same_files_def
      split: option.split)
qed (simp add: save_eml_from_file_def save_eml_def same_files_def)

lemma save_from_file_is_save_witness:
  "fst (save_eml_from_file hash_env ''u'' ''acc'' None (Some ''raw'') empty_fs) = fst (save_eml hash_env ''u'' ''acc'' None ''raw'' empty_fs)"
  using save_from_file_is_save [of empty_fs "''u''" hash_env "''acc''" None "''raw''"] by (simp add: empty_fs_def fs_lookup_def)

section \<open>Removal of temporary files\<close>

lemma cleanup_lookup: "fs_lookup (snd (cleanup_tmp f)) q = (if abandoned q then None else fs_lookup f q)"
proof -
  have "map_of (delete_where (\<lambda>r. abandoned (fst r)) rows) q = (if abandoned q then None else map_of rows q)" for rows :: "(string list \<times> string) list"
    by (induction rows) (auto simp: delete_where_def)
  then show ?thesis by (simp add: cleanup_tmp_def fs_lookup_def)
qed

text \<open>
  C26. The clean-up at start-up empties the quarantine. It keeps every stored message, every other file outside
  \<open>tmp\<close> and the files of a PST import. But a file that the verification put into quarantine, because it is an
  orphan or damaged, is gone after the next start: neither its old place nor the quarantine holds it.
\<close>

theorem cleanup_empties_the_quarantine:
  assumes "resolve_inside (fs_root f) path = Inr p" and "fs_lookup f p = Some bytes" and "take 1 p = [''eml'']"
    and "quarantine unique path f = (r, f1)" and "cleanup_tmp f1 = (Inr n, f2)"
  shows "r = Inr () \<and> fs_lookup f1 [''tmp'', ''quarantine'', last p @ ''.'' @ unique @ ''.eml''] = Some bytes \<and> n > 0 \<and>
    fs_lookup f2 p = None \<and> fs_lookup f2 [''tmp'', ''quarantine'', last p @ ''.'' @ unique @ ''.eml''] = None \<and>
    (\<forall>q. q \<noteq> p \<and> take 1 q \<noteq> [''tmp''] \<longrightarrow> fs_lookup f2 q = fs_lookup f q)"
proof -
  let ?q = "[''tmp'', ''quarantine'', last p @ ''.'' @ unique @ ''.eml'']"
  have ne: "p \<noteq> ?q" using assms(3) by (cases p) auto
  have f1: "r = Inr ()" "f1 = fs_replace p ?q f" using assms(1,2,4) by (simp_all add: quarantine_def)
  have look: "fs_lookup f1 q = (if q = ?q then Some bytes else if q = p then None else fs_lookup f q)" for q
    unfolding f1 by (rule fs_lookup_replace [OF assms(2) ne])
  have f2: "fs_lookup f2 q = (if abandoned q then None else fs_lookup f1 q)" for q
    using cleanup_lookup [of f1 q] assms(5) by simp
  have "(?q, bytes) \<in> set (filter (\<lambda>r. abandoned (fst r)) (fs_files f1))"
    using look [of ?q] by (auto simp: fs_lookup_def abandoned_def dest: map_of_SomeD)
  from length_pos_if_in_set [OF this] have "n > 0" using assms(5) by (auto simp: cleanup_tmp_def)
  moreover have "take 1 q \<noteq> [''tmp''] \<Longrightarrow> \<not> abandoned q" "abandoned ?q" for q by (simp_all add: abandoned_def)
  ultimately show ?thesis using f1(1) look f2 ne by auto
qed

theorem cleanup_empties_the_quarantine_witness:
  "\<exists>f1 f2. quarantine ''u'' ''eml/m'' \<lparr>fs_root = [''data''], fs_files = [([''eml'', ''m''], ''raw'')]\<rparr> = (Inr (), f1) \<and>
     cleanup_tmp f1 = (Inr 1, f2) \<and> fs_lookup f2 [''eml'', ''m''] = None"
proof -
  define f where "f = \<lparr>fs_root = [''data''], fs_files = [([''eml'', ''m''], ''raw'')]\<rparr>"
  have res: "resolve_inside (fs_root f) ''eml/m'' = Inr [''eml'', ''m'']" "fs_lookup f [''eml'', ''m''] = Some ''raw''"
    by (simp_all add: f_def resolve_inside_def path_parts_def fs_lookup_def)
  obtain r f1 where q: "quarantine ''u'' ''eml/m'' f = (r, f1)" by fastforce
  have "f1 = fs_replace [''eml'', ''m''] [''tmp'', ''quarantine'', ''m.u.eml''] f" using q res by (simp add: quarantine_def)
  then have "fst (cleanup_tmp f1) = Inr 1"
    using res(2) by (simp add: fs_replace_def) (simp add: f_def cleanup_tmp_def fs_unlink_def fs_write_def delete_where_def upsert_row_def abandoned_def)
  then obtain f2 where c: "cleanup_tmp f1 = (Inr 1, f2)" by (cases "cleanup_tmp f1") auto
  from cleanup_empties_the_quarantine [OF res _ q c] q c show ?thesis unfolding f_def by auto
qed

end
