(* ===== verification/Pst_Repository.thy ===== *)
theory Pst_Repository
  imports Repository_Inv Manifest_Events
begin

text \<open>
  The tables of the PST imports (\<^verbatim>\<open>infrastructure/database/pst_import_repository.py\<close>) beside the finalized
  message schema: one row for every import, or generation, and one for every item found in it. An active
  generation is unique for its source. The reference of an item to its message is kept with the
  message tables, which change it when messages are merged.
\<close>

section \<open>Rows\<close>

record pst_import =
  im_id :: int
  im_import_uuid :: string
  im_account_id :: string
  im_source_filename :: string
  im_source_sha256 :: string
  im_source_size_bytes :: "int option"
  im_source_mtime :: "int option"
  im_readpst_version :: "string option"
  im_options_json :: "string option"
  im_status :: string
  im_is_active :: int
  im_replaces_id :: "int option"
  im_superseded_at :: "string option"
  im_total_files :: "int option"
  im_ingested_count :: int
  im_failed_count :: int
  im_staging_path :: "string option"
  im_finished_at :: "string option"
  im_error_message :: "string option"

record pst_item =
  it_rowid :: int
  it_import_id :: int
  it_source_item_key :: string
  it_source_relative_path :: string
  it_folder_relative_path :: string
  it_source_size_bytes :: "int option"
  it_source_sha256 :: "string option"
  it_final_relative_path :: "string option"
  it_status :: string
  it_error_class :: "string option"
  it_error_message :: "string option"
  it_attempt_count :: int

record pst_db =
  pd_main :: db
  pst_imports :: "pst_import list"
  pst_import_items :: "pst_item list"
  next_import_id :: int
  next_item_id :: int

definition on_main :: "(db, 'a) prog \<Rightarrow> (pst_db, 'a) prog" where
  "on_main m = (\<lambda>p. case m (pd_main p) of (r, d) \<Rightarrow> (r, p\<lparr>pd_main := d\<rparr>))"

abbreviation pst_item_key :: "pst_item \<Rightarrow> int \<times> string" where
  "pst_item_key i \<equiv> (it_import_id i, it_source_item_key i)"

text \<open>The partial unique index over the sources of the active generations.\<close>

definition active_source :: "pst_import \<Rightarrow> string option" where
  "active_source r = (if im_is_active r = 1 then Some (im_source_sha256 r) else None)"

definition incomplete_statuses :: "string list" where
  "incomplete_statuses = [''extracting'', ''ready_to_ingest'', ''ingesting'', ''cancelled_resumable'', ''failed_resumable'']"

definition complete_statuses :: "string list" where
  "complete_statuses = [''completed'', ''completed_with_errors'']"

section \<open>Imports\<close>

definition find_import :: "pst_db \<Rightarrow> int \<Rightarrow> pst_import option" where
  "find_import p i = List.find (\<lambda>r. im_id r = i) (pst_imports p)"

definition get_import :: "int \<Rightarrow> (pst_db, pst_import option) prog" where
  "get_import i = gets (\<lambda>p. find_import p i)"

text \<open>All generations with the display names of their accounts.\<close>

definition list_imports :: "(pst_db, (pst_import \<times> string option) list) prog" where
  "list_imports = gets (\<lambda>p. concat (map (\<lambda>r.
     map (\<lambda>a. (r, acc_display_name a)) (filter (\<lambda>a. acc_id a = im_account_id r) (accounts (pd_main p))))
     (sort_key im_id (pst_imports p))))"

text \<open>The argument has the row's columns; \<open>im_id\<close> is assigned by the table. Its texts are never NULL.\<close>

definition create_import :: "pst_import \<Rightarrow> (pst_db, int) prog" where
  "create_import r = (\<lambda>p.
    let i = next_import_id p; new = r\<lparr>im_id := i\<rparr> in
    if im_import_uuid r \<notin> im_import_uuid ` set (pst_imports p) \<and> account_exists (pd_main p) (im_account_id r) \<and>
       opt_all (\<lambda>x. x \<in> im_id ` set (new # pst_imports p)) (im_replaces_id r) \<and>
       (\<forall>s\<in>set (pst_imports p). differ (active_source s) (active_source r))
    then (Inr i, p\<lparr>pst_imports := pst_imports p @ [new], next_import_id := i + 1\<rparr>)
    else (Inl (sql_error ''create PST import''), p))"

text \<open>The optional columns of \<open>update_import_status\<close>; \<open>None\<close> stands for a column that is not given.\<close>

record status_update =
  su_total_files :: "int option"
  su_ingested_count :: "int option"
  su_failed_count :: "int option"
  su_staging_path :: "string option option"
  su_finished_at :: "string option option"
  su_error_message :: "string option option"

definition unset :: status_update where
  "unset = \<lparr>su_total_files = None, su_ingested_count = None, su_failed_count = None, su_staging_path = None,
     su_finished_at = None, su_error_message = None\<rparr>"

definition set_status :: "string \<Rightarrow> status_update \<Rightarrow> pst_import \<Rightarrow> pst_import" where
  "set_status status u r = r\<lparr>im_status := status,
     im_total_files := (case su_total_files u of None \<Rightarrow> im_total_files r | Some n \<Rightarrow> Some n),
     im_ingested_count := get_default (su_ingested_count u) (im_ingested_count r),
     im_failed_count := get_default (su_failed_count u) (im_failed_count r),
     im_staging_path := get_default (su_staging_path u) (im_staging_path r),
     im_finished_at := get_default (su_finished_at u) (im_finished_at r),
     im_error_message := get_default (su_error_message u) (im_error_message r)\<rparr>"

definition update_import :: "int \<Rightarrow> (pst_import \<Rightarrow> pst_import) \<Rightarrow> pst_db \<Rightarrow> pst_db" where
  "update_import i f p = p\<lparr>pst_imports := update_where (\<lambda>r. im_id r = i) f (pst_imports p)\<rparr>"

definition update_import_status :: "int \<Rightarrow> string \<Rightarrow> status_update \<Rightarrow> (pst_db, unit) prog" where
  "update_import_status i status u = (\<lambda>p.
    if i \<in> im_id ` set (pst_imports p) then (Inr (), update_import i (set_status status u) p)
    else (Inl (DatabaseError (''PST import does not exist: '' @ int_text i)), p))"

definition find_active_by_source_sha256 :: "string \<Rightarrow> (pst_db, pst_import option) prog" where
  "find_active_by_source_sha256 h =
     gets (\<lambda>p. List.find (\<lambda>r. im_source_sha256 r = h \<and> im_is_active r = 1) (pst_imports p))"

definition find_incomplete_by_source_sha256 :: "string \<Rightarrow> (pst_db, pst_import list) prog" where
  "find_incomplete_by_source_sha256 h = gets (\<lambda>p. sort_key im_id
     (filter (\<lambda>r. im_source_sha256 r = h \<and> im_status r \<in> set incomplete_statuses) (pst_imports p)))"

section \<open>Items\<close>

definition item_message :: "pst_db \<Rightarrow> pst_item \<Rightarrow> int option" where
  "item_message p i = Option.bind (map_of (pst_items (pd_main p)) (it_rowid i)) id"

text \<open>The argument is the row, whose \<open>it_rowid\<close> is assigned by the table, with the reference to its message.\<close>

definition upsert_import_item :: "pst_item \<Rightarrow> int option \<Rightarrow> (pst_db, unit) prog" where
  "upsert_import_item r message_row_id = (\<lambda>p.
    if it_import_id r \<in> im_id ` set (pst_imports p) \<and> opt_all (message_exists (pd_main p)) message_row_id then
      (let known = List.find (\<lambda>i. pst_item_key i = pst_item_key r) (pst_import_items p);
           rowid = (case known of None \<Rightarrow> next_item_id p | Some i \<Rightarrow> it_rowid i)
       in (Inr (), p\<lparr>
         pst_import_items := upsert_row pst_item_key (pst_item_key r) (\<lambda>i. r\<lparr>it_rowid := it_rowid i\<rparr>)
           (r\<lparr>it_rowid := rowid\<rparr>) (pst_import_items p),
         pd_main := (pd_main p)\<lparr>pst_items := upsert_row fst rowid (\<lambda>_. (rowid, message_row_id))
           (rowid, message_row_id) (pst_items (pd_main p))\<rparr>,
         next_item_id := (if known = None then next_item_id p + 1 else next_item_id p)\<rparr>))
    else (Inl (sql_error ''upsert PST import item''), p))"

definition items_of :: "pst_db \<Rightarrow> int \<Rightarrow> pst_item list" where
  "items_of p i = sort_key it_source_item_key (filter (\<lambda>r. it_import_id r = i) (pst_import_items p))"

definition saved_status :: "string \<Rightarrow> bool" where
  "saved_status s \<longleftrightarrow> s = ''saved'' \<or> s = ''completed''"

definition list_items :: "int \<Rightarrow> (pst_db, (pst_item \<times> int option) list) prog" where
  "list_items i = gets (\<lambda>p. map (\<lambda>r. (r, item_message p r)) (items_of p i))"

definition list_incomplete_items :: "int \<Rightarrow> (pst_db, pst_item list) prog" where
  "list_incomplete_items i = gets (\<lambda>p. filter (\<lambda>r. \<not> saved_status (it_status r)) (items_of p i))"

definition get_import_uuid_for_message :: "int \<Rightarrow> (pst_db, string option) prog" where
  "get_import_uuid_for_message m = gets (\<lambda>p.
     Option.bind (case rev (sort_key it_import_id (filter (\<lambda>r. item_message p r = Some m) (pst_import_items p))) of
         [] \<Rightarrow> None | r # _ \<Rightarrow> find_import p (it_import_id r))
       (\<lambda>r. Some (im_import_uuid r)))"

section \<open>Messages and folders\<close>

text \<open>A row of \<open>SELECT * FROM messages\<close> on the finalized schema, as the dictionary the code reads: the state on
  the server is a column of the memberships.\<close>

definition null_or :: "('a \<Rightarrow> json) \<Rightarrow> 'a option \<Rightarrow> json" where
  "null_or f v = (case v of None \<Rightarrow> JNull | Some x \<Rightarrow> f x)"

definition message_dict :: "message_row \<Rightarrow> (string \<times> json) list" where
  "message_dict m =
    [(''id'', JInt (msg_id m)), (''account_id'', JStr (msg_account_id m)), (''message_id'', null_or JStr (msg_message_id m)),
     (''content_key'', JStr (msg_content_key m)), (''source_item_key'', JStr (msg_source_item_key m)),
     (''local_state'', JStr (local_state_text (msg_local_state m))), (''trashed_at'', null_or JStr (msg_trashed_at m)),
     (''relative_path'', null_or JStr (msg_relative_path m)), (''file_hash'', null_or JStr (msg_file_hash m)),
     (''subject'', null_or JStr (msg_subject m)), (''sender'', null_or JStr (msg_sender m)),
     (''recipient'', null_or JStr (msg_recipient m)), (''cc'', null_or JStr (msg_cc m)),
     (''date_sent'', null_or JStr (msg_date_sent m)), (''internal_date'', null_or JStr (msg_internal_date m)),
     (''size_bytes'', null_or JInt (msg_size_bytes m)), (''has_attachment'', JInt (if msg_has_attachment m then 1 else 0)),
     (''in_reply_to'', null_or JStr (msg_in_reply_to m)), (''references_ids'', null_or JStr (msg_references_ids m)),
     (''thread_key'', null_or JStr (msg_thread_key m)), (''gmail_msgid'', null_or JStr (msg_gmail_msgid m)),
     (''gmail_thrid'', null_or JStr (msg_gmail_thrid m)), (''gmail_labels'', null_or JStr (msg_gmail_labels m))]"

definition pst_get_message :: "int \<Rightarrow> (pst_db, (string \<times> json) list option) prog" where
  "pst_get_message i = gets (\<lambda>p. map_option message_dict (find_message (pd_main p) i))"

definition pst_list_folders :: "string \<Rightarrow> (pst_db, folder_row list) prog" where
  "pst_list_folders account = on_main (list_folders account)"

definition pst_upsert_folder :: "string \<Rightarrow> string \<Rightarrow> string \<Rightarrow> (pst_db, int) prog" where
  "pst_upsert_folder account raw display =
    (if account = [] \<or> raw = [] \<or> display = []
     then raise (ValueError ''PST folder account_id, raw_name, and display_name are required'')
     else on_main (upsert_folder
       \<lparr>fa_account_id = account, fa_raw_name = raw, fa_display_name = Some display, fa_uidvalidity = None,
        fa_last_seen_uid = None, fa_is_sync_target = None, fa_last_synced_at = None, fa_backfill_next_uid = None,
        fa_initial_sync_completed = None, fa_highest_modseq = None\<rparr>))"

definition validate_no_remote_message :: "message_arg \<Rightarrow> error + unit" where
  "validate_no_remote_message a =
    (if ma_remote_state a \<noteq> Some NoRemote then Inl (ValueError ''PST messages must use remote_state no_remote'')
     else if ma_uid a \<noteq> None \<or> ma_uidvalidity a \<noteq> None \<or> ma_imap_flags a \<noteq> None \<or> ma_flags_seen_at a \<noteq> None \<or>
       ma_last_seen_at a \<noteq> None \<or> list_ex (\<lambda>c. case c of ColInternalDate v \<Rightarrow> v \<noteq> None | _ \<Rightarrow> False) (ma_columns a)
     then Inl (ValueError ''PST messages must leave fields NULL'') else Inr ())"

definition pst_add_message :: "(string \<Rightarrow> string) \<Rightarrow> message_arg \<Rightarrow> contents_arg option \<Rightarrow> (pst_db, int) prog" where
  "pst_add_message norm a cnt = thenp (lift_sum (validate_no_remote_message a))
     (on_main (add_message norm (a\<lparr>ma_uid := None, ma_uidvalidity := None, ma_imap_flags := None, ma_flags_seen_at := None,
        ma_last_seen_at := None, ma_columns := ma_columns a @ [ColInternalDate None]\<rparr>) cnt))"

definition pst_record_audit :: "audit_row \<Rightarrow> (pst_db, unit) prog" where
  "pst_record_audit e = on_main (record_audit e)"

section \<open>Changes of the active generation\<close>

text \<open>Inside a batch of the caller an error leaves what was done, for the caller to roll back; without one the
  method has a transaction of its own. Any error becomes a database error.\<close>

definition run_generation_change :: "bool \<Rightarrow> string \<Rightarrow> (pst_db, unit) prog \<Rightarrow> (pst_db, unit) prog" where
  "run_generation_change owns_transaction operation callback = (\<lambda>p. case callback p of
     (Inr _, q) \<Rightarrow> (Inr (), q)
   | (Inl _, q) \<Rightarrow> (Inl (DatabaseError (''Could not '' @ operation)), if owns_transaction then p else q))"

definition set_generation_state :: "int \<Rightarrow> local_state \<Rightarrow> string option \<Rightarrow> pst_db \<Rightarrow> pst_db" where
  "set_generation_state i st trashed_at p = p\<lparr>pd_main := (pd_main p)\<lparr>messages :=
     update_where (\<lambda>m. \<exists>r\<in>set (items_of p i). item_message p r = Some (msg_id m))
       (\<lambda>m. m\<lparr>msg_local_state := st, msg_trashed_at := trashed_at\<rparr>) (messages (pd_main p))\<rparr>\<rparr>"

definition retire_import :: "string \<Rightarrow> pst_import \<Rightarrow> pst_import" where
  "retire_import at r = r\<lparr>im_is_active := 0, im_status := ''superseded'', im_superseded_at := Some at\<rparr>"

text \<open>Setting \<open>is_active\<close>, which the unique index may refuse.\<close>

definition make_active :: "int \<Rightarrow> (pst_import \<Rightarrow> pst_import) \<Rightarrow> (pst_db, unit) prog" where
  "make_active i f = (\<lambda>p.
    if \<forall>r\<in>set (pst_imports p). \<forall>s\<in>set (pst_imports p).
        im_id r = i \<and> im_id s \<noteq> i \<longrightarrow> active_source s \<noteq> Some (im_source_sha256 r)
    then (Inr (), update_import i (\<lambda>r. (f r)\<lparr>im_is_active := 1\<rparr>) p)
    else (Inl (sql_error ''UNIQUE constraint failed''), p))"

definition swap_generations :: "string \<Rightarrow> int \<Rightarrow> int \<Rightarrow> (pst_import \<Rightarrow> pst_import) \<Rightarrow> (pst_import \<Rightarrow> pst_import) \<Rightarrow> (pst_db, unit) prog" where
  "swap_generations at shown hidden hide expose =
     thenp (modify (set_generation_state shown Active None))
     (thenp (modify (set_generation_state hidden Trashed (Some at)))
     (thenp (modify (update_import hidden hide))
        (make_active shown expose)))"

definition activate_generation :: "bool \<Rightarrow> string \<Rightarrow> int \<Rightarrow> int \<Rightarrow> (pst_db, unit) prog" where
  "activate_generation owns at import_id replaces_id = run_generation_change owns ''activate PST generation''
    (bindp (get_import import_id) (\<lambda>new_row. bindp (get_import replaces_id) (\<lambda>old_row. case (new_row, old_row) of
       (Some new, Some old) \<Rightarrow>
         if im_status new \<notin> set complete_statuses
         then raise (ValueError ''Only a completed PST generation can become active'')
         else if im_is_active new \<noteq> 0 \<or> im_replaces_id new \<noteq> Some replaces_id
         then raise (ValueError ''The new PST generation is not an inactive replacement'')
         else if im_is_active old = 0 \<or> im_status old \<notin> set complete_statuses
         then raise (ValueError ''The replaced PST generation is not active'')
         else swap_generations at import_id replaces_id (retire_import at) id
     | _ \<Rightarrow> raise (ValueError ''PST generation does not exist''))))"

text \<open>The generation that a restored one replaces is the newest active one, of any source.\<close>

definition current_generation :: "pst_db \<Rightarrow> int \<Rightarrow> pst_import option" where
  "current_generation p i =
    (case rev (sort_key im_id (filter (\<lambda>r. im_is_active r = 1 \<and> im_id r \<noteq> i) (pst_imports p))) of
       [] \<Rightarrow> None | r # _ \<Rightarrow> Some r)"

definition repo_restore_generation :: "bool \<Rightarrow> string \<Rightarrow> int \<Rightarrow> (pst_db, unit) prog" where
  "repo_restore_generation owns at import_id = run_generation_change owns ''restore PST generation''
    (bindp (get_import import_id) (\<lambda>row. case row of
       None \<Rightarrow> raise (ValueError ''PST generation is not restorable'')
     | Some target \<Rightarrow>
         if im_is_active target \<noteq> 0 \<or> im_status target \<noteq> ''superseded''
         then raise (ValueError ''PST generation is not restorable'')
         else bindp (gets (\<lambda>p. current_generation p import_id)) (\<lambda>current. case current of
             None \<Rightarrow> raise (ValueError ''No active PST generation to replace'')
           | Some c \<Rightarrow>
               if im_replaces_id c \<noteq> Some import_id \<or> im_status c \<notin> set complete_statuses
               then raise (ValueError ''PST generations are not an adjacent replacement pair'')
               else swap_generations at import_id (im_id c) (retire_import at)
                 (\<lambda>r. r\<lparr>im_status := ''completed'', im_superseded_at := None\<rparr>))))"

definition rollback_generation_switch :: "bool \<Rightarrow> string \<Rightarrow> int \<Rightarrow> int \<Rightarrow> (pst_db, unit) prog" where
  "rollback_generation_switch owns at import_id replaces_id = run_generation_change owns ''rollback PST generation switch''
    (bindp (get_import import_id) (\<lambda>new_row. bindp (get_import replaces_id) (\<lambda>old_row. case (new_row, old_row) of
       (Some new, Some old) \<Rightarrow>
         if im_replaces_id new \<noteq> Some replaces_id
         then raise (ValueError ''PST generations are not an adjacent replacement pair'')
         else if im_is_active new \<noteq> 0 \<and> im_is_active old = 0
         then swap_generations at replaces_id import_id (\<lambda>r. r\<lparr>im_is_active := 0, im_status := ''completed''\<rparr>)
           (\<lambda>r. r\<lparr>im_status := ''completed'', im_superseded_at := None\<rparr>)
         else if im_is_active new = 0 \<and> im_is_active old \<noteq> 0 then ret ()
         else raise (ValueError ''PST generation switch has an invalid database state'')
     | _ \<Rightarrow> raise (ValueError ''PST generations are not an adjacent replacement pair''))))"

section \<open>Schema\<close>

definition imports_inv :: "pst_import list \<Rightarrow> int \<Rightarrow> bool" where
  "imports_inv rows n \<longleftrightarrow> uniq im_id rows \<and> uniq im_import_uuid rows \<and> uniq_some active_source rows \<and> (\<forall>r\<in>set rows. im_id r < n)"

definition items_inv :: "pst_db \<Rightarrow> bool" where
  "items_inv p \<longleftrightarrow> uniq pst_item_key (pst_import_items p) \<and> uniq it_rowid (pst_import_items p) \<and>
     (\<forall>r\<in>set (pst_import_items p). it_rowid r < next_item_id p \<and> it_import_id r \<in> im_id ` set (pst_imports p))"

definition pst_inv :: "pst_db \<Rightarrow> bool" where
  "pst_inv p \<longleftrightarrow> db_inv (pd_main p) \<and> imports_inv (pst_imports p) (next_import_id p) \<and> items_inv p"

lemma pst_inv_main: "pst_inv p \<Longrightarrow> db_inv d \<Longrightarrow> pst_inv (p\<lparr>pd_main := d\<rparr>)"
  by (simp add: pst_inv_def items_inv_def)

lemma keeps_on_main: "keeps db_inv m \<Longrightarrow> keeps pst_inv (on_main m)"
  by (auto simp: keeps_def on_main_def pst_inv_main split: prod.split) (metis pst_inv_def pst_inv_main snd_conv)

lemma imports_inv_update:
  assumes "imports_inv rows n" and "\<And>r. im_id (f r) = im_id r \<and> im_import_uuid (f r) = im_import_uuid r"
    and "\<And>r s k. r \<in> set rows \<Longrightarrow> im_id r = i \<Longrightarrow> s \<in> set rows \<Longrightarrow> im_id s \<noteq> i \<Longrightarrow> active_source (f r) = Some k \<Longrightarrow> active_source s \<noteq> Some k"
  shows "imports_inv (update_where (\<lambda>r. im_id r = i) f rows) n"
proof -
  have "uniq_some active_source (update_where (\<lambda>r. im_id r = i) f rows)"
    using assms(1,3) by (intro uniq_some_update_one [where pk = im_id and k = i]) (auto simp: imports_inv_def)
  with assms(1,2) show ?thesis by (auto simp: imports_inv_def set_update_where)
qed

lemma pst_inv_update_import:
  assumes "pst_inv p" and "\<And>r. im_id (f r) = im_id r \<and> im_import_uuid (f r) = im_import_uuid r"
    and "\<And>r s k. r \<in> set (pst_imports p) \<Longrightarrow> im_id r = i \<Longrightarrow> s \<in> set (pst_imports p) \<Longrightarrow> im_id s \<noteq> i \<Longrightarrow>
      active_source (f r) = Some k \<Longrightarrow> active_source s \<noteq> Some k"
  shows "pst_inv (update_import i f p)"
proof -
  have "im_id ` set (update_where (\<lambda>r. im_id r = i) f (pst_imports p)) = im_id ` set (pst_imports p)"
    using assms(2) by (intro image_key_update) auto
  moreover have "imports_inv (update_where (\<lambda>r. im_id r = i) f (pst_imports p)) (next_import_id p)"
    using assms by (intro imports_inv_update) (auto simp: pst_inv_def)
  ultimately show ?thesis using assms(1) by (simp add: pst_inv_def items_inv_def update_import_def)
qed

text \<open>An update that makes no generation active.\<close>

lemma pst_inv_update_quiet:
  assumes "pst_inv p" and "\<And>r. im_id (f r) = im_id r \<and> im_import_uuid (f r) = im_import_uuid r \<and>
      (active_source (f r) = None \<or> active_source (f r) = active_source r)"
  shows "pst_inv (update_import i f p)"
proof (rule pst_inv_update_import [OF assms(1)])
  fix r s k
  assume "r \<in> set (pst_imports p)" "im_id r = i" "s \<in> set (pst_imports p)" "im_id s \<noteq> i" "active_source (f r) = Some k"
  moreover from this assms(2) [of r] have "active_source r = Some k" by auto
  moreover have "uniq_some active_source (pst_imports p)" using assms(1) by (simp add: pst_inv_def imports_inv_def)
  ultimately show "active_source s \<noteq> Some k" using uniq_some_inj by metis
qed (simp add: assms(2))

lemma keeps_create_import: "keeps pst_inv (create_import r)"
proof (rule keepsI)
  fix p assume "pst_inv p"
  then show "pst_inv (snd (create_import r p))"
    by (auto simp: create_import_def Let_def pst_inv_def imports_inv_def items_inv_def uniq_some_snoc active_source_def differ_def
      split: if_splits dest: less_imp_le)
qed

lemma keeps_update_import_status: "keeps pst_inv (update_import_status i status u)"
  by (intro keepsI) (auto simp: update_import_status_def set_status_def active_source_def intro!: pst_inv_update_quiet)

lemma pst_inv_upsert_item:
  assumes "pst_inv p"
  shows "pst_inv (snd (upsert_import_item r m p))"
proof (cases "it_import_id r \<in> im_id ` set (pst_imports p) \<and> opt_all (message_exists (pd_main p)) m")
  case True
  let ?rows = "pst_import_items p"
  let ?known = "List.find (\<lambda>i. pst_item_key i = pst_item_key r) ?rows"
  let ?rowid = "case ?known of None \<Rightarrow> next_item_id p | Some i \<Rightarrow> it_rowid i"
  let ?new = "upsert_row pst_item_key (pst_item_key r) (\<lambda>i. r\<lparr>it_rowid := it_rowid i\<rparr>) (r\<lparr>it_rowid := ?rowid\<rparr>) ?rows"
  have inv: "db_inv (pd_main p)" "items_inv p" "imports_inv (pst_imports p) (next_import_id p)" using assms by (simp_all add: pst_inv_def)
  have fresh: "?known = None \<longleftrightarrow> pst_item_key r \<notin> pst_item_key ` set ?rows" by (simp add: find_None_iff image_iff) metis
  have "uniq pst_item_key ?new" using inv(2) by (intro uniq_upsert) (auto simp: items_inv_def)
  moreover have "uniq it_rowid ?new"
    using inv(2) fresh by (intro uniq_upsert_other) (auto simp: items_inv_def)
  moreover have "\<forall>i\<in>set ?new. it_rowid i < (if ?known = None then next_item_id p + 1 else next_item_id p) \<and>
      it_import_id i \<in> im_id ` set (pst_imports p)"
    using inv(2) True fresh by (intro ball_upsert) (auto simp: items_inv_def)
  ultimately show ?thesis
    using True inv(1,3) by (simp add: upsert_import_item_def Let_def pst_inv_def items_inv_def db_inv_other(2))
qed (use assms in \<open>auto simp: upsert_import_item_def\<close>)

lemma keeps_upsert_import_item: "keeps pst_inv (upsert_import_item r m)"
  by (intro keepsI pst_inv_upsert_item)

lemma pst_inv_generation_state: "pst_inv p \<Longrightarrow> pst_inv (set_generation_state i st t p)"
proof -
  assume inv: "pst_inv p"
  then have "db_inv ((pd_main p)\<lparr>messages := update_where P f (messages (pd_main p)), next_message_id := next_message_id (pd_main p)\<rparr>)"
    if "\<And>m. msg_id (f m) = msg_id m \<and> message_key (f m) = message_key m" for P f
    using that by (intro db_inv_messages uniq_update equalityD2 [OF image_key_update] ball_update)
      (auto simp: pst_inv_def db_inv_def messages_inv_def)
  from this [of "\<lambda>m. m\<lparr>msg_local_state := st, msg_trashed_at := t\<rparr>"] show ?thesis
    unfolding set_generation_state_def by (intro pst_inv_main inv) simp
qed

lemma keeps_make_active:
  assumes "\<And>r. im_id (f r) = im_id r \<and> im_import_uuid (f r) = im_import_uuid r \<and> im_source_sha256 (f r) = im_source_sha256 r"
  shows "keeps pst_inv (make_active i f)"
  by (intro keepsI) (auto simp: make_active_def active_source_def assms intro!: pst_inv_update_import split: if_splits)

lemma keeps_swap_generations:
  assumes "\<And>r. im_id (expose r) = im_id r \<and> im_import_uuid (expose r) = im_import_uuid r \<and> im_source_sha256 (expose r) = im_source_sha256 r"
    and "\<And>r. im_id (hide r) = im_id r \<and> im_import_uuid (hide r) = im_import_uuid r \<and> im_is_active (hide r) = 0"
  shows "keeps pst_inv (swap_generations at i j hide expose)"
  unfolding swap_generations_def
  by (intro keeps_then keeps_modify pst_inv_generation_state keeps_make_active pst_inv_update_quiet)
    (auto simp: assms active_source_def)

lemma keeps_generation_change: "keeps pst_inv m \<Longrightarrow> keeps pst_inv (run_generation_change owns name m)"
  by (auto simp: keeps_def run_generation_change_def split: prod.split sum.split)

lemma keeps_generation_ops:
  "keeps pst_inv (activate_generation owns at i j)" "keeps pst_inv (repo_restore_generation owns at i)"
  "keeps pst_inv (rollback_generation_switch owns at i j)"
  unfolding activate_generation_def repo_restore_generation_def rollback_generation_switch_def get_import_def
  by (intro keeps_generation_change keeps_bind keeps_gets; auto simp: retire_import_def split: option.split intro!: keeps_swap_generations)+

lemma keeps_message_writes:
  "keeps pst_inv (pst_add_message norm a cnt)" "keeps pst_inv (pst_upsert_folder account raw display)"
  "keeps pst_inv (pst_record_audit e)"
  by (auto simp: pst_add_message_def pst_upsert_folder_def pst_record_audit_def intro!: keeps_on_main keeps_add_message
    keeps_upsert_folder keeps_other_ops)

end
