(* ===== verification/Pst_Staging.thy ===== *)
theory Pst_Staging
  imports Eml_Files Reindex Pst_Snapshots
begin

text \<open>
  The staging directory of a PST import (\<^verbatim>\<open>infrastructure/storage/pst_import_storage.py\<close>): its inventory, the marker
  that stage A leaves in it, the reading of staged messages, and the snapshot of the source file. The
  directory is the part of the stored files below its path; links and other special files are not in it. The parser
  of messages is a parameter.
\<close>

section \<open>The directory\<close>

definition staging_dir :: "string \<Rightarrow> string list" where
  "staging_dir import_uuid = [''tmp'', ''pstimp'', take 8 (filter (\<lambda>c. c \<noteq> CHR ''-'') import_uuid)]"

definition stage_marker_name :: string where
  "stage_marker_name = ''stageA_done.json''"

definition marker_path :: "string list \<Rightarrow> string list" where
  "marker_path dir = dir @ [stage_marker_name]"

definition inside :: "string list \<Rightarrow> string list \<Rightarrow> bool" where
  "inside dir p \<longleftrightarrow> take (length dir) p = dir \<and> length dir < length p"

definition remove_staging :: "string list \<Rightarrow> (fs, unit) prog" where
  "remove_staging dir = modify (\<lambda>f. f\<lparr>fs_files := delete_where (\<lambda>r. inside dir (fst r)) (fs_files f)\<rparr>)"

section \<open>Marker\<close>

definition read_marker :: "codec \<Rightarrow> string list \<Rightarrow> fs \<Rightarrow> error + event" where
  "read_marker C path f = (case Option.bind (fs_lookup f path) (loads C) of
     None \<Rightarrow> Inl (UnreadableArchive ''Stage A marker cannot be read'')
   | Some (JObj payload) \<Rightarrow> Inr payload
   | Some _ \<Rightarrow> Inl (UnreadableArchive ''Stage A marker must contain a JSON object''))"

definition write_marker :: "codec \<Rightarrow> string list \<Rightarrow> event \<Rightarrow> (fs, unit) prog" where
  "write_marker C path payload = modify (fs_write path (dumps C payload @ [newline]))"

section \<open>Inventory\<close>

record staged_item =
  sg_key :: string
  sg_relative_path :: string
  sg_folder :: string
  sg_size_bytes :: int
  sg_sha256 :: string

definition folder_text :: "string list \<Rightarrow> string" where
  "folder_text parts = (if parts = [] then ''.'' else path_text parts)"

definition staged_item_of :: "env \<Rightarrow> string list \<times> string \<Rightarrow> staged_item" where
  "staged_item_of E entry = (case entry of (parts, bytes) \<Rightarrow>
     \<lparr>sg_key = path_text parts, sg_relative_path = path_text parts, sg_folder = folder_text (butlast parts),
      sg_size_bytes = int (length bytes), sg_sha256 = sha256 E bytes\<rparr>)"

text \<open>The files of the directory with their paths inside it, less the marker.\<close>

definition staged_files :: "string list \<Rightarrow> fs \<Rightarrow> (string list \<times> string) list" where
  "staged_files dir f = map (\<lambda>(p, bytes). (drop (length dir) p, bytes))
     (filter (\<lambda>(p, bytes). inside dir p \<and> p \<noteq> marker_path dir) (fs_files f))"

definition parent_folders :: "string list \<Rightarrow> string list" where
  "parent_folders parts = map (\<lambda>n. path_text (take n parts)) [1..<length parts]"

definition folder_entry :: "string \<Rightarrow> json" where
  "folder_entry raw = JObj [(''raw_name'', JStr raw), (''display_name'', JStr (last (path_parts raw)))]"

definition scan_staging :: "env \<Rightarrow> string list \<Rightarrow> fs \<Rightarrow> staged_item list \<times> json list" where
  "scan_staging E dir f =
    (sort_key sg_key (map (staged_item_of E) (staged_files dir f)),
     map folder_entry (sort (remdups (concat (map (\<lambda>(parts, _). parent_folders parts) (staged_files dir f))))))"

definition item_fields :: "staged_item \<Rightarrow> event" where
  "item_fields i =
    [(''source_item_key'', JStr (sg_key i)), (''source_relative_path'', JStr (sg_relative_path i)),
     (''folder_relative_path'', JStr (sg_folder i)), (''source_size_bytes'', JInt (sg_size_bytes i)),
     (''source_sha256'', JStr (sg_sha256 i))]"

section \<open>Reading\<close>

definition resolve_staging_item :: "string list \<Rightarrow> string \<Rightarrow> fs \<Rightarrow> error + string" where
  "resolve_staging_item dir relative_path f =
    (let root = fs_root f @ dir;
         start = (if relative_path \<noteq> [] \<and> hd relative_path = CHR ''/'' then [] else rev root);
         candidate = resolve_parts start (path_parts relative_path)
     in if take (length root) candidate \<noteq> root then Inl (UnreadableArchive ''PST staging item escapes its root'')
        else case fs_lookup f (drop (length (fs_root f)) candidate) of
          None \<Rightarrow> Inl (UnreadableArchive ''PST staging item is missing'')
        | Some bytes \<Rightarrow> Inr bytes)"

record staged_message =
  sm_parsed :: parsed_message
  sm_date_sent_iso8601 :: "string option"

text \<open>\<open>parser\<close> is \<open>parse_eml\<close> followed by the reading of the \<open>Date\<close> header.\<close>

definition read_staged_message :: "(string \<Rightarrow> parsed_message) \<Rightarrow> bool \<Rightarrow> string \<Rightarrow> staged_message" where
  "read_staged_message parser parse bytes =
    (if \<not> parse then \<lparr>sm_parsed = blank_parsed, sm_date_sent_iso8601 = None\<rparr>
     else \<lparr>sm_parsed = parser bytes, sm_date_sent_iso8601 = date_iso (ps_date_sent (parser bytes))\<rparr>)"

section \<open>The source file\<close>

record file_stat =
  st_size :: int
  st_mtime_ns :: int
  st_identity :: "(int \<times> int) option"

text \<open>What one reading of the source meets: whether it is a regular file, its bytes, and its metadata before
  and after.\<close>

record source_file =
  so_regular :: bool
  so_bytes :: string
  so_before :: file_stat
  so_after :: file_stat

record source_snapshot =
  ss_source_sha256 :: string
  ss_size_bytes :: int
  ss_mtime_ns :: int
  ss_file_identity :: "(int \<times> int) option"

text \<open>\<open>cancelled\<close> asks the cancel token; it is asked once before the file is opened and once for every chunk.\<close>

definition snapshot_source_file :: "env \<Rightarrow> ('s, bool) prog \<Rightarrow> nat \<Rightarrow> source_file option \<Rightarrow> ('s, source_snapshot) prog" where
  "snapshot_source_file E cancelled chunk_size source =
    (if chunk_size = 0 then raise (ValueError ''chunk_size must be positive'')
     else thenp (raise_if_cancelled cancelled) (case source of
       None \<Rightarrow> raise (UnreadableArchive ''Could not read PST source'')
     | Some s \<Rightarrow>
         if \<not> so_regular s then raise (UnreadableArchive ''PST source is not a regular file'')
         else thenp (forp (\<lambda>_. raise_if_cancelled cancelled) (chunks chunk_size (so_bytes s)))
           (if so_before s \<noteq> so_after s then raise (SourceChangedError ''PST source changed while it was being read'')
            else ret \<lparr>ss_source_sha256 = sha256 E (so_bytes s), ss_size_bytes = st_size (so_after s),
              ss_mtime_ns = st_mtime_ns (so_after s), ss_file_identity = st_identity (so_after s)\<rparr>)))"

end
