(* ===== verification/Spec2Isabelle.thy ===== *)
theory Spec2Isabelle
  imports Trash_Props Delete_Plan Retry Snapshot_Props Sync_Moves Pst_Rebuild Pst_Snapshots Search_Props
    Startup Export_Props Eml_Files Pst_Repository Pst_Staging
begin

text \<open>
  Verification library of mail-dock, a desktop program that keeps a local copy of IMAP mailboxes as EML
  files, with a manifest of events as the durable record and an SQLite database as a cache of it. Paths
  below are relative to \<^verbatim>\<open>src/src/mail_dock/\<close>.

  \<^bold>\<open>The program.\<close> A synchronization (\<^verbatim>\<open>usecases/sync_mail.py\<close>) downloads the messages of the selected
  folders of an account, stores each as a file named by its digest
  (\<^verbatim>\<open>infrastructure/storage/eml_storage.py\<close>), appends events to the manifest of the account
  (\<^verbatim>\<open>infrastructure/storage/manifest.py\<close>), and only then commits rows to the database
  (\<^verbatim>\<open>infrastructure/database/message_repository.py\<close>). The user may move messages to a local trash and
  purge them (\<^verbatim>\<open>usecases/trash.py\<close>), or delete them from the server once a verified copy exists
  (\<^verbatim>\<open>usecases/delete_remote.py\<close>). Both journal an intent before the irrevocable step and a completion
  after it, and recover after a crash. The database can be rebuilt from manifest and files
  (\<^verbatim>\<open>usecases/reindex.py\<close>). A state machine (\<^verbatim>\<open>domain/storage_state.py\<close>) forbids writes while the storage
  root is not attached and verified.

  \<^bold>\<open>The model.\<close> A program is a function from a state to a result, an error or a value, and the state
  reached (\<open>prog\<close> in \<open>Mail_Prelude\<close>): what was written before an error stays written. Exceptions are the
  constructors of \<open>error\<close>; loops are folds over programs. The state of the use cases is the record
  \<open>world\<close> (\<open>World\<close>): the database with the copy that was committed last, the stored files, the
  manifest with the number of its records that are on disk, the server, and a ghost history of the
  irrevocable effects, each with the state in which it happened. Every function of the code is one
  definition, or one for each of its nested functions and loop bodies.

  \<^bold>\<open>Theories.\<close>
  \<^item> \<open>Mail_Prelude\<close>: errors, environment, programs, Hoare rules and the rules for what a program keeps;
    \<open>Tables\<close>: tables as lists of rows, upserts and unique keys.
  \<^item> \<open>Storage_State\<close>: the transition table and both gates. The locale \<open>owing_machine\<close> states how a machine
    owes a sequence of events before it may reach a state again; it is interpreted for the reconnection
    and for the ejection by the user (C6).
  \<^item> \<open>Identity\<close>, \<open>Account_Guards\<close>: account identifiers, identity keys, flags
    (\<^verbatim>\<open>domain/accounts.py\<close>, \<^verbatim>\<open>domain/message_identity.py\<close>, \<^verbatim>\<open>domain/imap_flags.py\<close>,
    \<^verbatim>\<open>usecases/account_guards.py\<close>): equal keys mean equal messages (C29).
  \<^item> \<open>Manifest_Events\<close>, \<open>Manifest_File\<close>, \<open>Manifest\<close>: the event schema, the encoding of records with their
    checksum and the reading of a file whose last record is torn (C5), the writer and the readers. The
    locale \<open>durable_log\<close> states what a client of an append-only log relies on; its interpretation for the
    writer carries C4 and C30.
  \<^item> \<open>Repository\<close>, \<open>Repository_Inv\<close>, \<open>Repository_Props\<close>: the finalized schema with its methods; every
    method keeps the unique and foreign keys (C27), upserts and merges (\<open>add_message_idempotent\<close>,
    \<open>merge_keeps_state_folders_contents\<close>), the retry budget of failures (\<open>failure_retry_budget\<close>).
  \<^item> \<open>Eml_Storage\<close>: paths below the root, saving, verified reading, deletion (C28);
    \<open>Eml_Files\<close>: saving from a file (\<open>save_from_file_is_save\<close>) and the removal of temporary files, which also
    empties the quarantine (C26).
  \<^item> \<open>Trash\<close>, \<open>Trash_Props\<close>: the local trash, purge and recovery (C1, C3, C35).
  \<^item> \<open>Delete_Remote\<close>, \<open>Delete_Remote_Props\<close>, \<open>Delete_Plan\<close>: dry run, scope, execution and reconciliation of
    remote deletions (C2, C31 to C34, \<open>remove_membership_never_reaches_the_server\<close>).
  \<^item> \<open>Retry\<close>: the retry policy (\<^verbatim>\<open>usecases/retry.py\<close>, C38).
  \<^item> \<open>Snapshots\<close>, \<open>Snapshot_Props\<close>: account and folder snapshots and the folder refresh
    (\<^verbatim>\<open>usecases/snapshots.py\<close>, \<^verbatim>\<open>usecases/sync_folders.py\<close>).
  \<^item> \<open>Sync_Mail\<close>, \<open>Sync_Flags\<close>, \<open>Sync_Run\<close>: the synchronization; a batch is journalled, then stored, then
    checkpointed. The locale \<open>sync_keeper\<close> (\<open>Sync_Inv\<close>) states what a condition on database and durable
    events must survive for a whole run to keep it; it is interpreted for the schema and for the presence
    of every stored message in the manifest (\<open>Sync_Props\<close>, C8, C9). \<open>Sync_Complete\<close> shows that no listed
    message is left behind (C7), \<open>Sync_Moves\<close> what the detection of removals and moves concludes and where
    later runs go wrong (C40). \<open>Sync_Samples\<close> holds the mailboxes of the witnesses.
  \<^item> \<open>Reindex\<close>, \<open>Reindex_Props\<close>: the rebuild. The resolution of identity links always ends
    (C37), stored messages come back (C10), every rebuilt row is
    backed (C11), and one damaged file stops a rebuild (C36).
  \<^item> \<open>Verify\<close>, \<open>Verify_Props\<close>, \<open>Verify_Manifest\<close>: the checks of the stored files and of the manifest files
    (\<^verbatim>\<open>usecases/verify.py\<close>): what the orphan scan moves (C12), what the full check reports
    (C13), and that the check of a manifest file keeps what its reader can read (C14).
  \<^item> \<open>Pst_Manifest\<close>, \<open>Pst_Manifest_Props\<close>, \<open>Pst_Rebuild\<close>: the manifest of a PST import
    (\<^verbatim>\<open>infrastructure/storage/pst_manifest.py\<close>): every event is justified by earlier ones (C15);
    the locale \<open>idempotent_log\<close> states what a resumed import relies on, and its interpretation for the writer gives
    C16; a
    log reads back (C17); \<open>Pst_Snapshots\<close>: its snapshot files, which are written once
    (C18); and the rebuild of the generations in the order of their succession
    (\<^verbatim>\<open>infrastructure/database/reindex.py\<close>, \<open>pst_rebuild_is_complete\<close>, C39).
  \<^item> \<open>Search_Query\<close>, \<open>Search\<close>, \<open>Search_Props\<close>: the query language (\<^verbatim>\<open>usecases/search_query.py\<close>,
    C23, \<open>query_reads_back\<close>), what a query selects (C24), and the pages of a list
    (\<^verbatim>\<open>infrastructure/database/search_repository.py\<close>, \<^verbatim>\<open>usecases/search_messages.py\<close>, C22).
  \<^item> \<open>Startup\<close>: the recovery of all accounts after an unclean shutdown (\<^verbatim>\<open>usecases/snapshots.py\<close>), a composition of
    verification and purge recovery (C25).
  \<^item> \<open>Attachments\<close>, \<open>Attachments_Props\<close>: safe names for attachments (\<^verbatim>\<open>domain/attachments.py\<close>, C21);
    \<open>Export\<close>, \<open>Export_Props\<close>: their export, which overwrites nothing and finishes
    (\<^verbatim>\<open>usecases/export_attachments.py\<close>, C19, C20).

  \<^bold>\<open>Bounds.\<close> All definitions are total. \<open>retry_loop\<close> recurs on the number of retries that are left;
  \<open>resolve_loop\<close> on the number of link keys not seen yet; \<open>scan_tokens\<close> and \<open>text_replace\<close> on the
  length of the remaining text; \<open>rebuild_rounds\<close> has as many rounds as there are generations, which is
  enough because a round without progress ends the loop and any other removes a generation (\<open>pst_rebuild_is_complete\<close>);
  \<open>read_pages\<close> takes the number of pages it may read, and one page more than there are messages is enough
  (C22); \<open>candidate_loop\<close> tries one name more than there are files, which is enough, and
  \<open>publish_part\<close> as many names as it is given rounds, of which one is enough without interference
  (C20); every other loop is structural on a list that the code iterates over. Checksums are 32-bit words with wrap-around shifts; SQLite integers, UIDs and
  sizes are unbounded integers, as in Python.

  \<^bold>\<open>Parameters.\<close> The server is a record of functions over an arbitrary state (\<open>fetcher\<close>, \<open>mailbox\<close>); an
  iterator is the list it yields and the error it ends with. The MIME parser, the JSON codec of the
  manifests, the Unicode normalization and case folding, the renderer of messages, the full-text index, the reading of stored dates by the search, the
  rebuild of one PST generation, the clock, the calendar, random names and SHA-256 are parameters; the
  hypotheses on them are the round trip of the codec on well-formed values, that it sorts keys, what UAX 15
  documents of NFC, and that the first 32 digits of a
  digest, the name of a file, identify it.

  \<^bold>\<open>Not modelled.\<close> PST import and the rebuild of one PST generation, the schema before its migration, the export of
  mailboxes and the saving of single attachments, configuration, credentials and OAuth,
  schema migrations and backups, the IMAP protocol and MIME parsing, the probes of the operating system behind
  the events of the storage state machine, threads and the user interface. Inside the modelled parts,
  progress callbacks, log messages, the WAL checkpoint and the physical layout of temporary files are left
  out. The manifest is read as one list before it is iterated over. A value in a column outside the
  type the program writes there (a membership state that no code writes, a JSON list in the audit log) is
  a database error.
\<close>

end
